(* ===== verification/Prelude.thy ===== *)
theory Prelude
  imports Complex_Main "HOL-Library.Char_ord" "HOL-Library.List_Lexorder"
begin

section \<open>Shared vocabulary of the Cognis models\<close>

text \<open>
  What the component theories have in common: Python strings and the string methods the
  sources call, results with errors as values, insertion-ordered dictionaries, the first
  element of a list with a property (the \<open>for ... return\<close> loops), and reachability with
  one locale for invariants of step relations.

  Strings are lists of \<^typ>\<open>char\<close>; a character is the code point it encodes, so the model
  covers the code points 0 to 255, on which \<open>strip\<close>, \<open>lower\<close> and \<open>isspace\<close> below are
  Python's. Times are integers counting microseconds.
\<close>

named_theorems res_simps \<open>evaluation of computations that may raise\<close>
named_theorems dict_simps \<open>insertion-ordered dictionaries\<close>

type_synonym time = int

subsection \<open>Results: errors as values\<close>

type_synonym ('e, 'a) result = "'e + 'a"

definition res_bind :: "('e, 'a) result \<Rightarrow> ('a \<Rightarrow> ('e, 'b) result) \<Rightarrow> ('e, 'b) result" where
  "res_bind r f = (case r of Inl e \<Rightarrow> Inl e | Inr x \<Rightarrow> f x)"

lemma res_bind_simps [simp, res_simps]:
  "res_bind (Inl e) f = Inl e"
  "res_bind (Inr x) f = f x"
  by (simp_all add: res_bind_def)

lemma res_bind_eq_Inr [simp]:
  "res_bind r f = Inr y \<longleftrightarrow> (\<exists>x. r = Inr x \<and> f x = Inr y)"
  by (cases r) auto

lemma res_bind_eq_Inl:
  "res_bind r f = Inl e \<longleftrightarrow> r = Inl e \<or> (\<exists>x. r = Inr x \<and> f x = Inl e)"
  by (cases r) auto

text \<open>A list comprehension whose body may raise: the first error wins.\<close>

fun res_map :: "('a \<Rightarrow> ('e, 'b) result) \<Rightarrow> 'a list \<Rightarrow> ('e, 'b list) result" where
  "res_map f [] = Inr []"
| "res_map f (x # xs) = res_bind (f x) (\<lambda>y. res_bind (res_map f xs) (\<lambda>ys. Inr (y # ys)))"

lemma res_map_cong [fundef_cong]:
  "xs = ys \<Longrightarrow> (\<And>x. x \<in> set ys \<Longrightarrow> f x = g x) \<Longrightarrow> res_map f xs = res_map g ys"
  by (induction ys arbitrary: xs) auto

lemma res_map_Inr_length: "res_map f xs = Inr ys \<Longrightarrow> length ys = length xs"
  by (induction xs arbitrary: ys) auto

lemma res_map_Inr_nth:
  "res_map f xs = Inr ys \<Longrightarrow> i < length xs \<Longrightarrow> f (xs ! i) = Inr (ys ! i)"
  by (induction xs arbitrary: ys i) (auto simp: nth_Cons split: nat.splits)

subsection \<open>First element with a property\<close>

fun find_first :: "('a \<Rightarrow> bool) \<Rightarrow> 'a list \<Rightarrow> 'a option" where
  "find_first p [] = None"
| "find_first p (x # xs) = (if p x then Some x else find_first p xs)"

lemma find_first_None_iff [simp]: "find_first p xs = None \<longleftrightarrow> (\<forall>x \<in> set xs. \<not> p x)"
  by (induction xs) auto

lemma find_first_SomeD: "find_first p xs = Some x \<Longrightarrow> x \<in> set xs \<and> p x"
  by (induction xs) (auto split: if_splits)

lemma find_first_append:
  "find_first p (xs @ ys) =
     (case find_first p xs of None \<Rightarrow> find_first p ys | Some x \<Rightarrow> Some x)"
  by (induction xs) auto

lemma find_first_Some_split:
  "find_first p xs = Some x \<longleftrightarrow> (\<exists>us vs. xs = us @ x # vs \<and> p x \<and> (\<forall>u \<in> set us. \<not> p u))"
proof (induction xs)
  case Nil
  then show ?case by simp
next
  case (Cons a xs)
  show ?case
  proof (cases "p a")
    case True
    then show ?thesis by (auto simp: Cons_eq_append_conv)
  next
    case False
    then have "(\<exists>us vs. a # xs = us @ x # vs \<and> p x \<and> (\<forall>u \<in> set us. \<not> p u)) \<longleftrightarrow>
        (\<exists>us vs. xs = us @ x # vs \<and> p x \<and> (\<forall>u \<in> set us. \<not> p u))"
      by (auto simp: Cons_eq_append_conv) (metis list.set_intros(1) set_ConsD)+
    with False Cons.IH show ?thesis by simp
  qed
qed

subsection \<open>Insertion-ordered dictionaries\<close>

text \<open>
  A Python \<open>dict\<close> (and \<open>OrderedDict\<close>) as an association list: an assignment to a present
  key keeps its place, a new key goes to the end.
\<close>

type_synonym ('k, 'v) dict = "('k \<times> 'v) list"

fun dict_put :: "'k \<Rightarrow> 'v \<Rightarrow> ('k, 'v) dict \<Rightarrow> ('k, 'v) dict" where
  "dict_put k v [] = [(k, v)]"
| "dict_put k v ((k', v') # d) = (if k' = k then (k, v) # d else (k', v') # dict_put k v d)"

definition dict_del :: "'k \<Rightarrow> ('k, 'v) dict \<Rightarrow> ('k, 'v) dict" where
  "dict_del k d = filter (\<lambda>(k', v). k' \<noteq> k) d"

definition dict_ok :: "('k, 'v) dict \<Rightarrow> bool" where
  "dict_ok d \<longleftrightarrow> distinct (map fst d)"

lemma map_of_dict_put [simp, dict_simps]: "map_of (dict_put k v d) = (map_of d)(k \<mapsto> v)"
  by (induction k v d rule: dict_put.induct) (auto simp: fun_eq_iff)

lemma map_of_dict_del [simp, dict_simps]: "map_of (dict_del k d) = (map_of d)(k := None)"
  unfolding dict_del_def by (induction d) (auto simp: fun_eq_iff)

lemma set_keys_dict_put [simp, dict_simps]:
  "fst ` set (dict_put k v d) = insert k (fst ` set d)"
  by (induction k v d rule: dict_put.induct) auto

lemma set_keys_dict_del [simp, dict_simps]:
  "fst ` set (dict_del k d) = fst ` set d - {k}"
  unfolding dict_del_def by force

lemma dict_ok_Nil [simp, dict_simps]: "dict_ok []"
  by (simp add: dict_ok_def)

lemma dict_ok_put [simp, dict_simps]: "dict_ok d \<Longrightarrow> dict_ok (dict_put k v d)"
  by (induction k v d rule: dict_put.induct) (auto simp: dict_ok_def)

lemma dict_ok_filter [intro]: "dict_ok d \<Longrightarrow> dict_ok (filter p d)"
  unfolding dict_ok_def by (simp add: distinct_map_filter)

lemma dict_ok_del [simp, dict_simps]: "dict_ok d \<Longrightarrow> dict_ok (dict_del k d)"
  unfolding dict_del_def by (rule dict_ok_filter)

lemma dict_ok_tl [simp, dict_simps]: "dict_ok d \<Longrightarrow> dict_ok (tl d)"
  unfolding dict_ok_def by (simp add: map_tl distinct_tl)

lemma dict_put_new: "k \<notin> fst ` set d \<Longrightarrow> dict_put k v d = d @ [(k, v)]"
  by (induction k v d rule: dict_put.induct) auto

lemma length_dict_put_le: "length (dict_put k v d) \<le> Suc (length d)"
  by (induction k v d rule: dict_put.induct) auto

lemma length_dict_del_le [simp]: "length (dict_del k d) \<le> length d"
  unfolding dict_del_def by simp

subsection \<open>Python strings\<close>

definition py_isspace :: "char \<Rightarrow> bool" where
  "py_isspace c = (let n = (of_char c :: nat) in
     (9 \<le> n \<and> n \<le> 13) \<or> (28 \<le> n \<and> n \<le> 32) \<or> n = 133 \<or> n = 160)"

definition py_strip :: "string \<Rightarrow> string" where
  "py_strip s = rev (dropWhile py_isspace (rev (dropWhile py_isspace s)))"

definition py_lower_char :: "char \<Rightarrow> char" where
  "py_lower_char c = (let n = (of_char c :: nat) in
     if (65 \<le> n \<and> n \<le> 90) \<or> (192 \<le> n \<and> n \<le> 222 \<and> n \<noteq> 215) then char_of (n + 32) else c)"

definition py_lower :: "string \<Rightarrow> string" where
  "py_lower s = map py_lower_char s"

fun py_startswith :: "string \<Rightarrow> string \<Rightarrow> bool" where
  "py_startswith s [] = True"
| "py_startswith [] (p # ps) = False"
| "py_startswith (c # s) (p # ps) = (c = p \<and> py_startswith s ps)"

text \<open>The \<open>in\<close> operator on strings: \<open>py_in pat s\<close> is \<open>pat in s\<close>.\<close>

fun py_in :: "string \<Rightarrow> string \<Rightarrow> bool" where
  "py_in pat [] = (pat = [])"
| "py_in pat (c # s) = (py_startswith (c # s) pat \<or> py_in pat s)"

lemma py_startswith_iff: "py_startswith s p \<longleftrightarrow> (\<exists>t. s = p @ t)"
  by (induction s p rule: py_startswith.induct) auto

lemma py_in_iff: "py_in pat s \<longleftrightarrow> (\<exists>us vs. s = us @ pat @ vs)"
proof (induction s)
  case Nil
  then show ?case by simp
next
  case (Cons c s)
  show ?case
    by (auto simp: Cons.IH py_startswith_iff Cons_eq_append_conv)
qed

lemma py_strip_Nil [simp]: "py_strip [] = []"
  by (simp add: py_strip_def)

lemma py_strip_eq_Nil_iff: "py_strip s = [] \<longleftrightarrow> (\<forall>c \<in> set s. py_isspace c)"
proof
  assume "py_strip s = []"
  then have "\<forall>c \<in> set (dropWhile py_isspace s). py_isspace c"
    by (simp add: py_strip_def dropWhile_eq_Nil_conv)
  then show "\<forall>c \<in> set s. py_isspace c"
    by (metis dropWhile_eq_Nil_conv hd_dropWhile list.set_sel(1))
next
  assume "\<forall>c \<in> set s. py_isspace c"
  then have "\<forall>c \<in> set (dropWhile py_isspace s). py_isspace c"
    by (metis set_dropWhileD)
  then show "py_strip s = []"
    by (simp add: py_strip_def)
qed

lemma py_strip_hd: "py_strip s \<noteq> [] \<Longrightarrow> \<not> py_isspace (hd (py_strip s))"
proof -
  assume ne: "py_strip s \<noteq> []"
  define t where "t = dropWhile py_isspace s"
  from ne have tne: "t \<noteq> []" and dne: "dropWhile py_isspace (rev t) \<noteq> []"
    unfolding py_strip_def t_def by force+
  from tne have ht: "\<not> py_isspace (hd t)"
    unfolding t_def by (rule hd_dropWhile)
  obtain us where us: "rev t = us @ dropWhile py_isspace (rev t)"
    by (metis takeWhile_dropWhile_id)
  then have "t = rev (dropWhile py_isspace (rev t)) @ rev us"
    by (metis rev_append rev_rev_ident)
  with dne have "hd t = hd (rev (dropWhile py_isspace (rev t)))"
    by (metis hd_append rev_is_Nil_conv)
  with ht show ?thesis
    by (simp add: py_strip_def t_def)
qed

lemma py_strip_last: "py_strip s \<noteq> [] \<Longrightarrow> \<not> py_isspace (last (py_strip s))"
  unfolding py_strip_def by (simp add: last_rev hd_dropWhile)

lemma py_strip_id:
  "s \<noteq> [] \<Longrightarrow> \<not> py_isspace (hd s) \<Longrightarrow> \<not> py_isspace (last s) \<Longrightarrow> py_strip s = s"
proof -
  assume ne: "s \<noteq> []" and h: "\<not> py_isspace (hd s)" and l: "\<not> py_isspace (last s)"
  from ne h have "dropWhile py_isspace s = s"
    by (cases s) auto
  moreover from ne l have "dropWhile py_isspace (rev s) = rev s"
    by (cases "rev s") (auto simp: hd_rev [symmetric])
  ultimately show ?thesis by (simp add: py_strip_def)
qed

text \<open>Stripping is idempotent: a value normalised once is left alone afterwards.\<close>

lemma py_strip_idem [simp]: "py_strip (py_strip s) = py_strip s"
  by (cases "py_strip s = []") (simp_all add: py_strip_id py_strip_hd py_strip_last)

lemma length_py_lower [simp]: "length (py_lower s) = length s"
  by (simp add: py_lower_def)

subsection \<open>Reachability and invariants\<close>

inductive reach :: "('s \<Rightarrow> bool) \<Rightarrow> ('s \<Rightarrow> 's \<Rightarrow> bool) \<Rightarrow> 's \<Rightarrow> bool"
  for start :: "'s \<Rightarrow> bool" and step :: "'s \<Rightarrow> 's \<Rightarrow> bool" where
  reach_start: "start s \<Longrightarrow> reach start step s"
| reach_step: "reach start step s \<Longrightarrow> step s t \<Longrightarrow> reach start step t"

text \<open>
  A step relation with an invariant that its start states have and every step keeps, and a
  preorder that every step respects (a monotone quantity such as a fence or a counter).
\<close>

locale inv_system =
  fixes start :: "'s \<Rightarrow> bool"
    and step :: "'s \<Rightarrow> 's \<Rightarrow> bool"
    and inv :: "'s \<Rightarrow> bool"
  assumes inv_start: "start s \<Longrightarrow> inv s"
    and inv_step: "inv s \<Longrightarrow> step s t \<Longrightarrow> inv t"
begin

lemma reach_inv: "reach start step s \<Longrightarrow> inv s"
  by (induction rule: reach.induct) (blast intro: inv_start inv_step)+

lemma steps_inv: "step\<^sup>*\<^sup>* s t \<Longrightarrow> inv s \<Longrightarrow> inv t"
  by (induction rule: rtranclp_induct) (blast intro: inv_step)+

lemma reach_steps: "step\<^sup>*\<^sup>* s t \<Longrightarrow> reach start step s \<Longrightarrow> reach start step t"
  by (induction rule: rtranclp_induct) (blast intro: reach_step)+

end

locale mono_system = inv_system +
  fixes le :: "'a \<Rightarrow> 'a \<Rightarrow> bool"
  assumes le_refl: "inv s \<Longrightarrow> le s s"
    and le_trans: "le s t \<Longrightarrow> le t u \<Longrightarrow> le s u"
    and step_le: "inv s \<Longrightarrow> step s t \<Longrightarrow> le s t"
begin

lemma steps_le: "step\<^sup>*\<^sup>* s t \<Longrightarrow> inv s \<Longrightarrow> le s t"
proof (induction rule: rtranclp_induct)
  case base
  then show ?case by (rule le_refl)
next
  case (step t u)
  then have "inv t" by (blast intro: steps_inv)
  with step show ?case by (blast intro: le_trans step_le)
qed

end

end
