(* ===== verification/Leases.thy ===== *)
theory Leases
  imports Prelude
begin

section \<open>Database leases with fencing tokens\<close>

text \<open>
  \<open>cognis/store/coordination.py\<close>: the table \<open>coordination_leases\<close> as a map from resource keys to
  rows, and one definition per operation of \<open>DatabaseLeaseStore\<close>. Each operation is one SQL
  statement in one transaction, so it is a function on the table; \<open>now\<close> is the database clock the
  statement reads. The retry loops of \<open>acquire\<close> and \<open>takeover\<close> take an environment that says
  for every attempt whether the database raises \<open>OperationalError\<close> (the transaction is rolled
  back) or commits, and what other controllers do to the table in between.

  The column \<open>fencing_token\<close> is a 64-bit integer of the database; the model has it unbounded.
\<close>

named_theorems lease_defs \<open>definitions of the lease operations\<close>

subsection \<open>Rows and leases\<close>

record lease_row =
  row_owner_id :: string
  row_fencing_token :: int
  row_lease_expires_at :: time
  row_created_at :: time
  row_updated_at :: time

record lease =
  resource_key :: string
  owner_id :: string
  fencing_token :: int
  lease_expires_at :: time

type_synonym lease_db = "string \<rightharpoonup> lease_row"

definition lease_of :: "string \<Rightarrow> lease_row \<Rightarrow> lease" where
  "lease_of key r = \<lparr>resource_key = key, owner_id = row_owner_id r,
     fencing_token = row_fencing_token r, lease_expires_at = row_lease_expires_at r\<rparr>"

subsection \<open>The operations\<close>

text \<open>The row an upsert inserts, and the one it leaves when the resource has a row.\<close>

definition inserted_row :: "time \<Rightarrow> time \<Rightarrow> string \<Rightarrow> lease_row" where
  "inserted_row now ttl owner = \<lparr>row_owner_id = owner, row_fencing_token = 1,
     row_lease_expires_at = now + ttl, row_created_at = now, row_updated_at = now\<rparr>"

definition taken_row :: "time \<Rightarrow> time \<Rightarrow> string \<Rightarrow> lease_row \<Rightarrow> lease_row" where
  "taken_row now ttl owner r = r\<lparr>row_owner_id := owner,
     row_fencing_token := row_fencing_token r + 1,
     row_lease_expires_at := now + ttl, row_updated_at := now\<rparr>"

definition acquire_in_session ::
  "time \<Rightarrow> time \<Rightarrow> string \<Rightarrow> string \<Rightarrow> lease_db \<Rightarrow> lease_db \<times> lease option" where
  "acquire_in_session now ttl key owner db =
     (case db key of
        None \<Rightarrow> let r = inserted_row now ttl owner in (db(key \<mapsto> r), Some (lease_of key r))
      | Some r \<Rightarrow>
          if row_owner_id r = owner \<or> row_lease_expires_at r \<le> now
          then let r' = taken_row now ttl owner r in (db(key \<mapsto> r'), Some (lease_of key r'))
          else (db, None))"

definition takeover_in_session ::
  "time \<Rightarrow> time \<Rightarrow> string \<Rightarrow> string \<Rightarrow> lease_db \<Rightarrow> lease_db \<times> lease" where
  "takeover_in_session now ttl key owner db =
     (let r = (case db key of None \<Rightarrow> inserted_row now ttl owner
               | Some r \<Rightarrow> taken_row now ttl owner r)
      in (db(key \<mapsto> r), lease_of key r))"

text \<open>The \<open>WHERE\<close> clause of \<open>renew\<close> and \<open>is_current\<close>, and the one of \<open>release\<close>.\<close>

definition row_owned :: "lease \<Rightarrow> lease_row \<Rightarrow> bool" where
  "row_owned l r \<longleftrightarrow> row_owner_id r = owner_id l \<and> row_fencing_token r = fencing_token l"

definition row_current :: "time \<Rightarrow> lease \<Rightarrow> lease_row \<Rightarrow> bool" where
  "row_current now l r \<longleftrightarrow> row_owned l r \<and> now < row_lease_expires_at r"

definition renew :: "time \<Rightarrow> time \<Rightarrow> lease \<Rightarrow> lease_db \<Rightarrow> lease_db \<times> lease option" where
  "renew now ttl l db =
     (case db (resource_key l) of
        None \<Rightarrow> (db, None)
      | Some r \<Rightarrow>
          if row_current now l r
          then let r' = r\<lparr>row_lease_expires_at := now + ttl, row_updated_at := now\<rparr>
               in (db(resource_key l \<mapsto> r'), Some (lease_of (resource_key l) r'))
          else (db, None))"

definition release :: "time \<Rightarrow> lease \<Rightarrow> lease_db \<Rightarrow> lease_db \<times> bool" where
  "release now l db =
     (case db (resource_key l) of
        None \<Rightarrow> (db, False)
      | Some r \<Rightarrow>
          if row_owned l r
          then (db(resource_key l \<mapsto> r\<lparr>row_lease_expires_at := now, row_updated_at := now\<rparr>), True)
          else (db, False))"

definition revoke :: "time \<Rightarrow> string \<Rightarrow> lease_db \<Rightarrow> lease_db \<times> bool" where
  "revoke now key db =
     (case db key of
        None \<Rightarrow> (db, False)
      | Some r \<Rightarrow>
          (db(key \<mapsto> r\<lparr>row_owner_id := ''revoked'', row_fencing_token := row_fencing_token r + 1,
                row_lease_expires_at := now, row_updated_at := now\<rparr>), True))"

definition is_current :: "time \<Rightarrow> lease \<Rightarrow> lease_db \<Rightarrow> bool" where
  "is_current now l db =
     (case db (resource_key l) of None \<Rightarrow> False | Some r \<Rightarrow> row_current now l r)"

subsection \<open>Retry loops\<close>

datatype attempt = Operational_Error | Commit_At time

record db_env =
  attempts :: "nat \<Rightarrow> attempt"
  others :: "nat \<Rightarrow> lease_db \<Rightarrow> lease_db"

datatype lease_error = Database_Error | Retry_Budget_Exhausted

fun acquire_loop ::
  "nat list \<Rightarrow> db_env \<Rightarrow> time \<Rightarrow> string \<Rightarrow> string \<Rightarrow> lease_db \<Rightarrow> lease_db \<times> lease option" where
  "acquire_loop [] env ttl key owner db = (db, None)"
| "acquire_loop (a # as) env ttl key owner db =
     (case attempts env a of
        Commit_At now \<Rightarrow> acquire_in_session now ttl key owner db
      | Operational_Error \<Rightarrow>
          if a = 2 then (db, None) else acquire_loop as env ttl key owner (others env a db))"

definition acquire :: "db_env \<Rightarrow> time \<Rightarrow> string \<Rightarrow> string \<Rightarrow> lease_db \<Rightarrow> lease_db \<times> lease option" where
  "acquire env ttl key owner db = acquire_loop [0, 1, 2] env ttl key owner db"

fun takeover_loop ::
  "nat list \<Rightarrow> db_env \<Rightarrow> time \<Rightarrow> string \<Rightarrow> string \<Rightarrow> lease_db
     \<Rightarrow> lease_db \<times> (lease_error, lease) result" where
  "takeover_loop [] env ttl key owner db = (db, Inl Retry_Budget_Exhausted)"
| "takeover_loop (a # as) env ttl key owner db =
     (case attempts env a of
        Commit_At now \<Rightarrow> (case takeover_in_session now ttl key owner db of (db', l) \<Rightarrow> (db', Inr l))
      | Operational_Error \<Rightarrow>
          if a = 2 then (db, Inl Database_Error)
          else takeover_loop as env ttl key owner (others env a db))"

definition takeover ::
  "db_env \<Rightarrow> time \<Rightarrow> string \<Rightarrow> string \<Rightarrow> lease_db \<Rightarrow> lease_db \<times> (lease_error, lease) result" where
  "takeover env ttl key owner db = takeover_loop [0, 1, 2] env ttl key owner db"

lemmas [lease_defs] = lease_of_def inserted_row_def taken_row_def acquire_in_session_def
  takeover_in_session_def row_owned_def row_current_def renew_def release_def revoke_def
  is_current_def

subsection \<open>What one operation does\<close>

text \<open>\<open>acquire\<close> is granted exactly when the resource has no row, is the caller's, or has expired.\<close>

lemma acquire_in_session_granted_iff:
  "(\<exists>l. snd (acquire_in_session now ttl key owner db) = Some l) \<longleftrightarrow>
     (\<forall>r. db key = Some r \<longrightarrow> row_owner_id r = owner \<or> row_lease_expires_at r \<le> now)"
  by (auto simp: lease_defs Let_def split: option.splits)

lemma acquire_in_session_SomeD:
  "acquire_in_session now ttl key owner db = (db', Some l) \<Longrightarrow>
     resource_key l = key \<and> owner_id l = owner \<and> lease_expires_at l = now + ttl \<and>
     db' = db(key \<mapsto> the (db' key)) \<and> db' key \<noteq> None \<and> row_owned l (the (db' key)) \<and>
     row_lease_expires_at (the (db' key)) = now + ttl \<and>
     fencing_token l = (case db key of None \<Rightarrow> 1 | Some r \<Rightarrow> row_fencing_token r + 1)"
  by (auto simp: lease_defs Let_def split: option.splits if_splits)

lemma acquire_in_session_NoneD:
  "acquire_in_session now ttl key owner db = (db', None) \<Longrightarrow> db' = db"
  by (auto simp: lease_defs Let_def split: option.splits if_splits)

lemma takeover_in_sessionD:
  "takeover_in_session now ttl key owner db = (db', l) \<Longrightarrow>
     resource_key l = key \<and> owner_id l = owner \<and> lease_expires_at l = now + ttl \<and>
     db' = db(key \<mapsto> the (db' key)) \<and> db' key \<noteq> None \<and> row_owned l (the (db' key)) \<and>
     row_lease_expires_at (the (db' key)) = now + ttl \<and>
     fencing_token l = (case db key of None \<Rightarrow> 1 | Some r \<Rightarrow> row_fencing_token r + 1)"
  by (auto simp: lease_defs Let_def split: option.splits)

text \<open>A lease just granted is current until its time to live has passed.\<close>

lemma acquire_then_current:
  "acquire_in_session now ttl key owner db = (db', Some l) \<Longrightarrow>
     is_current t l db' \<longleftrightarrow> t < now + ttl"
  by (auto simp: lease_defs Let_def split: option.splits if_splits)

lemma takeover_then_current:
  "takeover_in_session now ttl key owner db = (db', l) \<Longrightarrow>
     is_current t l db' \<longleftrightarrow> t < now + ttl"
  by (auto simp: lease_defs Let_def split: option.splits)

lemma release_then_not_current:
  "release now l db = (db', ok) \<Longrightarrow> now \<le> t \<Longrightarrow> ok \<Longrightarrow> \<not> is_current t l db'"
  by (auto simp: lease_defs split: option.splits if_splits)

text \<open>Retrying changes nothing but the moment: the loop behaves as its committing attempt.\<close>

lemma acquire_cases:
  "(\<exists>now d. acquire env ttl key owner db = acquire_in_session now ttl key owner d) \<or>
   snd (acquire env ttl key owner db) = None"
  by (auto simp: acquire_def split: attempt.splits)

subsection \<open>Interface: a store that fences its resources\<close>

text \<open>
  What a client of the store relies on: the fence of a resource never goes down and never
  disappears, and only the holder of the latest fence is current. The client lemma is the one
  every consumer needs: once a later fence exists, an older lease is dead for good.
\<close>

locale fenced_store =
  fixes fence :: "'db \<Rightarrow> 'k \<Rightarrow> int option"
    and run :: "'op \<Rightarrow> 'db \<Rightarrow> 'db"
    and current :: "time \<Rightarrow> 'l \<Rightarrow> 'db \<Rightarrow> bool"
    and key_of :: "'l \<Rightarrow> 'k"
    and token_of :: "'l \<Rightarrow> int"
  assumes run_fence: "fence db k = Some n \<Longrightarrow> \<exists>m \<ge> n. fence (run op db) k = Some m"
    and current_fence: "current t l db \<Longrightarrow> fence db (key_of l) = Some (token_of l)"
begin

lemma runs_fence: "fence db k = Some n \<Longrightarrow> \<exists>m \<ge> n. fence (fold run ops db) k = Some m"
proof (induction ops arbitrary: db n)
  case Nil
  then show ?case by simp
next
  case (Cons op ops)
  from run_fence [OF Cons.prems] obtain m where "n \<le> m" "fence (run op db) k = Some m"
    by blast
  with Cons.IH [of "run op db" m] show ?case
    by (auto intro: order_trans)
qed

lemma superseded_never_current:
  assumes "fence db (key_of l) = Some n" and "token_of l < n"
  shows "\<not> current t l (fold run ops db)"
proof
  assume "current t l (fold run ops db)"
  then have "fence (fold run ops db) (key_of l) = Some (token_of l)"
    by (rule current_fence)
  moreover from runs_fence [OF assms(1)] obtain m
    where "n \<le> m" "fence (fold run ops db) (key_of l) = Some m"
    by blast
  ultimately show False using assms(2) by simp
qed

lemma current_same_fence:
  "current t l db \<Longrightarrow> current t' l' db \<Longrightarrow> key_of l = key_of l' \<Longrightarrow> token_of l = token_of l'"
  by (metis current_fence option.inject)

end

subsection \<open>The store as a fenced store\<close>

datatype lease_op =
    Op_Acquire time time string string
  | Op_Takeover time time string string
  | Op_Renew time time lease
  | Op_Release time lease
  | Op_Revoke time string

text \<open>One statement on the table, with the lease it hands out, if any.\<close>

fun run_op :: "lease_op \<Rightarrow> lease_db \<Rightarrow> lease_db \<times> lease option" where
  "run_op (Op_Acquire now ttl key owner) db = acquire_in_session now ttl key owner db"
| "run_op (Op_Takeover now ttl key owner) db =
     (case takeover_in_session now ttl key owner db of (db', l) \<Rightarrow> (db', Some l))"
| "run_op (Op_Renew now ttl l) db = renew now ttl l db"
| "run_op (Op_Release now l) db = (fst (release now l db), None)"
| "run_op (Op_Revoke now key) db = (fst (revoke now key db), None)"

definition fence_of :: "lease_db \<Rightarrow> string \<Rightarrow> int option" where
  "fence_of db key = map_option row_fencing_token (db key)"

lemma run_op_fence:
  "fence_of db k = Some n \<Longrightarrow> \<exists>m \<ge> n. fence_of (fst (run_op op db)) k = Some m"
  by (cases op) (auto simp: lease_defs fence_of_def Let_def split: option.splits)

interpretation store: fenced_store fence_of "\<lambda>op db. fst (run_op op db)" is_current
    resource_key fencing_token
proof unfold_locales
  fix db k n op
  show "fence_of db k = Some n \<Longrightarrow> \<exists>m \<ge> n. fence_of (fst (run_op op db)) k = Some m"
    by (rule run_op_fence)
next
  fix t l db
  show "is_current t l db \<Longrightarrow> fence_of db (resource_key l) = Some (fencing_token l)"
    by (auto simp: lease_defs fence_of_def split: option.splits)
qed

subsection \<open>Runs of the store and the leases they hand out\<close>

record lease_sys =
  sys_db :: lease_db
  sys_granted :: "lease list"

definition lease_start :: "lease_sys \<Rightarrow> bool" where
  "lease_start s \<longleftrightarrow> sys_db s = Map.empty \<and> sys_granted s = []"

inductive lease_step :: "lease_sys \<Rightarrow> lease_sys \<Rightarrow> bool" where
  lease_step: "run_op op (sys_db s) = (db', r) \<Longrightarrow>
     lease_step s (s\<lparr>sys_db := db', sys_granted := (case r of None \<Rightarrow> [] | Some l \<Rightarrow> [l]) @ sys_granted s\<rparr>)"

inductive_simps lease_step_iff: "lease_step s t"

text \<open>
  Every lease handed out so far has a fence at most the row's, and the row's owner where it
  is the row's; leases with the same fence have the same owner.
\<close>

definition granted_ok :: "lease_db \<Rightarrow> lease \<Rightarrow> bool" where
  "granted_ok db l \<longleftrightarrow> (\<exists>r. db (resource_key l) = Some r \<and>
     fencing_token l \<le> row_fencing_token r \<and>
     (fencing_token l = row_fencing_token r \<longrightarrow> owner_id l = row_owner_id r))"

definition same_grant :: "lease \<Rightarrow> lease \<Rightarrow> bool" where
  "same_grant l l' \<longleftrightarrow>
     (resource_key l = resource_key l' \<and> fencing_token l = fencing_token l' \<longrightarrow>
      owner_id l = owner_id l')"

definition lease_inv :: "lease_sys \<Rightarrow> bool" where
  "lease_inv s \<longleftrightarrow> (\<forall>l \<in> set (sys_granted s). granted_ok (sys_db s) l) \<and>
     (\<forall>l \<in> set (sys_granted s). \<forall>l' \<in> set (sys_granted s). same_grant l l')"

lemma same_grant_refl [simp]: "same_grant l l"
  by (simp add: same_grant_def)

lemma same_grantD:
  "same_grant l l' \<Longrightarrow> resource_key l = resource_key l' \<Longrightarrow> fencing_token l = fencing_token l' \<Longrightarrow>
     owner_id l = owner_id l'"
  by (simp add: same_grant_def)

lemma lease_invD:
  "lease_inv s \<Longrightarrow> l \<in> set (sys_granted s) \<Longrightarrow> granted_ok (sys_db s) l"
  "lease_inv s \<Longrightarrow> l \<in> set (sys_granted s) \<Longrightarrow> l' \<in> set (sys_granted s) \<Longrightarrow> same_grant l l'"
  by (auto simp: lease_inv_def)

lemma granted_ok_run_op:
  "granted_ok db l \<Longrightarrow> granted_ok (fst (run_op op db)) l"
  by (cases op) (auto simp: granted_ok_def lease_defs Let_def split: option.splits)

lemma run_op_granted:
  "run_op op db = (db', Some l) \<Longrightarrow> db' (resource_key l) \<noteq> None \<and>
     row_owned l (the (db' (resource_key l)))"
  by (cases op) (auto simp: lease_defs Let_def split: option.splits if_splits)

lemma granted_ok_new:
  "run_op op db = (db', Some l) \<Longrightarrow> granted_ok db' l"
  by (drule run_op_granted) (auto simp: granted_ok_def row_owned_def)

lemma same_grant_new:
  assumes "run_op op db = (db', Some l)" and "granted_ok db' l'"
  shows "same_grant l l' \<and> same_grant l' l"
  using run_op_granted [OF assms(1)] assms(2)
  by (auto simp: same_grant_def granted_ok_def row_owned_def)

lemma lease_step_inv:
  assumes "lease_inv s" and "lease_step s t"
  shows "lease_inv t"
proof -
  from assms(2) obtain op db' r where op: "run_op op (sys_db s) = (db', r)"
    and t: "t = s\<lparr>sys_db := db', sys_granted := (case r of None \<Rightarrow> [] | Some l \<Rightarrow> [l]) @ sys_granted s\<rparr>"
    by (auto simp: lease_step_iff)
  have old: "\<forall>l \<in> set (sys_granted s). granted_ok db' l"
    using assms(1) op granted_ok_run_op [of "sys_db s" _ op] by (auto simp: lease_inv_def)
  show ?thesis
  proof (cases r)
    case None
    with old assms(1) t show ?thesis by (auto simp: lease_inv_def)
  next
    case (Some l)
    with op have op': "run_op op (sys_db s) = (db', Some l)" by simp
    from old same_grant_new [OF op'] granted_ok_new [OF op']
    have "\<forall>l' \<in> set (sys_granted s). same_grant l l' \<and> same_grant l' l" and "granted_ok db' l"
      by auto
    with Some old assms(1) t show ?thesis
      by (auto simp: lease_inv_def)
  qed
qed

interpretation lsys: inv_system lease_start lease_step lease_inv
proof unfold_locales
  fix s t :: lease_sys
  show "lease_start s \<Longrightarrow> lease_inv s" by (simp add: lease_start_def lease_inv_def)
  show "lease_inv s \<Longrightarrow> lease_step s t \<Longrightarrow> lease_inv t" by (rule lease_step_inv)
qed

definition fence_le :: "lease_sys \<Rightarrow> lease_sys \<Rightarrow> bool" where
  "fence_le s t \<longleftrightarrow>
     (\<forall>k n. fence_of (sys_db s) k = Some n \<longrightarrow> (\<exists>m \<ge> n. fence_of (sys_db t) k = Some m))"

interpretation lmono: mono_system lease_start lease_step lease_inv fence_le
proof unfold_locales
  fix s t u :: lease_sys
  show "fence_le s s" by (auto simp: fence_le_def)
  show "fence_le s t \<Longrightarrow> fence_le t u \<Longrightarrow> fence_le s u"
    unfolding fence_le_def by (meson order_trans)
  assume "lease_step s t"
  then obtain op db' r where "run_op op (sys_db s) = (db', r)" and "sys_db t = db'"
    by (auto simp: lease_step_iff)
  then have "sys_db t = fst (run_op op (sys_db s))" by simp
  then show "fence_le s t"
    by (simp add: fence_le_def run_op_fence)
qed

text \<open>
  C35. Mutual exclusion of leases: in every state the store can reach, two leases it handed
  out for the same resource that are both current (at whatever database times) carry the same
  fencing token and the same owner, so at most one grant of a resource is live.
\<close>

theorem current_lease_unique:
  assumes "reach lease_start lease_step s"
    and "l \<in> set (sys_granted s)" and "l' \<in> set (sys_granted s)"
    and "resource_key l = resource_key l'"
    and "is_current t l (sys_db s)" and "is_current t' l' (sys_db s)"
  shows "fencing_token l = fencing_token l' \<and> owner_id l = owner_id l'"
proof -
  have fence: "fencing_token l = fencing_token l'"
    using store.current_same_fence assms(4-6) by blast
  have "same_grant l l'"
    using lsys.reach_inv [OF assms(1)] assms(2,3) by (rule lease_invD(2))
  with fence assms(4) show ?thesis
    by (simp add: same_grantD)
qed

text \<open>A run of two statements: an acquisition, then a renewal of the lease it returned.\<close>

definition demo_lease :: lease where
  "demo_lease = \<lparr>resource_key = ''k'', owner_id = ''a'', fencing_token = 1, lease_expires_at = 45\<rparr>"

definition demo_renewed :: lease where
  "demo_renewed = demo_lease\<lparr>lease_expires_at := 75\<rparr>"

definition demo_row :: "time \<Rightarrow> time \<Rightarrow> lease_row" where
  "demo_row expires updated = \<lparr>row_owner_id = ''a'', row_fencing_token = 1,
     row_lease_expires_at = expires, row_created_at = 0, row_updated_at = updated\<rparr>"

definition demo_sys :: lease_sys where
  "demo_sys = \<lparr>sys_db = [''k'' \<mapsto> demo_row 75 30], sys_granted = [demo_renewed, demo_lease]\<rparr>"

lemmas demo_defs = demo_lease_def demo_renewed_def demo_row_def demo_sys_def

lemma lease_stepI:
  "run_op op (sys_db s) = (sys_db t, r) \<Longrightarrow>
     sys_granted t = (case r of None \<Rightarrow> [] | Some l \<Rightarrow> [l]) @ sys_granted s \<Longrightarrow> lease_step s t"
  by (auto simp: lease_step_iff intro!: exI [of _ op] lease_sys.equality)

lemma demo_sys_reach: "reach lease_start lease_step demo_sys"
proof -
  define s0 where "s0 = \<lparr>sys_db = Map.empty, sys_granted = []\<rparr>"
  define s1 where "s1 = \<lparr>sys_db = [''k'' \<mapsto> demo_row 45 0], sys_granted = [demo_lease]\<rparr>"
  have "lease_start s0" by (simp add: lease_start_def s0_def)
  moreover have "lease_step s0 s1"
    by (rule lease_stepI [where op = "Op_Acquire 0 45 ''k'' ''a''" and r = "Some demo_lease"])
       (simp_all add: s0_def s1_def demo_defs lease_defs Let_def)
  moreover have "lease_step s1 demo_sys"
    by (rule lease_stepI [where op = "Op_Renew 30 45 demo_lease" and r = "Some demo_renewed"])
       (simp_all add: s1_def demo_defs lease_defs Let_def)
  ultimately show ?thesis by (blast intro: reach_start reach_step)
qed

theorem current_lease_unique_witness:
  "is_current 31 demo_lease (sys_db demo_sys) \<and> is_current 60 demo_renewed (sys_db demo_sys) \<and>
   fencing_token demo_lease = fencing_token demo_renewed \<and>
   owner_id demo_lease = owner_id demo_renewed"
proof -
  have c: "is_current 31 demo_lease (sys_db demo_sys)" "is_current 60 demo_renewed (sys_db demo_sys)"
    by (simp_all add: demo_defs lease_defs)
  have m: "demo_lease \<in> set (sys_granted demo_sys)" "demo_renewed \<in> set (sys_granted demo_sys)"
    "resource_key demo_lease = resource_key demo_renewed"
    by (simp_all add: demo_defs)
  show ?thesis
    using current_lease_unique [OF demo_sys_reach m c] c by blast
qed

text \<open>
  A superseded lease is dead for good: once the store has handed out a lease of a resource
  with a larger fencing token, the older lease is not current in any later state, renewing it
  returns nothing and changes nothing, and releasing it affects no row.
\<close>

theorem superseded_lease_dead:
  assumes "reach lease_start lease_step s"
    and "l' \<in> set (sys_granted s)"
    and "resource_key l = resource_key l'" and "fencing_token l < fencing_token l'"
    and "lease_step\<^sup>*\<^sup>* s t"
  shows "\<not> is_current now l (sys_db t) \<and> renew now ttl l (sys_db t) = (sys_db t, None) \<and>
    release now l (sys_db t) = (sys_db t, False)"
proof -
  have "lease_inv s" using assms(1) by (rule lsys.reach_inv)
  then have "granted_ok (sys_db s) l'" using assms(2) by (rule lease_invD(1))
  then obtain n where "fence_of (sys_db s) (resource_key l) = Some n" "fencing_token l < n"
    using assms(3,4) by (auto simp: granted_ok_def fence_of_def)
  moreover have "fence_le s t"
    using assms(5) \<open>lease_inv s\<close> by (rule lmono.steps_le)
  ultimately obtain m where "fence_of (sys_db t) (resource_key l) = Some m" "fencing_token l < m"
    unfolding fence_le_def by (meson order_less_le_trans)
  then show ?thesis
    by (auto simp: fence_of_def lease_defs split: option.splits)
qed

text \<open>The demo state after another controller takes the resource over.\<close>

definition demo_next :: lease where
  "demo_next = \<lparr>resource_key = ''k'', owner_id = ''b'', fencing_token = 2, lease_expires_at = 85\<rparr>"

definition demo_taken :: lease_sys where
  "demo_taken = \<lparr>sys_db = [''k'' \<mapsto> taken_row 40 45 ''b'' (demo_row 75 30)],
     sys_granted = [demo_next, demo_renewed, demo_lease]\<rparr>"

lemma demo_taken_reach: "reach lease_start lease_step demo_taken"
proof -
  have "lease_step demo_sys demo_taken"
    by (rule lease_stepI [where op = "Op_Takeover 40 45 ''k'' ''b''" and r = "Some demo_next"])
       (simp_all add: demo_taken_def demo_next_def demo_defs lease_defs Let_def)
  with demo_sys_reach show ?thesis by (rule reach_step)
qed

theorem superseded_lease_dead_witness:
  "fencing_token demo_lease < fencing_token demo_next \<and>
   \<not> is_current 41 demo_lease (sys_db demo_taken) \<and>
   renew 41 45 demo_lease (sys_db demo_taken) = (sys_db demo_taken, None) \<and>
   release 41 demo_lease (sys_db demo_taken) = (sys_db demo_taken, False)"
proof -
  have m: "demo_next \<in> set (sys_granted demo_taken)"
    "resource_key demo_lease = resource_key demo_next"
    "fencing_token demo_lease < fencing_token demo_next"
    by (simp_all add: demo_taken_def demo_next_def demo_defs)
  show ?thesis
    using superseded_lease_dead [OF demo_taken_reach m rtranclp.rtrancl_refl] m(3) by blast
qed

subsection \<open>Retries\<close>

text \<open>The table as attempt \<open>a\<close> of a retry loop finds it.\<close>

fun seen :: "db_env \<Rightarrow> lease_db \<Rightarrow> nat \<Rightarrow> lease_db" where
  "seen env db 0 = db"
| "seen env db (Suc a) = others env a (seen env db a)"

definition held_by_other :: "time \<Rightarrow> string \<Rightarrow> string \<Rightarrow> lease_db \<Rightarrow> bool" where
  "held_by_other now key owner d \<longleftrightarrow>
     (\<exists>r. d key = Some r \<and> row_owner_id r \<noteq> owner \<and> now < row_lease_expires_at r)"

lemma three_attempts:
  "(\<exists>a < 3. P a) \<longleftrightarrow> P 0 \<or> P 1 \<or> P (2::nat)"
  "(\<forall>a < 3. P a) \<longleftrightarrow> P 0 \<and> P 1 \<and> P (2::nat)"
  by (auto simp: numeral_3_eq_3 less_Suc_eq numeral_2_eq_2)

lemma acquire_in_session_held:
  "held_by_other now key owner d \<Longrightarrow> acquire_in_session now ttl key owner d = (d, None)"
  by (auto simp: held_by_other_def lease_defs)

lemma acquire_unfold:
  "acquire env ttl key owner db =
     (case attempts env 0 of Commit_At now \<Rightarrow> acquire_in_session now ttl key owner (seen env db 0)
      | Operational_Error \<Rightarrow>
     (case attempts env 1 of Commit_At now \<Rightarrow> acquire_in_session now ttl key owner (seen env db 1)
      | Operational_Error \<Rightarrow>
     (case attempts env 2 of Commit_At now \<Rightarrow> acquire_in_session now ttl key owner (seen env db 2)
      | Operational_Error \<Rightarrow> (seen env db 2, None))))"
  by (simp add: acquire_def numeral_2_eq_2 split: attempt.splits)

lemma takeover_unfold:
  "takeover env ttl key owner db =
     (case attempts env 0 of
        Commit_At now \<Rightarrow> map_prod id Inr (takeover_in_session now ttl key owner (seen env db 0))
      | Operational_Error \<Rightarrow>
     (case attempts env 1 of
        Commit_At now \<Rightarrow> map_prod id Inr (takeover_in_session now ttl key owner (seen env db 1))
      | Operational_Error \<Rightarrow>
     (case attempts env 2 of
        Commit_At now \<Rightarrow> map_prod id Inr (takeover_in_session now ttl key owner (seen env db 2))
      | Operational_Error \<Rightarrow> (seen env db 2, Inl Database_Error))))"
  by (simp add: takeover_def numeral_2_eq_2 map_prod_def split: attempt.splits prod.splits)

text \<open>
  A live lease is never pre-empted by \<open>acquire\<close>: if another owner holds the resource
  unexpired at the clock of every attempt that commits, the caller gets no lease and leaves the
  table as it found it at one of its three attempts, whatever fails in between.
\<close>

theorem acquire_never_preempts:
  assumes "\<And>a now. a < 3 \<Longrightarrow> attempts env a = Commit_At now \<Longrightarrow>
      held_by_other now key owner (seen env db a)"
  shows "snd (acquire env ttl key owner db) = None \<and>
    (\<exists>a < 3. fst (acquire env ttl key owner db) = seen env db a)"
proof -
  have held: "acquire_in_session now ttl key owner (seen env db a) = (seen env db a, None)"
    if "a < 3" "attempts env a = Commit_At now" for a now
    using assms [OF that] by (rule acquire_in_session_held)
  show ?thesis
    unfolding acquire_unfold
    using held [of 0] held [of 1] held [of 2]
    by (auto simp: three_attempts split: attempt.splits simp del: seen.simps)
qed

theorem acquire_never_preempts_witness:
  "let env = \<lparr>attempts = (\<lambda>a. if a = 0 then Operational_Error else Commit_At 31),
             others = (\<lambda>_ d. d)\<rparr>
   in snd (acquire env 45 ''k'' ''b'' (sys_db demo_sys)) = None \<and>
      fst (acquire env 45 ''k'' ''b'' (sys_db demo_sys)) = sys_db demo_sys"
proof -
  define env where "env = \<lparr>attempts = (\<lambda>a. if a = 0 then Operational_Error else Commit_At 31),
             others = (\<lambda>_ d. d)\<rparr>"
  have seen: "seen env d a = d" for d a
    by (induction a) (simp_all add: env_def)
  have "held_by_other now ''k'' ''b'' (seen env (sys_db demo_sys) a)"
    if "a < 3" "attempts env a = Commit_At now" for a now
  proof -
    from that(2) have "now = 31" by (auto simp: env_def split: if_splits)
    then show ?thesis unfolding seen by (simp add: held_by_other_def demo_defs)
  qed
  from acquire_never_preempts [OF this] seen show ?thesis
    by (simp add: env_def Let_def)
qed

definition takeover_post ::
  "time \<Rightarrow> time \<Rightarrow> string \<Rightarrow> string \<Rightarrow> lease_db \<Rightarrow> lease_db \<Rightarrow> lease \<Rightarrow> bool" where
  "takeover_post now ttl key owner db db' l \<longleftrightarrow>
     resource_key l = key \<and> owner_id l = owner \<and>
     fencing_token l = (case fence_of db key of None \<Rightarrow> 1 | Some n \<Rightarrow> n + 1) \<and>
     (\<forall>t. is_current t l db' \<longleftrightarrow> t < now + ttl)"

lemma takeover_postI:
  "takeover_in_session now ttl key owner db = (db', l) \<Longrightarrow> takeover_post now ttl key owner db db' l"
  by (auto simp: takeover_post_def lease_defs fence_of_def Let_def split: option.splits)

text \<open>
  \<open>takeover\<close> under retries: it raises the database's error exactly when all three attempts
  fail and then changes nothing; otherwise it returns a lease of the caller whose fence is one
  above the fence the resource had (or 1 for a new resource), and that lease is current until
  its time to live is over. The final \<open>RuntimeError\<close> of the source is unreachable.
\<close>

theorem takeover_result:
  "case takeover env ttl key owner db of
     (db', Inl e) \<Rightarrow> e = Database_Error \<and> map (attempts env) [0, 1, 2] = replicate 3 Operational_Error \<and>
        db' = seen env db 2
   | (db', Inr l) \<Rightarrow> (\<exists>a < 3. \<exists>now. attempts env a = Commit_At now \<and>
        takeover_post now ttl key owner (seen env db a) db' l)"
  unfolding takeover_unfold three_attempts
  by (auto simp: takeover_postI numeral_3_eq_3 map_prod_def split: attempt.splits prod.splits simp del: seen.simps)

end
