(* ===== verification/Python_Values.thy ===== *)
theory Python_Values
  imports Prelude
begin

section \<open>Dynamically typed values\<close>

text \<open>
  The JSON-shaped Python objects (\<open>Any\<close>, \<open>dict[str, Any]\<close>) that flow through workflow
  outputs, tool arguments, executor labels and question sets, with the built-ins the sources
  apply to them: truth value, \<open>str\<close> and \<open>repr\<close>, \<open>==\<close>, the orderings and \<open>in\<close>, which raise
  \<open>TypeError\<close> on incompatible operands.

  A float is given by the digits of its shortest representation: \<open>VFloat m e\<close> stands for
  \<open>m * 10 ^ e\<close>; not-a-number and the infinities do not occur in JSON.
\<close>

datatype pyval =
    VNone
  | VBool bool
  | VInt int
  | VFloat int int
  | VStr string
  | VList "pyval list"
  | VDict "(string \<times> pyval) list"

subsection \<open>Truth value and type tests\<close>

fun truthy :: "pyval \<Rightarrow> bool" where
  "truthy VNone = False"
| "truthy (VBool b) = b"
| "truthy (VInt i) = (i \<noteq> 0)"
| "truthy (VFloat m e) = (m \<noteq> 0)"
| "truthy (VStr s) = (s \<noteq> [])"
| "truthy (VList vs) = (vs \<noteq> [])"
| "truthy (VDict d) = (d \<noteq> [])"

fun is_dict :: "pyval \<Rightarrow> bool" where
  "is_dict (VDict d) = True"
| "is_dict _ = False"

fun is_str :: "pyval \<Rightarrow> bool" where
  "is_str (VStr s) = True"
| "is_str _ = False"

text \<open>\<open>d.get(k)\<close>, with None for a missing key.\<close>

definition dict_get :: "(string \<times> pyval) list \<Rightarrow> string \<Rightarrow> pyval" where
  "dict_get d k = (case map_of d k of None \<Rightarrow> VNone | Some v \<Rightarrow> v)"

text \<open>\<open>d.get(k, default)\<close>.\<close>

definition dict_get_or :: "(string \<times> pyval) list \<Rightarrow> string \<Rightarrow> pyval \<Rightarrow> pyval" where
  "dict_get_or d k v0 = (case map_of d k of None \<Rightarrow> v0 | Some v \<Rightarrow> v)"

fun type_name :: "pyval \<Rightarrow> string" where
  "type_name VNone = ''NoneType''"
| "type_name (VBool b) = ''bool''"
| "type_name (VInt i) = ''int''"
| "type_name (VFloat m e) = ''float''"
| "type_name (VStr s) = ''str''"
| "type_name (VList vs) = ''list''"
| "type_name (VDict d) = ''dict''"

subsection \<open>Text of values\<close>

definition digit_char :: "nat \<Rightarrow> char" where
  "digit_char n = char_of (48 + n)"

fun show_nat :: "nat \<Rightarrow> string" where
  "show_nat n = (if n < 10 then [digit_char n] else show_nat (n div 10) @ [digit_char (n mod 10)])"

declare show_nat.simps [simp del]

definition show_int :: "int \<Rightarrow> string" where
  "show_int i = (if i < 0 then ''-'' @ show_nat (nat (- i)) else show_nat (nat i))"

text \<open>
  \<open>repr\<close> of a float from its shortest digits: positional notation while the decimal exponent
  is at least -4 and below 16, scientific notation with a two-digit exponent otherwise.
\<close>

definition show_float :: "int \<Rightarrow> int \<Rightarrow> string" where
  "show_float m e =
     (if m = 0 then ''0.0'' else
      let ds = show_nat (nat \<bar>m\<bar>); n = int (length ds); k = n + e; x = k - 1;
          sg = (if m < 0 then ''-'' else '''')
      in if -4 \<le> x \<and> x < 16 then
           (if k \<le> 0 then sg @ ''0.'' @ replicate (nat (- k)) (CHR ''0'') @ ds
            else if n \<le> k then sg @ ds @ replicate (nat (k - n)) (CHR ''0'') @ ''.0''
            else sg @ take (nat k) ds @ ''.'' @ drop (nat k) ds)
         else
           sg @ take 1 ds @ (if length ds > 1 then ''.'' @ drop 1 ds else '''') @ ''e''
             @ (if x < 0 then ''-'' else ''+'')
             @ (if \<bar>x\<bar> < 10 then ''0'' else '''') @ show_nat (nat \<bar>x\<bar>))"

definition hex_digit :: "nat \<Rightarrow> char" where
  "hex_digit n = (if n < 10 then char_of (48 + n) else char_of (87 + n))"

definition repr_char :: "char \<Rightarrow> char \<Rightarrow> string" where
  "repr_char q c = (let n = (of_char c :: nat) in
     if c = q \<or> n = 92 then [char_of (92::nat), c]
     else if n = 10 then [char_of (92::nat), CHR ''n'']
     else if n = 13 then [char_of (92::nat), CHR ''r'']
     else if n = 9 then [char_of (92::nat), CHR ''t'']
     else if n < 32 \<or> (127 \<le> n \<and> n \<le> 160) \<or> n = 173
       then [char_of (92::nat), CHR ''x'', hex_digit (n div 16), hex_digit (n mod 16)]
     else [c])"

text \<open>Code point 39 is the single quote, 34 the double quote.\<close>

definition repr_str :: "string \<Rightarrow> string" where
  "repr_str s = (let q = (if char_of (39::nat) \<in> set s \<and> char_of (34::nat) \<notin> set s
                          then char_of (34::nat) else char_of (39::nat))
     in [q] @ concat (map (repr_char q) s) @ [q])"

text \<open>A string between single quotes, as the f-strings of the sources have it.\<close>

definition quoted :: "string \<Rightarrow> string" where
  "quoted s = [char_of (39::nat)] @ s @ [char_of (39::nat)]"

fun join_with :: "string \<Rightarrow> string list \<Rightarrow> string" where
  "join_with sep [] = []"
| "join_with sep [x] = x"
| "join_with sep (x # y # xs) = x @ sep @ join_with sep (y # xs)"

fun py_repr :: "pyval \<Rightarrow> string" where
  "py_repr VNone = ''None''"
| "py_repr (VBool b) = (if b then ''True'' else ''False'')"
| "py_repr (VInt i) = show_int i"
| "py_repr (VFloat m e) = show_float m e"
| "py_repr (VStr s) = repr_str s"
| "py_repr (VList vs) = ''['' @ join_with '', '' (map py_repr vs) @ '']''"
| "py_repr (VDict d) =
     ''{'' @ join_with '', '' (map (\<lambda>(k, v). repr_str k @ '': '' @ py_repr v) d) @ ''}''"

fun py_str :: "pyval \<Rightarrow> string" where
  "py_str (VStr s) = s"
| "py_str v = py_repr v"

subsection \<open>Equality\<close>

text \<open>Booleans are integers in comparisons, and integers compare with floats by value.\<close>

fun num_val :: "pyval \<Rightarrow> rat option" where
  "num_val (VBool b) = Some (if b then 1 else 0)"
| "num_val (VInt i) = Some (of_int i)"
| "num_val (VFloat m e) = Some (of_int m * 10 powi e)"
| "num_val _ = None"

text \<open>Dictionaries are equal when they have as many entries and equal values at every key.\<close>

fun py_eq :: "pyval \<Rightarrow> pyval \<Rightarrow> bool"
  and py_eq_list :: "pyval list \<Rightarrow> pyval list \<Rightarrow> bool"
  and py_eq_entries :: "(string \<times> pyval) list \<Rightarrow> (string \<times> pyval) list \<Rightarrow> bool" where
  "py_eq VNone w = (w = VNone)"
| "py_eq (VStr s) w = (case w of VStr t \<Rightarrow> s = t | _ \<Rightarrow> False)"
| "py_eq (VList vs) w = (case w of VList ws \<Rightarrow> py_eq_list vs ws | _ \<Rightarrow> False)"
| "py_eq (VDict d) w =
     (case w of VDict d' \<Rightarrow> length d = length d' \<and> py_eq_entries d d' | _ \<Rightarrow> False)"
| "py_eq (VBool b) w = (num_val w = num_val (VBool b))"
| "py_eq (VInt i) w = (num_val w = num_val (VInt i))"
| "py_eq (VFloat m e) w = (num_val w = num_val (VFloat m e))"
| "py_eq_list [] ws = (ws = [])"
| "py_eq_list (v # vs) ws = (case ws of [] \<Rightarrow> False | w # ws' \<Rightarrow> py_eq v w \<and> py_eq_list vs ws')"
| "py_eq_entries [] d' = True"
| "py_eq_entries ((k, v) # d) d' =
     ((case map_of d' k of None \<Rightarrow> False | Some v' \<Rightarrow> py_eq v v') \<and> py_eq_entries d d')"

text \<open>Well-formed values: dictionary keys are unique at every level.\<close>

fun val_ok :: "pyval \<Rightarrow> bool" where
  "val_ok (VList vs) = list_all val_ok vs"
| "val_ok (VDict d) = (distinct (map fst d) \<and> list_all (\<lambda>(k, v). val_ok v) d)"
| "val_ok _ = True"

lemma py_eq_list_refl: "(\<And>v. v \<in> set vs \<Longrightarrow> py_eq v v) \<Longrightarrow> py_eq_list vs vs"
  by (induction vs) auto

lemma py_eq_entries_iff:
  "py_eq_entries d d' \<longleftrightarrow> (\<forall>(k, v) \<in> set d. \<exists>v'. map_of d' k = Some v' \<and> py_eq v v')"
  by (induction d) (auto split: option.splits)

lemma py_eq_refl: "val_ok v \<Longrightarrow> py_eq v v"
proof (induction v rule: val_ok.induct)
  case (1 vs)
  then show ?case by (auto simp: list_all_iff intro: py_eq_list_refl)
next
  case (2 d)
  then show ?case by (fastforce simp: list_all_iff py_eq_entries_iff)
qed auto

subsection \<open>Orderings\<close>

text \<open>
  \<open>Inl ()\<close> is \<open>TypeError\<close>. Sequences compare at the first position where their items are not
  equal; a proper prefix is smaller.
\<close>

type_synonym 'a checked = "(unit, 'a) result"

fun py_lt :: "pyval \<Rightarrow> pyval \<Rightarrow> bool checked"
  and py_lt_list :: "pyval list \<Rightarrow> pyval list \<Rightarrow> bool checked" where
  "py_lt (VStr s) w = (case w of VStr t \<Rightarrow> Inr (s < t) | _ \<Rightarrow> Inl ())"
| "py_lt (VList vs) w = (case w of VList ws \<Rightarrow> py_lt_list vs ws | _ \<Rightarrow> Inl ())"
| "py_lt VNone w = Inl ()"
| "py_lt (VDict d) w = Inl ()"
| "py_lt (VBool b) w = (case num_val w of None \<Rightarrow> Inl () | Some y \<Rightarrow> Inr (the (num_val (VBool b)) < y))"
| "py_lt (VInt i) w = (case num_val w of None \<Rightarrow> Inl () | Some y \<Rightarrow> Inr (the (num_val (VInt i)) < y))"
| "py_lt (VFloat m e) w =
     (case num_val w of None \<Rightarrow> Inl () | Some y \<Rightarrow> Inr (the (num_val (VFloat m e)) < y))"
| "py_lt_list [] ws = Inr (ws \<noteq> [])"
| "py_lt_list (v # vs) [] = Inr False"
| "py_lt_list (v # vs) (w # ws) = (if py_eq v w then py_lt_list vs ws else py_lt v w)"

fun py_le :: "pyval \<Rightarrow> pyval \<Rightarrow> bool checked"
  and py_le_list :: "pyval list \<Rightarrow> pyval list \<Rightarrow> bool checked" where
  "py_le (VStr s) w = (case w of VStr t \<Rightarrow> Inr (s \<le> t) | _ \<Rightarrow> Inl ())"
| "py_le (VList vs) w = (case w of VList ws \<Rightarrow> py_le_list vs ws | _ \<Rightarrow> Inl ())"
| "py_le VNone w = Inl ()"
| "py_le (VDict d) w = Inl ()"
| "py_le (VBool b) w = (case num_val w of None \<Rightarrow> Inl () | Some y \<Rightarrow> Inr (the (num_val (VBool b)) \<le> y))"
| "py_le (VInt i) w = (case num_val w of None \<Rightarrow> Inl () | Some y \<Rightarrow> Inr (the (num_val (VInt i)) \<le> y))"
| "py_le (VFloat m e) w =
     (case num_val w of None \<Rightarrow> Inl () | Some y \<Rightarrow> Inr (the (num_val (VFloat m e)) \<le> y))"
| "py_le_list [] ws = Inr True"
| "py_le_list (v # vs) [] = Inr False"
| "py_le_list (v # vs) (w # ws) = (if py_eq v w then py_le_list vs ws else py_le v w)"

text \<open>\<open>v in w\<close>: substring test, list membership, key test; unhashable keys and
  non-containers raise.\<close>

fun py_contains :: "pyval \<Rightarrow> pyval \<Rightarrow> bool checked" where
  "py_contains v (VStr t) = (case v of VStr s \<Rightarrow> Inr (py_in s t) | _ \<Rightarrow> Inl ())"
| "py_contains v (VList ws) = Inr (list_ex (py_eq v) ws)"
| "py_contains v (VDict d) =
     (case v of VStr s \<Rightarrow> Inr (map_of d s \<noteq> None) | VList _ \<Rightarrow> Inl () | VDict _ \<Rightarrow> Inl ()
      | _ \<Rightarrow> Inr False)"
| "py_contains v _ = Inl ()"

lemma py_lt_num:
  "num_val v = Some x \<Longrightarrow> num_val w = Some y \<Longrightarrow> py_lt v w = Inr (x < y)"
  by (cases v) auto

lemma py_le_num:
  "num_val v = Some x \<Longrightarrow> num_val w = Some y \<Longrightarrow> py_le v w = Inr (x \<le> y)"
  by (cases v) auto

text \<open>On numbers the three comparisons fit together as an order.\<close>

lemma py_eq_num:
  "num_val v = Some x \<Longrightarrow> num_val w = Some y \<Longrightarrow> py_eq v w \<longleftrightarrow> x = y"
  by (cases v) auto

end
