(* ===== verification/Executor_Policy.thy ===== *)
theory Executor_Policy
  imports Python_Values
begin

section \<open>Executor rows, availability, policy and selection\<close>

text \<open>
  The executor table (\<open>ExecutorRow\<close> of \<open>cognis/store/models.py\<close>), ownership
  (\<open>cognis/ownership.py\<close>), \<open>cognis/core/executor_availability.py\<close>,
  \<open>cognis/core/executor_policy.py\<close> and \<open>cognis/core/executor_resolution.py\<close>.

  Whether the package \<open>cognis-executor\<close> is installed is a fact of the deployment, so
  \<open>is_executor_package_available\<close> is the parameter \<open>pkg\<close>; stored settings and MCP servers are
  read through lookup functions.
\<close>

subsection \<open>Rows\<close>

record executor_row =
  executor_id :: string
  executor_name :: string
  executor_type :: string
  labels :: "(string \<times> pyval) list option"
  enabled_tools :: "string list option"
  enabled_tool_groups :: "string list option"
  config :: "(string \<times> pyval) list option"
  status :: string
  desired_config_version :: int
  applied_config_version :: int
  observed_tools :: "pyval list option"
  runtime_metadata :: "(string \<times> pyval) list option"
  last_observed_at :: "time option"
  runtime_state :: string
  token_version :: int
  is_default :: bool
  owner_email :: "string option"

subsection \<open>Ownership\<close>

definition SYSTEM_USER_EMAIL :: string where
  "SYSTEM_USER_EMAIL = ''system@cognis.local''"

definition is_shared_owner_email :: "string option \<Rightarrow> bool" where
  "is_shared_owner_email e = (e = None \<or> e = Some SYSTEM_USER_EMAIL)"

definition normalize_executor_scope :: "string option \<Rightarrow> string" where
  "normalize_executor_scope v =
     (if v = Some ''grantee_executor'' then ''grantee_executor'' else ''owner_executor'')"

text \<open>The owner gate that the row checks share: own rows and shared rows pass, and so does
  every row when no owner is asked for.\<close>

definition visible_to :: "string option \<Rightarrow> executor_row \<Rightarrow> bool" where
  "visible_to owner row =
     (\<not> (owner \<noteq> None \<and> owner_email row \<noteq> owner \<and> \<not> is_shared_owner_email (owner_email row)))"

subsection \<open>Availability of executor types\<close>

definition LOCAL_EXECUTOR_TYPES :: "string list" where
  "LOCAL_EXECUTOR_TYPES = [''in_process'', ''subprocess'']"

definition ALL_EXECUTOR_TYPES :: "string list" where
  "ALL_EXECUTOR_TYPES = [''in_process'', ''subprocess'', ''websocket'']"

definition is_executor_type_available :: "bool \<Rightarrow> string \<Rightarrow> bool" where
  "is_executor_type_available pkg ty =
     (ty \<in> set ALL_EXECUTOR_TYPES \<and> (ty \<notin> set LOCAL_EXECUTOR_TYPES \<or> pkg))"

definition EXECUTOR_PACKAGE_UNAVAILABLE_REASON :: string where
  "EXECUTOR_PACKAGE_UNAVAILABLE_REASON =
     ''cognis-executor package is not installed; local executors are unavailable''"

definition unavailable_executor_reason :: "bool \<Rightarrow> string \<Rightarrow> string option" where
  "unavailable_executor_reason pkg ty =
     (if ty \<in> set LOCAL_EXECUTOR_TYPES \<and> \<not> pkg
      then Some EXECUTOR_PACKAGE_UNAVAILABLE_REASON else None)"

definition available_executor_types :: "bool \<Rightarrow> string list" where
  "available_executor_types pkg = (if pkg then ALL_EXECUTOR_TYPES else [''websocket''])"

subsection \<open>Deployment policy\<close>

record executor_policy =
  allow_in_process :: bool
  allow_subprocess :: bool

text \<open>\<open>settings\<close> gives the stored value of a key, the default where there is none.\<close>

definition load_executor_policy :: "(string \<Rightarrow> pyval \<Rightarrow> pyval) \<Rightarrow> executor_policy" where
  "load_executor_policy settings =
     \<lparr>allow_in_process = truthy (settings ''executors.allow_in_process'' (VBool True)),
      allow_subprocess = truthy (settings ''executors.allow_subprocess'' (VBool True))\<rparr>"

definition is_executor_type_allowed :: "bool \<Rightarrow> string \<Rightarrow> executor_policy \<Rightarrow> bool" where
  "is_executor_type_allowed pkg ty pol =
     (if \<not> is_executor_type_available pkg ty then False
      else if ty = ''in_process'' then allow_in_process pol
      else if ty = ''subprocess'' then allow_subprocess pol
      else True)"

definition is_executor_row_usable ::
  "bool \<Rightarrow> executor_row option \<Rightarrow> executor_policy \<Rightarrow> string option \<Rightarrow> bool" where
  "is_executor_row_usable pkg row pol owner =
     (case row of
        None \<Rightarrow> False
      | Some r \<Rightarrow>
          if owner \<noteq> None \<and> owner_email r \<noteq> owner \<and> \<not> is_shared_owner_email (owner_email r)
          then False
          else if status r \<noteq> ''active'' then False
          else is_executor_type_allowed pkg (executor_type r) pol)"

definition ensure_executor_type_allowed ::
  "bool \<Rightarrow> string \<Rightarrow> executor_policy \<Rightarrow> (string, unit) result" where
  "ensure_executor_type_allowed pkg ty pol =
     (if ty \<notin> {''in_process'', ''subprocess'', ''websocket''}
      then Inl (''Unknown executor type: '' @ ty)
      else case unavailable_executor_reason pkg ty of
        Some reason \<Rightarrow> Inl reason
      | None \<Rightarrow>
          if \<not> is_executor_type_allowed pkg ty pol
          then Inl (''Executor type '' @ [char_of (39::nat)] @ ty @ [char_of (39::nat)]
                    @ '' is disabled by deployment policy'')
          else Inr ())"

text \<open>
  MCP servers a configuration names must be visible to the owner. The table is a lookup from
  server id to the owner's address; \<open>get_mcp_server\<close> filters it as the query does.
\<close>

definition get_mcp_server ::
  "(string \<rightharpoonup> string option) \<Rightarrow> string \<Rightarrow> string option \<Rightarrow> bool \<Rightarrow> string option option" where
  "get_mcp_server servers sid owner include_shared =
     (case servers sid of
        None \<Rightarrow> None
      | Some row_owner \<Rightarrow>
          if owner = None \<or> row_owner = owner \<or> (include_shared \<and> row_owner = Some SYSTEM_USER_EMAIL)
          then Some row_owner else None)"

datatype scope_error = Ids_Not_A_List | Server_Not_Available string | Server_Private string

fun check_mcp_ids ::
  "(string \<rightharpoonup> string option) \<Rightarrow> string \<Rightarrow> pyval list \<Rightarrow> (scope_error, unit) result" where
  "check_mcp_ids servers owner [] = Inr ()"
| "check_mcp_ids servers owner (v # vs) =
     (let sid = py_str v in
      case get_mcp_server servers sid (Some owner) (\<not> is_shared_owner_email (Some owner)) of
        None \<Rightarrow> Inl (Server_Not_Available sid)
      | Some row_owner \<Rightarrow>
          if is_shared_owner_email (Some owner) \<and> \<not> is_shared_owner_email row_owner
          then Inl (Server_Private sid)
          else check_mcp_ids servers owner vs)"

definition validate_executor_mcp_scope ::
  "(string \<rightharpoonup> string option) \<Rightarrow> string \<Rightarrow> (string \<times> pyval) list option \<Rightarrow> (scope_error, unit) result" where
  "validate_executor_mcp_scope servers owner cfg =
     (case dict_get_or (case cfg of None \<Rightarrow> [] | Some d \<Rightarrow> d) ''mcp_server_ids'' (VList []) of
        VList ids \<Rightarrow> check_mcp_ids servers owner ids
      | _ \<Rightarrow> Inl Ids_Not_A_List)"

subsection \<open>Tools and labels\<close>

record tool_def =
  tool_name :: string
  tool_category :: string
  tool_profile_group :: "string option"

definition is_tool_enabled :: "tool_def \<Rightarrow> string list option \<Rightarrow> string list option \<Rightarrow> bool" where
  "is_tool_enabled tool tools_opt groups_opt =
     (let tools = (case tools_opt of None \<Rightarrow> [] | Some ts \<Rightarrow> ts);
          groups = (case groups_opt of None \<Rightarrow> [] | Some gs \<Rightarrow> gs)
      in if ''*'' \<in> set tools then True
         else if tool_name tool \<in> set tools then True
         else tool_category tool \<in> set groups \<or>
              (case tool_profile_group tool of None \<Rightarrow> False | Some g \<Rightarrow> g \<in> set groups))"

definition filter_tools_by_executor ::
  "tool_def list \<Rightarrow> string list option \<Rightarrow> string list option \<Rightarrow> tool_def list" where
  "filter_tools_by_executor tools enabled groups =
     filter (\<lambda>t. is_tool_enabled t enabled groups) tools"

definition labels_match :: "(string \<times> pyval) list option \<Rightarrow> (string \<times> pyval) list \<Rightarrow> bool" where
  "labels_match lbls selector =
     (if selector = [] then True
      else case lbls of
        None \<Rightarrow> False
      | Some d \<Rightarrow>
          if d = [] then False
          else list_all (\<lambda>(k, v). py_str (dict_get d k) = py_str v) selector)"

subsection \<open>Selecting one executor\<close>

text \<open>A selector that is not a dictionary makes \<open>labels_match\<close> raise \<open>AttributeError\<close>.\<close>

datatype select_error = Attribute_Error

definition select_usable ::
  "bool \<Rightarrow> executor_policy option \<Rightarrow> string option \<Rightarrow> executor_row \<Rightarrow> bool" where
  "select_usable pkg pol owner ex =
     (case pol of
        Some p \<Rightarrow> is_executor_type_available pkg (executor_type ex) \<and>
                  is_executor_row_usable pkg (Some ex) p owner
      | None \<Rightarrow> is_executor_type_available pkg (executor_type ex) \<and> status ex = ''active'' \<and>
                (owner = None \<or> owner_email ex = owner \<or> is_shared_owner_email (owner_email ex)))"

definition select_by_selector ::
  "(executor_row \<Rightarrow> bool) \<Rightarrow> pyval \<Rightarrow> executor_row list \<Rightarrow> (select_error, executor_row option) result" where
  "select_by_selector usable selector executors =
     (case selector of
        VDict sel \<Rightarrow>
          (case filter (\<lambda>ex. usable ex \<and> labels_match (labels ex) sel) executors of
             [ex] \<Rightarrow> Inr (Some ex)
           | _ \<Rightarrow> Inr None)
      | _ \<Rightarrow>
          if list_ex (\<lambda>ex. usable ex \<and> labels ex \<noteq> None \<and> labels ex \<noteq> Some []) executors
          then Inl Attribute_Error else Inr None)"

definition select_executor_for_agent ::
  "bool \<Rightarrow> executor_row list \<Rightarrow> (string \<times> pyval) list option \<Rightarrow> string option \<Rightarrow> executor_policy option
     \<Rightarrow> (select_error, executor_row option) result" where
  "select_executor_for_agent pkg executors agent_execution owner pol =
     (let execution = (case agent_execution of None \<Rightarrow> [] | Some d \<Rightarrow> d);
          explicit_id = dict_get execution ''executor_id'';
          selector = dict_get execution ''executor_selector'';
          usable = select_usable pkg pol owner
      in if truthy explicit_id then
           Inr (find_first (\<lambda>ex. py_eq (VStr (executor_id ex)) explicit_id \<and> usable ex) executors)
         else if truthy selector then select_by_selector usable selector executors
         else case find_first (\<lambda>ex. is_default ex \<and> usable ex \<and> owner_email ex = owner) executors of
           Some ex \<Rightarrow> Inr (Some ex)
         | None \<Rightarrow>
         (case find_first (\<lambda>ex. is_default ex \<and> usable ex \<and> is_shared_owner_email (owner_email ex))
                 executors of
           Some ex \<Rightarrow> Inr (Some ex)
         | None \<Rightarrow>
         (case find_first (\<lambda>ex. usable ex \<and> owner_email ex = owner) executors of
           Some ex \<Rightarrow> Inr (Some ex)
         | None \<Rightarrow>
           Inr (find_first (\<lambda>ex. usable ex \<and> is_shared_owner_email (owner_email ex)) executors))))"

subsection \<open>Facts about the policy checks\<close>

lemmas policy_defs = is_shared_owner_email_def is_executor_type_available_def
  unavailable_executor_reason_def is_executor_type_allowed_def is_executor_row_usable_def
  LOCAL_EXECUTOR_TYPES_def ALL_EXECUTOR_TYPES_def

lemma allowed_imp_available:
  "is_executor_type_allowed pkg ty pol \<Longrightarrow>
     is_executor_type_available pkg ty \<and> unavailable_executor_reason pkg ty = None"
  by (auto simp: policy_defs split: if_splits)

lemma available_executor_types_iff:
  "ty \<in> set (available_executor_types pkg) \<longleftrightarrow> is_executor_type_available pkg ty"
  by (auto simp: available_executor_types_def policy_defs)

text \<open>The raising check accepts exactly the types the predicate allows.\<close>

lemma ensure_executor_type_allowed_iff:
  "ensure_executor_type_allowed pkg ty pol = Inr () \<longleftrightarrow> is_executor_type_allowed pkg ty pol"
  by (auto simp: ensure_executor_type_allowed_def policy_defs)

lemma select_usable_visible:
  "select_usable pkg pol owner ex \<Longrightarrow> visible_to owner ex \<and> status ex = ''active'' \<and>
     is_executor_type_available pkg (executor_type ex)"
  by (auto simp: select_usable_def visible_to_def is_executor_row_usable_def split: option.splits if_splits)

lemma select_by_selector_usable:
  "select_by_selector usable sel exs = Inr (Some ex) \<Longrightarrow> ex \<in> set exs \<and> usable ex"
proof -
  assume "select_by_selector usable sel exs = Inr (Some ex)"
  then obtain d where "filter (\<lambda>ex. usable ex \<and> labels_match (labels ex) d) exs = [ex]"
    by (auto simp: select_by_selector_def split: pyval.splits list.splits if_splits)
  then have "ex \<in> set (filter (\<lambda>ex. usable ex \<and> labels_match (labels ex) d) exs)" by simp
  then show ?thesis by simp
qed

text \<open>
  Executor selection is confined: whatever the agent's execution settings ask for, the
  executor \<open>select_executor_for_agent\<close> returns is one of the candidates, is active, belongs to
  the owner or is shared, is of a type this deployment can run, and, when a policy is given,
  is of a type the policy allows; and when the settings name an executor id, it is that
  executor and no fallback.
\<close>

theorem select_executor_confined:
  assumes "select_executor_for_agent pkg executors execution owner pol = Inr (Some ex)"
  shows "ex \<in> set executors \<and> visible_to owner ex \<and> status ex = ''active'' \<and>
    is_executor_type_available pkg (executor_type ex) \<and>
    (\<forall>p. pol = Some p \<longrightarrow> is_executor_type_allowed pkg (executor_type ex) p) \<and>
    (\<forall>d x. execution = Some d \<and> map_of d ''executor_id'' = Some (VStr x) \<and> x \<noteq> [] \<longrightarrow>
       executor_id ex = x)"
proof -
  have u: "ex \<in> set executors" "select_usable pkg pol owner ex"
    using assms select_by_selector_usable
    by (fastforce simp: select_executor_for_agent_def Let_def split: if_splits option.splits
        dest: find_first_SomeD)+
  have "\<forall>p. pol = Some p \<longrightarrow> is_executor_type_allowed pkg (executor_type ex) p"
    using u(2) by (auto simp: select_usable_def is_executor_row_usable_def split: if_splits)
  moreover have "executor_id ex = x"
    if "execution = Some d" "map_of d ''executor_id'' = Some (VStr x)" "x \<noteq> []" for d x
    using assms that
    by (auto simp: select_executor_for_agent_def dict_get_def Let_def dest!: find_first_SomeD)
  ultimately show ?thesis using u select_usable_visible by blast
qed

definition demo_executor :: executor_row where
  "demo_executor = \<lparr>executor_id = ''e1'', executor_name = ''one'', executor_type = ''websocket'',
     labels = Some [(''zone'', VStr ''eu'')], enabled_tools = Some [''*''],
     enabled_tool_groups = None, config = None, status = ''active'', desired_config_version = 2,
     applied_config_version = 2, observed_tools = None, runtime_metadata = None, last_observed_at = None,
     runtime_state = ''active'', token_version = 1, is_default = False,
     owner_email = Some ''ann@example.com''\<rparr>"

theorem select_executor_confined_witness:
  "select_executor_for_agent False [demo_executor]
     (Some [(''executor_selector'', VDict [(''zone'', VStr ''eu'')])]) (Some ''ann@example.com'')
     (Some \<lparr>allow_in_process = False, allow_subprocess = False\<rparr>) = Inr (Some demo_executor) \<and>
   visible_to (Some ''ann@example.com'') demo_executor"
proof -
  have "select_executor_for_agent False [demo_executor]
     (Some [(''executor_selector'', VDict [(''zone'', VStr ''eu'')])]) (Some ''ann@example.com'')
     (Some \<lparr>allow_in_process = False, allow_subprocess = False\<rparr>) = Inr (Some demo_executor)"
    by (simp add: select_executor_for_agent_def select_by_selector_def select_usable_def
        policy_defs labels_match_def dict_get_def demo_executor_def Let_def)
  with select_executor_confined [OF this] show ?thesis by blast
qed

text \<open>
  A selector value \<open>None\<close> matches a missing label: \<open>labels_match\<close> compares the text of
  \<open>labels.get(key)\<close>, so an executor with other labels but without the selected key satisfies the
  selector \<open>{key: "None"}\<close>, although its labels do not contain the pair.
\<close>

theorem labels_match_missing_label:
  "d \<noteq> [] \<Longrightarrow> map_of d k = None \<Longrightarrow> labels_match (Some d) [(k, VStr ''None'')]"
  by (simp add: labels_match_def dict_get_def)

theorem labels_match_missing_label_witness:
  "labels_match (Some [(''zone'', VStr ''eu'')]) [(''gpu'', VStr ''None'')]"
  by (rule labels_match_missing_label) simp_all

end
