(* ===== verification/Executor_Ownership.thy ===== *)
theory Executor_Ownership
  imports Leases Executor_Policy
begin

section \<open>Ownership of executor connections\<close>

text \<open>
  \<open>cognis/core/executor_connection_ownership.py\<close>: a controller owns the physical socket of an
  executor through a lease of \<^theory_text>\<open>Leases\<close>, and every effect on behalf of the socket runs
  under the check that the lease is still the current one. The statements that change the runtime
  columns of an executor row (\<open>update_executor_runtime_state\<close> and its neighbours of
  \<open>cognis/store/queries.py\<close>) are here too.

  The tables are one record. A transaction that holds the row locks of the source is one function
  application; the clock is read once per statement, so an operation of two statements has two
  times. Callbacks are functions on a world \<open>'w\<close> the model does not look into.
\<close>

definition EXECUTOR_CONNECTION_LEASE_TTL :: time where
  "EXECUTOR_CONNECTION_LEASE_TTL = 45 * 1000000"

definition EXECUTOR_HEARTBEAT_FRESHNESS :: time where
  "EXECUTOR_HEARTBEAT_FRESHNESS = 30 * 1000000"

definition executor_connection_resource_key :: "string \<Rightarrow> string" where
  "executor_connection_resource_key eid = ''executor_connection:'' @ eid"

record connection_owner =
  co_executor_id :: string
  co_lease :: lease

record own_db =
  own_leases :: lease_db
  own_executors :: "string \<rightharpoonup> executor_row"

subsection \<open>Taking, renewing and giving up a connection\<close>

definition conn_takeover ::
  "db_env \<Rightarrow> string \<Rightarrow> string \<Rightarrow> own_db \<Rightarrow> own_db \<times> (lease_error, connection_owner) result" where
  "conn_takeover env controller eid db =
     (case takeover env EXECUTOR_CONNECTION_LEASE_TTL (executor_connection_resource_key eid)
             controller (own_leases db) of
        (leases, Inl e) \<Rightarrow> (db\<lparr>own_leases := leases\<rparr>, Inl e)
      | (leases, Inr l) \<Rightarrow>
          (db\<lparr>own_leases := leases\<rparr>, Inr \<lparr>co_executor_id = eid, co_lease = l\<rparr>))"

definition may_connect :: "executor_row \<Rightarrow> int \<Rightarrow> bool" where
  "may_connect row token =
     (\<not> (executor_type row \<noteq> ''websocket'' \<or> status row \<noteq> ''active'' \<or> token_version row \<noteq> token))"

definition takeover_validated ::
  "time \<Rightarrow> string \<Rightarrow> string \<Rightarrow> int \<Rightarrow> own_db \<Rightarrow> own_db \<times> connection_owner option" where
  "takeover_validated now controller eid token db =
     (case own_executors db eid of
        None \<Rightarrow> (db, None)
      | Some row \<Rightarrow>
          if \<not> may_connect row token then (db, None)
          else case takeover_in_session now EXECUTOR_CONNECTION_LEASE_TTL
                      (executor_connection_resource_key eid) controller (own_leases db) of
                 (leases, l) \<Rightarrow> (db\<lparr>own_leases := leases\<rparr>,
                    Some \<lparr>co_executor_id = eid, co_lease = l\<rparr>))"

text \<open>\<open>wall\<close> is the controller's clock, \<open>now\<close> the database's; the owner is updated in place.\<close>

definition renew_from_heartbeat ::
  "time \<Rightarrow> time \<Rightarrow> time \<Rightarrow> connection_owner \<Rightarrow> own_db \<Rightarrow> own_db \<times> connection_owner \<times> bool" where
  "renew_from_heartbeat wall now received_at owner db =
     (if wall - received_at > EXECUTOR_HEARTBEAT_FRESHNESS then (db, owner, False)
      else case renew now EXECUTOR_CONNECTION_LEASE_TTL (co_lease owner) (own_leases db) of
             (leases, None) \<Rightarrow> (db\<lparr>own_leases := leases\<rparr>, owner, False)
           | (leases, Some l) \<Rightarrow> (db\<lparr>own_leases := leases\<rparr>, owner\<lparr>co_lease := l\<rparr>, True))"

definition conn_release :: "time \<Rightarrow> connection_owner \<Rightarrow> own_db \<Rightarrow> own_db \<times> bool" where
  "conn_release now owner db =
     (case release now (co_lease owner) (own_leases db) of
        (leases, ok) \<Rightarrow> (db\<lparr>own_leases := leases\<rparr>, ok))"

definition conn_revoke :: "time \<Rightarrow> string \<Rightarrow> own_db \<Rightarrow> own_db \<times> bool" where
  "conn_revoke now eid db =
     (case revoke now (executor_connection_resource_key eid) (own_leases db) of
        (leases, ok) \<Rightarrow> (db\<lparr>own_leases := leases\<rparr>, ok))"

definition conn_is_current :: "time \<Rightarrow> connection_owner \<Rightarrow> own_db \<Rightarrow> bool" where
  "conn_is_current now owner db = is_current now (co_lease owner) (own_leases db)"

subsection \<open>Effects under the fence\<close>

definition lock_current :: "time \<Rightarrow> connection_owner \<Rightarrow> own_db \<Rightarrow> bool" where
  "lock_current now owner db =
     (case own_leases db (resource_key (co_lease owner)) of
        None \<Rightarrow> False
      | Some r \<Rightarrow> row_owner_id r = owner_id (co_lease owner) \<and>
                  row_fencing_token r = fencing_token (co_lease owner) \<and>
                  row_lease_expires_at r > now)"

text \<open>
  A callback that has to be awaited may outlive the five seconds the source grants it; then its
  effects so far stay and \<open>TimeoutError\<close> is raised. An exception of the callback propagates.
\<close>

datatype 'r callback_end = Returned 'r | Raised string | Timed_Out

datatype callback_error = Callback_Raised string | Callback_Timeout

definition run_callback_if_current ::
  "time \<Rightarrow> connection_owner \<Rightarrow> ('w \<Rightarrow> 'w \<times> 'r callback_end) \<Rightarrow> own_db \<Rightarrow> 'w
     \<Rightarrow> 'w \<times> (callback_error, bool) result" where
  "run_callback_if_current now owner callback db w =
     (if \<not> lock_current now owner db then (w, Inr False)
      else case callback w of
             (w', Returned r) \<Rightarrow> (w', Inr True)
           | (w', Raised e) \<Rightarrow> (w', Inl (Callback_Raised e))
           | (w', Timed_Out) \<Rightarrow> (w', Inl Callback_Timeout))"

text \<open>The durable variant has no timeout and hands the result back.\<close>

definition run_durable_callback_if_current ::
  "time \<Rightarrow> connection_owner \<Rightarrow> ('w \<Rightarrow> 'w \<times> (string, 'r) result) \<Rightarrow> own_db \<Rightarrow> 'w
     \<Rightarrow> 'w \<times> (string, bool \<times> 'r option) result" where
  "run_durable_callback_if_current now owner callback db w =
     (if \<not> lock_current now owner db then (w, Inr (False, None))
      else case callback w of
             (w', Inl e) \<Rightarrow> (w', Inl e)
           | (w', Inr r) \<Rightarrow> (w', Inr (True, Some r)))"

definition apply_effect_if_current ::
  "time \<Rightarrow> connection_owner \<Rightarrow> ('w \<Rightarrow> 'w) \<Rightarrow> own_db \<Rightarrow> 'w \<Rightarrow> 'w \<times> bool" where
  "apply_effect_if_current now owner effect db w =
     (if \<not> lock_current now owner db then (w, False) else (effect w, True))"

subsection \<open>Runtime columns of an executor row\<close>

record runtime_values =
  v_desired_config_version :: "int option"
  v_applied_config_version :: "int option"
  v_observed_tools :: "pyval list option"
  v_runtime_metadata :: "(string \<times> pyval) list option"
  v_last_observed_at :: "time option"
  v_runtime_state :: "string option"

definition no_values :: runtime_values where
  "no_values = \<lparr>v_desired_config_version = None, v_applied_config_version = None,
     v_observed_tools = None, v_runtime_metadata = None, v_last_observed_at = None,
     v_runtime_state = None\<rparr>"

definition or_keep :: "'a option \<Rightarrow> 'a \<Rightarrow> 'a" where
  "or_keep v old = (case v of None \<Rightarrow> old | Some x \<Rightarrow> x)"

definition or_keep_opt :: "'a option \<Rightarrow> 'a option \<Rightarrow> 'a option" where
  "or_keep_opt v old = (case v of None \<Rightarrow> old | Some x \<Rightarrow> Some x)"

definition write_values :: "runtime_values \<Rightarrow> executor_row \<Rightarrow> executor_row" where
  "write_values vs row = row\<lparr>
     desired_config_version := or_keep (v_desired_config_version vs) (desired_config_version row),
     applied_config_version := or_keep (v_applied_config_version vs) (applied_config_version row),
     observed_tools := or_keep_opt (v_observed_tools vs) (observed_tools row),
     runtime_metadata := or_keep_opt (v_runtime_metadata vs) (runtime_metadata row),
     last_observed_at := or_keep_opt (v_last_observed_at vs) (last_observed_at row),
     runtime_state := or_keep (v_runtime_state vs) (runtime_state row)\<rparr>"

definition put_executor :: "executor_row \<Rightarrow> string \<Rightarrow> own_db \<Rightarrow> own_db" where
  "put_executor row eid db = db\<lparr>own_executors := (own_executors db)(eid \<mapsto> row)\<rparr>"

text \<open>The unfenced statement, for executors that have no socket.\<close>

definition update_executor_runtime_state ::
  "string \<Rightarrow> runtime_values \<Rightarrow> own_db \<Rightarrow> own_db \<times> executor_row option" where
  "update_executor_runtime_state eid vs db =
     (case own_executors db eid of
        None \<Rightarrow> (db, None)
      | Some row \<Rightarrow> (put_executor (write_values vs row) eid db, Some (write_values vs row)))"

text \<open>
  The fenced update. The executor row and the lease row are locked before the update, so nobody
  moves the fence in between; the lease may still expire between the two statements, which the
  update checks again.
\<close>

definition update_runtime_state ::
  "time \<Rightarrow> time \<Rightarrow> connection_owner \<Rightarrow> runtime_values \<Rightarrow> own_db \<Rightarrow> own_db \<times> executor_row option" where
  "update_runtime_state now1 now2 owner vs db =
     (if vs = no_values then (db, own_executors db (co_executor_id owner))
      else case own_executors db (co_executor_id owner) of
        None \<Rightarrow> (db, None)
      | Some row \<Rightarrow>
          if \<not> lock_current now1 owner db then (db, None)
          else if \<not> lock_current now2 owner db then (db, None)
          else (put_executor (write_values vs row) (co_executor_id owner) db,
                Some (write_values vs row)))"

text \<open>
  How the API layer chooses: without an ownership service or a connection it writes directly,
  with a connection that lost its owner it writes nothing.
\<close>

record connection =
  conn_executor_id :: "string option"
  conn_owner :: "connection_owner option"

definition nonempty :: "string option \<Rightarrow> string option" where
  "nonempty s = (case s of Some (c # cs) \<Rightarrow> s | _ \<Rightarrow> None)"

definition update_owned_runtime_state ::
  "time \<Rightarrow> time \<Rightarrow> bool \<Rightarrow> connection option \<Rightarrow> string option \<Rightarrow> runtime_values \<Rightarrow> own_db
     \<Rightarrow> own_db \<times> executor_row option" where
  "update_owned_runtime_state now1 now2 has_ownership conn eid vs db =
     (let resolved = (case nonempty eid of Some e \<Rightarrow> Some e
                      | None \<Rightarrow> (case conn of None \<Rightarrow> None | Some c \<Rightarrow> conn_executor_id c))
      in if \<not> has_ownership \<or> conn = None then
           (case nonempty resolved of
              None \<Rightarrow> (db, None)
            | Some e \<Rightarrow> update_executor_runtime_state e vs db)
         else case conn_owner (the conn) of
           None \<Rightarrow> (db, None)
         | Some owner \<Rightarrow> update_runtime_state now1 now2 owner vs db)"

definition normalize_executor_desired_config_version ::
  "string \<Rightarrow> int \<Rightarrow> own_db \<Rightarrow> own_db \<times> bool" where
  "normalize_executor_desired_config_version eid minimum db =
     (case own_executors db eid of
        None \<Rightarrow> (db, False)
      | Some row \<Rightarrow>
          if desired_config_version row < minimum
          then (put_executor (row\<lparr>desired_config_version := minimum\<rparr>) eid db, True)
          else (db, False))"

definition bump_executor_reconfigure_generation ::
  "string \<Rightarrow> string \<Rightarrow> own_db \<Rightarrow> own_db \<times> bool" where
  "bump_executor_reconfigure_generation eid state db =
     (case own_executors db eid of
        None \<Rightarrow> (db, False)
      | Some row \<Rightarrow>
          (put_executor (row\<lparr>desired_config_version := desired_config_version row + 1,
              runtime_state := state\<rparr>) eid db, True))"

subsection \<open>The fence check is the store's\<close>

lemma lock_current_eq [simp]:
  "lock_current now owner db = is_current now (co_lease owner) (own_leases db)"
  by (simp add: lock_current_def is_current_def row_current_def row_owned_def split: option.splits)

lemma put_executor_leases [simp]: "own_leases (put_executor row eid db) = own_leases db"
  by (simp add: put_executor_def)

text \<open>
  The operations of other controllers as far as the leases are concerned: any sequence of lease
  statements, and any changes of the executor rows. Once a newer fence exists for the resource,
  the older owner stays locked out.
\<close>

definition superseded :: "connection_owner \<Rightarrow> own_db \<Rightarrow> bool" where
  "superseded owner db =
     (case fence_of (own_leases db) (resource_key (co_lease owner)) of
        None \<Rightarrow> False | Some n \<Rightarrow> fencing_token (co_lease owner) < n)"

lemma superseded_locked_out:
  assumes "superseded owner db" and "own_leases db' = fold (\<lambda>op d. fst (run_op op d)) ops (own_leases db)"
  shows "\<not> lock_current now owner db'"
  using assms store.superseded_never_current
  by (simp add: superseded_def split: option.splits)

text \<open>
  C37. A controller that lost an executor's connection can do nothing for it any more: after
  another controller has taken the connection over, and whatever lease statements follow, the
  former owner's callbacks, durable callbacks and in-memory effects do not run, its updates of the
  executor row change nothing, its heartbeats do not renew and its release does nothing.
\<close>

theorem superseded_owner_has_no_effect:
  assumes "takeover_validated now controller eid token db = (db1, Some new)"
    and "resource_key (co_lease old) = executor_connection_resource_key eid"
    and "\<exists>n. fence_of (own_leases db) (executor_connection_resource_key eid) = Some n \<and>
           fencing_token (co_lease old) \<le> n"
    and "own_leases db2 = fold (\<lambda>op d. fst (run_op op d)) ops (own_leases db1)"
  shows "run_callback_if_current t old cb db2 w = (w, Inr False) \<and>
    run_durable_callback_if_current t old dcb db2 w = (w, Inr (False, None)) \<and>
    apply_effect_if_current t old eff db2 w = (w, False) \<and>
    fst (update_runtime_state t t' old vs db2) = db2 \<and>
    renew_from_heartbeat wall t received old db2 = (db2, old, False) \<and>
    conn_release t old db2 = (db2, False)"
proof -
  have "superseded old db1"
    using assms(1-3)
    by (auto simp: takeover_validated_def superseded_def fence_of_def takeover_in_session_def
        taken_row_def Let_def split: option.splits if_splits prod.splits)
  then have dead: "\<not> lock_current s old db2" for s
    using assms(4) by (rule superseded_locked_out)
  have "\<not> row_owned (co_lease old) r" if "own_leases db2 (resource_key (co_lease old)) = Some r" for r
  proof
    assume "row_owned (co_lease old) r"
    with that have "lock_current (row_lease_expires_at r - 1) old db2"
      by (simp add: is_current_def row_current_def)
    with dead show False by blast
  qed
  then have "renew t ttl (co_lease old) (own_leases db2) = (own_leases db2, None)"
    "release t (co_lease old) (own_leases db2) = (own_leases db2, False)" for ttl
    by (auto simp: renew_def release_def row_current_def split: option.splits)
  with dead show ?thesis
    by (simp add: run_callback_if_current_def run_durable_callback_if_current_def
        apply_effect_if_current_def update_runtime_state_def renew_from_heartbeat_def
        conn_release_def split: option.splits)
qed

definition demo_old :: connection_owner where
  "demo_old = \<lparr>co_executor_id = ''e1'', co_lease = \<lparr>resource_key = ''executor_connection:e1'',
     owner_id = ''ctl-a'', fencing_token = 3, lease_expires_at = 100\<rparr>\<rparr>"

definition demo_own_db :: own_db where
  "demo_own_db = \<lparr>own_leases = [''executor_connection:e1'' \<mapsto> \<lparr>row_owner_id = ''ctl-a'',
       row_fencing_token = 3, row_lease_expires_at = 100, row_created_at = 0, row_updated_at = 0\<rparr>],
     own_executors = [''e1'' \<mapsto> demo_executor]\<rparr>"

theorem superseded_owner_has_no_effect_witness:
  "\<exists>db1 new. takeover_validated 50 ''ctl-b'' ''e1'' 1 demo_own_db = (db1, Some new) \<and>
     apply_effect_if_current 60 demo_old (\<lambda>n. n + 1) db1 (0 :: nat) = (0, False) \<and>
     renew_from_heartbeat 60 60 59 demo_old db1 = (db1, demo_old, False)"
proof -
  have "\<exists>db1 new. takeover_validated 50 ''ctl-b'' ''e1'' 1 demo_own_db = (db1, Some new)"
    by (simp add: takeover_validated_def demo_own_db_def demo_executor_def may_connect_def
        split: prod.splits)
  then obtain db1 new where t: "takeover_validated 50 ''ctl-b'' ''e1'' 1 demo_own_db = (db1, Some new)"
    by blast
  have key: "resource_key (co_lease demo_old) = executor_connection_resource_key ''e1''"
    and fence: "\<exists>n. fence_of (own_leases demo_own_db) (executor_connection_resource_key ''e1'') = Some n \<and>
       fencing_token (co_lease demo_old) \<le> n"
    by (simp_all add: demo_old_def demo_own_db_def executor_connection_resource_key_def fence_of_def)
  have none: "own_leases db1 = fold (\<lambda>op d. fst (run_op op d)) [] (own_leases db1)" by simp
  note dead = superseded_owner_has_no_effect [OF t key fence none]
  have "apply_effect_if_current 60 demo_old (\<lambda>n. n + 1) db1 (0 :: nat) = (0, False)"
    and "renew_from_heartbeat 60 60 59 demo_old db1 = (db1, demo_old, False)"
    using dead [where t = 60 and eff = "\<lambda>n. n + 1" and w = "0 :: nat" and wall = 60
        and received = 59] by blast+
  with t show ?thesis by blast
qed

text \<open>
  A validated takeover succeeds exactly when the executor has a row of an active WebSocket
  executor with the token version presented. The new owner is the current one for 45 seconds from
  the takeover and no longer; a failed takeover leaves all tables as they were. A renewal answers
  a heartbeat that is at most 30 seconds old and found the owner still current, and then extends
  the lease to 45 seconds from now.
\<close>

theorem connection_takeover_and_renewal:
  "((\<exists>db1 new. takeover_validated now controller eid token db = (db1, Some new)) \<longleftrightarrow>
      (\<exists>row. own_executors db eid = Some row \<and> executor_type row = ''websocket'' \<and>
         status row = ''active'' \<and> token_version row = token)) \<and>
   (takeover_validated now controller eid token db = (db1, None) \<longrightarrow> db1 = db) \<and>
   (takeover_validated now controller eid token db = (db1, Some new) \<longrightarrow>
      owner_id (co_lease new) = controller \<and>
      (\<forall>t. conn_is_current t new db1 \<longleftrightarrow> t < now + 45000000)) \<and>
   (renew_from_heartbeat wall now received owner db = (db2, owner', ok) \<longrightarrow>
      (ok \<longleftrightarrow> wall - received \<le> 30000000 \<and> conn_is_current now owner db) \<and>
      (ok \<longrightarrow> (\<forall>t. conn_is_current t owner' db2 \<longleftrightarrow> t < now + 45000000)) \<and>
      (\<not> ok \<longrightarrow> db2 = db \<and> owner' = owner))"
proof (intro conjI impI)
  show "(\<exists>db1 new. takeover_validated now controller eid token db = (db1, Some new)) \<longleftrightarrow>
      (\<exists>row. own_executors db eid = Some row \<and> executor_type row = ''websocket'' \<and>
         status row = ''active'' \<and> token_version row = token)"
    by (auto simp: takeover_validated_def may_connect_def split: option.splits prod.splits)
  show "takeover_validated now controller eid token db = (db1, None) \<Longrightarrow> db1 = db"
    by (auto simp: takeover_validated_def split: option.splits if_splits prod.splits)
  assume "takeover_validated now controller eid token db = (db1, Some new)"
  then have "takeover_in_session now EXECUTOR_CONNECTION_LEASE_TTL
      (executor_connection_resource_key eid) controller (own_leases db) = (own_leases db1, co_lease new)"
    by (auto simp: takeover_validated_def split: option.splits if_splits prod.splits)
  then show "owner_id (co_lease new) = controller"
    "\<forall>t. conn_is_current t new db1 \<longleftrightarrow> t < now + 45000000"
    by (simp_all add: takeover_in_sessionD takeover_then_current conn_is_current_def
        EXECUTOR_CONNECTION_LEASE_TTL_def)
next
  assume "renew_from_heartbeat wall now received owner db = (db2, owner', ok)"
  then show "ok \<longleftrightarrow> wall - received \<le> 30000000 \<and> conn_is_current now owner db"
    "ok \<Longrightarrow> \<forall>t. conn_is_current t owner' db2 \<longleftrightarrow> t < now + 45000000"
    "\<not> ok \<Longrightarrow> db2 = db" "\<not> ok \<Longrightarrow> owner' = owner"
    by (auto simp: renew_from_heartbeat_def conn_is_current_def renew_def is_current_def
        row_current_def row_owned_def lease_of_def EXECUTOR_CONNECTION_LEASE_TTL_def
        EXECUTOR_HEARTBEAT_FRESHNESS_def split: option.splits if_splits)
qed

theorem connection_takeover_and_renewal_witness:
  "conn_is_current 70 demo_old demo_own_db \<and>
   (\<exists>db2 owner'. renew_from_heartbeat 70 70 60 demo_old demo_own_db = (db2, owner', True))"
proof -
  have cur: "conn_is_current 70 demo_old demo_own_db"
    by (simp add: conn_is_current_def demo_old_def demo_own_db_def is_current_def row_current_def
        row_owned_def)
  obtain db2 owner' ok where run: "renew_from_heartbeat 70 70 60 demo_old demo_own_db = (db2, owner', ok)"
    by (cases "renew_from_heartbeat 70 70 60 demo_old demo_own_db") auto
  have ok
    using connection_takeover_and_renewal [where wall = 70 and now = 70 and received = 60
        and owner = demo_old and db = demo_own_db and ?db2.0 = db2 and owner' = owner' and ok = ok]
      run cur by simp
  with run cur show ?thesis by auto
qed

end
