(* ===== verification/Executor_Pool.thy ===== *)
theory Executor_Pool
  imports Executor_Policy "HOL-Library.Product_Lexorder"
begin

section \<open>The executor pool of an agent\<close>

text \<open>
  \<open>cognis/core/executor_pool.py\<close> and the query \<open>list_executors\<close> it reads
  (\<open>cognis/store/queries.py\<close>): the primary and the additional executors an agent's execution
  settings name, each with a factual availability state, and the initial choice among them.
  The loops over rows keep the source's order and its set of ids already covered.
\<close>

subsection \<open>Availability states\<close>

datatype availability = USABLE | DEGRADED | OFFLINE | BLOCKED | RECONFIGURING | POLICY_DENIED
  | NOT_FOUND | UNAUTHORIZED | UNAVAILABLE

fun availability_value :: "availability \<Rightarrow> string" where
  "availability_value USABLE = ''usable''"
| "availability_value DEGRADED = ''degraded''"
| "availability_value OFFLINE = ''offline''"
| "availability_value BLOCKED = ''blocked''"
| "availability_value RECONFIGURING = ''reconfiguring''"
| "availability_value POLICY_DENIED = ''policy_denied''"
| "availability_value NOT_FOUND = ''not_found''"
| "availability_value UNAUTHORIZED = ''unauthorized''"
| "availability_value UNAVAILABLE = ''unavailable''"

definition is_state_usable :: "availability \<Rightarrow> bool" where
  "is_state_usable s = (s \<in> {USABLE, DEGRADED})"

subsection \<open>Targets and pools\<close>

record resolved_target =
  t_executor_id :: string
  t_executor_type :: string
  t_is_primary :: bool
  t_selection_source :: string
  t_description :: "string option"
  t_state :: availability
  t_enabled_tools :: "string list"
  t_enabled_tool_groups :: "string list"
  t_observed_tools :: "pyval list"
  t_runtime_state :: string
  t_desired_config_version :: int
  t_applied_config_version :: int
  t_owner_email :: "string option"
  t_labels :: "(string \<times> pyval) list"
  t_config :: "(string \<times> pyval) list"
  t_last_observed_at :: "time option"
  t_row :: "executor_row option"

definition usable :: "resolved_target \<Rightarrow> bool" where
  "usable t = is_state_usable (t_state t)"

text \<open>The names a runtime reported: entries are objects with a name, or plain strings.\<close>

definition observed_name :: "pyval \<Rightarrow> string list" where
  "observed_name entry =
     (case entry of
        VDict d \<Rightarrow>
          (let name = (if truthy (dict_get d ''name'') then dict_get d ''name''
                       else dict_get d ''tool_name'')
           in case name of VStr s \<Rightarrow> (if s = [] then [] else [s]) | _ \<Rightarrow> [])
      | VStr s \<Rightarrow> [s]
      | _ \<Rightarrow> [])"

definition observed_tool_names :: "resolved_target \<Rightarrow> string list" where
  "observed_tool_names t = remdups (concat (map observed_name (t_observed_tools t)))"

record executor_pool =
  primary :: "resolved_target list"
  additional :: "resolved_target list"

definition pool_all :: "executor_pool \<Rightarrow> resolved_target list" where
  "pool_all pool = primary pool @ additional pool"

definition by_id :: "executor_pool \<Rightarrow> string \<Rightarrow> resolved_target option" where
  "by_id pool eid = find_first (\<lambda>t. t_executor_id t = eid) (pool_all pool)"

definition usable_primaries :: "executor_pool \<Rightarrow> resolved_target list" where
  "usable_primaries pool = filter usable (primary pool)"

definition is_assigned :: "executor_pool \<Rightarrow> string \<Rightarrow> bool" where
  "is_assigned pool eid = (by_id pool eid \<noteq> None)"

definition is_primary :: "executor_pool \<Rightarrow> string \<Rightarrow> bool" where
  "is_primary pool eid = list_ex (\<lambda>t. t_executor_id t = eid) (primary pool)"

subsection \<open>Additional bindings\<close>

record binding =
  b_executor_id :: "string option"
  b_executor_selector :: "(string \<times> string) list option"
  b_description :: "string option"

fun selector_value_ok :: "pyval \<Rightarrow> bool" where
  "selector_value_ok (VStr s) = True"
| "selector_value_ok (VInt i) = True"
| "selector_value_ok (VBool b) = True"
| "selector_value_ok _ = False"

definition has_id :: "pyval \<Rightarrow> bool" where
  "has_id v = (case v of VStr s \<Rightarrow> py_strip s \<noteq> [] | _ \<Rightarrow> False)"

definition has_selector :: "pyval \<Rightarrow> bool" where
  "has_selector v =
     (case v of VDict d \<Rightarrow> d \<noteq> [] \<and> list_all (\<lambda>(k, x). selector_value_ok x) d | _ \<Rightarrow> False)"

definition stripped_text :: "pyval \<Rightarrow> string option" where
  "stripped_text v =
     (case v of VStr s \<Rightarrow> (if py_strip s = [] then None else Some (py_strip s)) | _ \<Rightarrow> None)"

definition parse_binding :: "pyval \<Rightarrow> binding list" where
  "parse_binding item =
     (case item of
        VDict d \<Rightarrow>
          (let eid = dict_get d ''executor_id''; sel = dict_get d ''executor_selector''
           in if has_id eid = has_selector sel then []
              else [\<lparr>b_executor_id = (if has_id eid then stripped_text eid else None),
                     b_executor_selector =
                       (if has_id eid then None
                        else case sel of VDict m \<Rightarrow> Some (map (\<lambda>(k, v). (k, py_str v)) m) | _ \<Rightarrow> None),
                     b_description = stripped_text (dict_get d ''description'')\<rparr>])
      | _ \<Rightarrow> [])"

definition parse_additional_executors :: "(string \<times> pyval) list option \<Rightarrow> binding list" where
  "parse_additional_executors execution =
     (case dict_get (case execution of None \<Rightarrow> [] | Some d \<Rightarrow> d) ''additional_executors'' of
        VList items \<Rightarrow> concat (map parse_binding items)
      | _ \<Rightarrow> [])"

subsection \<open>Classification\<close>

definition classify_state ::
  "bool \<Rightarrow> executor_row option \<Rightarrow> executor_policy \<Rightarrow> string option \<Rightarrow> availability" where
  "classify_state pkg row pol owner =
     (case row of
        None \<Rightarrow> NOT_FOUND
      | Some r \<Rightarrow>
          if owner \<noteq> None \<and> owner_email r \<noteq> owner \<and> \<not> is_shared_owner_email (owner_email r)
          then UNAUTHORIZED
          else if status r \<noteq> ''active'' then BLOCKED
          else if unavailable_executor_reason pkg (executor_type r) \<noteq> None then UNAVAILABLE
          else if \<not> is_executor_type_allowed pkg (executor_type r) pol then POLICY_DENIED
          else if desired_config_version r \<noteq> applied_config_version r then RECONFIGURING
          else if executor_type r = ''in_process'' then USABLE
          else let rs = (if runtime_state r = [] then ''offline'' else runtime_state r)
               in if rs = ''active'' then USABLE else if rs = ''degraded'' then DEGRADED else OFFLINE)"

definition target_from_row ::
  "executor_row \<Rightarrow> bool \<Rightarrow> string \<Rightarrow> string option \<Rightarrow> availability \<Rightarrow> resolved_target" where
  "target_from_row r prim source desc st =
     \<lparr>t_executor_id = executor_id r, t_executor_type = executor_type r, t_is_primary = prim,
      t_selection_source = source, t_description = desc, t_state = st,
      t_enabled_tools = (case enabled_tools r of None \<Rightarrow> [] | Some x \<Rightarrow> x),
      t_enabled_tool_groups = (case enabled_tool_groups r of None \<Rightarrow> [] | Some x \<Rightarrow> x),
      t_observed_tools = (case observed_tools r of None \<Rightarrow> [] | Some x \<Rightarrow> x),
      t_runtime_state = (if runtime_state r = [] then ''offline'' else runtime_state r),
      t_desired_config_version = desired_config_version r,
      t_applied_config_version = applied_config_version r,
      t_owner_email = owner_email r,
      t_labels = (case labels r of None \<Rightarrow> [] | Some x \<Rightarrow> x),
      t_config = (case config r of None \<Rightarrow> [] | Some x \<Rightarrow> x),
      t_last_observed_at = last_observed_at r, t_row = Some r\<rparr>"

text \<open>The placeholder for a configured executor that has no row.\<close>

definition missing_target :: "string \<Rightarrow> bool \<Rightarrow> string \<Rightarrow> string option \<Rightarrow> resolved_target" where
  "missing_target eid prim source desc =
     \<lparr>t_executor_id = eid, t_executor_type = '''', t_is_primary = prim,
      t_selection_source = source, t_description = desc, t_state = NOT_FOUND,
      t_enabled_tools = [], t_enabled_tool_groups = [], t_observed_tools = [],
      t_runtime_state = ''offline'', t_desired_config_version = 0, t_applied_config_version = 0,
      t_owner_email = None, t_labels = [], t_config = [], t_last_observed_at = None,
      t_row = None\<rparr>"

subsection \<open>Resolution\<close>

text \<open>The query: rows of the owner and shared rows, of the given ids if there are any, by name.\<close>

definition list_executors ::
  "executor_row list \<Rightarrow> string \<Rightarrow> string list option \<Rightarrow> executor_row list" where
  "list_executors table owner ids =
     filter (\<lambda>r. (case ids of None \<Rightarrow> True | Some xs \<Rightarrow> executor_id r \<in> set xs) \<and>
                 (owner_email r = Some owner \<or> is_shared_owner_email (owner_email r)))
       (sort_key executor_name table)"

type_synonym pool_acc = "resolved_target list \<times> string list"

text \<open>One pass over the rows for a selector; \<open>mk\<close> builds the target of a row in a state.\<close>

fun collect_rows ::
  "(executor_row \<Rightarrow> availability) \<Rightarrow> (executor_row \<Rightarrow> availability \<Rightarrow> resolved_target) \<Rightarrow>
   (string \<times> string) list \<Rightarrow> executor_row list \<Rightarrow> pool_acc \<Rightarrow> pool_acc" where
  "collect_rows classify mk sel [] acc = acc"
| "collect_rows classify mk sel (r # rs) (ts, seen) =
     (if executor_id r \<in> set seen then collect_rows classify mk sel rs (ts, seen)
      else if \<not> labels_match (labels r) (map (\<lambda>(k, v). (k, VStr v)) sel)
      then collect_rows classify mk sel rs (ts, seen)
      else if classify r = UNAUTHORIZED then collect_rows classify mk sel rs (ts, seen)
      else collect_rows classify mk sel rs (ts @ [mk r (classify r)], executor_id r # seen))"

definition rows_by_id :: "executor_row list \<Rightarrow> string \<Rightarrow> executor_row option" where
  "rows_by_id rows eid = map_of (rev (map (\<lambda>r. (executor_id r, r)) rows)) eid"

definition add_binding ::
  "(executor_row \<Rightarrow> availability) \<Rightarrow> executor_row list \<Rightarrow> binding \<Rightarrow> pool_acc \<Rightarrow> pool_acc" where
  "add_binding classify rows b acc =
     (case acc of (ts, seen) \<Rightarrow>
      (case b_executor_id b of
         Some eid \<Rightarrow>
           if eid = [] then acc
           else if eid \<in> set seen then acc
           else (case rows_by_id rows eid of
               None \<Rightarrow> (ts @ [missing_target eid False ''additional_explicit'' (b_description b)],
                        eid # seen)
             | Some r \<Rightarrow>
                 if classify r = UNAUTHORIZED then acc
                 else (ts @ [target_from_row r False ''additional_explicit'' (b_description b)
                               (classify r)], executor_id r # seen))
       | None \<Rightarrow>
           (case b_executor_selector b of
              None \<Rightarrow> acc
            | Some sel \<Rightarrow>
                if sel = [] then acc
                else collect_rows classify
                  (\<lambda>r st. target_from_row r False ''additional_selector'' (b_description b) st)
                  sel rows acc)))"

text \<open>\<open>isinstance(primary_explicit, str) and primary_explicit.strip()\<close>: the id is used unstripped.\<close>

definition explicit_primary :: "(string \<times> pyval) list \<Rightarrow> string option" where
  "explicit_primary execution =
     (case dict_get execution ''executor_id'' of
        VStr s \<Rightarrow> (if py_strip s \<noteq> [] then Some s else None) | _ \<Rightarrow> None)"

definition primary_selector :: "(string \<times> pyval) list \<Rightarrow> (string \<times> string) list option" where
  "primary_selector execution =
     (case dict_get execution ''executor_selector'' of
        VDict d \<Rightarrow> (if d = [] then None else Some (map (\<lambda>(k, v). (k, py_str v)) d)) | _ \<Rightarrow> None)"

definition candidate_ids :: "(string \<times> pyval) list \<Rightarrow> binding list \<Rightarrow> string list option" where
  "candidate_ids execution bs =
     (if (explicit_primary execution = None \<and> primary_selector execution \<noteq> None) \<or>
         list_ex (\<lambda>b. b_executor_id b \<in> {None, Some []} \<and> b_executor_selector b \<notin> {None, Some []}) bs
      then None
      else Some ((case explicit_primary execution of None \<Rightarrow> [] | Some s \<Rightarrow> [s]) @
                 concat (map (\<lambda>b. case b_executor_id b of None \<Rightarrow> [] | Some [] \<Rightarrow> [] | Some i \<Rightarrow> [i]) bs)))"

definition resolve_primaries ::
  "(executor_row \<Rightarrow> availability) \<Rightarrow> executor_row list \<Rightarrow> (string \<times> pyval) list \<Rightarrow> pool_acc" where
  "resolve_primaries classify rows execution =
     (case explicit_primary execution of
        Some eid \<Rightarrow>
          (case rows_by_id rows eid of
             None \<Rightarrow> ([missing_target eid True ''explicit'' None], [eid])
           | Some r \<Rightarrow> ([target_from_row r True ''explicit'' None (classify r)], [executor_id r]))
      | None \<Rightarrow>
          (case primary_selector execution of
             None \<Rightarrow> ([], [])
           | Some sel \<Rightarrow>
               collect_rows classify (\<lambda>r st. target_from_row r True ''selector'' None st) sel rows
                 ([], [])))"

definition resolve_executor_pool ::
  "bool \<Rightarrow> executor_row list \<Rightarrow> (string \<times> pyval) list option \<Rightarrow> string \<Rightarrow> executor_policy \<Rightarrow> executor_pool" where
  "resolve_executor_pool pkg table agent_execution owner pol =
     (let execution = (case agent_execution of None \<Rightarrow> [] | Some d \<Rightarrow> d);
          bs = parse_additional_executors (Some execution);
          rows = list_executors table owner (candidate_ids execution bs);
          classify = (\<lambda>r. classify_state pkg (Some r) pol (Some owner));
          prims = resolve_primaries classify rows execution
      in \<lparr>primary = fst prims,
          additional = fst (fold (add_binding classify rows) bs ([], snd prims))\<rparr>)"

subsection \<open>Choosing and probing\<close>

definition sort_rank :: "resolved_target \<Rightarrow> nat \<times> string" where
  "sort_rank t = (if t_state t = USABLE then 0 else 1, t_executor_id t)"

definition pick_initial_active :: "executor_pool \<Rightarrow> resolved_target option" where
  "pick_initial_active pool =
     (case sort_key sort_rank (usable_primaries pool) of [] \<Rightarrow> None | t # _ \<Rightarrow> Some t)"

definition tool_observed_on :: "resolved_target \<Rightarrow> string \<Rightarrow> bool \<Rightarrow> bool" where
  "tool_observed_on t tool require_usable =
     (if require_usable \<and> \<not> usable t then False
      else if \<not> is_tool_enabled \<lparr>tool_name = tool, tool_category = '''', tool_profile_group = None\<rparr>
                 (Some (t_enabled_tools t)) (Some (t_enabled_tool_groups t)) then False
      else if t_observed_tools t = [] then True
      else tool \<in> set (observed_tool_names t))"

subsection \<open>Every target is one per id\<close>

lemma rows_by_id_SomeD: "rows_by_id rows eid = Some r \<Longrightarrow> r \<in> set rows \<and> executor_id r = eid"
  by (auto simp: rows_by_id_def dest!: map_of_SomeD)

lemma target_from_row_sel [simp]:
  "t_executor_id (target_from_row r prim src desc st) = executor_id r"
  "t_is_primary (target_from_row r prim src desc st) = prim"
  "t_state (target_from_row r prim src desc st) = st"
  "t_row (target_from_row r prim src desc st) = Some r"
  by (simp_all add: target_from_row_def)

lemma missing_target_sel [simp]:
  "t_executor_id (missing_target eid prim src desc) = eid"
  "t_is_primary (missing_target eid prim src desc) = prim"
  "t_state (missing_target eid prim src desc) = NOT_FOUND"
  by (simp_all add: missing_target_def)

text \<open>
  What a resolution pass keeps: with the targets \<open>base\<close> found before it, all ids are distinct and
  recorded as seen, and every new target satisfies \<open>P\<close>.
\<close>

definition acc_ok :: "resolved_target list \<Rightarrow> (resolved_target \<Rightarrow> bool) \<Rightarrow> pool_acc \<Rightarrow> bool" where
  "acc_ok base P acc \<longleftrightarrow> distinct (map t_executor_id (base @ fst acc)) \<and>
     set (map t_executor_id (base @ fst acc)) \<subseteq> set (snd acc) \<and> (\<forall>t \<in> set (fst acc). P t)"

lemma acc_ok_snoc:
  "acc_ok base P (ts, seen) \<Longrightarrow> t_executor_id t \<notin> set seen \<Longrightarrow> P t \<Longrightarrow>
     acc_ok base P (ts @ [t], t_executor_id t # seen)"
  by (auto simp: acc_ok_def)

lemma collect_rows_ok:
  assumes "acc_ok base P acc"
    and "\<And>r st. t_executor_id (mk r st) = executor_id r"
    and "\<And>r. r \<in> set rows \<Longrightarrow> classify r \<noteq> UNAUTHORIZED \<Longrightarrow> P (mk r (classify r))"
  shows "acc_ok base P (collect_rows classify mk sel rows acc)"
  using assms
proof (induction classify mk sel rows acc rule: collect_rows.induct)
  case (2 classify mk sel r rs ts seen)
  moreover have "acc_ok base P (ts @ [mk r (classify r)], executor_id r # seen)"
    if "executor_id r \<notin> set seen" "classify r \<noteq> UNAUTHORIZED"
    using acc_ok_snoc [OF "2.prems"(1), of "mk r (classify r)"] "2.prems"(2,3) that
    by simp
  ultimately show ?case by auto
qed simp

lemma add_binding_ok:
  assumes "acc_ok base P acc"
    and "\<And>r src. r \<in> set rows \<Longrightarrow> classify r \<noteq> UNAUTHORIZED \<Longrightarrow>
      P (target_from_row r False src (b_description b) (classify r))"
    and "\<And>eid. P (missing_target eid False ''additional_explicit'' (b_description b))"
  shows "acc_ok base P (add_binding classify rows b acc)"
proof (cases acc)
  case (Pair ts seen)
  show ?thesis
  proof (cases "b_executor_id b")
    case None
    with assms Pair show ?thesis
      by (auto simp: add_binding_def split: option.splits intro!: collect_rows_ok)
  next
    case (Some eid)
    have new: "acc_ok base P (ts @ [t], eid # seen)"
      if "eid \<notin> set seen" "t_executor_id t = eid" "P t" for t
      using acc_ok_snoc [of base P ts seen t] assms(1) Pair that by simp
    have row: "P (target_from_row r False ''additional_explicit'' (b_description b) (classify r)) \<and>
        executor_id r = eid"
      if "rows_by_id rows eid = Some r" "classify r \<noteq> UNAUTHORIZED" for r
      using rows_by_id_SomeD [OF that(1)] assms(2) that(2) by blast
    from Some Pair assms(1) show ?thesis
      using new [of "missing_target eid False ''additional_explicit'' (b_description b)"] assms(3)
        row new
      by (auto simp: add_binding_def split: option.splits)
  qed
qed

lemma fold_add_binding_ok:
  assumes "acc_ok base P acc"
    and "\<And>r src desc. r \<in> set rows \<Longrightarrow> classify r \<noteq> UNAUTHORIZED \<Longrightarrow>
      P (target_from_row r False src desc (classify r))"
    and "\<And>eid desc. P (missing_target eid False ''additional_explicit'' desc)"
  shows "acc_ok base P (fold (add_binding classify rows) bs acc)"
  using assms(1)
proof (induction bs arbitrary: acc)
  case (Cons b bs)
  then show ?case
    using add_binding_ok [of base P acc rows classify b] assms(2,3) by simp
qed simp

lemma resolve_primaries_ok:
  assumes "\<And>r src. r \<in> set rows \<Longrightarrow> classify r \<noteq> UNAUTHORIZED \<Longrightarrow>
      P (target_from_row r True src None (classify r))"
    and "\<And>r. r \<in> set rows \<Longrightarrow> P (target_from_row r True ''explicit'' None (classify r))"
    and "\<And>eid. P (missing_target eid True ''explicit'' None)"
  shows "acc_ok [] P (resolve_primaries classify rows execution)"
proof (cases "explicit_primary execution")
  case None
  have "acc_ok [] P ([], [])" by (simp add: acc_ok_def)
  with None assms(1) show ?thesis
    by (auto simp: resolve_primaries_def split: option.splits intro!: collect_rows_ok)
next
  case (Some eid)
  with assms(2,3) show ?thesis
    by (auto simp: resolve_primaries_def acc_ok_def split: option.splits dest: rows_by_id_SomeD)
qed

text \<open>The generic fact about a resolved pool, from which its properties follow.\<close>

lemma resolve_executor_pool_ok:
  fixes pkg table execution owner pol
  defines "pool \<equiv> resolve_executor_pool pkg table execution owner pol"
  assumes row: "\<And>r prim src desc. r \<in> set table \<Longrightarrow>
      owner_email r = Some owner \<or> is_shared_owner_email (owner_email r) \<Longrightarrow>
      P prim (target_from_row r prim src desc (classify_state pkg (Some r) pol (Some owner)))"
    and missing: "\<And>eid prim src desc. P prim (missing_target eid prim src desc)"
  shows "distinct (map t_executor_id (pool_all pool))"
    and "t \<in> set (primary pool) \<Longrightarrow> P True t"
    and "t \<in> set (additional pool) \<Longrightarrow> P False t"
proof -
  define ex where "ex = (case execution of None \<Rightarrow> [] | Some d \<Rightarrow> d)"
  define bs where "bs = parse_additional_executors (Some ex)"
  define rows where "rows = list_executors table owner (candidate_ids ex bs)"
  define classify where "classify = (\<lambda>r. classify_state pkg (Some r) pol (Some owner))"
  define prims where "prims = resolve_primaries classify rows ex"
  have rowsP: "P prim (target_from_row r prim src desc (classify r))" if "r \<in> set rows" for r prim src desc
    using that row by (auto simp: rows_def list_executors_def classify_def)
  have p: "acc_ok [] (P True) prims"
    unfolding prims_def by (rule resolve_primaries_ok) (auto intro: rowsP missing)
  then have "acc_ok (fst prims) (P False) ([], snd prims)"
    by (auto simp: acc_ok_def)
  then have a: "acc_ok (fst prims) (P False) (fold (add_binding classify rows) bs ([], snd prims))"
    by (rule fold_add_binding_ok) (auto intro: rowsP missing)
  have pool: "pool = \<lparr>primary = fst prims,
      additional = fst (fold (add_binding classify rows) bs ([], snd prims))\<rparr>"
    by (simp add: pool_def resolve_executor_pool_def ex_def bs_def rows_def classify_def prims_def Let_def)
  show "distinct (map t_executor_id (pool_all pool))"
    using a by (simp add: acc_ok_def pool pool_all_def)
  show "t \<in> set (primary pool) \<Longrightarrow> P True t" "t \<in> set (additional pool) \<Longrightarrow> P False t"
    using p a by (auto simp: acc_ok_def pool)
qed

text \<open>
  One target per executor: in a resolved pool no executor id occurs twice, so an executor
  bound both as primary and as additional is primary only, and \<open>by_id\<close> finds the one target.
\<close>

theorem pool_ids_distinct:
  "distinct (map t_executor_id (pool_all (resolve_executor_pool pkg table execution owner pol)))"
  by (rule resolve_executor_pool_ok [where P = "\<lambda>_ _. True"]) simp_all

text \<open>When the row checks let an executor take work.\<close>

definition row_runs_work :: "bool \<Rightarrow> executor_policy \<Rightarrow> string \<Rightarrow> executor_row \<Rightarrow> bool" where
  "row_runs_work pkg pol owner r \<longleftrightarrow>
     visible_to (Some owner) r \<and> status r = ''active'' \<and>
     is_executor_type_allowed pkg (executor_type r) pol \<and>
     desired_config_version r = applied_config_version r \<and>
     (executor_type r = ''in_process'' \<or> runtime_state r \<in> {''active'', ''degraded''})"

lemma classify_state_usable_iff:
  "is_state_usable (classify_state pkg (Some r) pol (Some owner)) \<longleftrightarrow> row_runs_work pkg pol owner r"
  using allowed_imp_available [of pkg "executor_type r" pol]
  by (auto simp: classify_state_def is_state_usable_def row_runs_work_def visible_to_def Let_def)

lemma classify_state_visible:
  "owner_email r = Some owner \<or> is_shared_owner_email (owner_email r) \<Longrightarrow>
     classify_state pkg (Some r) pol (Some owner) \<noteq> UNAUTHORIZED"
  by (auto simp: classify_state_def Let_def)

text \<open>What holds of every target of a resolved pool, primary or additional.\<close>

definition target_sound ::
  "bool \<Rightarrow> executor_row list \<Rightarrow> executor_policy \<Rightarrow> string \<Rightarrow> bool \<Rightarrow> resolved_target \<Rightarrow> bool" where
  "target_sound pkg table pol owner prim t \<longleftrightarrow>
     t_state t \<noteq> UNAUTHORIZED \<and> (t_is_primary t \<longleftrightarrow> prim) \<and>
     (usable t \<longrightarrow> (\<exists>r \<in> set table. executor_id r = t_executor_id t \<and> row_runs_work pkg pol owner r))"

lemma resolved_targets_sound:
  assumes "pool = resolve_executor_pool pkg table execution owner pol"
  shows "t \<in> set (primary pool) \<Longrightarrow> target_sound pkg table pol owner True t"
    and "t \<in> set (additional pool) \<Longrightarrow> target_sound pkg table pol owner False t"
proof -
  have row: "target_sound pkg table pol owner prim
      (target_from_row r prim src desc (classify_state pkg (Some r) pol (Some owner)))"
    if "r \<in> set table" "owner_email r = Some owner \<or> is_shared_owner_email (owner_email r)"
    for r prim src desc
    using that classify_state_visible classify_state_usable_iff
    by (auto simp: target_sound_def usable_def)
  have missing: "target_sound pkg table pol owner prim (missing_target eid prim src desc)"
    for eid prim src desc
    by (simp add: target_sound_def usable_def is_state_usable_def)
  note ok = resolve_executor_pool_ok [where P = "target_sound pkg table pol owner", OF row missing]
  show "t \<in> set (primary pool) \<Longrightarrow> target_sound pkg table pol owner True t"
    using ok(2) assms by blast
  show "t \<in> set (additional pool) \<Longrightarrow> target_sound pkg table pol owner False t"
    using ok(3) assms by blast
qed

lemma usable_target_row:
  assumes "t \<in> set (pool_all (resolve_executor_pool pkg table execution owner pol))" and "usable t"
  shows "\<exists>r \<in> set table. executor_id r = t_executor_id t \<and> row_runs_work pkg pol owner r"
  using assms resolved_targets_sound [OF refl] unfolding pool_all_def target_sound_def by fastforce

text \<open>
  Pool soundness: every target of a resolved pool has a factual state. A usable target comes
  from a row of the table with its id that the owner may see, is active, of an allowed type, with
  its desired configuration applied and its runtime active or degraded (or in-process); no target
  is unauthorized; and a target is flagged primary exactly when it is in the primary list.
\<close>

theorem pool_targets_sound:
  assumes "pool = resolve_executor_pool pkg table execution owner pol"
    and "t \<in> set (pool_all pool)"
  shows "t_state t \<noteq> UNAUTHORIZED \<and> (t_is_primary t \<longleftrightarrow> t \<in> set (primary pool)) \<and>
    (usable t \<longrightarrow> (\<exists>r \<in> set table. executor_id r = t_executor_id t \<and> row_runs_work pkg pol owner r))"
  using assms(2) resolved_targets_sound [OF assms(1), of t]
  by (auto simp: pool_all_def target_sound_def)

lemmas resolve_eval = resolve_executor_pool_def parse_additional_executors_def parse_binding_def
  explicit_primary_def primary_selector_def candidate_ids_def resolve_primaries_def
  list_executors_def rows_by_id_def add_binding_def dict_get_def dict_get_or_def has_id_def
  has_selector_def stripped_text_def labels_match_def

definition demo_pool :: executor_pool where
  "demo_pool = \<lparr>primary = [target_from_row demo_executor True ''explicit'' None USABLE],
     additional = [missing_target ''e2'' False ''additional_explicit'' None]\<rparr>"

definition demo_execution :: "(string \<times> pyval) list" where
  "demo_execution = [(''executor_id'', VStr ''e1''),
     (''additional_executors'', VList [VDict [(''executor_id'', VStr ''e1'')],
                                       VDict [(''executor_id'', VStr '' e2'')]])]"

lemma demo_pool_resolved:
  "resolve_executor_pool False [demo_executor] (Some demo_execution) ''ann@example.com''
     \<lparr>allow_in_process = True, allow_subprocess = True\<rparr> = demo_pool"
  by (simp add: resolve_eval demo_pool_def demo_execution_def demo_executor_def classify_state_def
      policy_defs py_strip_def py_isspace_def Let_def)

theorem pool_targets_sound_witness:
  "usable (hd (primary demo_pool)) \<and>
   (\<exists>r \<in> set [demo_executor]. executor_id r = t_executor_id (hd (primary demo_pool)) \<and>
      row_runs_work False \<lparr>allow_in_process = True, allow_subprocess = True\<rparr> ''ann@example.com'' r)"
proof -
  have "hd (primary demo_pool) \<in> set (pool_all demo_pool)" and "usable (hd (primary demo_pool))"
    by (simp_all add: demo_pool_def pool_all_def usable_def is_state_usable_def)
  with pool_targets_sound [OF demo_pool_resolved [symmetric]] show ?thesis by blast
qed

lemma pick_initial_active_primary:
  "pick_initial_active pool = Some t \<Longrightarrow> t \<in> set (usable_primaries pool)"
  unfolding pick_initial_active_def by (metis list.case_eq_if list.set_sel(1) option.distinct(1)
      option.inject set_sort)

text \<open>
  The initial executor: \<open>pick_initial_active\<close> returns nothing exactly when no primary is usable;
  otherwise it returns a usable primary that no usable primary beats, a fully usable one before a
  degraded one and the smaller executor id among equals. Additional executors are never chosen.
\<close>

theorem pick_initial_active_best:
  "case pick_initial_active pool of
     None \<Rightarrow> \<forall>t \<in> set (primary pool). \<not> usable t
   | Some t \<Rightarrow> t \<in> set (primary pool) \<and> usable t \<and>
       (\<forall>u \<in> set (primary pool). usable u \<longrightarrow>
          (t_state u = USABLE \<longrightarrow> t_state t = USABLE) \<and>
          (t_state u = t_state t \<longrightarrow> t_executor_id t \<le> t_executor_id u))"
proof (cases "sort_key sort_rank (usable_primaries pool)")
  case Nil
  then have "usable_primaries pool = []"
    by (metis length_0_conv length_sort)
  with Nil show ?thesis
    by (simp add: pick_initial_active_def usable_primaries_def filter_empty_conv)
next
  case (Cons t ts)
  have set: "set (t # ts) = set (usable_primaries pool)"
    by (metis Cons set_sort)
  have "sorted (map sort_rank (t # ts))"
    by (metis Cons sorted_sort_key)
  then have le: "sort_rank t \<le> sort_rank u" if "u \<in> set (usable_primaries pool)" for u
    using that set by auto
  have "(t_state u = USABLE \<longrightarrow> t_state t = USABLE) \<and>
        (t_state u = t_state t \<longrightarrow> t_executor_id t \<le> t_executor_id u)"
    if "u \<in> set (usable_primaries pool)" for u
    using le [OF that] by (auto simp: sort_rank_def less_eq_prod_def split: if_splits)
  moreover have "pick_initial_active pool = Some t"
    by (simp add: pick_initial_active_def Cons)
  ultimately show ?thesis
    using set by (auto simp: usable_primaries_def)
qed

theorem pick_initial_active_best_witness:
  "\<exists>t. pick_initial_active demo_pool = Some t \<and> t \<in> set (primary demo_pool) \<and> usable t"
proof -
  have p: "pick_initial_active demo_pool = Some (hd (primary demo_pool))"
    by (simp add: pick_initial_active_def usable_primaries_def demo_pool_def usable_def is_state_usable_def)
  show ?thesis
    using pick_initial_active_best [of demo_pool] unfolding p by simp
qed

end
