(* ===== verification/Executor_Pins.thy ===== *)
theory Executor_Pins
  imports Executor_Pool
begin

section \<open>Active executor pins\<close>

text \<open>
  The pin of a conversation or a task on its active executor: the columns
  \<open>active_executor_*\<close> of both tables and the statements of \<open>cognis/store/queries.py\<close> that change
  them, the failover ledger and notice outbox, \<open>cognis/core/executor_pin_lifecycle.py\<close> and
  \<open>cognis/core/executor_switching.py\<close>.

  A statement is a function on the tables. Where the source runs inside the caller's
  transaction and raises, the model returns the error and the tables as they were, which is
  what the rollback leaves. The columns \<open>updated_at\<close> are not modelled. A task's pin is the
  authority; a conversation that belongs to a task carries a projection of it.
\<close>

named_theorems pin_defs \<open>definitions of the pin statements\<close>

subsection \<open>Tables\<close>

record pin =
  active_executor_id :: "string option"
  active_executor_assigned_at :: "time option"
  active_executor_expires_at :: "time option"
  active_executor_source :: "string option"
  active_executor_unavailable_since :: "time option"
  active_executor_generation :: int

record conversation_row =
  conv_pin :: pin
  active_session_id :: "string option"

record session_row =
  intaris_session_id :: "string option"
  session_user_email :: "string option"
  session_agent_id :: "string option"

record pin_transition =
  transition_id :: string
  scope_type :: string
  scope_id :: string
  transition_generation :: int
  old_executor_id :: string
  new_executor_id :: string
  transition_reason :: string
  state_caveat :: string
  notice_id :: string

record pin_notice =
  outbox_id :: string
  notice_transition_id :: string
  notice_conversation_id :: string
  notice_intaris_session_id :: "string option"
  idempotency_key :: string
  notice_user_email :: "string option"
  notice_agent_id :: "string option"
  payload :: "(string \<times> pyval) list"

record pin_db =
  conversations :: "string \<rightharpoonup> conversation_row"
  tasks :: "string \<rightharpoonup> pin"
  sessions :: "string \<rightharpoonup> session_row"
  transitions :: "pin_transition list"
  outbox :: "pin_notice list"

datatype pin_error = Projection_Lost | Integrity_Error

text \<open>\<open>if task_id:\<close> and \<open>if conversation_id:\<close> treat the empty string as absent.\<close>

definition given :: "string option \<Rightarrow> string option" where
  "given x = (if x = Some [] then None else x)"

definition set_conv :: "string \<Rightarrow> pin \<Rightarrow> pin_db \<Rightarrow> pin_db" where
  "set_conv cid p db =
     (case conversations db cid of
        None \<Rightarrow> db
      | Some c \<Rightarrow> db\<lparr>conversations := (conversations db)(cid \<mapsto> c\<lparr>conv_pin := p\<rparr>)\<rparr>)"

definition set_task :: "string \<Rightarrow> pin \<Rightarrow> pin_db \<Rightarrow> pin_db" where
  "set_task tid p db = db\<lparr>tasks := (tasks db)(tid \<mapsto> p)\<rparr>"

subsection \<open>Setting and initialising\<close>

text \<open>The row values shared by \<open>set_conversation_active_executor\<close> and
  \<open>set_task_active_executor\<close>: without an executor all pin columns are cleared.\<close>

definition set_pin ::
  "string option \<Rightarrow> time \<Rightarrow> time option \<Rightarrow> string option \<Rightarrow> time option \<Rightarrow> pin \<Rightarrow> pin" where
  "set_pin eid timestamp expires source unavailable p =
     \<lparr>active_executor_id = eid,
      active_executor_assigned_at = (if given eid = None then None else Some timestamp),
      active_executor_expires_at = (if given eid = None then None else expires),
      active_executor_source = (if given eid = None then None else source),
      active_executor_unavailable_since = (if given eid = None then None else unavailable),
      active_executor_generation = active_executor_generation p + 1\<rparr>"

definition set_conversation_active_executor ::
  "string \<Rightarrow> string option \<Rightarrow> time \<Rightarrow> time option \<Rightarrow> string option \<Rightarrow> time option \<Rightarrow> pin_db \<Rightarrow> pin_db \<times> bool" where
  "set_conversation_active_executor cid eid timestamp expires source unavailable db =
     (case conversations db cid of
        None \<Rightarrow> (db, False)
      | Some c \<Rightarrow>
          (set_conv cid (set_pin eid timestamp expires source unavailable (conv_pin c)) db, True))"

definition reset_conversation_active_executor :: "string \<Rightarrow> time \<Rightarrow> pin_db \<Rightarrow> pin_db \<times> bool" where
  "reset_conversation_active_executor cid timestamp db =
     set_conversation_active_executor cid None timestamp None None None db"

definition set_task_active_executor ::
  "string \<Rightarrow> string option \<Rightarrow> time \<Rightarrow> time option \<Rightarrow> string option \<Rightarrow> time option \<Rightarrow> pin_db \<Rightarrow> pin_db \<times> bool" where
  "set_task_active_executor tid eid timestamp expires source unavailable db =
     (case tasks db tid of
        None \<Rightarrow> (db, False)
      | Some p \<Rightarrow> (set_task tid (set_pin eid timestamp expires source unavailable p) db, True))"

text \<open>The values an initial pick writes; the unavailability marker is left alone.\<close>

definition init_pin :: "string \<Rightarrow> time \<Rightarrow> time option \<Rightarrow> string \<Rightarrow> pin \<Rightarrow> pin" where
  "init_pin eid timestamp expires source p =
     p\<lparr>active_executor_id := Some eid, active_executor_assigned_at := Some timestamp,
       active_executor_expires_at := expires, active_executor_source := Some source,
       active_executor_generation := active_executor_generation p + 1\<rparr>"

definition initialize_conversation_active_executor ::
  "string \<Rightarrow> string \<Rightarrow> time \<Rightarrow> time option \<Rightarrow> string \<Rightarrow> pin_db \<Rightarrow> pin_db \<times> bool" where
  "initialize_conversation_active_executor cid eid timestamp expires source db =
     (case conversations db cid of
        None \<Rightarrow> (db, False)
      | Some c \<Rightarrow>
          if active_executor_id (conv_pin c) = None
          then (set_conv cid (init_pin eid timestamp expires source (conv_pin c)) db, True)
          else (db, False))"

definition initialize_task_active_executor ::
  "string \<Rightarrow> string \<Rightarrow> time \<Rightarrow> time option \<Rightarrow> string \<Rightarrow> pin_db \<Rightarrow> pin_db \<times> bool" where
  "initialize_task_active_executor tid eid timestamp expires source db =
     (case tasks db tid of
        None \<Rightarrow> (db, False)
      | Some p \<Rightarrow>
          if active_executor_id p = None
          then (set_task tid (init_pin eid timestamp expires source p) db, True)
          else (db, False))"

text \<open>
  The task update wins or loses; either way the conversation then shows the task's pin. The
  \<open>RuntimeError\<close> for a lost projection cannot arise: the conversation row is locked.
\<close>

definition initialize_task_and_conversation_active_executor ::
  "string \<Rightarrow> string \<Rightarrow> string \<Rightarrow> time \<Rightarrow> string \<Rightarrow> pin_db \<Rightarrow> pin_db \<times> bool" where
  "initialize_task_and_conversation_active_executor tid cid eid timestamp source db =
     (case conversations db cid of
        None \<Rightarrow> (db, False)
      | Some c \<Rightarrow>
          (let (db1, won) = initialize_task_active_executor tid eid timestamp None source db
           in case tasks db1 tid of
                None \<Rightarrow> (db1, False)
              | Some p \<Rightarrow>
                  if given (active_executor_id p) = None then (db1, False)
                  else (set_conv cid p db1, won)))"

subsection \<open>Switching\<close>

definition switch_pin :: "string \<Rightarrow> time \<Rightarrow> time option \<Rightarrow> string \<Rightarrow> pin \<Rightarrow> pin" where
  "switch_pin eid timestamp expires source p =
     \<lparr>active_executor_id = Some eid, active_executor_assigned_at = Some timestamp,
      active_executor_expires_at = expires, active_executor_source = Some source,
      active_executor_unavailable_since = None,
      active_executor_generation = active_executor_generation p + 1\<rparr>"

definition switch_task_and_conversation_active_executor ::
  "string \<Rightarrow> string \<Rightarrow> string \<Rightarrow> time \<Rightarrow> time option \<Rightarrow> string \<Rightarrow> pin_db \<Rightarrow> pin_db \<times> bool \<times> int" where
  "switch_task_and_conversation_active_executor tid cid eid timestamp expires source db =
     (case conversations db cid of
        None \<Rightarrow> (db, False, 0)
      | Some c \<Rightarrow>
          (case tasks db tid of
             None \<Rightarrow> (db, False, 0)
           | Some p \<Rightarrow>
               (let p' = switch_pin eid timestamp expires source p
                in (set_conv cid p' (set_task tid p' db), True, active_executor_generation p'))))"

subsection \<open>Failover by compare-and-swap\<close>

definition pin_matches :: "string \<Rightarrow> int \<Rightarrow> pin \<Rightarrow> bool" where
  "pin_matches eid gen p \<longleftrightarrow>
     active_executor_id p = Some eid \<and> active_executor_generation p = gen"

definition CAVEAT :: string where
  "CAVEAT = ''The controller did not replay any in-flight, accepted-unknown, or partially delivered operation.''"

definition failover_message :: "string \<Rightarrow> string \<Rightarrow> string \<Rightarrow> string" where
  "failover_message old new reason =
     ''Executor changed from '' @ quoted old @ '' to '' @ quoted new @ '': '' @ reason @ ''. '' @ CAVEAT"

definition opt_val :: "string option \<Rightarrow> pyval" where
  "opt_val x = (case x of None \<Rightarrow> VNone | Some s \<Rightarrow> VStr s)"

text \<open>The ledger row of a transition and the outbox notice that announces it.\<close>

definition transition_of ::
  "string option \<Rightarrow> string option \<Rightarrow> string \<Rightarrow> string \<Rightarrow> string \<Rightarrow> int \<Rightarrow> pin_transition" where
  "transition_of task_id conversation_id old new reason gen =
     (let authority = (case task_id of Some t \<Rightarrow> t
                       | None \<Rightarrow> (case conversation_id of Some c \<Rightarrow> c | None \<Rightarrow> ''None''))
      in \<lparr>transition_id = ''epin_'' @ authority @ ''_'' @ show_int gen,
          scope_type = (if given task_id \<noteq> None then ''task'' else ''conversation''),
          scope_id = (case given task_id of Some t \<Rightarrow> t
                      | None \<Rightarrow> (case conversation_id of Some c \<Rightarrow> c | None \<Rightarrow> '''')),
          transition_generation = gen, old_executor_id = old, new_executor_id = new,
          transition_reason = reason, state_caveat = CAVEAT,
          notice_id = ''executor_failover:'' @ authority @ '':'' @ show_int gen\<rparr>)"

definition failover_payload :: "pin_transition \<Rightarrow> string \<Rightarrow> string \<Rightarrow> session_row option \<Rightarrow> (string \<times> pyval) list" where
  "failover_payload tr cid key s =
     (let msg = VStr (failover_message (old_executor_id tr) (new_executor_id tr) (transition_reason tr));
          sid = (case s of None \<Rightarrow> None | Some r \<Rightarrow> given (intaris_session_id r))
      in [(''event'', VStr ''system_notice''), (''type'', VStr ''system_notice''),
          (''kind'', VStr ''executor_failover''), (''notice_id'', VStr (notice_id tr)),
          (''old_executor_id'', VStr (old_executor_id tr)),
          (''new_executor_id'', VStr (new_executor_id tr)),
          (''reason'', VStr (transition_reason tr)), (''state_caveat'', VStr CAVEAT),
          (''replay_claim'', VBool False), (''message'', msg), (''text'', msg),
          (''session_id'', VStr (case sid of Some x \<Rightarrow> x | None \<Rightarrow> cid)),
          (''idempotency_key'', VStr key),
          (''user_email'', opt_val (Option.bind s session_user_email)),
          (''agent_id'', opt_val (Option.bind s session_agent_id))])"

definition active_session :: "pin_db \<Rightarrow> string \<Rightarrow> session_row option" where
  "active_session db cid =
     (case conversations db cid of
        None \<Rightarrow> None
      | Some c \<Rightarrow> (case given (active_session_id c) of None \<Rightarrow> None | Some sid \<Rightarrow> sessions db sid))"

definition notice_of :: "pin_transition \<Rightarrow> string \<Rightarrow> pin_db \<Rightarrow> pin_notice" where
  "notice_of tr cid db =
     (let s = active_session db cid; isid = Option.bind s intaris_session_id;
          key = (case given isid of Some x \<Rightarrow> x | None \<Rightarrow> cid) @ '':executor_failover:'' @ notice_id tr
      in \<lparr>outbox_id = ''epout_'' @ cid @ ''_'' @ show_int (transition_generation tr),
          notice_transition_id = transition_id tr, notice_conversation_id = cid,
          notice_intaris_session_id = isid, idempotency_key = key,
          notice_user_email = Option.bind s session_user_email,
          notice_agent_id = Option.bind s session_agent_id,
          payload = failover_payload tr cid key s\<rparr>)"

text \<open>Unique columns of the two tables.\<close>

definition transition_clash :: "pin_transition \<Rightarrow> pin_db \<Rightarrow> bool" where
  "transition_clash tr db = list_ex (\<lambda>u. transition_id u = transition_id tr \<or> notice_id u = notice_id tr \<or>
     (scope_type u = scope_type tr \<and> scope_id u = scope_id tr \<and>
      transition_generation u = transition_generation tr)) (transitions db)"

definition notice_clash :: "pin_notice \<Rightarrow> pin_db \<Rightarrow> bool" where
  "notice_clash n db = list_ex (\<lambda>m. outbox_id m = outbox_id n \<or>
     notice_transition_id m = notice_transition_id n \<or> idempotency_key m = idempotency_key n) (outbox db)"

definition record_failover ::
  "string option \<Rightarrow> string option \<Rightarrow> string \<Rightarrow> string \<Rightarrow> string \<Rightarrow> int \<Rightarrow> pin_db
     \<Rightarrow> (pin_error, pin_db \<times> string) result" where
  "record_failover task_id conversation_id old new reason gen db =
     (let tr = transition_of task_id conversation_id old new reason gen
      in if transition_clash tr db then Inl Integrity_Error
         else let db1 = db\<lparr>transitions := transitions db @ [tr]\<rparr>
              in case given conversation_id of
                   None \<Rightarrow> Inr (db1, notice_id tr)
                 | Some cid \<Rightarrow>
                     (let n = notice_of tr cid db1
                      in if notice_clash n db1 then Inl Integrity_Error
                         else Inr (db1\<lparr>outbox := outbox db1 @ [n]\<rparr>, notice_id tr)))"

definition failover_pin :: "string \<Rightarrow> time \<Rightarrow> string \<Rightarrow> int \<Rightarrow> pin" where
  "failover_pin eid timestamp source gen =
     \<lparr>active_executor_id = Some eid, active_executor_assigned_at = Some timestamp,
      active_executor_expires_at = None, active_executor_source = Some source,
      active_executor_unavailable_since = None, active_executor_generation = gen\<rparr>"

definition swap_pins ::
  "string option \<Rightarrow> string option \<Rightarrow> string \<Rightarrow> string \<Rightarrow> int \<Rightarrow> time \<Rightarrow> string \<Rightarrow> pin_db \<Rightarrow> pin_db option" where
  "swap_pins conversation_id task_id expected new gen timestamp source db =
     (case given task_id of
        Some tid \<Rightarrow>
          (case given conversation_id of
             None \<Rightarrow> None
           | Some cid \<Rightarrow>
               (case conversations db cid of
                  None \<Rightarrow> None
                | Some c \<Rightarrow>
                    (case tasks db tid of
                       None \<Rightarrow> None
                     | Some p \<Rightarrow>
                         if pin_matches expected gen p
                         then Some (set_conv cid (failover_pin new timestamp source (gen + 1))
                                (set_task tid (failover_pin new timestamp source (gen + 1)) db))
                         else None)))
      | None \<Rightarrow>
          (case given conversation_id of
             None \<Rightarrow> None
           | Some cid \<Rightarrow>
               (case conversations db cid of
                  None \<Rightarrow> None
                | Some c \<Rightarrow>
                    if pin_matches expected gen (conv_pin c)
                    then Some (set_conv cid (failover_pin new timestamp source (gen + 1)) db)
                    else None)))"

definition cas_executor_failover ::
  "string option \<Rightarrow> string option \<Rightarrow> string \<Rightarrow> string \<Rightarrow> int \<Rightarrow> string \<Rightarrow> time \<Rightarrow> string \<Rightarrow> pin_db
     \<Rightarrow> (pin_error, pin_db \<times> bool \<times> int \<times> string option) result" where
  "cas_executor_failover conversation_id task_id expected new gen reason timestamp source db =
     (case swap_pins conversation_id task_id expected new gen timestamp source db of
        None \<Rightarrow> Inr (db, False, gen, None)
      | Some db1 \<Rightarrow>
          res_bind (record_failover task_id conversation_id expected new reason (gen + 1) db1)
            (\<lambda>(db2, nid). Inr (db2, True, gen + 1, Some nid)))"

lemmas [pin_defs] = set_conv_def set_task_def set_pin_def init_pin_def switch_pin_def
  set_conversation_active_executor_def reset_conversation_active_executor_def
  set_task_active_executor_def initialize_conversation_active_executor_def
  initialize_task_active_executor_def initialize_task_and_conversation_active_executor_def
  switch_task_and_conversation_active_executor_def failover_pin_def swap_pins_def

subsection \<open>Provenance and unavailability markers\<close>

definition legacy_source :: "pin \<Rightarrow> bool" where
  "legacy_source p \<longleftrightarrow> active_executor_source p = None \<or> active_executor_source p = Some ''initial''"

definition canonicalize_executor_pin_source ::
  "string option \<Rightarrow> string option \<Rightarrow> string \<Rightarrow> int \<Rightarrow> string \<Rightarrow> pin_db
     \<Rightarrow> (pin_error, pin_db \<times> bool) result" where
  "canonicalize_executor_pin_source conversation_id task_id expected gen source db =
     (if given task_id \<noteq> None \<and> given conversation_id = None then Inr (db, False)
      else case given task_id of
        Some tid \<Rightarrow>
          (case conversations db (the (given conversation_id)) of
             None \<Rightarrow> Inr (db, False)
           | Some c \<Rightarrow>
               (case tasks db tid of
                  None \<Rightarrow> Inr (db, False)
                | Some p \<Rightarrow>
                    if \<not> (pin_matches expected gen p \<and> legacy_source p) then Inr (db, False)
                    else if \<not> pin_matches expected gen (conv_pin c) then Inl Projection_Lost
                    else Inr (set_conv (the (given conversation_id))
                                (conv_pin c\<lparr>active_executor_source := Some source\<rparr>)
                                (set_task tid (p\<lparr>active_executor_source := Some source\<rparr>) db), True)))
      | None \<Rightarrow>
          (case given conversation_id of
             None \<Rightarrow> Inr (db, False)
           | Some cid \<Rightarrow>
               (case conversations db cid of
                  None \<Rightarrow> Inr (db, False)
                | Some c \<Rightarrow>
                    if pin_matches expected gen (conv_pin c) \<and> legacy_source (conv_pin c)
                    then Inr (set_conv cid (conv_pin c\<lparr>active_executor_source := Some source\<rparr>) db, True)
                    else Inr (db, False))))"

definition markable :: "string \<Rightarrow> int \<Rightarrow> pin \<Rightarrow> bool" where
  "markable expected gen p \<longleftrightarrow>
     pin_matches expected gen p \<and> active_executor_unavailable_since p = None"

definition mark :: "time \<Rightarrow> pin \<Rightarrow> pin" where
  "mark t p = p\<lparr>active_executor_unavailable_since := Some t\<rparr>"

definition task_marker :: "pin_db \<Rightarrow> string \<Rightarrow> time option" where
  "task_marker db tid = Option.bind (tasks db tid) active_executor_unavailable_since"

definition conv_marker :: "pin_db \<Rightarrow> string \<Rightarrow> time option" where
  "conv_marker db cid =
     Option.bind (conversations db cid) (\<lambda>c. active_executor_unavailable_since (conv_pin c))"

text \<open>
  With a task and a conversation the two updates share a savepoint: a projection that does not
  match undoes the task update, and the caller sees the task's marker as it stands.
\<close>

definition mark_executor_unavailable ::
  "string option \<Rightarrow> string option \<Rightarrow> string \<Rightarrow> int \<Rightarrow> time \<Rightarrow> pin_db \<Rightarrow> pin_db \<times> bool \<times> time option" where
  "mark_executor_unavailable conversation_id task_id expected gen observed db =
     (case (given task_id, given conversation_id) of
        (Some tid, Some cid) \<Rightarrow>
          (case conversations db cid of
             None \<Rightarrow> (db, False, None)
           | Some c \<Rightarrow>
               (case tasks db tid of
                  None \<Rightarrow> (db, False, None)
                | Some p \<Rightarrow>
                    if \<not> markable expected gen p then (db, False, task_marker db tid)
                    else if \<not> markable expected gen (conv_pin c) then (db, False, task_marker db tid)
                    else (set_conv cid (mark observed (conv_pin c))
                            (set_task tid (mark observed p) db), True, Some observed)))
      | (Some tid, None) \<Rightarrow>
          (case tasks db tid of
             None \<Rightarrow> (db, False, None)
           | Some p \<Rightarrow>
               if markable expected gen p
               then (set_task tid (mark observed p) db, True, Some observed)
               else (db, False, task_marker db tid))
      | (None, Some cid) \<Rightarrow>
          (case conversations db cid of
             None \<Rightarrow> (db, False, None)
           | Some c \<Rightarrow>
               if markable expected gen (conv_pin c)
               then (set_conv cid (mark observed (conv_pin c)) db, True, Some observed)
               else (db, False, conv_marker db cid))
      | (None, None) \<Rightarrow> (db, False, None))"

definition unmark :: "pin \<Rightarrow> pin" where
  "unmark p = p\<lparr>active_executor_unavailable_since := None\<rparr>"

definition clear_conversation_marker :: "string \<Rightarrow> string \<Rightarrow> int \<Rightarrow> pin_db \<Rightarrow> pin_db \<times> bool" where
  "clear_conversation_marker cid expected gen db =
     (case conversations db cid of
        None \<Rightarrow> (db, False)
      | Some c \<Rightarrow>
          if pin_matches expected gen (conv_pin c)
          then (set_conv cid (unmark (conv_pin c)) db, True) else (db, False))"

definition clear_executor_unavailable ::
  "string option \<Rightarrow> string option \<Rightarrow> string \<Rightarrow> int \<Rightarrow> pin_db \<Rightarrow> pin_db \<times> bool" where
  "clear_executor_unavailable conversation_id task_id expected gen db =
     (case given task_id of
        Some tid \<Rightarrow>
          (case tasks db tid of
             None \<Rightarrow> (db, False)
           | Some p \<Rightarrow>
               if pin_matches expected gen p
               then (case given conversation_id of
                       None \<Rightarrow> (set_task tid (unmark p) db, True)
                     | Some cid \<Rightarrow>
                         (fst (clear_conversation_marker cid expected gen
                                 (set_task tid (unmark p) db)), True))
               else (db, False))
      | None \<Rightarrow>
          (case given conversation_id of
             None \<Rightarrow> (db, False)
           | Some cid \<Rightarrow> clear_conversation_marker cid expected gen db))"

lemmas [pin_defs] = canonicalize_executor_pin_source_def mark_executor_unavailable_def mark_def
  unmark_def clear_conversation_marker_def clear_executor_unavailable_def

subsection \<open>Lifecycle policy\<close>

definition CANONICAL_PIN_SOURCES :: "string list" where
  "CANONICAL_PIN_SOURCES = [''selector_primary'', ''explicit_primary'', ''additional'']"

definition normalize_active_executor_source ::
  "string option \<Rightarrow> time option \<Rightarrow> (string \<times> pyval) list option \<Rightarrow> string option" where
  "normalize_active_executor_source source expires execution =
     (if source \<in> Some ` set CANONICAL_PIN_SOURCES then source
      else if source \<in> {Some ''additional_explicit'', Some ''additional''} then Some ''additional''
      else if source \<in> {Some ''selector'', Some ''auto_failover''} then Some ''selector_primary''
      else if source = Some ''explicit'' then Some ''explicit_primary''
      else if source \<in> {None, Some ''initial'', Some ''default''} then
        (if expires \<noteq> None then Some ''additional''
         else let ex = (case execution of None \<Rightarrow> [] | Some d \<Rightarrow> d)
              in if truthy (dict_get ex ''executor_id'') then Some ''explicit_primary''
                 else case dict_get ex ''executor_selector'' of
                        VDict d \<Rightarrow> (if d = [] then None else Some ''selector_primary'')
                      | _ \<Rightarrow> None)
      else if source \<in> {Some ''user_switch'', Some ''agent_switch''} then
        (if expires \<noteq> None then Some ''additional'' else Some ''explicit_primary'')
      else source)"

definition secondary_pin_expires_at :: "int \<Rightarrow> time \<Rightarrow> time" where
  "secondary_pin_expires_at ttl_seconds assigned_at = assigned_at + ttl_seconds * 1000000"

definition pin_expired :: "time option \<Rightarrow> time \<Rightarrow> bool" where
  "pin_expired expires now = (case expires of None \<Rightarrow> False | Some e \<Rightarrow> e \<le> now)"

text \<open>
  \<open>ready\<close> stands for the transport: \<open>None\<close> without a provider, otherwise whether the provider has
  a ready connection to an executor.
\<close>

definition target_ready :: "(string \<Rightarrow> bool) option \<Rightarrow> resolved_target \<Rightarrow> bool" where
  "target_ready ready t =
     (if \<not> usable t then False
      else if t_executor_type t \<notin> {''websocket'', ''subprocess''} \<or> ready = None then True
      else the ready (t_executor_id t))"

record fallback_notice =
  previous_executor :: string
  fallback_executor :: string
  fallback_reason :: string
  ui_message :: string
  llm_message :: string

definition make_fallback_notice :: "string \<Rightarrow> string \<Rightarrow> string \<Rightarrow> fallback_notice" where
  "make_fallback_notice previous new reason =
     \<lparr>previous_executor = previous, fallback_executor = new, fallback_reason = reason,
      ui_message = ''Executor '' @ quoted previous @ '' is no longer available ('' @ reason
        @ ''). Switched active executor to selector-matching primary '' @ quoted new
        @ ''. No in-flight, accepted-unknown, or partially delivered operation was replayed.'',
      llm_message = ''The previously active non-primary executor '' @ quoted previous
        @ '' is no longer available ('' @ reason
        @ ''). The controller switched this session back to primary executor '' @ quoted new
        @ ''. Do not assume files, tools, working directory, or local state from ''
        @ quoted previous @ '' are available unless explicitly switched again. ''
        @ ''No in-flight, accepted-unknown, or partially delivered operation was replayed.''\<rparr>"

record pin_result =
  r_active_executor_id :: "string option"
  r_notice :: "fallback_notice option"
  r_transient_unavailable :: bool
  r_retry_after_seconds :: "int option"

definition kept_pin :: "string option \<Rightarrow> pin_result" where
  "kept_pin eid = \<lparr>r_active_executor_id = eid, r_notice = None, r_transient_unavailable = False,
     r_retry_after_seconds = None\<rparr>"

definition fallback_rank :: "(string \<Rightarrow> bool) option \<Rightarrow> resolved_target \<Rightarrow> bool \<times> string" where
  "fallback_rank ready t = (\<not> target_ready ready t, t_executor_id t)"

definition pick_fallback :: "(string \<Rightarrow> bool) option \<Rightarrow> executor_pool \<Rightarrow> resolved_target option" where
  "pick_fallback ready pool =
     (case sort_key (fallback_rank ready) (usable_primaries pool) of [] \<Rightarrow> None | t # _ \<Rightarrow> Some t)"

text \<open>The canonicalisation that precedes the check; an error of it propagates.\<close>

definition canonicalize_pin ::
  "string option \<Rightarrow> string option \<Rightarrow> string \<Rightarrow> pin \<Rightarrow> string option \<Rightarrow> pin_db \<Rightarrow> (pin_error, pin_db) result" where
  "canonicalize_pin conversation_id task_id eid p source db =
     (if source \<in> Some ` set CANONICAL_PIN_SOURCES \<and>
         active_executor_source p \<in> {None, Some ''initial''}
      then res_bind (canonicalize_executor_pin_source conversation_id task_id eid
             (active_executor_generation p) (the source) db) (\<lambda>(db', ok). Inr db')
      else Inr db)"

definition check_target ::
  "(string \<Rightarrow> bool) option \<Rightarrow> executor_pool \<Rightarrow> string \<Rightarrow> int \<Rightarrow> pin_result" where
  "check_target ready pool eid retry_interval =
     (case by_id pool eid of
        Some t \<Rightarrow>
          if target_ready ready t then kept_pin (Some eid)
          else (kept_pin (Some eid))\<lparr>r_transient_unavailable := True,
                 r_retry_after_seconds := Some retry_interval\<rparr>
      | None \<Rightarrow> (kept_pin (Some eid))\<lparr>r_transient_unavailable := True,
                 r_retry_after_seconds := Some retry_interval\<rparr>)"

definition ensure_active_executor_pin ::
  "string option \<Rightarrow> string option \<Rightarrow> executor_pool \<Rightarrow> pin \<Rightarrow> (string \<times> pyval) list option \<Rightarrow>
   (string \<Rightarrow> bool) option \<Rightarrow> int \<Rightarrow> time \<Rightarrow> pin_db \<Rightarrow> (pin_error, pin_db \<times> pin_result) result" where
  "ensure_active_executor_pin conversation_id task_id pool p execution ready retry_interval now db =
     (let source = normalize_active_executor_source (active_executor_source p)
                     (active_executor_expires_at p) execution
      in case given (active_executor_id p) of
           None \<Rightarrow> Inr (db, kept_pin None)
         | Some eid \<Rightarrow>
       res_bind (canonicalize_pin conversation_id task_id eid p source db) (\<lambda>db1.
         if source \<notin> Some ` set CANONICAL_PIN_SOURCES then Inr (db1, kept_pin (Some eid))
         else
           let expired = (source = Some ''additional'' \<and>
                 (active_executor_expires_at p = None \<or> pin_expired (active_executor_expires_at p) now))
           in case (if expired \<and> active_executor_unavailable_since p = None
                    then pick_fallback ready pool else None) of
                None \<Rightarrow> Inr (db1, check_target ready pool eid retry_interval)
              | Some fb \<Rightarrow>
                  if t_row fb = None then Inr (db1, check_target ready pool eid retry_interval)
                  else
                    let reason = (if active_executor_expires_at p = None
                          then ''secondary assignment has no expiry''
                          else ''secondary assignment expired'');
                        fsource = (case execution of None \<Rightarrow> ''selector_primary''
                          | Some d \<Rightarrow> if truthy (dict_get d ''executor_id'')
                                      then ''explicit_primary'' else ''selector_primary'')
                    in res_bind (cas_executor_failover conversation_id task_id eid (t_executor_id fb)
                          (active_executor_generation p) reason now fsource db1)
                        (\<lambda>(db2, persisted, gen, nid).
                           if persisted
                           then Inr (db2, (kept_pin (Some (t_executor_id fb)))\<lparr>r_notice :=
                             Some (make_fallback_notice eid (t_executor_id fb) reason)\<rparr>)
                           else Inr (db1, check_target ready pool eid retry_interval))))"

subsection \<open>Switching on request\<close>

record switch_outcome =
  so_ok :: bool
  so_target :: resolved_target
  so_error_reason :: "string option"
  so_error_detail :: "string option"
  so_is_primary :: bool
  so_available_tools :: "string list option"

definition switch_error :: "resolved_target \<Rightarrow> string \<Rightarrow> string \<Rightarrow> switch_outcome" where
  "switch_error t reason detail = \<lparr>so_ok = False, so_target = t, so_error_reason = Some reason,
     so_error_detail = Some detail, so_is_primary = False, so_available_tools = None\<rparr>"

definition to_tool_result :: "switch_outcome \<Rightarrow> (string \<times> pyval) list" where
  "to_tool_result o' =
     (if so_ok o' then
        [(''status'', VStr ''ok''), (''executor_id'', VStr (t_executor_id (so_target o'))),
         (''executor_type'', VStr (t_executor_type (so_target o'))),
         (''is_primary'', VBool (so_is_primary o')),
         (''state'', VStr (availability_value (t_state (so_target o')))),
         (''description'', opt_val (t_description (so_target o'))),
         (''available_tools'', VList (map VStr
            (case so_available_tools o' of None \<Rightarrow> [] | Some ts \<Rightarrow> ts)))]
      else
        [(''status'', VStr ''error''),
         (''reason'', VStr (case so_error_reason o' of Some (c # cs) \<Rightarrow> c # cs | _ \<Rightarrow> ''unknown_error'')),
         (''detail'', VStr (case so_error_detail o' of Some d \<Rightarrow> d | None \<Rightarrow> '''')),
         (''executor_id'', VStr (t_executor_id (so_target o')))])"

text \<open>
  \<open>ttl\<close> is the configured time to live of a secondary pin, \<open>None\<close> when loading the settings failed
  (3600 seconds are used then). The tables change only when the result is a success: the source
  rolls the transaction back otherwise.
\<close>

definition persist_switch ::
  "string \<Rightarrow> string option \<Rightarrow> resolved_target \<Rightarrow> time \<Rightarrow> time option \<Rightarrow> pin_db \<Rightarrow> pin_db \<times> bool" where
  "persist_switch cid task_id t assigned expires db =
     (let source = (if t_is_primary t then ''explicit_primary'' else ''additional'')
      in case given task_id of
           Some tid \<Rightarrow>
             (case switch_task_and_conversation_active_executor tid cid (t_executor_id t)
                     assigned expires source db of (db', ok, gen) \<Rightarrow> (db', ok))
         | None \<Rightarrow>
             set_conversation_active_executor cid (Some (t_executor_id t)) assigned expires
               (Some source) None db)"

definition perform_executor_switch ::
  "string \<Rightarrow> executor_pool \<Rightarrow> string \<Rightarrow> string option \<Rightarrow> int option \<Rightarrow> time \<Rightarrow> pin_db
     \<Rightarrow> pin_db \<times> switch_outcome" where
  "perform_executor_switch cid pool eid task_id ttl now db =
     (case by_id pool eid of
        None \<Rightarrow> (db, switch_error (missing_target eid False ''unknown'' None) ''not_assigned''
                 (''Executor '' @ quoted eid @ '' is not in the agent'' @ [char_of (39::nat)] @ ''s assigned pool.''))
      | Some t \<Rightarrow>
          if \<not> usable t then (db, switch_error t ''unavailable''
                 (''Executor '' @ quoted eid @ '' is not usable (state: ''
                   @ availability_value (t_state t) @ '').''))
          else
            let expires = (if t_is_primary t then None
                  else Some (secondary_pin_expires_at (case ttl of None \<Rightarrow> 3600 | Some s \<Rightarrow> s) now));
                (db', ok) = persist_switch cid task_id t now expires db
            in if \<not> ok then (db, switch_error t ''conversation_missing''
                 (''Conversation '' @ quoted cid @ '' not found; cannot persist switch.''))
               else (db', \<lparr>so_ok = True, so_target = t, so_error_reason = None,
                       so_error_detail = None,
                       so_is_primary = t_is_primary t,
                       so_available_tools = Some (sort (observed_tool_names t))\<rparr>))"

subsection \<open>Generations\<close>

inductive pin_step :: "pin_db \<Rightarrow> pin_db \<Rightarrow> bool" where
  step_set_conv: "pin_step db (fst (set_conversation_active_executor cid eid t ex src un db))"
| step_set_task: "pin_step db (fst (set_task_active_executor tid eid t ex src un db))"
| step_init_conv: "pin_step db (fst (initialize_conversation_active_executor cid e t ex s db))"
| step_init_task: "pin_step db (fst (initialize_task_active_executor tid e t ex s db))"
| step_init_both: "pin_step db (fst (initialize_task_and_conversation_active_executor tid cid e t s db))"
| step_switch: "pin_step db (fst (switch_task_and_conversation_active_executor tid cid e t ex s db))"
| step_failover: "cas_executor_failover cid' tid' e e' g r t s db = Inr (db', res) \<Longrightarrow> pin_step db db'"
| step_canonical: "canonicalize_executor_pin_source cid' tid' e g s db = Inr (db', ok) \<Longrightarrow> pin_step db db'"
| step_mark: "pin_step db (fst (mark_executor_unavailable cid' tid' e g t db))"
| step_clear: "pin_step db (fst (clear_executor_unavailable cid' tid' e g db))"

text \<open>A task's generation never goes down, and while it stays the executor stays.\<close>

definition pin_le :: "pin \<Rightarrow> pin \<Rightarrow> bool" where
  "pin_le p p' \<longleftrightarrow> active_executor_generation p \<le> active_executor_generation p' \<and>
     (active_executor_generation p = active_executor_generation p' \<longrightarrow>
        active_executor_id p = active_executor_id p')"

definition task_gen_le :: "pin_db \<Rightarrow> pin_db \<Rightarrow> bool" where
  "task_gen_le db db' \<longleftrightarrow>
     (\<forall>tid p. tasks db tid = Some p \<longrightarrow> (\<exists>p'. tasks db' tid = Some p' \<and> pin_le p p'))"

lemma set_conv_tables [simp]:
  "tasks (set_conv cid p db) = tasks db" "transitions (set_conv cid p db) = transitions db"
  "outbox (set_conv cid p db) = outbox db" "sessions (set_conv cid p db) = sessions db"
  by (simp_all add: set_conv_def split: option.splits)

lemma set_task_tables [simp]:
  "tasks (set_task tid p db) = (tasks db)(tid \<mapsto> p)"
  "conversations (set_task tid p db) = conversations db"
  "transitions (set_task tid p db) = transitions db" "outbox (set_task tid p db) = outbox db"
  by (simp_all add: set_task_def)

lemma conversations_set_conv:
  "conversations (set_conv cid p db) =
     (case conversations db cid of None \<Rightarrow> conversations db
      | Some c \<Rightarrow> (conversations db)(cid \<mapsto> c\<lparr>conv_pin := p\<rparr>))"
  by (simp add: set_conv_def split: option.splits)

lemma pin_le_refl [simp]: "pin_le p p"
  by (simp add: pin_le_def)

lemma pin_le_trans: "pin_le p q \<Longrightarrow> pin_le q r \<Longrightarrow> pin_le p r"
  by (auto simp: pin_le_def)

lemma task_gen_le_refl [simp]: "task_gen_le db db"
  by (simp add: task_gen_le_def)

lemma task_gen_le_trans: "task_gen_le a b \<Longrightarrow> task_gen_le b c \<Longrightarrow> task_gen_le a c"
  unfolding task_gen_le_def by (meson pin_le_trans)

text \<open>Every value a statement writes to a task is above the value it replaces.\<close>

lemma pin_le_writes [simp]:
  "pin_le p (set_pin eid t ex src un p)"
  "pin_le p (init_pin e t ex s p)"
  "pin_le p (switch_pin e t ex s p)"
  "pin_le p (p\<lparr>active_executor_source := x\<rparr>)"
  "pin_le p (p\<lparr>active_executor_unavailable_since := y\<rparr>)"
  "active_executor_generation p < g \<Longrightarrow> pin_le p (failover_pin e t s g)"
  by (simp_all add: pin_le_def set_pin_def init_pin_def switch_pin_def failover_pin_def)

lemma record_failover_tasks:
  "record_failover tid cid old new r g db = Inr (db', n) \<Longrightarrow>
     tasks db' = tasks db \<and> conversations db' = conversations db"
  by (auto simp: record_failover_def Let_def split: if_splits option.splits)

lemma swap_pins_task_gen: "swap_pins cid tid e e' g t s db = Some db' \<Longrightarrow> task_gen_le db db'"
  by (auto simp: swap_pins_def pin_matches_def task_gen_le_def split: option.splits if_splits)

lemma cas_task_gen:
  assumes "cas_executor_failover cid tid e e' g r t s db = Inr (db', res)"
  shows "task_gen_le db db'"
proof (cases "swap_pins cid tid e e' g t s db")
  case None
  with assms show ?thesis by (simp add: cas_executor_failover_def)
next
  case (Some db1)
  with assms obtain n where "record_failover tid cid e e' r (g + 1) db1 = Inr (db', n)"
    by (auto simp: cas_executor_failover_def)
  then have "tasks db' = tasks db1" by (simp add: record_failover_tasks)
  with swap_pins_task_gen [OF Some] show ?thesis by (simp add: task_gen_le_def)
qed

lemma pin_step_task_gen: "pin_step db db' \<Longrightarrow> task_gen_le db db'"
proof (induction rule: pin_step.induct)
  case (step_failover cid' tid' e e' g r t s db db' res)
  then show ?case by (rule cas_task_gen)
next
  case (step_init_both db tid cid e t s)
  then show ?case
    by (auto simp: task_gen_le_def initialize_task_and_conversation_active_executor_def
        initialize_task_active_executor_def split: option.splits if_splits prod.splits)
qed (auto simp: task_gen_le_def set_conversation_active_executor_def set_task_active_executor_def
    initialize_conversation_active_executor_def initialize_task_active_executor_def
    switch_task_and_conversation_active_executor_def canonicalize_executor_pin_source_def
    mark_executor_unavailable_def mark_def unmark_def clear_conversation_marker_def
    clear_executor_unavailable_def Let_def split: option.splits if_splits prod.splits)

interpretation pins: mono_system "\<lambda>_. True" pin_step "\<lambda>_. True" task_gen_le
  by unfold_locales (auto intro: task_gen_le_trans pin_step_task_gen)

text \<open>
  The generation of a task's pin identifies its binding: along any sequence of pin
  statements a task keeps its row, its generation never goes down, and as long as the generation
  is the same the executor is the same. A writer that compares the generation cannot be fooled
  by a pin that went away and came back.
\<close>

theorem task_pin_generation:
  assumes "pin_step\<^sup>*\<^sup>* db db'" and "tasks db tid = Some p"
  shows "\<exists>p'. tasks db' tid = Some p' \<and>
    active_executor_generation p \<le> active_executor_generation p' \<and>
    (active_executor_generation p = active_executor_generation p' \<longrightarrow>
       active_executor_id p = active_executor_id p')"
  using pins.steps_le [OF assms(1)] assms(2) by (auto simp: task_gen_le_def pin_le_def)

definition demo_pin :: pin where
  "demo_pin = \<lparr>active_executor_id = Some ''e1'', active_executor_assigned_at = Some 0,
     active_executor_expires_at = None, active_executor_source = Some ''explicit_primary'',
     active_executor_unavailable_since = None, active_executor_generation = 1\<rparr>"

definition demo_db :: pin_db where
  "demo_db = \<lparr>conversations = [''c'' \<mapsto> \<lparr>conv_pin = demo_pin, active_session_id = None\<rparr>],
     tasks = [''t'' \<mapsto> demo_pin], sessions = Map.empty, transitions = [], outbox = []\<rparr>"

theorem task_pin_generation_witness:
  "\<exists>p'. tasks (fst (switch_task_and_conversation_active_executor ''t'' ''c'' ''e2'' 5 None ''additional'' demo_db)) ''t'' = Some p' \<and>
     1 \<le> active_executor_generation p'"
proof -
  have "pin_step\<^sup>*\<^sup>* demo_db
      (fst (switch_task_and_conversation_active_executor ''t'' ''c'' ''e2'' 5 None ''additional'' demo_db))"
    by (rule r_into_rtranclp) (rule step_switch)
  moreover have "tasks demo_db ''t'' = Some demo_pin" by (simp add: demo_db_def)
  ultimately show ?thesis
    using task_pin_generation [of demo_db] by (fastforce simp: demo_pin_def)
qed

lemma swap_pins_stale:
  assumes "given task_id = Some tid" and "tasks db tid = Some p"
    and "active_executor_generation p \<noteq> g"
  shows "swap_pins conversation_id task_id e e' g t s db = None"
  using assms by (auto simp: swap_pins_def pin_matches_def split: option.splits)

lemma cas_persisted:
  assumes "cas_executor_failover cid task_id e e' g r t s db = Inr (db', True, g', n)"
    and "given task_id = Some tid"
  shows "g' = g + 1 \<and> (\<exists>p. tasks db tid = Some p \<and> pin_matches e g p) \<and>
    tasks db' tid = Some (failover_pin e' t s (g + 1)) \<and>
    (\<exists>c. given cid = Some c \<and> map_option conv_pin (conversations db' c) = tasks db' tid)"
proof -
  from assms(1) obtain db1 where sw: "swap_pins cid task_id e e' g t s db = Some db1"
    and rec: "\<exists>n. record_failover task_id cid e e' r (g + 1) db1 = Inr (db', n)" and g: "g' = g + 1"
    by (auto simp: cas_executor_failover_def split: option.splits)
  from rec have same: "tasks db' = tasks db1" "conversations db' = conversations db1"
    by (auto dest: record_failover_tasks)
  from sw assms(2) show ?thesis
    unfolding same
    by (auto simp: g swap_pins_def conversations_set_conv split: option.splits if_splits)
qed

text \<open>
  One failover per generation: once a failover of a task from a given generation has been
  persisted, every later attempt from the same generation, by any controller and after any pin
  statements in between, changes nothing and reports that it lost.
\<close>

theorem failover_once:
  assumes "cas_executor_failover cid task_id e e' g r t s db = Inr (db1, True, g', n)"
    and "given task_id = Some tid" and "pin_step\<^sup>*\<^sup>* db1 db2"
  shows "cas_executor_failover cid2 task_id f f' g r2 t2 s2 db2 = Inr (db2, False, g, None)"
proof -
  have "tasks db1 tid = Some (failover_pin e' t s (g + 1))"
    using cas_persisted [OF assms(1,2)] by simp
  with pins.steps_le [OF assms(3)] obtain p where "tasks db2 tid = Some p"
    and "active_executor_generation p \<noteq> g"
    by (force simp: task_gen_le_def pin_le_def failover_pin_def)
  then have "swap_pins cid2 task_id f f' g t2 s2 db2 = None"
    using assms(2) by (simp add: swap_pins_stale)
  then show ?thesis by (simp add: cas_executor_failover_def)
qed

theorem failover_once_witness:
  "\<exists>db1 n. cas_executor_failover (Some ''c'') (Some ''t'') ''e1'' ''e2'' 1 ''gone'' 9 ''selector_primary'' demo_db
       = Inr (db1, True, 2, n) \<and>
     cas_executor_failover (Some ''c'') (Some ''t'') ''e1'' ''e3'' 1 ''gone'' 10 ''selector_primary'' db1
       = Inr (db1, False, 1, None)"
proof -
  have "given (Some ''t'') = Some ''t''" by (simp add: given_def)
  moreover obtain db1 n where "cas_executor_failover (Some ''c'') (Some ''t'') ''e1'' ''e2'' 1 ''gone'' 9
      ''selector_primary'' demo_db = Inr (db1, True, 2, n)"
    by (simp add: cas_executor_failover_def swap_pins_def given_def demo_db_def demo_pin_def
        pin_matches_def record_failover_def transition_clash_def notice_clash_def set_conv_def
        set_task_def Let_def)
  ultimately show ?thesis
    using failover_once [OF _ _ rtranclp.rtrancl_refl, of "Some ''c''" "Some ''t''"] by fastforce
qed

text \<open>
  The conversation of a task shows the task's pin: after a switch of the task and its
  conversation, after a persisted failover and after an initial pick that leaves the task
  pinned, the conversation's pin columns equal the task's.
\<close>

theorem task_projection_agrees:
  "(switch_task_and_conversation_active_executor tid cid eid t ex src db = (db1, True, g) \<longrightarrow>
      map_option conv_pin (conversations db1 cid) = tasks db1 tid) \<and>
   (cas_executor_failover (Some cid) (Some tid) e e' gen r t s db = Inr (db2, True, g', n) \<and> tid \<noteq> [] \<longrightarrow>
      map_option conv_pin (conversations db2 cid) = tasks db2 tid) \<and>
   (initialize_task_and_conversation_active_executor tid cid eid t s db = (db3, won) \<and>
      conversations db cid \<noteq> None \<and> tasks db3 tid = Some p \<and> given (active_executor_id p) \<noteq> None \<longrightarrow>
      map_option conv_pin (conversations db3 cid) = tasks db3 tid)"
proof (intro conjI impI)
  assume "switch_task_and_conversation_active_executor tid cid eid t ex src db = (db1, True, g)"
  then show "map_option conv_pin (conversations db1 cid) = tasks db1 tid"
    by (auto simp: switch_task_and_conversation_active_executor_def conversations_set_conv Let_def
        split: option.splits)
next
  assume "cas_executor_failover (Some cid) (Some tid) e e' gen r t s db = Inr (db2, True, g', n) \<and> tid \<noteq> []"
  then show "map_option conv_pin (conversations db2 cid) = tasks db2 tid"
    using cas_persisted [of "Some cid" "Some tid" e e' gen r t s db db2 g' n tid]
    by (auto simp: given_def split: if_splits)
next
  assume "initialize_task_and_conversation_active_executor tid cid eid t s db = (db3, won) \<and>
      conversations db cid \<noteq> None \<and> tasks db3 tid = Some p \<and> given (active_executor_id p) \<noteq> None"
  then show "map_option conv_pin (conversations db3 cid) = tasks db3 tid"
    by (auto simp: initialize_task_and_conversation_active_executor_def
        initialize_task_active_executor_def conversations_set_conv split: option.splits if_splits)
qed

theorem task_projection_agrees_witness:
  "\<exists>db1. switch_task_and_conversation_active_executor ''t'' ''c'' ''e2'' 5 None ''additional'' demo_db = (db1, True, 2) \<and>
     map_option conv_pin (conversations db1 ''c'') = tasks db1 ''t''"
proof -
  obtain db1 where "switch_task_and_conversation_active_executor ''t'' ''c'' ''e2'' 5 None ''additional'' demo_db
      = (db1, True, 2)"
    by (simp add: switch_task_and_conversation_active_executor_def demo_db_def demo_pin_def
        switch_pin_def Let_def)
  with task_projection_agrees [of "''t''" "''c''" "''e2''" 5 None "''additional''" demo_db db1 2]
  show ?thesis by blast
qed

text \<open>What the switch relies on the pool for: the target found under an id is one of the pool's,
  with that id.\<close>

locale target_pool =
  fixes find :: "'p \<Rightarrow> string \<Rightarrow> 't option"
    and members :: "'p \<Rightarrow> 't set"
    and ident :: "'t \<Rightarrow> string"
  assumes find_Some: "find p i = Some t \<Longrightarrow> t \<in> members p \<and> ident t = i"
    and find_None: "find p i = None \<Longrightarrow> t \<in> members p \<Longrightarrow> ident t \<noteq> i"
begin

lemma found_iff: "find p i = None \<longleftrightarrow> i \<notin> ident ` members p"
proof (cases "find p i")
  case None
  then show ?thesis using find_None by blast
next
  case (Some t)
  then show ?thesis using find_Some by fastforce
qed

end

interpretation epool: target_pool by_id "\<lambda>pool. set (pool_all pool)" t_executor_id
  by unfold_locales (auto simp: by_id_def dest: find_first_SomeD)

text \<open>
  Switching the active executor: the request succeeds exactly when the executor is in the
  agent's pool, is usable and the conversation (and, for a task, the task) exists. On success the
  conversation is pinned to it with the next generation and the pin expires only if the executor
  is additional; on failure the tables are unchanged and the reason names the first check failed.
\<close>

theorem executor_switch_spec:
  assumes "perform_executor_switch cid pool eid task_id ttl now db = (db', out)"
  shows "(so_ok out \<longleftrightarrow> (\<exists>t \<in> set (pool_all pool). t_executor_id t = eid \<and> by_id pool eid = Some t \<and> usable t) \<and>
       conversations db cid \<noteq> None \<and> (\<forall>tid. given task_id = Some tid \<longrightarrow> tasks db tid \<noteq> None)) \<and>
    (so_ok out \<longrightarrow> (\<exists>c c'. conversations db cid = Some c \<and> conversations db' cid = Some c' \<and>
        active_executor_id (conv_pin c') = Some eid \<and>
        (t_is_primary (so_target out) \<longrightarrow> active_executor_expires_at (conv_pin c') = None) \<and>
        (\<not> t_is_primary (so_target out) \<and> eid \<noteq> [] \<longrightarrow>
           active_executor_expires_at (conv_pin c') =
             Some (secondary_pin_expires_at (case ttl of None \<Rightarrow> 3600 | Some s \<Rightarrow> s) now)) \<and>
        (given task_id = None \<longrightarrow>
           active_executor_generation (conv_pin c') = active_executor_generation (conv_pin c) + 1))) \<and>
    (\<not> so_ok out \<longrightarrow> db' = db \<and>
       (so_error_reason out = Some ''not_assigned'' \<longleftrightarrow> eid \<notin> t_executor_id ` set (pool_all pool)))"
proof (cases "by_id pool eid")
  case None
  with assms show ?thesis
    by (auto simp: perform_executor_switch_def switch_error_def epool.found_iff [symmetric])
next
  case (Some t)
  have t: "t \<in> set (pool_all pool)" "t_executor_id t = eid"
    using epool.find_Some [OF Some] by simp_all
  then have "eid \<in> t_executor_id ` set (pool_all pool)" by blast
  with assms Some t show ?thesis
    by (auto simp: perform_executor_switch_def switch_error_def persist_switch_def
        switch_task_and_conversation_active_executor_def set_conversation_active_executor_def
        conversations_set_conv set_pin_def switch_pin_def given_def Let_def
        split: option.splits if_splits)
qed

theorem executor_switch_spec_witness:
  "\<exists>db' out. perform_executor_switch ''c'' demo_pool ''e1'' None None 7 demo_db = (db', out) \<and> so_ok out \<and>
     (\<exists>c'. conversations db' ''c'' = Some c' \<and> active_executor_id (conv_pin c') = Some ''e1'' \<and>
        active_executor_generation (conv_pin c') = 2)"
proof -
  obtain db' out where run: "perform_executor_switch ''c'' demo_pool ''e1'' None None 7 demo_db = (db', out)"
    by (cases "perform_executor_switch ''c'' demo_pool ''e1'' None None 7 demo_db")
  have "by_id demo_pool ''e1'' = Some (hd (primary demo_pool))" "usable (hd (primary demo_pool))"
    "hd (primary demo_pool) \<in> set (pool_all demo_pool)" "t_executor_id (hd (primary demo_pool)) = ''e1''"
    by (simp_all add: by_id_def pool_all_def demo_pool_def usable_def is_state_usable_def
        target_from_row_def demo_executor_def)
  moreover have "conversations demo_db ''c'' = Some \<lparr>conv_pin = demo_pin, active_session_id = None\<rparr>"
    by (simp add: demo_db_def)
  moreover have "given None = None" by (simp add: given_def)
  ultimately show ?thesis
    using executor_switch_spec [OF run] run by (auto simp: demo_pin_def)
qed

lemma pick_fallback_primary: "pick_fallback ready pool = Some t \<Longrightarrow> t \<in> set (usable_primaries pool)"
  unfolding pick_fallback_def by (metis list.case_eq_if list.set_sel(1) option.distinct(1)
      option.inject set_sort)

lemma check_target_keeps:
  "r_active_executor_id (check_target ready pool eid n) = Some eid"
  "r_notice (check_target ready pool eid n) = None"
  by (simp_all add: check_target_def kept_pin_def split: option.splits)

lemma ensure_active_executor_pin_cases:
  assumes "ensure_active_executor_pin cid task_id pool p execution ready n now db = Inr (db', r)"
    and "given (active_executor_id p) = Some eid"
  obtains db1 where
    "(r_active_executor_id r = Some eid \<and> r_notice r = None) \<or>
     (\<exists>fb reason fsource g n. (normalize_active_executor_source (active_executor_source p)
          (active_executor_expires_at p) execution = Some ''additional'' \<and>
        (active_executor_expires_at p = None \<or> pin_expired (active_executor_expires_at p) now) \<and>
        active_executor_unavailable_since p = None) \<and> pick_fallback ready pool = Some fb \<and>
        cas_executor_failover cid task_id eid (t_executor_id fb) (active_executor_generation p)
          reason now fsource db1 = Inr (db', True, g, n) \<and>
        r = (kept_pin (Some (t_executor_id fb)))\<lparr>r_notice :=
              Some (make_fallback_notice eid (t_executor_id fb) reason)\<rparr>)"
proof -
  let ?src = "normalize_active_executor_source (active_executor_source p)
                (active_executor_expires_at p) execution"
  let ?due = "?src = Some ''additional'' \<and>
      (active_executor_expires_at p = None \<or> pin_expired (active_executor_expires_at p) now) \<and>
      active_executor_unavailable_since p = None"
  obtain db1 where canon: "canonicalize_pin cid task_id eid p ?src db = Inr db1"
    using assms by (auto simp: ensure_active_executor_pin_def Let_def)
  note run = assms(1) [unfolded ensure_active_executor_pin_def Let_def assms(2) option.case canon
      res_bind_simps]
  show thesis
  proof (cases "\<exists>fb. ?src \<in> Some ` set CANONICAL_PIN_SOURCES \<and> ?due \<and> pick_fallback ready pool = Some fb \<and> t_row fb \<noteq> None")
    case False
    with run have "r_active_executor_id r = Some eid \<and> r_notice r = None"
      by (auto simp: check_target_keeps kept_pin_def split: if_splits option.splits)
    then show thesis by (blast intro: that)
  next
    case True
    then obtain fb where fb: "?src \<in> Some ` set CANONICAL_PIN_SOURCES" "?due"
      "pick_fallback ready pool = Some fb" "t_row fb \<noteq> None" by blast
    define reason where "reason = (if active_executor_expires_at p = None
      then ''secondary assignment has no expiry'' else ''secondary assignment expired'')"
    define fsource where "fsource = (case execution of None \<Rightarrow> ''selector_primary''
      | Some d \<Rightarrow> if truthy (dict_get d ''executor_id'') then ''explicit_primary'' else ''selector_primary'')"
    from run fb obtain db2 persisted g nid where
      cas: "cas_executor_failover cid task_id eid (t_executor_id fb) (active_executor_generation p)
          reason now fsource db1 = Inr (db2, persisted, g, nid)"
      and res: "(if persisted then Inr (db2, (kept_pin (Some (t_executor_id fb)))\<lparr>r_notice :=
              Some (make_fallback_notice eid (t_executor_id fb) reason)\<rparr>)
            else Inr (db1, check_target ready pool eid n)) = (Inr (db', r) :: (pin_error, _) result)"
      unfolding reason_def [symmetric] fsource_def [symmetric] by (auto simp: conj_commute)
    show thesis
    proof (cases persisted)
      case True
      with res have "db2 = db'" and r: "r = (kept_pin (Some (t_executor_id fb)))\<lparr>r_notice :=
          Some (make_fallback_notice eid (t_executor_id fb) reason)\<rparr>"
        by simp_all
      have "cas_executor_failover cid task_id eid (t_executor_id fb) (active_executor_generation p)
          reason now fsource db1 = Inr (db', True, g, nid)"
        using cas True \<open>db2 = db'\<close> by simp
      with r fb(2,3) show thesis by (intro that [of db1] disjI2) blast
    next
      case False
      with res show thesis by (auto simp: check_target_keeps intro!: that)
    qed
  qed
qed

text \<open>
  A pin moves on its own only for one reason: validating a conversation's or task's pin
  leaves the active executor as it is, whatever state the executor is in, unless the pin is an
  additional one that expired and is not waiting for recovery. Then it goes to a usable primary
  of the pool, a notice names both executors, and for a task the new pin is in the table.
\<close>

theorem pin_moves_only_when_expired:
  assumes "ensure_active_executor_pin cid task_id pool p execution ready n now db = Inr (db', r)"
  shows "(r_active_executor_id r = given (active_executor_id p) \<and> r_notice r = None) \<or>
    (\<exists>eid fb reason. active_executor_id p = Some eid \<and> fb \<in> set (usable_primaries pool) \<and>
       normalize_active_executor_source (active_executor_source p)
         (active_executor_expires_at p) execution = Some ''additional'' \<and>
       (\<forall>e. active_executor_expires_at p = Some e \<longrightarrow> e \<le> now) \<and>
       active_executor_unavailable_since p = None \<and>
       r_active_executor_id r = Some (t_executor_id fb) \<and>
       r_notice r = Some (make_fallback_notice eid (t_executor_id fb) reason) \<and>
       (\<forall>tid. given task_id = Some tid \<longrightarrow>
          (\<exists>q. tasks db' tid = Some q \<and> active_executor_id q = Some (t_executor_id fb) \<and>
               active_executor_generation q = active_executor_generation p + 1)))"
proof (cases "given (active_executor_id p)")
  case None
  with assms show ?thesis by (auto simp: ensure_active_executor_pin_def kept_pin_def)
next
  case (Some eid)
  then have id: "active_executor_id p = Some eid"
    by (simp add: given_def split: option.splits if_splits)
  let ?src = "normalize_active_executor_source (active_executor_source p)
                (active_executor_expires_at p) execution"
  let ?due = "?src = Some ''additional'' \<and>
      (active_executor_expires_at p = None \<or> pin_expired (active_executor_expires_at p) now) \<and>
      active_executor_unavailable_since p = None"
  from assms Some obtain db1 where
    "(r_active_executor_id r = Some eid \<and> r_notice r = None) \<or>
     (\<exists>fb reason fsource g n. ?due \<and> pick_fallback ready pool = Some fb \<and>
        cas_executor_failover cid task_id eid (t_executor_id fb) (active_executor_generation p)
          reason now fsource db1 = Inr (db', True, g, n) \<and>
        r = (kept_pin (Some (t_executor_id fb)))\<lparr>r_notice :=
              Some (make_fallback_notice eid (t_executor_id fb) reason)\<rparr>)"
    by (rule ensure_active_executor_pin_cases)
  then show ?thesis
  proof
    assume "r_active_executor_id r = Some eid \<and> r_notice r = None"
    then show ?thesis by (simp add: Some)
  next
    assume "\<exists>fb reason fsource g n. ?due \<and> pick_fallback ready pool = Some fb \<and>
        cas_executor_failover cid task_id eid (t_executor_id fb) (active_executor_generation p)
          reason now fsource db1 = Inr (db', True, g, n) \<and>
        r = (kept_pin (Some (t_executor_id fb)))\<lparr>r_notice :=
              Some (make_fallback_notice eid (t_executor_id fb) reason)\<rparr>"
    then obtain fb reason fsource g n where due: ?due and fb: "pick_fallback ready pool = Some fb"
      and cas: "cas_executor_failover cid task_id eid (t_executor_id fb) (active_executor_generation p)
          reason now fsource db1 = Inr (db', True, g, n)"
      and r: "r = (kept_pin (Some (t_executor_id fb)))\<lparr>r_notice :=
              Some (make_fallback_notice eid (t_executor_id fb) reason)\<rparr>" by blast
    have "\<forall>tid. given task_id = Some tid \<longrightarrow> (\<exists>q. tasks db' tid = Some q \<and>
        active_executor_id q = Some (t_executor_id fb) \<and>
        active_executor_generation q = active_executor_generation p + 1)"
      using cas_persisted [OF cas] by (simp add: failover_pin_def)
    moreover have "\<forall>e. active_executor_expires_at p = Some e \<longrightarrow> e \<le> now"
      using due by (auto simp: pin_expired_def)
    moreover have "r_active_executor_id r = Some (t_executor_id fb)"
      "r_notice r = Some (make_fallback_notice eid (t_executor_id fb) reason)"
      by (simp_all add: r kept_pin_def)
    ultimately show ?thesis
      using pick_fallback_primary [OF fb] id due by blast
  qed
qed

theorem pin_moves_only_when_expired_witness:
  "\<exists>db' r. ensure_active_executor_pin (Some ''c'') (Some ''t'') demo_pool
       (demo_pin\<lparr>active_executor_source := Some ''additional''\<rparr>) None None 30 9 demo_db = Inr (db', r) \<and>
     r_active_executor_id r = Some ''e1''"
proof -
  let ?p = "demo_pin\<lparr>active_executor_source := Some ''additional''\<rparr>"
  let ?run = "ensure_active_executor_pin (Some ''c'') (Some ''t'') demo_pool ?p None None 30 9 demo_db"
  have "\<exists>db' r. ?run = Inr (db', r)"
    by (simp add: ensure_active_executor_pin_def normalize_active_executor_source_def
        CANONICAL_PIN_SOURCES_def canonicalize_pin_def given_def demo_pin_def pick_fallback_def
        usable_primaries_def demo_pool_def usable_def is_state_usable_def target_from_row_def
        cas_executor_failover_def swap_pins_def demo_db_def pin_matches_def record_failover_def
        transition_clash_def notice_clash_def set_conv_def set_task_def demo_executor_def Let_def)
  then obtain db' r where run: "?run = Inr (db', r)" by blast
  have "fb \<in> set (usable_primaries demo_pool) \<Longrightarrow> t_executor_id fb = ''e1''" for fb
    by (simp add: usable_primaries_def demo_pool_def target_from_row_def demo_executor_def split: if_splits)
  moreover have "given (active_executor_id ?p) = Some ''e1''" by (simp add: given_def demo_pin_def)
  ultimately show ?thesis
    using pin_moves_only_when_expired [OF run] run by auto
qed

end
