(* ===== verification/Circuit_Breaker.thy ===== *)
theory Circuit_Breaker
  imports Prelude
begin

section \<open>Circuit breaker for provider calls\<close>

text \<open>
  \<open>packages/common/src/cognis/providers/circuit_breaker.py\<close>. The breaker's fields are a record;
  \<open>_allow_call\<close>, the three ways a protected call ends and the reset are functions on it. A call
  is not atomic: other calls run while its function is awaited, so a run of the breaker is a
  sequence of steps in which calls are admitted, refused and end in any order. Every step takes
  the state lock, and the clock does not go back between steps.
\<close>

subsection \<open>State and errors\<close>

datatype circuit_state = CLOSED | OPEN | HALF_OPEN

fun circuit_state_value :: "circuit_state \<Rightarrow> string" where
  "circuit_state_value CLOSED = ''closed''"
| "circuit_state_value OPEN = ''open''"
| "circuit_state_value HALF_OPEN = ''half_open''"

record breaker =
  failure_threshold :: int
  recovery_timeout :: time
  br_name :: "string option"
  failures :: int
  state :: circuit_state
  opened_at :: "time option"
  last_failure_at :: "time option"
  last_error_type :: "string option"
  half_open_probe_active :: bool

definition new_breaker :: "int \<Rightarrow> time \<Rightarrow> string option \<Rightarrow> breaker" where
  "new_breaker threshold timeout name =
     \<lparr>failure_threshold = threshold, recovery_timeout = timeout, br_name = name, failures = 0,
      state = CLOSED, opened_at = None, last_failure_at = None, last_error_type = None,
      half_open_probe_active = False\<rparr>"

record breaker_error =
  be_message :: string
  be_name :: "string option"
  be_state :: circuit_state
  be_retry_after :: time
  be_operation :: "string option"
  be_last_error_type :: "string option"
  be_last_failure_at :: "time option"

definition retry_after :: "time \<Rightarrow> breaker \<Rightarrow> time" where
  "retry_after now b =
     (case opened_at b of
        None \<Rightarrow> recovery_timeout b
      | Some t \<Rightarrow> max 0 (recovery_timeout b - (now - t)))"

definition circuit_breaker_error :: "time \<Rightarrow> string option \<Rightarrow> breaker \<Rightarrow> breaker_error" where
  "circuit_breaker_error now operation b =
     (let label = (case br_name b of
                     Some (c # cs) \<Rightarrow> '' '' @ [char_of (39::nat)] @ (c # cs) @ [char_of (39::nat)]
                   | _ \<Rightarrow> [])
      in \<lparr>be_message = ''Circuit breaker'' @ label @ '' is open'', be_name = br_name b,
          be_state = state b, be_retry_after = retry_after now b, be_operation = operation,
          be_last_error_type = last_error_type b, be_last_failure_at = last_failure_at b\<rparr>)"

subsection \<open>Admission and outcomes\<close>

definition allow_call :: "time \<Rightarrow> breaker \<Rightarrow> breaker \<times> bool" where
  "allow_call now b =
     (let probe = (\<lambda>c. if half_open_probe_active c then (c, False)
                       else (c\<lparr>half_open_probe_active := True\<rparr>, True))
      in case state b of
           CLOSED \<Rightarrow> (b, True)
         | OPEN \<Rightarrow>
             (case opened_at b of
                None \<Rightarrow> (b, False)
              | Some t \<Rightarrow>
                  if now - t < recovery_timeout b then (b, False)
                  else probe (b\<lparr>state := HALF_OPEN\<rparr>))
         | HALF_OPEN \<Rightarrow> probe b)"

definition closed_again :: "breaker \<Rightarrow> breaker" where
  "closed_again b = b\<lparr>half_open_probe_active := False, failures := 0, state := CLOSED,
     opened_at := None, last_failure_at := None, last_error_type := None\<rparr>"

definition reset_nowait :: "breaker \<Rightarrow> breaker" where
  "reset_nowait b = closed_again b"

definition reset :: "breaker \<Rightarrow> breaker" where
  "reset b = (if state b = CLOSED \<and> failures b = 0 then b else reset_nowait b)"

text \<open>
  How the protected function ends. A \<open>Failure\<close> is an \<open>Exception\<close> with the name of its type and
  whether the breaker's \<open>should_trip\<close> accepts it (it does when there is none); \<open>Interrupted\<close> is a
  \<open>BaseException\<close> that is no \<open>Exception\<close>, such as a cancellation.
\<close>

datatype outcome = Success | Failure string bool | Interrupted

definition on_success :: "breaker \<Rightarrow> breaker" where
  "on_success b = closed_again b"

definition on_no_trip :: "bool \<Rightarrow> breaker \<Rightarrow> breaker" where
  "on_no_trip is_exception b =
     (if state b = HALF_OPEN \<and> is_exception then closed_again b
      else b\<lparr>half_open_probe_active := False\<rparr>)"

definition on_failure :: "time \<Rightarrow> string \<Rightarrow> breaker \<Rightarrow> breaker" where
  "on_failure now etype b =
     (let b1 = b\<lparr>half_open_probe_active := False, failures := failures b + 1,
                 last_failure_at := Some now, last_error_type := Some etype\<rparr>
      in if state b1 = HALF_OPEN \<or> failures b1 \<ge> failure_threshold b1
         then b1\<lparr>state := OPEN, opened_at := Some now\<rparr> else b1)"

fun finish_call :: "time \<Rightarrow> outcome \<Rightarrow> breaker \<Rightarrow> breaker" where
  "finish_call now Success b = on_success b"
| "finish_call now (Failure etype trips) b =
     (if trips then on_failure now etype b else on_no_trip True b)"
| "finish_call now Interrupted b = on_no_trip False b"

text \<open>One call with nothing in between: the function runs from \<open>start\<close> to \<open>stop\<close>.\<close>

datatype call_result = Call_Returned | Call_Raised outcome | Call_Refused breaker_error

definition call :: "time \<Rightarrow> time \<Rightarrow> string option \<Rightarrow> outcome \<Rightarrow> breaker \<Rightarrow> breaker \<times> call_result" where
  "call start stop operation out b =
     (case allow_call start b of
        (b1, False) \<Rightarrow> (b1, Call_Refused (circuit_breaker_error start operation b1))
      | (b1, True) \<Rightarrow>
          (finish_call stop out b1, if out = Success then Call_Returned else Call_Raised out))"

lemmas breaker_defs = allow_call_def closed_again_def reset_nowait_def reset_def on_success_def
  on_no_trip_def on_failure_def Let_def

subsection \<open>Well-formed breakers\<close>

definition breaker_ok :: "breaker \<Rightarrow> bool" where
  "breaker_ok b \<longleftrightarrow> 0 \<le> failures b \<and>
     (half_open_probe_active b \<longrightarrow> state b = HALF_OPEN) \<and>
     (case state b of
        CLOSED \<Rightarrow> opened_at b = None \<and> (failures b < failure_threshold b \<or> failures b = 0)
      | _ \<Rightarrow> opened_at b \<noteq> None)"

lemma breaker_ok_new [simp]: "breaker_ok (new_breaker n t name)"
  by (simp add: breaker_ok_def new_breaker_def)

lemma breaker_ok_allow: "breaker_ok b \<Longrightarrow> breaker_ok (fst (allow_call now b))"
  by (auto simp: breaker_ok_def breaker_defs split: circuit_state.splits option.splits)

lemma breaker_ok_closed_again [simp]: "breaker_ok (closed_again b)"
  by (simp add: breaker_ok_def closed_again_def)

lemma breaker_ok_finish: "breaker_ok b \<Longrightarrow> breaker_ok (finish_call now out b)"
  by (cases out)
    (auto simp: breaker_ok_def on_success_def on_no_trip_def on_failure_def closed_again_def Let_def
      split: circuit_state.splits)

lemma breaker_ok_reset: "breaker_ok b \<Longrightarrow> breaker_ok (reset b)"
  by (simp add: reset_def reset_nowait_def)

subsection \<open>Interleaved calls\<close>

text \<open>
  A flight is a call that was admitted and whose function has not ended; it is a probe when the
  breaker was half open after the admission. Steps carry the time of the event.
\<close>

record breaker_sys =
  brk :: breaker
  clock :: time
  flights :: "bool list"

inductive breaker_step :: "breaker_sys \<Rightarrow> breaker_sys \<Rightarrow> bool" where
  step_admit: "clock s \<le> now \<Longrightarrow> allow_call now (brk s) = (b', True) \<Longrightarrow>
     breaker_step s \<lparr>brk = b', clock = now, flights = (state b' = HALF_OPEN) # flights s\<rparr>"
| step_refuse: "clock s \<le> now \<Longrightarrow> allow_call now (brk s) = (b', False) \<Longrightarrow>
     breaker_step s (s\<lparr>brk := b', clock := now\<rparr>)"
| step_finish: "clock s \<le> now \<Longrightarrow> p \<in> set (flights s) \<Longrightarrow>
     breaker_step s \<lparr>brk = finish_call now out (brk s), clock = now, flights = remove1 p (flights s)\<rparr>"
| step_reset: "clock s \<le> now \<Longrightarrow> breaker_step s (s\<lparr>brk := reset (brk s), clock := now\<rparr>)"

definition breaker_start :: "breaker_sys \<Rightarrow> bool" where
  "breaker_start s \<longleftrightarrow> (\<exists>n t name. brk s = new_breaker n t name) \<and> flights s = []"

text \<open>What the half-open state relies on: the breaker is well formed and its opening is past.\<close>

definition breaker_inv :: "breaker_sys \<Rightarrow> bool" where
  "breaker_inv s \<longleftrightarrow> breaker_ok (brk s) \<and>
     (\<forall>t. opened_at (brk s) = Some t \<longrightarrow> t \<le> clock s)"

lemma allow_call_opened_at [simp]: "opened_at (fst (allow_call now b)) = opened_at b"
  by (simp add: breaker_defs split: circuit_state.splits option.splits)

lemma finish_call_opened_at:
  "opened_at (finish_call now out b) = Some t \<Longrightarrow> t = now \<or> opened_at b = Some t"
  by (cases out) (auto simp: breaker_defs split: if_splits)

lemma reset_opened_at: "opened_at (reset b) = Some t \<Longrightarrow> opened_at b = Some t"
  by (simp add: breaker_defs split: if_splits)

interpretation bsys: inv_system breaker_start breaker_step breaker_inv
proof unfold_locales
  fix s
  show "breaker_start s \<Longrightarrow> breaker_inv s"
    by (auto simp: breaker_start_def breaker_inv_def) (simp add: new_breaker_def)
next
  fix s s'
  assume "breaker_step s s'" and "breaker_inv s"
  then show "breaker_inv s'"
  proof (induction rule: breaker_step.induct)
    case (step_admit s now b')
    then show ?case
      using breaker_ok_allow [of "brk s" now] allow_call_opened_at [of now "brk s"]
      by (fastforce simp: breaker_inv_def)
  next
    case (step_refuse s now b')
    then show ?case
      using breaker_ok_allow [of "brk s" now] allow_call_opened_at [of now "brk s"]
      by (fastforce simp: breaker_inv_def)
  next
    case (step_finish s now p out)
    then show ?case
      using finish_call_opened_at [of now out "brk s"] breaker_ok_finish [of "brk s" now out]
      by (fastforce simp: breaker_inv_def)
  next
    case (step_reset s now)
    then show ?case
      using reset_opened_at [of "brk s"] breaker_ok_reset [of "brk s"]
      by (fastforce simp: breaker_inv_def)
  qed
qed

text \<open>
  An open breaker: in every reachable state in which the breaker is open, it was opened at
  some time in the past. A call before the recovery timeout has passed is refused, does not
  change the breaker and reports exactly the time left; the first call after it is admitted as
  the probe of a half-open breaker.
\<close>

theorem open_breaker_refuses:
  assumes "reach breaker_start breaker_step s" and "state (brk s) = OPEN"
  shows "\<exists>t \<le> clock s. opened_at (brk s) = Some t \<and>
    (now < t + recovery_timeout (brk s) \<longrightarrow>
       call now stop operation out (brk s) =
         (brk s, Call_Refused (circuit_breaker_error now operation (brk s))) \<and>
       be_retry_after (circuit_breaker_error now operation (brk s)) =
         t + recovery_timeout (brk s) - now) \<and>
    (t + recovery_timeout (brk s) \<le> now \<longrightarrow>
       allow_call now (brk s) = ((brk s)\<lparr>state := HALF_OPEN, half_open_probe_active := True\<rparr>, True))"
proof -
  from bsys.reach_inv [OF assms(1)] assms(2) obtain t where "opened_at (brk s) = Some t"
    "t \<le> clock s" "\<not> half_open_probe_active (brk s)"
    by (auto simp: breaker_inv_def breaker_ok_def)
  with assms(2) show ?thesis
    by (auto simp: allow_call_def call_def circuit_breaker_error_def retry_after_def Let_def)
qed

definition demo_breaker :: breaker where
  "demo_breaker = new_breaker 1 30 (Some ''llm'')"

definition demo_open :: breaker_sys where
  "demo_open = \<lparr>brk = on_failure 5 ''IOError'' demo_breaker, clock = 5, flights = []\<rparr>"

lemma demo_open_reach: "reach breaker_start breaker_step demo_open"
proof -
  let ?s0 = "\<lparr>brk = demo_breaker, clock = 0, flights = []\<rparr>"
  let ?s1 = "\<lparr>brk = demo_breaker, clock = 5, flights = [False]\<rparr>"
  have "reach breaker_start breaker_step ?s0"
    by (rule reach_start) (auto simp: breaker_start_def demo_breaker_def)
  moreover have "breaker_step ?s0 ?s1"
    using step_admit [of ?s0 5 demo_breaker]
    by (simp add: demo_breaker_def new_breaker_def allow_call_def)
  moreover have "breaker_step ?s1 demo_open"
    using step_finish [of ?s1 5 False "Failure ''IOError'' True"] by (simp add: demo_open_def)
  ultimately show ?thesis by (blast intro: reach_step)
qed

theorem open_breaker_refuses_witness:
  "snd (call 20 20 None Success (brk demo_open)) =
     Call_Refused (circuit_breaker_error 20 None (brk demo_open)) \<and>
   be_retry_after (circuit_breaker_error 20 None (brk demo_open)) = 15"
proof -
  have "state (brk demo_open) = OPEN" "opened_at (brk demo_open) = Some 5"
    "recovery_timeout (brk demo_open) = 30"
    by (simp_all add: demo_open_def demo_breaker_def new_breaker_def on_failure_def)
  with open_breaker_refuses [OF demo_open_reach, of 20 20 None Success] show ?thesis by auto
qed

text \<open>Calls one after the other, each failing: the breaker counts them.\<close>

definition fail_call :: "time \<Rightarrow> breaker \<Rightarrow> breaker" where
  "fail_call t b = fst (call t t None (Failure ''Error'' True) b)"

lemma fail_call_closed:
  "state b = CLOSED \<Longrightarrow> fail_call t b = on_failure t ''Error'' b"
  by (simp add: fail_call_def call_def allow_call_def)

lemma fold_fail_call:
  assumes "int (length ts) < failure_threshold b - failures b" and "state b = CLOSED"
  shows "failures (fold fail_call ts b) = failures b + int (length ts) \<and>
    state (fold fail_call ts b) = CLOSED \<and>
    failure_threshold (fold fail_call ts b) = failure_threshold b"
  using assms
  by (induction ts arbitrary: b) (simp_all add: fail_call_closed on_failure_def Let_def)

text \<open>
  The threshold: with a threshold of \<open>n\<close>, fewer than \<open>n\<close> failing calls in a row leave the
  breaker closed with the number of failures counted, and the \<open>n\<close>-th opens it at its time.
\<close>

theorem threshold_opens_breaker:
  assumes "0 < n" and "int (length ts) = n - 1"
  shows "(\<forall>us vs. ts = us @ vs \<longrightarrow>
      state (fold fail_call us (new_breaker n timeout name)) = CLOSED \<and>
      failures (fold fail_call us (new_breaker n timeout name)) = int (length us)) \<and>
    state (fold fail_call (ts @ [t]) (new_breaker n timeout name)) = OPEN \<and>
    opened_at (fold fail_call (ts @ [t]) (new_breaker n timeout name)) = Some t"
proof (intro conjI allI impI)
  let ?b = "new_breaker n timeout name"
  fix us vs
  assume "ts = us @ vs"
  with assms have "int (length us) < failure_threshold ?b - failures ?b" "state ?b = CLOSED"
    by (simp_all add: new_breaker_def)
  from fold_fail_call [OF this]
  show "state (fold fail_call us ?b) = CLOSED" "failures (fold fail_call us ?b) = int (length us)"
    by (simp_all add: new_breaker_def)
next
  let ?b = "new_breaker n timeout name"
  have "int (length ts) < failure_threshold ?b - failures ?b" "state ?b = CLOSED"
    using assms by (simp_all add: new_breaker_def)
  from fold_fail_call [OF this] assms(2)
  show "state (fold fail_call (ts @ [t]) ?b) = OPEN"
    "opened_at (fold fail_call (ts @ [t]) ?b) = Some t"
    by (simp_all add: fail_call_closed on_failure_def Let_def new_breaker_def)
qed

theorem threshold_opens_breaker_witness:
  "state (fold fail_call [1, 2, 3] (new_breaker 3 30 None)) = OPEN \<and>
   state (fold fail_call [1, 2] (new_breaker 3 30 None)) = CLOSED"
proof -
  have n: "0 < (3 :: int)" "int (length [1, 2 :: time]) = 3 - 1" by simp_all
  note th = threshold_opens_breaker [OF n, of 30 None 3]
  have "[1, 2 :: time] = [1, 2] @ []" by simp
  with th have "state (fold fail_call [1, 2] (new_breaker 3 30 None)) = CLOSED" by blast
  moreover have "state (fold fail_call ([1, 2] @ [3]) (new_breaker 3 30 None)) = OPEN"
    using th by blast
  ultimately show ?thesis by simp
qed

subsection \<open>How many probes are in flight\<close>

text \<open>
  A calm run: a call admitted while the breaker was closed ends before the breaker opens, and
  the breaker is not reset while a probe is in flight.
\<close>

inductive calm_step :: "breaker_sys \<Rightarrow> breaker_sys \<Rightarrow> bool" where
  calm_admit: "allow_call now (brk s) = (b', True) \<Longrightarrow>
     calm_step s \<lparr>brk = b', clock = now, flights = (state b' = HALF_OPEN) # flights s\<rparr>"
| calm_refuse: "allow_call now (brk s) = (b', False) \<Longrightarrow> calm_step s (s\<lparr>brk := b', clock := now\<rparr>)"
| calm_finish: "p \<in> set (flights s) \<Longrightarrow> p \<or> state (brk s) = CLOSED \<Longrightarrow>
     calm_step s \<lparr>brk = finish_call now out (brk s), clock = now, flights = remove1 p (flights s)\<rparr>"
| calm_reset: "True \<notin> set (flights s) \<Longrightarrow> calm_step s (s\<lparr>brk := reset (brk s), clock := now\<rparr>)"

definition probe_inv :: "breaker_sys \<Rightarrow> bool" where
  "probe_inv s \<longleftrightarrow> breaker_ok (brk s) \<and>
     count_list (flights s) True = (if half_open_probe_active (brk s) then 1 else 0)"

lemma allow_call_probe:
  assumes "breaker_ok b" and "allow_call now b = (b', r)"
  shows "half_open_probe_active b' = (half_open_probe_active b \<or> r \<and> state b' = HALF_OPEN) \<and>
    (r \<and> state b' = HALF_OPEN \<longrightarrow> \<not> half_open_probe_active b)"
  using assms by (auto simp: allow_call_def breaker_ok_def Let_def
      split: circuit_state.splits option.splits if_splits)

lemma finish_call_probe [simp]: "\<not> half_open_probe_active (finish_call now out b)"
  by (cases out) (auto simp: breaker_defs)

lemma count_remove1_True:
  "p \<in> set xs \<Longrightarrow> count_list (remove1 p xs) True = count_list xs True - (if p then 1 else 0)"
  by (induction xs) (auto split: if_splits simp: count_list_0_iff)

interpretation calm: inv_system breaker_start calm_step probe_inv
proof unfold_locales
  fix s
  show "breaker_start s \<Longrightarrow> probe_inv s"
    by (auto simp: breaker_start_def probe_inv_def) (simp add: new_breaker_def)
next
  fix s s'
  assume "calm_step s s'" and "probe_inv s"
  then show "probe_inv s'"
  proof (induction rule: calm_step.induct)
    case (calm_admit now s b')
    then have ok: "breaker_ok (brk s)" by (simp add: probe_inv_def)
    from allow_call_probe [OF ok calm_admit.hyps] breaker_ok_allow [OF ok, of now] calm_admit
    show ?case by (auto simp: probe_inv_def)
  next
    case (calm_refuse now s b')
    then have ok: "breaker_ok (brk s)" by (simp add: probe_inv_def)
    from allow_call_probe [OF ok calm_refuse.hyps] breaker_ok_allow [OF ok, of now] calm_refuse
    show ?case by (auto simp: probe_inv_def)
  next
    case (calm_finish p s now out)
    then have "breaker_ok (brk s)" and "half_open_probe_active (brk s) \<longrightarrow> p"
      by (auto simp: probe_inv_def breaker_ok_def)
    with calm_finish show ?case
      by (auto simp: probe_inv_def count_remove1_True breaker_ok_finish)
  next
    case (calm_reset s now)
    then have "\<not> half_open_probe_active (brk s)"
      by (auto simp: probe_inv_def count_list_0_iff split: if_splits)
    with calm_reset show ?case
      by (auto simp: probe_inv_def breaker_ok_reset) (auto simp: breaker_defs split: if_splits)
  qed
qed

text \<open>
  One probe at a time: as long as calls admitted by a closed breaker end before it opens
  and it is not reset during a probe, at most one probe is in flight, and while one is, every
  other call is refused.
\<close>

theorem one_probe_in_calm_runs:
  assumes "reach breaker_start calm_step s"
  shows "count_list (flights s) True \<le> 1 \<and>
    (True \<in> set (flights s) \<longrightarrow> snd (allow_call now (brk s)) = False)"
proof -
  have inv: "probe_inv s" using calm.reach_inv [OF assms] .
  then have "half_open_probe_active (brk s) \<and> state (brk s) = HALF_OPEN"
    if "True \<in> set (flights s)"
    using that by (auto simp: probe_inv_def breaker_ok_def count_list_0_iff split: if_splits)
  with inv show ?thesis by (auto simp: probe_inv_def allow_call_def)
qed

theorem one_probe_in_calm_runs_witness:
  "snd (allow_call 40 (brk \<lparr>brk = (brk demo_open)\<lparr>state := HALF_OPEN, half_open_probe_active := True\<rparr>,
     clock = 36, flights = [True]\<rparr>)) = False"
proof -
  let ?s0 = "\<lparr>brk = demo_breaker, clock = 0, flights = []\<rparr>"
  let ?s1 = "\<lparr>brk = demo_breaker, clock = 5, flights = [False]\<rparr>"
  let ?s3 = "\<lparr>brk = (brk demo_open)\<lparr>state := HALF_OPEN, half_open_probe_active := True\<rparr>,
     clock = 36, flights = [True]\<rparr>"
  have "reach breaker_start calm_step ?s0"
    by (rule reach_start) (auto simp: breaker_start_def demo_breaker_def)
  moreover have "calm_step ?s0 ?s1"
    using calm_admit [of 5 ?s0 demo_breaker]
    by (simp add: demo_breaker_def new_breaker_def allow_call_def)
  moreover have "calm_step ?s1 demo_open"
    using calm_finish [of False ?s1 5 "Failure ''IOError'' True"]
    by (simp add: demo_open_def demo_breaker_def new_breaker_def)
  moreover have "calm_step demo_open ?s3"
    using calm_admit [of 36 demo_open "(brk demo_open)\<lparr>state := HALF_OPEN, half_open_probe_active := True\<rparr>"]
    by (simp add: demo_open_def demo_breaker_def new_breaker_def allow_call_def on_failure_def)
  ultimately have "reach breaker_start calm_step ?s3" by (blast intro: reach_step)
  with one_probe_in_calm_runs [of ?s3 40] show ?thesis by simp
qed


end
