(* ===== verification/Unary_Dedup.thy ===== *)
theory Unary_Dedup
  imports Python_Values
begin

section \<open>Deduplication of replay-safe calls\<close>

text \<open>
  \<open>packages/common/src/cognis/executor/unary_dedup.py\<close>: the cache that lets a repeated call
  join the one in flight or receive its stored result instead of running twice.

  The two \<open>OrderedDict\<close>s are association lists in insertion order. Futures are numbered in the
  order of their creation and their states kept in a list. The methods are synchronous; each runs
  at one reading \<open>now\<close> of the monotonic clock. The digest (SHA-256 of the canonical JSON) is
  computed by a library, so digests are arguments. The loop of \<open>join_or_claim\<close> that evicts calls
  is a partial function: that it ends is a theorem, not a part of its definition.
\<close>

type_synonym frame = "(string \<times> pyval) list"

datatype future = Pending | Done frame | Cancelled

record dedup =
  max_entries :: int
  ttl :: time
  entries :: "(string, string \<times> time \<times> frame) dict"
  inflight :: "(string, string \<times> nat) dict"
  futures :: "future list"

datatype dedup_error = Unary_Call_Conflict string

definition REPLAY_SAFE_UNARY_METHODS :: "string list" where
  "REPLAY_SAFE_UNARY_METHODS = [''tool.list'', ''tool.result_fetch'', ''lsp.status'',
     ''shell.background_status'', ''local_model.status'', ''local_model.show'',
     ''llm.discover_models'', ''executor.mcp.reload_credentials'']"

definition is_replay_safe_unary_method :: "string \<Rightarrow> bool" where
  "is_replay_safe_unary_method m = (m \<in> set REPLAY_SAFE_UNARY_METHODS)"

definition new_dedup :: "int \<Rightarrow> time \<Rightarrow> dedup" where
  "new_dedup n t = \<lparr>max_entries = max 1 n, ttl = max 100000 t, entries = [], inflight = [],
     futures = []\<rparr>"

subsection \<open>Lookup\<close>

definition purge :: "time \<Rightarrow> dedup \<Rightarrow> dedup" where
  "purge now c = c\<lparr>entries := filter (\<lambda>(k, d, expires, r). \<not> expires \<le> now) (entries c)\<rparr>"

definition move_to_end :: "'k \<Rightarrow> ('k, 'v) dict \<Rightarrow> ('k, 'v) dict" where
  "move_to_end k d = (case map_of d k of None \<Rightarrow> d | Some v \<Rightarrow> dict_del k d @ [(k, v)])"

definition get :: "time \<Rightarrow> string \<Rightarrow> string \<Rightarrow> dedup \<Rightarrow> dedup \<times> (dedup_error, frame option) result" where
  "get now cid digest c =
     (let c1 = purge now c
      in case map_of (entries c1) cid of
           None \<Rightarrow> (c1, Inr None)
         | Some (d, t, r) \<Rightarrow>
             if d \<noteq> digest then (c1, Inl (Unary_Call_Conflict cid))
             else (c1\<lparr>entries := move_to_end cid (entries c1)\<rparr>, Inr (Some r)))"

subsection \<open>Completion\<close>

function trim_entries :: "int \<Rightarrow> 'a list \<Rightarrow> 'a list" where
  "trim_entries n es = (if int (length es) > n \<and> es \<noteq> [] then trim_entries n (tl es) else es)"
  by auto
termination
  by (relation "measure (\<lambda>(n, es). length es)") auto

declare trim_entries.simps [simp del]

text \<open>\<open>set_result\<close> and \<open>cancel\<close> of a future that is not done yet.\<close>

definition settle :: "nat \<Rightarrow> future \<Rightarrow> future list \<Rightarrow> future list" where
  "settle f st fs = (if f < length fs \<and> fs ! f = Pending then fs[f := st] else fs)"

definition pop_inflight :: "string \<Rightarrow> future \<Rightarrow> dedup \<Rightarrow> dedup" where
  "pop_inflight cid st c =
     (case map_of (inflight c) cid of
        None \<Rightarrow> c
      | Some (d, f) \<Rightarrow> c\<lparr>inflight := dict_del cid (inflight c),
                         futures := settle f st (futures c)\<rparr>)"

definition put :: "time \<Rightarrow> string \<Rightarrow> string \<Rightarrow> frame \<Rightarrow> dedup \<Rightarrow> dedup \<times> (dedup_error, unit) result" where
  "put now cid digest r c =
     (let c1 = purge now c
      in case map_of (entries c1) cid of
           Some (d, t, old) \<Rightarrow>
             (c1, if d \<noteq> digest then Inl (Unary_Call_Conflict cid) else Inr ())
         | None \<Rightarrow>
             (pop_inflight cid (Done r)
                (c1\<lparr>entries := trim_entries (max_entries c)
                       (dict_put cid (digest, now + ttl c, r) (entries c1))\<rparr>), Inr ()))"

definition error_frame :: "int \<Rightarrow> string \<Rightarrow> frame" where
  "error_frame code message = [(''jsonrpc'', VStr ''2.0''),
     (''error'', VDict [(''code'', VInt code), (''message'', VStr message)]), (''id'', VNone)]"

definition complete_error ::
  "time \<Rightarrow> string \<Rightarrow> string \<Rightarrow> int \<Rightarrow> string \<Rightarrow> dedup \<Rightarrow> dedup \<times> (dedup_error, frame) result" where
  "complete_error now cid digest code message c =
     (case get now cid digest c of
        (c1, Inl e) \<Rightarrow> (c1, Inl e)
      | (c1, Inr (Some old)) \<Rightarrow> (c1, Inr old)
      | (c1, Inr None) \<Rightarrow>
          (case put now cid digest (error_frame code message) c1 of
             (c2, Inl e) \<Rightarrow> (c2, Inl e)
           | (c2, Inr u) \<Rightarrow> (c2, Inr (error_frame code message))))"

definition evict :: "time \<Rightarrow> string \<Rightarrow> string \<Rightarrow> dedup \<Rightarrow> dedup \<times> (dedup_error, frame) result" where
  "evict now cid digest c =
     complete_error now cid digest (- 32099) ''Replay-safe unary call was evicted before completion'' c"

definition cancel :: "string \<Rightarrow> dedup \<Rightarrow> dedup" where
  "cancel cid c = pop_inflight cid Cancelled c"

definition fail :: "string \<Rightarrow> string option \<Rightarrow> dedup \<Rightarrow> dedup" where
  "fail cid err c =
     pop_inflight cid (Done (error_frame (- 32098)
       (case err of None \<Rightarrow> ''Unary call failed'' | Some m \<Rightarrow> m))) c"

definition cancel_inflight :: "dedup \<Rightarrow> dedup" where
  "cancel_inflight c = fold cancel (map fst (inflight c)) c"

subsection \<open>Joining or claiming a call\<close>

partial_function (option) evict_loop :: "time \<Rightarrow> dedup \<Rightarrow> (dedup \<times> (dedup_error, unit) result) option" where
  "evict_loop now c =
     (if int (length (inflight c)) > max_entries c then
        (case inflight c of
           [] \<Rightarrow> Some (c, Inr ())
         | (cid, digest, f) # rest \<Rightarrow>
             (case evict now cid digest c of
                (c1, Inl e) \<Rightarrow> Some (c1, Inl e)
              | (c1, Inr fr) \<Rightarrow> evict_loop now c1))
      else Some (c, Inr ()))"

definition new_future :: "future \<Rightarrow> dedup \<Rightarrow> dedup \<times> nat" where
  "new_future st c = (c\<lparr>futures := futures c @ [st]\<rparr>, length (futures c))"

definition join_or_claim ::
  "time \<Rightarrow> string \<Rightarrow> string \<Rightarrow> dedup \<Rightarrow> (dedup \<times> (dedup_error, nat \<times> bool) result) option" where
  "join_or_claim now cid digest c =
     (case get now cid digest c of
        (c1, Inl e) \<Rightarrow> Some (c1, Inl e)
      | (c1, Inr (Some r)) \<Rightarrow> (let (c2, f) = new_future (Done r) c1 in Some (c2, Inr (f, False)))
      | (c1, Inr None) \<Rightarrow>
          (case map_of (inflight c1) cid of
             Some (d, f) \<Rightarrow>
               if d \<noteq> digest then Some (c1, Inl (Unary_Call_Conflict cid))
               else Some (c1, Inr (f, False))
           | None \<Rightarrow>
               (let (c2, f) = new_future Pending c1
                in case evict_loop now (c2\<lparr>inflight := dict_put cid (digest, f) (inflight c2)\<rparr>) of
                     None \<Rightarrow> None
                   | Some (c3, Inl e) \<Rightarrow> Some (c3, Inl e)
                   | Some (c3, Inr u) \<Rightarrow> Some (c3, Inr (f, True)))))"

subsection \<open>The invariant\<close>

definition future_of :: "string \<times> string \<times> nat \<Rightarrow> nat" where
  "future_of e = (case e of (k, d, f) \<Rightarrow> f)"

text \<open>
  Nothing is both cached and in flight (up to the call being completed, for the inner steps), the
  cache is within its bound, calls in flight have futures of their own, and every future that
  is still pending belongs to a call in flight: nobody waits for a future no one will settle.
\<close>

definition dedup_upto :: "string set \<Rightarrow> dedup \<Rightarrow> bool" where
  "dedup_upto X c \<longleftrightarrow> 1 \<le> max_entries c \<and> dict_ok (entries c) \<and> dict_ok (inflight c) \<and>
     fst ` set (entries c) \<inter> fst ` set (inflight c) \<subseteq> X \<and>
     int (length (entries c)) \<le> max_entries c \<and>
     distinct (map future_of (inflight c)) \<and>
     future_of ` set (inflight c) \<subseteq> {..< length (futures c)} \<and>
     (\<forall>f < length (futures c). futures c ! f = Pending \<longrightarrow> f \<in> future_of ` set (inflight c))"

abbreviation dedup_ok :: "dedup \<Rightarrow> bool" where
  "dedup_ok \<equiv> dedup_upto {}"

lemma trim_entries_drop: "0 \<le> n \<Longrightarrow> trim_entries n es = drop (length es - nat n) es"
proof (induction n es rule: trim_entries.induct)
  case (1 n es)
  show ?case
  proof (cases "int (length es) > n \<and> es \<noteq> []")
    case True
    then have "trim_entries n es = drop (length (tl es) - nat n) (tl es)"
      using 1 by (simp add: trim_entries.simps [of n es])
    moreover have "length es - nat n = Suc (length (tl es) - nat n)"
      using True 1(2) by (cases es) auto
    ultimately show ?thesis using True by (cases es) simp_all
  next
    case False
    then show ?thesis by (auto simp: trim_entries.simps [of n es])
  qed
qed

lemma trim_entries_snoc:
  "1 \<le> n \<Longrightarrow> \<exists>us. trim_entries n (es @ [x]) = us @ [x] \<and> set us \<subseteq> set es \<and>
     int (length (us @ [x])) \<le> n \<and> us = drop (length es + 1 - nat n) es"
  by (auto simp: trim_entries_drop intro: in_set_dropD)

lemma dict_put_fresh: "k \<notin> fst ` set d \<Longrightarrow> dict_put k v d = d @ [(k, v)]"
  by (induction k v d rule: dict_put.induct) auto

lemma del_snoc:
  assumes "dict_ok d" and "map_of d k = Some v"
  shows "set (dict_del k d @ [(k, v)]) = set d \<and> length (dict_del k d @ [(k, v)]) = length d \<and>
    dict_ok (dict_del k d @ [(k, v)])"
  using assms
proof (induction d)
  case Nil
  then show ?case by simp
next
  case (Cons e d)
  obtain k' v' where e: "e = (k', v')" by (cases e)
  show ?case
  proof (cases "k' = k")
    case True
    with Cons.prems e have "k \<notin> fst ` set d" "v' = v" by (auto simp: dict_ok_def)
    then have "dict_del k d = d" by (force simp: dict_del_def intro!: filter_True)
    then have "dict_del k (e # d) = d" using e True by (simp add: dict_del_def)
    with \<open>k \<notin> fst ` set d\<close> \<open>v' = v\<close> e True Cons.prems show ?thesis
      by (auto simp: dict_ok_def)
  next
    case False
    with Cons e have "set (dict_del k d @ [(k, v)]) = set d"
      "length (dict_del k d @ [(k, v)]) = length d" "dict_ok (dict_del k d @ [(k, v)])"
      by (auto simp: dict_ok_def)
    moreover have "dict_del k (e # d) = e # dict_del k d"
      using e False by (simp add: dict_del_def)
    moreover have "k' \<notin> fst ` set d" using Cons.prems e by (simp add: dict_ok_def)
    ultimately show ?thesis
      using e False by (auto simp: dict_ok_def dict_del_def)
  qed
qed

lemma move_to_end_same:
  "dict_ok d \<Longrightarrow> set (move_to_end k d) = set d \<and> length (move_to_end k d) = length d \<and>
     dict_ok (move_to_end k d)"
  using del_snoc [of d k] by (simp add: move_to_end_def split: option.splits)

lemma purge_fields [simp]:
  "max_entries (purge now c) = max_entries c" "ttl (purge now c) = ttl c"
  "inflight (purge now c) = inflight c" "futures (purge now c) = futures c"
  by (simp_all add: purge_def)

lemma purge_purge [simp]: "purge now (purge now c) = purge now c"
  by (cases c) (simp add: purge_def)

lemma purge_keys: "cid \<notin> fst ` set (entries c) \<Longrightarrow> cid \<notin> fst ` set (entries (purge now c))"
  by (auto simp: purge_def)

lemma inter_upto: "A \<subseteq> B \<union> X \<Longrightarrow> B \<inter> C \<subseteq> X \<Longrightarrow> A \<inter> C \<subseteq> X"
  by blast

lemma dedup_upto_entries:
  assumes "dedup_upto X c" and "dict_ok es" and "fst ` set es \<subseteq> fst ` set (entries c) \<union> X"
    and "int (length es) \<le> max_entries c"
  shows "dedup_upto X (c\<lparr>entries := es\<rparr>)"
proof -
  have disj: "fst ` set (entries c) \<inter> fst ` set (inflight c) \<subseteq> X"
    using assms(1) by (simp add: dedup_upto_def)
  have "fst ` set es \<inter> fst ` set (inflight c) \<subseteq> X"
    by (rule inter_upto [OF assms(3) disj])
  with assms(1,2,4) show ?thesis by (simp add: dedup_upto_def)
qed

lemma purge_ok:
  assumes "dedup_upto X c"
  shows "dedup_upto X (purge now c)"
proof -
  let ?P = "\<lambda>(k, d, expires, r). \<not> expires \<le> now"
  have "length (filter ?P (entries c)) \<le> length (entries c)" by (rule length_filter_le)
  with assms have "int (length (filter ?P (entries c))) \<le> max_entries c"
    by (simp add: dedup_upto_def del: length_filter_le)
  with assms show ?thesis
    unfolding purge_def by (intro dedup_upto_entries) (auto simp: dedup_upto_def dict_ok_filter)
qed

lemma get_fields:
  "get now cid digest c = (c', r) \<Longrightarrow> max_entries c' = max_entries c \<and> ttl c' = ttl c \<and>
     inflight c' = inflight c \<and> futures c' = futures c"
  by (auto simp: get_def Let_def split: option.splits if_splits)

lemma get_ok:
  assumes "dedup_upto X c" and "get now cid digest c = (c', r)"
  shows "dedup_upto X c'"
proof -
  let ?c = "purge now c"
  have ok: "dedup_upto X ?c" using assms(1) by (rule purge_ok)
  then have d: "dict_ok (entries ?c)" and n: "int (length (entries ?c)) \<le> max_entries ?c"
    by (simp_all add: dedup_upto_def)
  have "dedup_upto X (?c\<lparr>entries := move_to_end cid (entries ?c)\<rparr>)"
    using move_to_end_same [OF d, of cid] ok n by (intro dedup_upto_entries) auto
  with ok assms(2) show ?thesis
    by (auto simp: get_def Let_def split: option.splits if_splits)
qed

lemma get_None:
  "get now cid digest c = (c', Inr None) \<Longrightarrow> c' = purge now c \<and> cid \<notin> fst ` set (entries c')"
  by (auto simp: get_def Let_def map_of_eq_None_iff split: option.splits if_splits)

lemma get_absent:
  "cid \<notin> fst ` set (entries c) \<Longrightarrow> get now cid digest c = (purge now c, Inr None)"
proof -
  assume "cid \<notin> fst ` set (entries c)"
  then have "cid \<notin> fst ` set (entries (purge now c))" by (rule purge_keys)
  then have "map_of (entries (purge now c)) cid = None" by (simp add: map_of_eq_None_iff)
  then show ?thesis by (simp add: get_def Let_def)
qed

subsection \<open>Completion keeps the invariant\<close>

lemma settle_nth [simp]:
  "length (settle f st fs) = length fs"
  "g \<noteq> f \<Longrightarrow> settle f st fs ! g = fs ! g"
  "f < length fs \<Longrightarrow> st \<noteq> Pending \<Longrightarrow> settle f st fs ! f \<noteq> Pending"
  by (auto simp: settle_def)

lemma pop_inflight_inflight: "inflight (pop_inflight cid st c) = dict_del cid (inflight c)"
proof (cases "map_of (inflight c) cid")
  case None
  then have "dict_del cid (inflight c) = inflight c"
    by (force simp: dict_del_def map_of_eq_None_iff intro!: filter_True)
  with None show ?thesis by (simp add: pop_inflight_def)
next
  case (Some v)
  then show ?thesis by (simp add: pop_inflight_def split: prod.splits)
qed

lemma pop_inflight_fields [simp]:
  "max_entries (pop_inflight cid st c) = max_entries c" "ttl (pop_inflight cid st c) = ttl c"
  "entries (pop_inflight cid st c) = entries c"
  "length (futures (pop_inflight cid st c)) = length (futures c)"
  by (simp_all add: pop_inflight_def split: option.splits)

lemma pop_inflight_futures:
  "futures (pop_inflight cid st c) = (case map_of (inflight c) cid of None \<Rightarrow> futures c
     | Some (d, f) \<Rightarrow> settle f st (futures c))"
  by (simp add: pop_inflight_def split: option.splits prod.splits)

lemma inter_diff: "A \<inter> B \<subseteq> {x} \<Longrightarrow> A \<inter> (B - {x}) = {}"
  by blast

lemma pop_inflight_ok:
  assumes "dedup_upto {cid} c" and "st \<noteq> Pending"
  shows "dedup_ok (pop_inflight cid st c)"
proof (cases "map_of (inflight c) cid")
  case None
  then have "pop_inflight cid st c = c" by (simp add: pop_inflight_def)
  moreover have "cid \<notin> fst ` set (inflight c)" using None by (simp add: map_of_eq_None_iff)
  ultimately show ?thesis using assms by (auto simp: dedup_upto_def)
next
  case (Some v)
  obtain d f where v: "v = (d, f)" by (cases v)
  have f: "f < length (futures c)"
    using assms(1) map_of_SomeD [OF Some] v by (fastforce simp: dedup_upto_def future_of_def)
  have keep: "g \<in> future_of ` set (dict_del cid (inflight c))"
    if "g \<in> future_of ` set (inflight c)" "g \<noteq> f" for g
  proof -
    from that(1) obtain k d' where e: "(k, d', g) \<in> set (inflight c)"
      by (auto simp: future_of_def)
    with assms(1) have "map_of (inflight c) k = Some (d', g)"
      by (simp add: dedup_upto_def dict_ok_def)
    with Some v that(2) have "k \<noteq> cid" by auto
    with e show ?thesis by (force simp: dict_del_def future_of_def)
  qed
  have sub: "set (dict_del cid (inflight c)) \<subseteq> set (inflight c)"
    "distinct (map future_of (dict_del cid (inflight c)))"
    using assms(1) by (auto simp: dict_del_def dedup_upto_def distinct_map_filter)
  have disj: "fst ` set (entries c) \<inter> (fst ` set (inflight c) - {cid}) = {}"
    using assms(1) inter_diff [of _ _ cid] by (simp add: dedup_upto_def)
  have "pop_inflight cid st c = c\<lparr>inflight := dict_del cid (inflight c), futures := settle f st (futures c)\<rparr>"
    using Some v by (simp add: pop_inflight_def)
  moreover have "\<forall>g < length (futures c). settle f st (futures c) ! g = Pending \<longrightarrow>
      g \<in> future_of ` set (dict_del cid (inflight c))"
  proof (intro allI impI)
    fix g
    assume g: "g < length (futures c)" "settle f st (futures c) ! g = Pending"
    with f assms(2) have "g \<noteq> f" by auto
    with g assms(1) show "g \<in> future_of ` set (dict_del cid (inflight c))"
      by (intro keep) (auto simp: dedup_upto_def)
  qed
  ultimately show ?thesis
    using assms(1) sub disj by (simp add: dedup_upto_def) (metis image_mono order_trans)
qed

lemma dedup_upto_mono: "dedup_upto X c \<Longrightarrow> X \<subseteq> Y \<Longrightarrow> dedup_upto Y c"
  by (simp add: dedup_upto_def subset_trans [of _ X Y])

lemma put_fresh:
  assumes "dedup_ok c" and "cid \<notin> fst ` set (entries c)"
  shows "\<exists>c'. put now cid digest r c = (c', Inr ()) \<and> dedup_ok c' \<and>
    inflight c' = dict_del cid (inflight c) \<and> max_entries c' = max_entries c \<and> ttl c' = ttl c \<and>
    map_of (entries c') cid = Some (digest, now + ttl c, r) \<and>
    futures c' = (case map_of (inflight c) cid of None \<Rightarrow> futures c
      | Some (d, f) \<Rightarrow> settle f (Done r) (futures c))"
proof -
  let ?c = "purge now c" and ?e = "(cid, digest, now + ttl c, r)"
  have ok: "dedup_ok ?c" using assms(1) by (rule purge_ok)
  have fresh: "cid \<notin> fst ` set (entries ?c)" using assms(2) by (rule purge_keys)
  have "1 \<le> max_entries c" using assms(1) by (simp add: dedup_upto_def)
  from trim_entries_snoc [OF this, of "entries ?c" ?e] obtain us where
    us: "trim_entries (max_entries c) (entries ?c @ [?e]) = us @ [?e]" "set us \<subseteq> set (entries ?c)"
      "int (length (us @ [?e])) \<le> max_entries c" "us = drop (length (entries ?c) + 1 - nat (max_entries c)) (entries ?c)"
    by blast
  have "dict_ok us" using ok us(4) by (simp add: dedup_upto_def dict_ok_def drop_map [symmetric])
  moreover have cid: "cid \<notin> fst ` set us" using us(2) fresh by blast
  ultimately have "dict_ok (us @ [?e])" by (simp add: dict_ok_def)
  moreover have "fst ` set (us @ [?e]) \<subseteq> fst ` set (entries ?c) \<union> {cid}"
    using us(2) by auto
  moreover have "dedup_upto {cid} ?c" using ok by (rule dedup_upto_mono) simp
  ultimately have "dedup_upto {cid} (?c\<lparr>entries := us @ [?e]\<rparr>)"
    using us(3) by (intro dedup_upto_entries) simp_all
  then have "dedup_ok (pop_inflight cid (Done r) (?c\<lparr>entries := us @ [?e]\<rparr>))"
    by (rule pop_inflight_ok) simp
  moreover have "put now cid digest r c = (pop_inflight cid (Done r) (?c\<lparr>entries := us @ [?e]\<rparr>), Inr ())"
    using fresh us(1) by (simp add: put_def Let_def dict_put_fresh map_of_eq_None_iff [THEN iffD2])
  moreover have "map_of (us @ [?e]) cid = Some (digest, now + ttl c, r)"
    using cid by (simp add: map_add_def map_of_eq_None_iff [THEN iffD2])
  ultimately show ?thesis
    by (auto simp: pop_inflight_inflight pop_inflight_futures split: option.splits)
qed

lemma put_ok:
  assumes "dedup_ok c" and "put now cid digest r c = (c', res)"
  shows "dedup_ok c' \<and> set (inflight c') \<subseteq> set (inflight c) \<and> max_entries c' = max_entries c \<and>
    length (inflight c') \<le> length (inflight c)"
proof (cases "map_of (entries (purge now c)) cid")
  case None
  have eq: "put now cid digest r c = put now cid digest r (purge now c)"
    by (simp add: put_def Let_def split: option.splits)
  have "dedup_ok (purge now c)" "cid \<notin> fst ` set (entries (purge now c))"
    using assms(1) None by (simp_all add: purge_ok map_of_eq_None_iff)
  from put_fresh [OF this, of now digest r] assms(2) show ?thesis
    unfolding eq by (auto simp: dict_del_def)
next
  case (Some v)
  with assms have "c' = purge now c" by (auto simp: put_def Let_def split: prod.splits)
  with assms(1) show ?thesis by (simp add: purge_ok)
qed

lemma complete_error_ok:
  assumes "dedup_ok c" and "complete_error now cid digest code m c = (c', res)"
  shows "dedup_ok c' \<and> set (inflight c') \<subseteq> set (inflight c) \<and> max_entries c' = max_entries c \<and>
    length (inflight c') \<le> length (inflight c)"
proof -
  obtain c1 g where get: "get now cid digest c = (c1, g)" by (cases "get now cid digest c")
  have c1: "dedup_ok c1" "inflight c1 = inflight c" "max_entries c1 = max_entries c"
    using get_ok [OF assms(1) get] get_fields [OF get] by simp_all
  show ?thesis
  proof (cases "g = Inr None")
    case True
    obtain c2 p where put: "put now cid digest (error_frame code m) c1 = (c2, p)"
      by (cases "put now cid digest (error_frame code m) c1")
    with assms(2) get True have "c' = c2"
      by (auto simp: complete_error_def split: sum.splits)
    with put_ok [OF c1(1) put] c1 show ?thesis by simp
  next
    case False
    with assms(2) get have "c' = c1"
      by (auto simp: complete_error_def split: sum.splits option.splits)
    with c1 show ?thesis by simp
  qed
qed

lemma complete_error_absent:
  assumes "dedup_ok c" and "cid \<notin> fst ` set (entries c)"
  shows "\<exists>c'. complete_error now cid digest code m c = (c', Inr (error_frame code m)) \<and> dedup_ok c' \<and>
    inflight c' = dict_del cid (inflight c) \<and> max_entries c' = max_entries c \<and> ttl c' = ttl c \<and>
    futures c' = (case map_of (inflight c) cid of None \<Rightarrow> futures c
      | Some (d, f) \<Rightarrow> settle f (Done (error_frame code m)) (futures c))"
proof -
  have "dedup_ok (purge now c)" "cid \<notin> fst ` set (entries (purge now c))"
    using purge_ok [OF assms(1)] purge_keys [OF assms(2)] by blast+
  from put_fresh [OF this, of now digest "error_frame code m"] get_absent [OF assms(2), of now digest]
  show ?thesis by (auto simp: complete_error_def split: option.splits)
qed

subsection \<open>The eviction loop ends\<close>

lemma dict_del_hd: "dict_ok ((k, v) # d) \<Longrightarrow> dict_del k ((k, v) # d) = d"
  by (force simp: dict_ok_def dict_del_def intro!: filter_True)

lemma evict_first:
  assumes "dedup_ok c" and "inflight c = (cid, digest, f) # rest"
  shows "\<exists>c' fr. evict now cid digest c = (c', Inr fr) \<and> dedup_ok c' \<and> inflight c' = rest \<and>
    max_entries c' = max_entries c \<and> ttl c' = ttl c \<and> length (futures c') = length (futures c) \<and>
    (\<forall>e \<in> set rest. futures c' ! future_of e = futures c ! future_of e)"
proof -
  have "cid \<notin> fst ` set (entries c)" using assms by (auto simp: dedup_upto_def)
  from complete_error_absent [OF assms(1) this, of now digest "- 32099"
      "''Replay-safe unary call was evicted before completion''"]
  obtain c' where c': "evict now cid digest c = (c', Inr (error_frame (- 32099)
        ''Replay-safe unary call was evicted before completion''))"
      "dedup_ok c'" "inflight c' = dict_del cid (inflight c)" "max_entries c' = max_entries c"
      "ttl c' = ttl c"
      "futures c' = settle f (Done (error_frame (- 32099)
         ''Replay-safe unary call was evicted before completion'')) (futures c)"
    using assms(2) by (auto simp: evict_def)
  have "dict_ok (inflight c)" "distinct (map future_of (inflight c))"
    using assms(1) by (simp_all add: dedup_upto_def)
  with assms(2) have "dict_del cid (inflight c) = rest" "\<forall>e \<in> set rest. future_of e \<noteq> f"
    by (auto simp: dict_del_hd future_of_def [of "(cid, digest, f)"])
  with c' show ?thesis by simp
qed

lemma evict_loop_ends:
  assumes "dedup_ok c"
  shows "\<exists>c'. evict_loop now c = Some (c', Inr ()) \<and> dedup_ok c' \<and>
    inflight c' = drop (length (inflight c) - nat (max_entries c)) (inflight c) \<and>
    max_entries c' = max_entries c \<and> ttl c' = ttl c \<and> length (futures c') = length (futures c) \<and>
    (\<forall>e \<in> set (inflight c'). futures c' ! future_of e = futures c ! future_of e)"
  using assms
proof (induction "length (inflight c)" arbitrary: c rule: less_induct)
  case less
  have pos: "1 \<le> max_entries c" using less.prems by (simp add: dedup_upto_def)
  show ?case
  proof (cases "int (length (inflight c)) > max_entries c")
    case False
    with less.prems show ?thesis by (simp add: evict_loop.simps)
  next
    case True
    then obtain cid digest f rest where fl: "inflight c = (cid, digest, f) # rest"
      using pos by (cases "inflight c") auto
    from evict_first [OF less.prems fl, of now] obtain c1 fr where
      c1: "evict now cid digest c = (c1, Inr fr)" "dedup_ok c1" "inflight c1 = rest"
        "max_entries c1 = max_entries c" "ttl c1 = ttl c" "length (futures c1) = length (futures c)"
        "\<forall>e \<in> set rest. futures c1 ! future_of e = futures c ! future_of e" by blast
    have "length (inflight c1) < length (inflight c)" using c1(3) fl by simp
    from less.hyps [OF this c1(2)] obtain c' where
      c': "evict_loop now c1 = Some (c', Inr ())" "dedup_ok c'"
        "inflight c' = drop (length rest - nat (max_entries c)) rest"
        "max_entries c' = max_entries c" "ttl c' = ttl c" "length (futures c') = length (futures c)"
        "\<forall>e \<in> set (inflight c'). futures c' ! future_of e = futures c1 ! future_of e"
      using c1 by auto
    have "length (inflight c) - nat (max_entries c) = Suc (length rest - nat (max_entries c))"
      using True fl pos by simp
    moreover have "evict_loop now c = Some (c', Inr ())"
      using True fl c1(1) c'(1) by (simp add: evict_loop.simps [of now c])
    moreover have "\<forall>e \<in> set (inflight c'). futures c' ! future_of e = futures c ! future_of e"
      using c'(3,7) c1(7) by (metis in_set_dropD)
    ultimately show ?thesis using c' fl by simp
  qed
qed

subsection \<open>Joining and claiming\<close>

definition dedup_inv :: "dedup \<Rightarrow> bool" where
  "dedup_inv c \<longleftrightarrow> dedup_ok c \<and> int (length (inflight c)) \<le> max_entries c"

lemma new_done_ok:
  "dedup_ok c \<Longrightarrow> st \<noteq> Pending \<Longrightarrow> dedup_ok (c\<lparr>futures := futures c @ [st]\<rparr>)"
  unfolding dedup_upto_def by (auto simp: nth_append less_Suc_eq)

lemma claim_ok:
  assumes "dedup_ok c" and "cid \<notin> fst ` set (entries c)" and "cid \<notin> fst ` set (inflight c)"
  shows "dedup_ok (c\<lparr>futures := futures c @ [Pending],
    inflight := dict_put cid (digest, length (futures c)) (inflight c)\<rparr>)"
proof -
  let ?n = "length (futures c)"
  have below: "\<forall>e \<in> set (inflight c). future_of e < ?n"
    using assms(1) by (auto simp: dedup_upto_def)
  then have "distinct (map future_of (inflight c @ [(cid, digest, ?n)]))"
    using assms(1) by (auto simp: dedup_upto_def future_of_def [of "(cid, digest, ?n)"])
  moreover have "\<forall>f < Suc ?n. (futures c @ [Pending]) ! f = Pending \<longrightarrow>
      f \<in> future_of ` set (inflight c @ [(cid, digest, ?n)])"
    using assms(1) by (auto simp: dedup_upto_def nth_append less_Suc_eq future_of_def [of "(cid, digest, ?n)"])
  moreover have "future_of ` set (inflight c @ [(cid, digest, ?n)]) \<subseteq> {..< Suc ?n}"
    using below by (auto simp: future_of_def [of "(cid, digest, ?n)"] less_Suc_eq)
  moreover have "fst ` set (entries c) \<inter> fst ` set (inflight c @ [(cid, digest, ?n)]) = {}"
    using assms(1,2) by (simp add: dedup_upto_def)
  ultimately show ?thesis
    using assms(1,3) by (simp add: dedup_upto_def dict_put_fresh dict_ok_def)
qed

lemma join_claims:
  assumes "dedup_inv c" and "get now cid digest c = (c1, Inr None)"
    and "map_of (inflight c) cid = None"
  shows "\<exists>c'. join_or_claim now cid digest c = Some (c', Inr (length (futures c), True)) \<and>
    dedup_inv c' \<and> map_of (inflight c') cid = Some (digest, length (futures c)) \<and>
    length (futures c') = Suc (length (futures c)) \<and> futures c' ! length (futures c) = Pending"
proof -
  let ?n = "length (futures c)"
  let ?c2 = "c1\<lparr>futures := futures c1 @ [Pending],
      inflight := dict_put cid (digest, length (futures c1)) (inflight c1)\<rparr>"
  have ok: "dedup_ok c" using assms(1) by (simp add: dedup_inv_def)
  have c1: "dedup_ok c1" "inflight c1 = inflight c" "futures c1 = futures c"
    "max_entries c1 = max_entries c" "cid \<notin> fst ` set (entries c1)"
    using get_ok [OF ok assms(2)] get_fields [OF assms(2)] get_None [OF assms(2)] by blast+
  have fresh: "cid \<notin> fst ` set (inflight c1)"
    using assms(3) c1(2) by (simp add: map_of_eq_None_iff)
  have "dedup_ok ?c2" using claim_ok [OF c1(1,5) fresh] .
  from evict_loop_ends [OF this, of now] obtain c' where
    loop: "evict_loop now ?c2 = Some (c', Inr ())" and c': "dedup_ok c'"
      "inflight c' = drop (length (inflight ?c2) - nat (max_entries c)) (inflight ?c2)"
      "max_entries c' = max_entries c" "length (futures c') = Suc ?n"
      "\<forall>e \<in> set (inflight c'). futures c' ! future_of e = futures ?c2 ! future_of e"
    using c1(3,4) by auto
  have pos: "1 \<le> max_entries c" using ok by (simp add: dedup_upto_def)
  let ?e = "(cid, digest, ?n)"
  have fl: "inflight ?c2 = inflight c @ [?e]"
    using fresh c1(2,3) by (simp add: dict_put_fresh)
  then have mem: "?e \<in> set (inflight c')" using c'(2) pos by simp
  have "map_of (inflight c') cid = Some (digest, ?n)"
    using mem c'(1) by (simp add: dedup_upto_def dict_ok_def)
  moreover have "futures c' ! ?n = Pending"
    using c'(5) [rule_format, OF mem] c1(3) by (simp add: future_of_def nth_append)
  moreover have "int (length (inflight c')) \<le> max_entries c'"
    using c'(2,3) pos by simp
  moreover have "join_or_claim now cid digest c = Some (c', Inr (?n, True))"
    using assms(2,3) loop c1(2,3) by (simp add: join_or_claim_def new_future_def)
  ultimately show ?thesis using c'(1,4) by (simp add: dedup_inv_def)
qed

lemma join_ends:
  assumes "dedup_inv c"
  shows "\<exists>c' r. join_or_claim now cid digest c = Some (c', r) \<and> dedup_inv c'"
proof -
  obtain c1 g where get: "get now cid digest c = (c1, g)" by (cases "get now cid digest c")
  have c1: "dedup_inv c1" "inflight c1 = inflight c"
    using get_ok [OF _ get] get_fields [OF get] assms by (simp_all add: dedup_inv_def)
  show ?thesis
  proof (cases "g = Inr None \<and> map_of (inflight c) cid = None")
    case True
    with get have "get now cid digest c = (c1, Inr None)" "map_of (inflight c) cid = None" by simp_all
    from join_claims [OF assms this] show ?thesis by blast
  next
    case False
    with get c1 show ?thesis
      by (auto simp: join_or_claim_def new_future_def dedup_inv_def new_done_ok
          split: sum.splits option.splits)
  qed
qed

subsection \<open>Runs of the cache\<close>

text \<open>
  Any sequence of the methods at any times, and waiters that cancel the future they wait for.
\<close>

inductive dedup_step :: "dedup \<Rightarrow> dedup \<Rightarrow> bool" where
  step_join: "join_or_claim now cid digest c = Some (c', r) \<Longrightarrow> dedup_step c c'"
| step_get: "get now cid digest c = (c', r) \<Longrightarrow> dedup_step c c'"
| step_put: "put now cid digest fr c = (c', r) \<Longrightarrow> dedup_step c c'"
| step_error: "complete_error now cid digest code m c = (c', r) \<Longrightarrow> dedup_step c c'"
| step_cancel: "dedup_step c (cancel cid c)"
| step_fail: "dedup_step c (fail cid err c)"
| step_teardown: "dedup_step c (cancel_inflight c)"
| step_waiter: "dedup_step c (c\<lparr>futures := settle f Cancelled (futures c)\<rparr>)"

definition dedup_start :: "dedup \<Rightarrow> bool" where
  "dedup_start c \<longleftrightarrow> (\<exists>n t. c = new_dedup n t)"

lemma pop_inflight_inv: "dedup_inv c \<Longrightarrow> st \<noteq> Pending \<Longrightarrow> dedup_inv (pop_inflight cid st c)"
proof -
  assume c: "dedup_inv c" and st: "st \<noteq> Pending"
  have "dedup_upto {cid} c" using c dedup_upto_mono [of "{}" c] by (simp add: dedup_inv_def)
  then have "dedup_ok (pop_inflight cid st c)" using st by (rule pop_inflight_ok)
  moreover have "int (length (dict_del cid (inflight c))) \<le> int (length (inflight c))"
    unfolding dict_del_def of_nat_le_iff by (rule length_filter_le)
  then have "int (length (dict_del cid (inflight c))) \<le> max_entries c"
    using c unfolding dedup_inv_def by linarith
  ultimately show ?thesis by (simp add: dedup_inv_def pop_inflight_inflight)
qed

lemma cancel_all_inv: "dedup_inv c \<Longrightarrow> dedup_inv (fold cancel ks c)"
  by (induction ks arbitrary: c) (simp_all add: cancel_def pop_inflight_inv)

lemma settle_Pending: "settle f st fs ! g = Pending \<Longrightarrow> st \<noteq> Pending \<Longrightarrow> g < length fs \<Longrightarrow> fs ! g = Pending"
  by (cases "g = f") (auto simp: settle_def split: if_splits)

interpretation cache: inv_system dedup_start dedup_step dedup_inv
proof unfold_locales
  fix c
  show "dedup_start c \<Longrightarrow> dedup_inv c"
    by (auto simp: dedup_start_def new_dedup_def dedup_inv_def dedup_upto_def)
next
  fix c c'
  assume "dedup_step c c'" and "dedup_inv c"
  then show "dedup_inv c'"
  proof (induction rule: dedup_step.induct)
    case (step_join now cid digest c c' r)
    then show ?case using join_ends [of c now cid digest] by auto
  next
    case (step_get now cid digest c c' r)
    then show ?case using get_ok [of "{}" c now cid digest c' r] get_fields [of now cid digest c c' r]
      by (simp add: dedup_inv_def)
  next
    case (step_put now cid digest fr c c' r)
    then show ?case using put_ok [of c now cid digest fr c' r] by (simp add: dedup_inv_def)
  next
    case (step_error now cid digest code m c c' r)
    then show ?case using complete_error_ok [of c now cid digest code m c' r]
      by (simp add: dedup_inv_def)
  next
    case (step_waiter c f)
    then show ?case
      by (simp add: dedup_inv_def dedup_upto_def) (metis settle_Pending future.distinct(3))
  qed (simp_all add: cancel_def fail_def cancel_inflight_def pop_inflight_inv cancel_all_inv)
qed

text \<open>
  The cache at any time: both tables stay within the configured number of entries, no call
  is cached and in flight at once, and every future that is still pending belongs to a call in
  flight. A caller that waits is therefore waiting for something that can still be settled;
  eviction, cancellation and teardown settle the futures they drop.
\<close>

theorem dedup_no_orphan_waiters:
  assumes "reach dedup_start dedup_step c"
  shows "int (length (entries c)) \<le> max_entries c \<and> int (length (inflight c)) \<le> max_entries c \<and>
    fst ` set (entries c) \<inter> fst ` set (inflight c) = {} \<and>
    (\<forall>f < length (futures c). futures c ! f = Pending \<longrightarrow>
       (\<exists>cid digest. map_of (inflight c) cid = Some (digest, f)))"
proof -
  have inv: "dedup_inv c" using assms by (rule cache.reach_inv)
  have "\<exists>cid digest. map_of (inflight c) cid = Some (digest, f)"
    if f: "f < length (futures c)" "futures c ! f = Pending" for f
  proof -
    have "f \<in> future_of ` set (inflight c)" using inv f by (simp add: dedup_inv_def dedup_upto_def)
    then obtain cid digest where "(cid, digest, f) \<in> set (inflight c)" by (auto simp: future_of_def)
    with inv show ?thesis by (auto simp: dedup_inv_def dedup_upto_def dict_ok_def)
  qed
  with inv show ?thesis by (simp add: dedup_inv_def dedup_upto_def)
qed

definition demo_claimed :: dedup where
  "demo_claimed = \<lparr>max_entries = 2, ttl = 300000000, entries = [],
     inflight = [(''c1'', ''d1'', 0)], futures = [Pending]\<rparr>"

lemma demo_claim: "join_or_claim 10 ''c1'' ''d1'' (new_dedup 2 300000000) = Some (demo_claimed, Inr (0, True))"
  by (simp add: join_or_claim_def get_def purge_def new_dedup_def new_future_def demo_claimed_def
      evict_loop.simps Let_def)

lemma demo_claimed_reach: "reach dedup_start dedup_step demo_claimed"
proof -
  have "reach dedup_start dedup_step (new_dedup 2 300000000)"
    by (rule reach_start) (auto simp: dedup_start_def)
  then show ?thesis using step_join [OF demo_claim] by (rule reach_step)
qed

theorem dedup_no_orphan_waiters_witness:
  "\<exists>cid digest. map_of (inflight demo_claimed) cid = Some (digest, 0)"
proof -
  have "0 < length (futures demo_claimed)" "futures demo_claimed ! 0 = Pending"
    by (simp_all add: demo_claimed_def)
  with dedup_no_orphan_waiters [OF demo_claimed_reach] show ?thesis by blast
qed

text \<open>
  C38. Joining a call always returns, and one caller at most runs it. In every reachable state the
  eviction loop ends and \<open>join_or_claim\<close> answers: a call with a live stored result gets a settled
  future with that result, a call in flight gets the future of the call in flight, and both
  with a conflict if the payload differs; only a call that is neither stored nor in flight makes
  the caller the owner, with a new pending future under which the next caller joins.
\<close>

theorem join_or_claim_spec:
  assumes "reach dedup_start dedup_step c"
  shows "\<exists>c' r. join_or_claim now cid digest c = Some (c', r) \<and>
    (case map_of (entries (purge now c)) cid of
       Some (d, t, res) \<Rightarrow>
         (if d \<noteq> digest then r = Inl (Unary_Call_Conflict cid)
          else \<exists>f. r = Inr (f, False) \<and> futures c' ! f = Done res)
     | None \<Rightarrow>
         (case map_of (inflight c) cid of
            Some (d, f) \<Rightarrow>
              (if d \<noteq> digest then r = Inl (Unary_Call_Conflict cid) else r = Inr (f, False))
          | None \<Rightarrow> \<exists>f. r = Inr (f, True) \<and> futures c' ! f = Pending \<and>
              map_of (inflight c') cid = Some (digest, f)))"
proof -
  have inv: "dedup_inv c" using assms by (rule cache.reach_inv)
  show ?thesis
  proof (cases "map_of (entries (purge now c)) cid = None \<and> map_of (inflight c) cid = None")
    case True
    then have "get now cid digest c = (purge now c, Inr None)" by (simp add: get_def Let_def)
    from join_claims [OF inv this] True show ?thesis by auto
  next
    case False
    then show ?thesis
      by (auto simp: join_or_claim_def get_def new_future_def Let_def split: option.splits prod.splits)
  qed
qed

theorem join_or_claim_spec_witness:
  "\<exists>c'. join_or_claim 11 ''c1'' ''d1'' demo_claimed = Some (c', Inr (0, False)) \<and>
     (\<exists>c''. join_or_claim 11 ''c1'' ''other'' demo_claimed = Some (c'', Inl (Unary_Call_Conflict ''c1'')))"
proof -
  have "map_of (entries (purge 11 demo_claimed)) ''c1'' = None"
    "map_of (inflight demo_claimed) ''c1'' = Some (''d1'', 0)"
    by (simp_all add: demo_claimed_def purge_def)
  with join_or_claim_spec [OF demo_claimed_reach, of 11 "''c1''" "''d1''"]
    join_or_claim_spec [OF demo_claimed_reach, of 11 "''c1''" "''other''"]
  show ?thesis by auto
qed

text \<open>
  One result for everybody: when the owner of a call in flight stores its result, the future
  its joiners wait for holds exactly that result unless it was settled before, and until the
  result expires every later caller with the same payload gets it without running the call.
\<close>

theorem result_shared_and_replayed:
  assumes "reach dedup_start dedup_step c" and "map_of (inflight c) cid = Some (digest, f)"
  shows "\<exists>c'. put now cid digest res c = (c', Inr ()) \<and>
    (futures c ! f = Pending \<longrightarrow> futures c' ! f = Done res) \<and>
    map_of (inflight c') cid = None \<and>
    (\<forall>later < now + ttl c. \<exists>c'' g. join_or_claim later cid digest c' = Some (c'', Inr (g, False)) \<and>
       futures c'' ! g = Done res)"
proof -
  have inv: "dedup_ok c" using cache.reach_inv [OF assms(1)] by (simp add: dedup_inv_def)
  have "cid \<in> fst ` set (inflight c)" using map_of_SomeD [OF assms(2)] by force
  then have "cid \<notin> fst ` set (entries c)" using inv by (auto simp: dedup_upto_def)
  from put_fresh [OF inv this, of now digest res] assms(2) obtain c' where
    c': "put now cid digest res c = (c', Inr ())" "dedup_ok c'" "inflight c' = dict_del cid (inflight c)"
      "map_of (entries c') cid = Some (digest, now + ttl c, res)"
      "futures c' = settle f (Done res) (futures c)" by auto
  have "f < length (futures c)"
    using inv map_of_SomeD [OF assms(2)] by (fastforce simp: dedup_upto_def future_of_def)
  then have "futures c ! f = Pending \<longrightarrow> futures c' ! f = Done res"
    by (simp add: c'(5) settle_def)
  moreover have "\<exists>c'' g. join_or_claim later cid digest c' = Some (c'', Inr (g, False)) \<and>
      futures c'' ! g = Done res" if "later < now + ttl c" for later
  proof -
    have "(cid, digest, now + ttl c, res) \<in> set (entries c')"
      using c'(4) by (rule map_of_SomeD)
    with that have "(cid, digest, now + ttl c, res) \<in> set (entries (purge later c'))"
      by (simp add: purge_def)
    moreover have "dict_ok (entries (purge later c'))"
      using purge_ok [OF c'(2)] by (simp add: dedup_upto_def)
    ultimately have "map_of (entries (purge later c')) cid = Some (digest, now + ttl c, res)"
      by (simp add: dict_ok_def)
    then show ?thesis by (simp add: join_or_claim_def get_def new_future_def Let_def)
  qed
  moreover have "map_of (inflight c') cid = None" by (simp add: c'(3))
  ultimately show ?thesis using c'(1) by blast
qed

theorem result_shared_and_replayed_witness:
  "\<exists>c'. put 12 ''c1'' ''d1'' [(''ok'', VBool True)] demo_claimed = (c', Inr ()) \<and>
     futures c' ! 0 = Done [(''ok'', VBool True)]"
proof -
  have fl: "map_of (inflight demo_claimed) ''c1'' = Some (''d1'', 0)"
    and "futures demo_claimed ! 0 = Pending"
    by (simp_all add: demo_claimed_def)
  with result_shared_and_replayed [OF demo_claimed_reach fl, of 12 "[(''ok'', VBool True)]"]
  show ?thesis by auto
qed

end
