(* ===== verification/Gate_Conditions.thy ===== *)
theory Gate_Conditions
  imports Python_Values
begin

section \<open>Gate conditions of workflow steps\<close>

text \<open>
  \<open>cognis/core/gate_conditions.py\<close>: the expressions that decide whether a gate opens, their
  strict evaluation over step outputs and thresholds, the detailed evaluation shown to users, and
  the validation of a workflow's references.

  The abstract syntax is Python's \<open>ast\<close> for expressions, as far as the code distinguishes its
  nodes: every node kind outside the allow-list is \<open>Other\<close> with the name of its type and its
  children. Constants are the values of \<^typ>\<open>pyval\<close>, which leaves out bytes, complex
  numbers and the ellipsis. The parser \<open>ast.parse\<close> belongs to the language, so the functions take
  it as the argument \<open>parse\<close>, with \<open>None\<close> for \<open>SyntaxError\<close>. A \<open>ValueError\<close> is \<open>Inl\<close> with its
  message.
\<close>

subsection \<open>Expressions\<close>

datatype cmpop = Eq | NotEq | Lt | LtE | Gt | GtE | In | NotIn | Is | IsNot
datatype boolop = And | Or
datatype unop = Not | Invert | UAdd | USub

datatype node =
    Constant pyval
  | EList "node list"
  | ETuple "node list"
  | Name string
  | Attribute node string
  | BoolOp boolop "node list"
  | UnaryOp unop node
  | Compare node "(cmpop \<times> node) list"
  | Other string "node list"

fun cmpop_name :: "cmpop \<Rightarrow> string" where
  "cmpop_name Eq = ''Eq''" | "cmpop_name NotEq = ''NotEq''" | "cmpop_name Lt = ''Lt''"
| "cmpop_name LtE = ''LtE''" | "cmpop_name Gt = ''Gt''" | "cmpop_name GtE = ''GtE''"
| "cmpop_name In = ''In''" | "cmpop_name NotIn = ''NotIn''" | "cmpop_name Is = ''Is''"
| "cmpop_name IsNot = ''IsNot''"

fun unop_name :: "unop \<Rightarrow> string" where
  "unop_name Not = ''Not''" | "unop_name Invert = ''Invert''" | "unop_name UAdd = ''UAdd''"
| "unop_name USub = ''USub''"

text \<open>
  \<open>ast.walk\<close> visits breadth first. Operators and the load context are nodes of their own, without
  children; \<open>Expression\<close> is the root.
\<close>

datatype item = Node node | Leaf string | Root node

fun item_type :: "item \<Rightarrow> string" where
  "item_type (Leaf s) = s"
| "item_type (Root n) = ''Expression''"
| "item_type (Node (Constant v)) = ''Constant''"
| "item_type (Node (EList ns)) = ''List''"
| "item_type (Node (ETuple ns)) = ''Tuple''"
| "item_type (Node (Name s)) = ''Name''"
| "item_type (Node (Attribute n a)) = ''Attribute''"
| "item_type (Node (BoolOp p ns)) = ''BoolOp''"
| "item_type (Node (UnaryOp p n)) = ''UnaryOp''"
| "item_type (Node (Compare n cs)) = ''Compare''"
| "item_type (Node (Other s ns)) = s"

fun child_nodes :: "item \<Rightarrow> item list" where
  "child_nodes (Leaf s) = []"
| "child_nodes (Root n) = [Node n]"
| "child_nodes (Node (Constant v)) = []"
| "child_nodes (Node (EList ns)) = map Node ns @ [Leaf ''Load'']"
| "child_nodes (Node (ETuple ns)) = map Node ns @ [Leaf ''Load'']"
| "child_nodes (Node (Name s)) = [Leaf ''Load'']"
| "child_nodes (Node (Attribute n a)) = [Node n, Leaf ''Load'']"
| "child_nodes (Node (BoolOp p ns)) = Leaf (case p of And \<Rightarrow> ''And'' | Or \<Rightarrow> ''Or'') # map Node ns"
| "child_nodes (Node (UnaryOp p n)) = [Leaf (unop_name p), Node n]"
| "child_nodes (Node (Compare n cs)) =
     Node n # map (\<lambda>(p, m). Leaf (cmpop_name p)) cs @ map (\<lambda>(p, m). Node m) cs"
| "child_nodes (Node (Other s ns)) = map Node ns"

fun node_weight :: "node \<Rightarrow> nat" where
  "node_weight (Constant v) = 1"
| "node_weight (EList ns) = 2 + sum_list (map node_weight ns)"
| "node_weight (ETuple ns) = 2 + sum_list (map node_weight ns)"
| "node_weight (Name s) = 2"
| "node_weight (Attribute n a) = 2 + node_weight n"
| "node_weight (BoolOp p ns) = 2 + sum_list (map node_weight ns)"
| "node_weight (UnaryOp p n) = 2 + node_weight n"
| "node_weight (Compare n cs) = 1 + node_weight n + sum_list (map (\<lambda>(p, m). 1 + node_weight m) cs)"
| "node_weight (Other s ns) = 1 + sum_list (map node_weight ns)"

fun item_weight :: "item \<Rightarrow> nat" where
  "item_weight (Leaf s) = 1"
| "item_weight (Node n) = node_weight n"
| "item_weight (Root n) = 1 + node_weight n"

lemma sum_compare:
  "sum_list (map (item_weight \<circ> (\<lambda>(p, m). Leaf (cmpop_name p))) cs) +
   sum_list (map (item_weight \<circ> (\<lambda>(p, m). Node m)) cs) =
   sum_list (map (\<lambda>(p, m). Suc (node_weight m)) cs)"
  by (induction cs) auto

lemma child_weight: "sum_list (map item_weight (child_nodes i)) < item_weight i"
proof (cases i)
  case (Node n)
  then show ?thesis by (cases n) (auto simp: comp_def sum_compare [unfolded comp_def])
qed auto

function walk :: "item list \<Rightarrow> item list" where
  "walk [] = []"
| "walk (i # todo) = i # walk (todo @ child_nodes i)"
  by pat_completeness auto
termination
  by (relation "measure (\<lambda>todo. sum_list (map item_weight todo))")
    (auto simp: child_weight)

definition ALLOWED_AST_NODES :: "string list" where
  "ALLOWED_AST_NODES = [''Expression'', ''BoolOp'', ''UnaryOp'', ''Compare'', ''Name'', ''Load'',
     ''Constant'', ''List'', ''Tuple'', ''Attribute'', ''And'', ''Or'', ''Not'', ''Eq'', ''NotEq'',
     ''Lt'', ''LtE'', ''Gt'', ''GtE'', ''In'', ''NotIn'']"

fun allowed_node :: "item \<Rightarrow> bool" where
  "allowed_node (Node (Other s ns)) = False"
| "allowed_node i = (item_type i \<in> set ALLOWED_AST_NODES)"

definition validate_ast :: "node \<Rightarrow> (string, unit) result" where
  "validate_ast tree =
     (case find_first (\<lambda>i. \<not> allowed_node i) (walk [Root tree]) of
        None \<Rightarrow> Inr ()
      | Some i \<Rightarrow> Inl (''Unsupported gate condition syntax: '' @ item_type i))"

definition parse_condition :: "(string \<Rightarrow> node option) \<Rightarrow> string \<Rightarrow> (string, node) result" where
  "parse_condition parse expression =
     (case parse expression of
        None \<Rightarrow> Inl (''Invalid gate condition syntax: '' @ repr_str expression)
      | Some tree \<Rightarrow> res_bind (validate_ast tree) (\<lambda>_. Inr tree))"

subsection \<open>Evaluation\<close>

definition NAMESPACES :: "string list" where
  "NAMESPACES = [''metadata'', ''outputs'', ''thresholds'']"

text \<open>The dotted path of an attribute chain, without its base when that is not a name.\<close>

fun attribute_parts :: "node \<Rightarrow> string list" where
  "attribute_parts (Attribute n a) = attribute_parts n @ [a]"
| "attribute_parts (Name s) = [s]"
| "attribute_parts _ = []"

fun base_is_name :: "node \<Rightarrow> bool" where
  "base_is_name (Attribute n a) = base_is_name n"
| "base_is_name (Name s) = True"
| "base_is_name _ = False"

fun resolve_parts :: "string list \<Rightarrow> pyval \<Rightarrow> pyval" where
  "resolve_parts [] v = v"
| "resolve_parts (p # ps) v = (case v of VDict d \<Rightarrow> resolve_parts ps (dict_get d p) | _ \<Rightarrow> VNone)"

definition resolve_attribute :: "node \<Rightarrow> pyval \<Rightarrow> (string, pyval) result" where
  "resolve_attribute n ctx =
     (if \<not> base_is_name n then Inl ''Unsupported gate condition reference''
      else let parts = attribute_parts n
        in if hd parts \<notin> set NAMESPACES
           then Inl (''Unsupported gate condition reference: '' @ join_with ''.'' parts)
           else Inr (resolve_parts parts ctx))"

definition incompatible :: "bool checked \<Rightarrow> (string, bool) result" where
  "incompatible r = (case r of Inl e \<Rightarrow> Inl ''Gate condition compared incompatible values'' | Inr b \<Rightarrow> Inr b)"

fun compare :: "pyval \<Rightarrow> cmpop \<Rightarrow> pyval \<Rightarrow> (string, bool) result" where
  "compare l Eq r = Inr (py_eq l r)"
| "compare l NotEq r = Inr (\<not> py_eq l r)"
| "compare l Lt r = incompatible (py_lt l r)"
| "compare l LtE r = incompatible (py_le l r)"
| "compare l Gt r = incompatible (py_lt r l)"
| "compare l GtE r = incompatible (py_le r l)"
| "compare l In r = incompatible (py_contains l r)"
| "compare l NotIn r = incompatible (res_bind (py_contains l r) (\<lambda>b. Inr (\<not> b)))"
| "compare l Is r = Inl ''Unsupported gate comparison: Is''"
| "compare l IsNot r = Inl ''Unsupported gate comparison: IsNot''"

fun eval_node :: "node \<Rightarrow> pyval \<Rightarrow> (string, pyval) result"
  and eval_nodes :: "node list \<Rightarrow> pyval \<Rightarrow> (string, pyval list) result"
  and eval_chain :: "pyval \<Rightarrow> (cmpop \<times> node) list \<Rightarrow> pyval \<Rightarrow> (string, bool) result" where
  "eval_node (Constant v) ctx = Inr v"
| "eval_node (EList ns) ctx = res_bind (eval_nodes ns ctx) (\<lambda>vs. Inr (VList vs))"
| "eval_node (ETuple ns) ctx = res_bind (eval_nodes ns ctx) (\<lambda>vs. Inr (VList vs))"
| "eval_node (Name s) ctx =
     (if s \<in> {''true'', ''false''} then Inr (VBool (s = ''true''))
      else Inl (''Unsupported gate condition identifier: '' @ s))"
| "eval_node (Attribute n a) ctx = resolve_attribute (Attribute n a) ctx"
| "eval_node (BoolOp p ns) ctx =
     res_bind (eval_nodes ns ctx) (\<lambda>vs. Inr (VBool
       (case p of And \<Rightarrow> list_all truthy vs | Or \<Rightarrow> list_ex truthy vs)))"
| "eval_node (UnaryOp p n) ctx =
     (if p = Not then res_bind (eval_node n ctx) (\<lambda>v. Inr (VBool (\<not> truthy v)))
      else Inl ''Unsupported gate condition syntax: UnaryOp'')"
| "eval_node (Compare n cs) ctx =
     res_bind (eval_node n ctx) (\<lambda>left. res_bind (eval_chain left cs ctx) (\<lambda>b. Inr (VBool b)))"
| "eval_node (Other s ns) ctx = Inl (''Unsupported gate condition syntax: '' @ s)"
| "eval_nodes [] ctx = Inr []"
| "eval_nodes (n # ns) ctx =
     res_bind (eval_node n ctx) (\<lambda>v. res_bind (eval_nodes ns ctx) (\<lambda>vs. Inr (v # vs)))"
| "eval_chain left [] ctx = Inr True"
| "eval_chain left ((p, n) # cs) ctx =
     res_bind (eval_node n ctx) (\<lambda>right. res_bind (compare left p right)
       (\<lambda>b. if \<not> b then Inr False else eval_chain right cs ctx))"

definition build_context :: "(string \<times> pyval) list \<Rightarrow> (string \<times> pyval) list \<Rightarrow> pyval" where
  "build_context step_outputs thresholds =
     (let part = (\<lambda>key. VDict (map (\<lambda>(name, raw). (name,
                   case raw of VDict d \<Rightarrow> dict_get_or d key (VDict []) | _ \<Rightarrow> VDict [])) step_outputs))
      in VDict [(''metadata'', part ''metadata''), (''outputs'', part ''outputs''),
                (''thresholds'', VDict thresholds)])"

definition eval_expression ::
  "(string \<Rightarrow> node option) \<Rightarrow> string \<Rightarrow> pyval \<Rightarrow> (string, bool) result" where
  "eval_expression parse expression ctx =
     res_bind (parse_condition parse expression)
       (\<lambda>tree. res_bind (eval_node tree ctx) (\<lambda>v. Inr (truthy v)))"

text \<open>\<open>any\<close> over a generator: the first true expression ends it, and so does the first error.\<close>

fun any_true :: "('a \<Rightarrow> ('e, bool) result) \<Rightarrow> 'a list \<Rightarrow> ('e, bool) result" where
  "any_true f [] = Inr False"
| "any_true f (x # xs) = res_bind (f x) (\<lambda>b. if b then Inr True else any_true f xs)"

definition evaluate_gate_conditions ::
  "(string \<Rightarrow> node option) \<Rightarrow> string list \<Rightarrow> (string \<times> pyval) list \<Rightarrow> (string \<times> pyval) list option
     \<Rightarrow> (string, bool) result" where
  "evaluate_gate_conditions parse expressions step_outputs thresholds =
     (if expressions = [] then Inr True
      else any_true (\<lambda>e. eval_expression parse e
             (build_context step_outputs (case thresholds of None \<Rightarrow> [] | Some t \<Rightarrow> t))) expressions)"

subsection \<open>Evaluation with details\<close>

fun safe_gate_value :: "pyval \<Rightarrow> pyval" where
  "safe_gate_value (VStr s) = VStr (if length s \<le> 200 then s else take 200 s @ ''...'')"
| "safe_gate_value (VList vs) = VList (take 10 (map safe_gate_value vs))"
| "safe_gate_value (VDict d) = VStr ''<dict>''"
| "safe_gate_value v = v"

definition attribute_nodes :: "node \<Rightarrow> node list" where
  "attribute_nodes tree =
     concat (map (\<lambda>i. case i of Node (Attribute n a) \<Rightarrow> [Attribute n a] | _ \<Rightarrow> []) (walk [Root tree]))"

type_synonym ref_values = "(string, pyval) dict \<times> (string, pyval) dict"

definition add_reference :: "pyval \<Rightarrow> node \<Rightarrow> ref_values \<Rightarrow> ref_values" where
  "add_reference ctx n acc =
     (let parts = attribute_parts n; (referenced, expected) = acc;
          key = join_with ''.'' parts; value = safe_gate_value (resolve_parts parts ctx)
      in if parts = [] \<or> hd parts \<notin> set NAMESPACES then acc
         else if hd parts \<in> {''metadata'', ''outputs''} \<and> length parts < 3 then acc
         else if hd parts = ''thresholds'' then (referenced, dict_put key value expected)
         else (dict_put key value referenced, expected))"

definition expression_reference_values :: "node \<Rightarrow> pyval \<Rightarrow> ref_values" where
  "expression_reference_values tree ctx = fold (add_reference ctx) (attribute_nodes tree) ([], [])"

fun operator_label :: "cmpop \<Rightarrow> string" where
  "operator_label Eq = ''==''" | "operator_label NotEq = ''!=''" | "operator_label Lt = ''<''"
| "operator_label LtE = ''<=''" | "operator_label Gt = ''>''" | "operator_label GtE = ''>=''"
| "operator_label In = ''in''" | "operator_label NotIn = ''not in''"
| "operator_label Is = ''Is''" | "operator_label IsNot = ''IsNot''"

fun has_operator :: "item \<Rightarrow> bool" where
  "has_operator (Node (Compare n (c # cs))) = True"
| "has_operator _ = False"

definition first_compare_operator :: "node \<Rightarrow> string option" where
  "first_compare_operator tree =
     (case find_first has_operator (walk [Root tree]) of
        Some (Node (Compare n ((p, m) # cs))) \<Rightarrow> Some (operator_label p)
      | _ \<Rightarrow> None)"

record gate_detail =
  d_expression :: string
  d_operator :: "string option"
  d_referenced_values :: "(string, pyval) dict"
  d_expected_values :: "(string, pyval) dict"
  d_actual_result :: "bool option"
  d_passed :: bool
  d_error :: "string option"

definition blank_detail :: "string \<Rightarrow> gate_detail" where
  "blank_detail expression = \<lparr>d_expression = expression, d_operator = None,
     d_referenced_values = [], d_expected_values = [], d_actual_result = None, d_passed = False,
     d_error = None\<rparr>"

definition condition_detail :: "(string \<Rightarrow> node option) \<Rightarrow> pyval \<Rightarrow> string \<Rightarrow> gate_detail" where
  "condition_detail parse ctx expression =
     (case parse_condition parse expression of
        Inl message \<Rightarrow> (blank_detail expression)\<lparr>d_error := Some message\<rparr>
      | Inr tree \<Rightarrow>
          (let (referenced, expected) = expression_reference_values tree ctx;
               detail = (blank_detail expression)\<lparr>d_referenced_values := referenced,
                  d_expected_values := expected, d_operator := first_compare_operator tree\<rparr>
           in case eval_node tree ctx of
                Inl message \<Rightarrow> detail\<lparr>d_error := Some message\<rparr>
              | Inr v \<Rightarrow> detail\<lparr>d_actual_result := Some (truthy v), d_passed := truthy v\<rparr>))"

record gate_evaluation =
  e_condition_mode :: string
  e_conditions :: "gate_detail list"
  e_passed :: bool
  e_errors :: "string list"

definition evaluate_gate_conditions_detailed ::
  "(string \<Rightarrow> node option) \<Rightarrow> string list \<Rightarrow> (string \<times> pyval) list \<Rightarrow> (string \<times> pyval) list option
     \<Rightarrow> gate_evaluation" where
  "evaluate_gate_conditions_detailed parse expressions step_outputs thresholds =
     (let ctx = build_context step_outputs (case thresholds of None \<Rightarrow> [] | Some t \<Rightarrow> t);
          details = map (condition_detail parse ctx) expressions
      in \<lparr>e_condition_mode = ''any'', e_conditions = details,
          e_passed = fold (\<lambda>d passed. passed \<or> d_passed d) details (expressions = []),
          e_errors = concat (map (\<lambda>d. case d_error d of None \<Rightarrow> [] | Some m \<Rightarrow> [m]) details)\<rparr>)"

subsection \<open>Validation of a workflow\<close>

definition references :: "node \<Rightarrow> (string \<times> string \<times> string) list" where
  "references tree =
     concat (map (\<lambda>n. let parts = attribute_parts n
        in if 3 \<le> length parts \<and> hd parts \<in> {''metadata'', ''outputs''}
           then [(hd parts, parts ! 1, parts ! 2)] else []) (attribute_nodes tree))"

text \<open>What the validation reads of a step: its name, its gate and the metadata it declares.\<close>

record gate_step =
  gs_name :: string
  gs_gate :: "string list option"
  gs_metadata_fields :: "string list option"

type_synonym declared = "(string, string list) dict"

fun check_references ::
  "string \<Rightarrow> declared \<Rightarrow> (string \<times> string \<times> string) list \<Rightarrow> (string, unit) result" where
  "check_references gate seen [] = Inr ()"
| "check_references gate seen ((ns, step_name, fld) # refs) =
     (if ns \<in> {''metadata'', ''outputs''} \<and> map_of seen step_name = None
      then Inl (''Gate '' @ repr_str gate @ '' condition references unknown/later step '' @ repr_str step_name)
      else if ns = ''metadata'' \<and> fld \<notin> set (case map_of seen step_name of None \<Rightarrow> [] | Some fs \<Rightarrow> fs)
      then Inl (''Gate '' @ repr_str gate @ '' condition references undeclared metadata ''
                @ step_name @ ''.'' @ fld)
      else check_references gate seen refs)"

fun check_conditions ::
  "(string \<Rightarrow> node option) \<Rightarrow> string \<Rightarrow> declared \<Rightarrow> string list \<Rightarrow> (string, unit) result" where
  "check_conditions parse gate seen [] = Inr ()"
| "check_conditions parse gate seen (e # es) =
     res_bind (parse_condition parse e) (\<lambda>tree.
       res_bind (check_references gate seen (references tree)) (\<lambda>_. check_conditions parse gate seen es))"

definition declare_step :: "gate_step \<Rightarrow> declared \<Rightarrow> declared" where
  "declare_step st seen =
     dict_put (gs_name st) (case gs_metadata_fields st of None \<Rightarrow> [] | Some fs \<Rightarrow> fs) seen"

fun check_steps ::
  "(string \<Rightarrow> node option) \<Rightarrow> declared \<Rightarrow> gate_step list \<Rightarrow> (string, unit) result" where
  "check_steps parse seen [] = Inr ()"
| "check_steps parse seen (st # steps) =
     res_bind (case gs_gate st of None \<Rightarrow> Inr () | Some es \<Rightarrow> check_conditions parse (gs_name st) seen es)
       (\<lambda>_. check_steps parse (declare_step st seen) steps)"

definition validate_gate_conditions ::
  "(string \<Rightarrow> node option) \<Rightarrow> gate_step list \<Rightarrow> (string, unit) result" where
  "validate_gate_conditions parse steps = check_steps parse [] steps"

subsection \<open>What the allow-list leaves of the evaluation errors\<close>

lemma child_weight_less: "c \<in> set (child_nodes i) \<Longrightarrow> item_weight c < item_weight i"
  using child_weight [of i] member_le_sum_list [of "item_weight c" "map item_weight (child_nodes i)"]
  by force

function ok_item :: "item \<Rightarrow> bool" where
  "ok_item i = (allowed_node i \<and> list_all ok_item (child_nodes i))"
  by auto
termination
  by (relation "measure item_weight") (auto simp: child_weight_less)

declare ok_item.simps [simp del]

lemma walk_all_ok:
  "(\<forall>i \<in> set (walk todo). allowed_node i) \<longleftrightarrow> list_all ok_item todo"
proof (induction todo rule: walk.induct)
  case (2 i todo)
  then show ?case by (auto simp: ok_item.simps [of i])
qed simp

lemma validate_ast_ok: "validate_ast tree = Inr () \<longleftrightarrow> ok_item (Node tree)"
proof -
  have "validate_ast tree = Inr () \<longleftrightarrow>
      (\<forall>i \<in> set (walk [Root tree]). allowed_node i)"
  proof (cases "find_first (\<lambda>i. \<not> allowed_node i) (walk [Root tree])")
    case None
    then have "validate_ast tree = Inr ()" unfolding validate_ast_def by (simp only: option.case)
    with None show ?thesis by (simp del: walk.simps)
  next
    case (Some i)
    then have "validate_ast tree \<noteq> Inr ()" unfolding validate_ast_def by (simp only: option.case) simp
    with find_first_SomeD [OF Some] show ?thesis by blast
  qed
  also have "\<dots> \<longleftrightarrow> ok_item (Root tree)" unfolding walk_all_ok by simp
  also have "\<dots> \<longleftrightarrow> ok_item (Node tree)"
    by (simp add: ok_item.simps [of "Root tree"] ALLOWED_AST_NODES_def)
  finally show ?thesis .
qed

definition benign_error :: "string \<Rightarrow> bool" where
  "benign_error m \<longleftrightarrow> m = ''Gate condition compared incompatible values'' \<or>
     py_startswith m ''Unsupported gate condition identifier: '' \<or>
     py_startswith m ''Unsupported gate condition reference''"

lemma py_startswith_append [simp]: "py_startswith (p @ s) p"
  by (induction p) auto

lemma compare_benign:
  "compare l p r = Inl m \<Longrightarrow> p \<notin> {Is, IsNot} \<Longrightarrow> benign_error m"
  by (cases p) (auto simp: benign_error_def incompatible_def split: sum.splits)

lemma resolve_attribute_benign: "resolve_attribute n ctx = Inl m \<Longrightarrow> benign_error m"
  by (auto simp: resolve_attribute_def benign_error_def Let_def split: if_splits)

lemma ok_op [simp]: "\<not> ok_item (Leaf ''Is'')" "\<not> ok_item (Leaf ''IsNot'')"
  "p \<noteq> Not \<Longrightarrow> \<not> ok_item (Leaf (unop_name p))"
  by (cases p; simp add: ok_item.simps ALLOWED_AST_NODES_def)+

lemma ok_children:
  "ok_item (Node (EList ns)) \<Longrightarrow> list_all (\<lambda>n. ok_item (Node n)) ns"
  "ok_item (Node (ETuple ns)) \<Longrightarrow> list_all (\<lambda>n. ok_item (Node n)) ns"
  "ok_item (Node (BoolOp b ns)) \<Longrightarrow> list_all (\<lambda>n. ok_item (Node n)) ns"
  "ok_item (Node (UnaryOp p n)) \<Longrightarrow> ok_item (Node n) \<and> p = Not"
  "ok_item (Node (Compare n cs)) \<Longrightarrow> ok_item (Node n) \<and>
     list_all (\<lambda>(p, m). p \<notin> {Is, IsNot} \<and> ok_item (Node m)) cs"
proof -
  show "ok_item (Node (EList ns)) \<Longrightarrow> list_all (\<lambda>n. ok_item (Node n)) ns"
    by (simp add: ok_item.simps [of "Node (EList ns)"] list_all_iff)
  show "ok_item (Node (ETuple ns)) \<Longrightarrow> list_all (\<lambda>n. ok_item (Node n)) ns"
    by (simp add: ok_item.simps [of "Node (ETuple ns)"] list_all_iff)
  show "ok_item (Node (BoolOp b ns)) \<Longrightarrow> list_all (\<lambda>n. ok_item (Node n)) ns"
    by (simp add: ok_item.simps [of "Node (BoolOp b ns)"] list_all_iff)
  show "ok_item (Node (UnaryOp p n)) \<Longrightarrow> ok_item (Node n) \<and> p = Not"
    using ok_op(3) [of p] by (auto simp: ok_item.simps [of "Node (UnaryOp p n)"])
  assume "ok_item (Node (Compare n cs))"
  then have n: "ok_item (Node n)" and ops: "\<forall>(p, m) \<in> set cs. ok_item (Leaf (cmpop_name p)) \<and> ok_item (Node m)"
    by (auto simp: ok_item.simps [of "Node (Compare n cs)"] list_all_iff)
  have "p \<notin> {Is, IsNot}" if "ok_item (Leaf (cmpop_name p))" for p
    using that by auto
  with n ops show "ok_item (Node n) \<and> list_all (\<lambda>(p, m). p \<notin> {Is, IsNot} \<and> ok_item (Node m)) cs"
    by (auto simp: list_all_iff)
qed

lemma eval_benign:
  "eval_node n ctx = Inl m \<Longrightarrow> ok_item (Node n) \<Longrightarrow> benign_error m"
  "eval_nodes ns ctx = Inl m \<Longrightarrow> list_all (\<lambda>n. ok_item (Node n)) ns \<Longrightarrow> benign_error m"
  "eval_chain left cs ctx = Inl m \<Longrightarrow>
     list_all (\<lambda>(p, m). p \<notin> {Is, IsNot} \<and> ok_item (Node m)) cs \<Longrightarrow> benign_error m"
proof (induction n ctx and ns ctx and left cs ctx rule: eval_node_eval_nodes_eval_chain.induct)
  case (4 s ctx)
  then show ?case by (auto simp: benign_error_def split: if_splits)
next
  case (5 n a ctx)
  then show ?case by (auto intro: resolve_attribute_benign)
next
  case (9 s ns ctx)
  then show ?case by (simp add: ok_item.simps [of "Node (Other s ns)"])
qed (auto simp: res_bind_eq_Inl dest!: ok_children dest: compare_benign split: if_splits)


definition demo_tree :: node where
  "demo_tree = Compare (Attribute (Attribute (Name ''outputs'') ''review'') ''score'')
     [(GtE, Attribute (Name ''thresholds'') ''min'')]"

definition demo_parse :: "string \<Rightarrow> node option" where
  "demo_parse e = (if e = ''outputs.review.score >= thresholds.min'' then Some demo_tree
     else if e = ''flag'' then Some (Name ''flag'') else None)"

definition demo_outputs :: "(string \<times> pyval) list" where
  "demo_outputs = [(''review'', VDict [(''outputs'', VDict [(''score'', VStr ''high'')])])]"

lemma demo_tree_ok:
  "parse_condition demo_parse ''outputs.review.score >= thresholds.min'' = Inr demo_tree"
  by (simp add: parse_condition_def demo_parse_def demo_tree_def validate_ast_def ALLOWED_AST_NODES_def)


lemma fold_or: "fold (\<lambda>d b. b \<or> P d) ds b0 \<longleftrightarrow> b0 \<or> (\<exists>d \<in> set ds. P d)"
  by (induction ds arbitrary: b0) auto

lemma condition_detail_eval:
  "d_passed (condition_detail parse ctx e) \<longleftrightarrow> eval_expression parse e ctx = Inr True"
  "d_error (condition_detail parse ctx e) =
     (case eval_expression parse e ctx of Inl m \<Rightarrow> Some m | Inr b \<Rightarrow> None)"
  by (auto simp: condition_detail_def eval_expression_def blank_detail_def Let_def
      split: sum.splits prod.splits)

lemma any_true_cases:
  "any_true f xs = Inr True \<Longrightarrow> \<exists>x \<in> set xs. f x = Inr True"
  "any_true f xs = Inr False \<longleftrightarrow> (\<forall>x \<in> set xs. f x = Inr False)"
  "any_true f xs = Inl m \<Longrightarrow> \<exists>x \<in> set xs. f x = Inl m"
  by (induction xs) (auto simp: res_bind_eq_Inl split: if_splits)

text \<open>
  The two evaluations of a gate agree as far as they can: the detailed one passes exactly
  when there are no expressions or one of them is true, and lists the errors of exactly the
  expressions that fail, in order. If the plain evaluation answers, the detailed one passes with
  the same answer, and if the answer is false it lists no error; if the plain evaluation raises an
  error, the detailed one lists it.
\<close>

theorem detailed_evaluation_agrees:
  fixes parse es outs th
  defines "D \<equiv> evaluate_gate_conditions_detailed parse es outs th"
    and "ev \<equiv> \<lambda>e. eval_expression parse e (build_context outs (case th of None \<Rightarrow> [] | Some t \<Rightarrow> t))"
  shows "(e_passed D \<longleftrightarrow> es = [] \<or> (\<exists>e \<in> set es. ev e = Inr True)) \<and>
    e_errors D = concat (map (\<lambda>e. case ev e of Inl m \<Rightarrow> [m] | Inr b \<Rightarrow> []) es) \<and>
    (case evaluate_gate_conditions parse es outs th of
       Inr True \<Rightarrow> e_passed D
     | Inr False \<Rightarrow> \<not> e_passed D \<and> e_errors D = []
     | Inl m \<Rightarrow> m \<in> set (e_errors D))"
proof (intro conjI)
  show passed: "e_passed D \<longleftrightarrow> es = [] \<or> (\<exists>e \<in> set es. ev e = Inr True)"
    by (simp add: D_def ev_def evaluate_gate_conditions_detailed_def Let_def fold_or condition_detail_eval)
  show errors: "e_errors D = concat (map (\<lambda>e. case ev e of Inl m \<Rightarrow> [m] | Inr b \<Rightarrow> []) es)"
    unfolding D_def ev_def evaluate_gate_conditions_detailed_def Let_def
    by (simp add: comp_def condition_detail_eval, rule arg_cong [of _ _ concat], rule map_cong)
      (auto split: sum.splits)
  have plain: "evaluate_gate_conditions parse es outs th = (if es = [] then Inr True else any_true ev es)"
    by (simp add: evaluate_gate_conditions_def ev_def)
  show "case evaluate_gate_conditions parse es outs th of
       Inr True \<Rightarrow> e_passed D
     | Inr False \<Rightarrow> \<not> e_passed D \<and> e_errors D = []
     | Inl m \<Rightarrow> m \<in> set (e_errors D)"
  proof (cases "evaluate_gate_conditions parse es outs th")
    case (Inl m)
    then have "any_true ev es = Inl m" by (simp add: plain split: if_splits)
    from any_true_cases(3) [OF this] obtain e where "e \<in> set es" "ev e = Inl m" ..
    then have "m \<in> set (e_errors D)" by (force simp: errors)
    with Inl show ?thesis by simp
  next
    case (Inr b)
    show ?thesis
    proof (cases b)
      case True
      with Inr have "es = [] \<or> any_true ev es = Inr True" by (simp add: plain split: if_splits)
      then have "e_passed D" using any_true_cases(1) [of ev es] by (auto simp: passed)
      with Inr True show ?thesis by simp
    next
      case False
      with Inr have "es \<noteq> []" "\<forall>e \<in> set es. ev e = Inr False"
        by (auto simp: plain any_true_cases split: if_splits)
      then have "\<not> e_passed D" "e_errors D = []" by (auto simp: passed errors)
      with Inr False show ?thesis by simp
    qed
  qed
qed

lemma declared_step:
  assumes "map_of (fold declare_step steps seen) name = Some fs"
  shows "map_of seen name = Some fs \<or>
    (\<exists>st \<in> set steps. gs_name st = name \<and> fs = (case gs_metadata_fields st of None \<Rightarrow> [] | Some gs \<Rightarrow> gs))"
  using assms
proof (induction steps arbitrary: seen)
  case (Cons st steps)
  from Cons.prems have "map_of (fold declare_step steps (declare_step st seen)) name = Some fs" by simp
  from Cons.IH [OF this] show ?case by (auto simp: declare_step_def split: if_splits)
qed simp

lemma check_references_ok:
  "check_references gate seen refs = Inr () \<longleftrightarrow>
     (\<forall>(ns, sn, fld) \<in> set refs. (ns \<in> {''metadata'', ''outputs''} \<longrightarrow> map_of seen sn \<noteq> None) \<and>
        (ns = ''metadata'' \<longrightarrow> (\<exists>fs. map_of seen sn = Some fs \<and> fld \<in> set fs)))"
  by (induction gate seen refs rule: check_references.induct) (auto split: option.splits)

lemma check_conditions_ok:
  "check_conditions parse gate seen es = Inr () \<Longrightarrow> e \<in> set es \<Longrightarrow>
     \<exists>tree. parse_condition parse e = Inr tree \<and> check_references gate seen (references tree) = Inr ()"
  by (induction es) auto

lemma check_steps_ok:
  assumes "check_steps parse seen steps = Inr ()" and "i < length steps"
    and "gs_gate (steps ! i) = Some es"
  shows "check_conditions parse (gs_name (steps ! i)) (fold declare_step (take i steps) seen) es = Inr ()"
  using assms
proof (induction steps arbitrary: seen i)
  case (Cons st steps)
  then show ?case by (cases i) (auto split: option.splits)
qed simp

lemma references_namespaces: "(ns, sn, fld) \<in> set (references tree) \<Longrightarrow> ns \<in> {''metadata'', ''outputs''}"
  by (auto simp: references_def Let_def split: if_splits)

text \<open>
  Validation of a workflow's gates: if it accepts, then every condition of every gate parses
  into the allowed syntax, every step whose metadata or outputs it refers to comes earlier in the
  workflow, and every metadata field it refers to is declared by an earlier step of that name.
\<close>

theorem validated_references_resolve:
  assumes "validate_gate_conditions parse steps = Inr ()" and "i < length steps"
    and "gs_gate (steps ! i) = Some es" and "e \<in> set es"
  shows "\<exists>tree. parse_condition parse e = Inr tree \<and>
    (\<forall>(ns, sn, fld) \<in> set (references tree).
       (\<exists>j < i. gs_name (steps ! j) = sn) \<and>
       (ns = ''metadata'' \<longrightarrow> (\<exists>j < i. gs_name (steps ! j) = sn \<and>
          (\<exists>fs. gs_metadata_fields (steps ! j) = Some fs \<and> fld \<in> set fs))))"
proof -
  let ?seen = "fold declare_step (take i steps) []"
  have "check_conditions parse (gs_name (steps ! i)) ?seen es = Inr ()"
    using assms(1) check_steps_ok [OF _ assms(2,3)] by (simp add: validate_gate_conditions_def)
  from check_conditions_ok [OF this assms(4)] obtain tree where
    tree: "parse_condition parse e = Inr tree"
    and refs: "check_references (gs_name (steps ! i)) ?seen (references tree) = Inr ()" by blast
  have earlier: "\<exists>j < i. gs_name (steps ! j) = sn \<and>
      (case gs_metadata_fields (steps ! j) of None \<Rightarrow> [] | Some gs \<Rightarrow> gs) = fs"
    if "map_of ?seen sn = Some fs" for sn fs
  proof -
    from declared_step [OF that] obtain st where "st \<in> set (take i steps)" "gs_name st = sn"
      "fs = (case gs_metadata_fields st of None \<Rightarrow> [] | Some gs \<Rightarrow> gs)" by auto
    then show ?thesis using assms(2) by (auto simp: in_set_conv_nth)
  qed
  have "(\<exists>j < i. gs_name (steps ! j) = sn) \<and>
       (ns = ''metadata'' \<longrightarrow> (\<exists>j < i. gs_name (steps ! j) = sn \<and>
          (\<exists>fs. gs_metadata_fields (steps ! j) = Some fs \<and> fld \<in> set fs)))"
    if r: "(ns, sn, fld) \<in> set (references tree)" for ns sn fld
  proof -
    have ns: "ns \<in> {''metadata'', ''outputs''}" using r by (rule references_namespaces)
    have ref: "(ns \<in> {''metadata'', ''outputs''} \<longrightarrow> map_of ?seen sn \<noteq> None) \<and>
        (ns = ''metadata'' \<longrightarrow> (\<exists>fs. map_of ?seen sn = Some fs \<and> fld \<in> set fs))"
      using refs r unfolding check_references_ok by blast
    with ns obtain fs where fs: "map_of ?seen sn = Some fs" "ns = ''metadata'' \<longrightarrow> fld \<in> set fs"
      by fastforce
    from earlier [OF fs(1)] obtain j where "j < i" "gs_name (steps ! j) = sn"
      "(case gs_metadata_fields (steps ! j) of None \<Rightarrow> [] | Some gs \<Rightarrow> gs) = fs" by blast
    with fs(2) show ?thesis by (auto split: option.splits intro!: exI [of _ j])
  qed
  with tree show ?thesis by fast
qed

definition demo_steps :: "gate_step list" where
  "demo_steps = [\<lparr>gs_name = ''review'', gs_gate = None, gs_metadata_fields = None\<rparr>,
     \<lparr>gs_name = ''gate'', gs_gate = Some [''outputs.review.score >= thresholds.min''],
      gs_metadata_fields = None\<rparr>]"

theorem validated_references_resolve_witness:
  "validate_gate_conditions demo_parse demo_steps = Inr () \<and>
   (\<exists>tree. parse_condition demo_parse ''outputs.review.score >= thresholds.min'' = Inr tree)"
proof -
  have refs: "references demo_tree = [(''outputs'', ''review'', ''score'')]"
    by (simp add: references_def attribute_nodes_def demo_tree_def Let_def)
  have "validate_gate_conditions demo_parse demo_steps = Inr ()"
    using demo_tree_ok refs
    by (simp add: validate_gate_conditions_def demo_steps_def declare_step_def)
  moreover have "gs_gate (demo_steps ! 1) = Some [''outputs.review.score >= thresholds.min'']"
    "1 < length demo_steps" by (simp_all add: demo_steps_def)
  ultimately show ?thesis
    using validated_references_resolve [of demo_parse demo_steps 1
        "[''outputs.review.score >= thresholds.min'']"] by fastforce
qed

fun bounded_value :: "pyval \<Rightarrow> bool" where
  "bounded_value (VStr s) = (length s \<le> 203)"
| "bounded_value (VList vs) = (length vs \<le> 10 \<and> list_all bounded_value vs)"
| "bounded_value (VDict d) = False"
| "bounded_value _ = True"

lemma safe_bounded: "bounded_value (safe_gate_value v)"
proof (induction v rule: safe_gate_value.induct)
  case (2 vs)
  then have "list_all bounded_value (map safe_gate_value vs)" by (simp add: list_all_iff)
  then have "list_all bounded_value (take 10 (map safe_gate_value vs))"
    unfolding list_all_iff by (blast dest: in_set_takeD)
  then show ?case by simp
qed auto

definition all_bounded :: "(string, pyval) dict \<Rightarrow> bool" where
  "all_bounded d = list_all (\<lambda>(k, v). bounded_value v) d"

lemma all_bounded_put: "all_bounded d \<Longrightarrow> bounded_value v \<Longrightarrow> all_bounded (dict_put k v d)"
  by (induction k v d rule: dict_put.induct) (auto simp: all_bounded_def)

lemma add_reference_bounded:
  "all_bounded (fst acc) \<Longrightarrow> all_bounded (snd acc) \<Longrightarrow>
   all_bounded (fst (add_reference ctx n acc)) \<and> all_bounded (snd (add_reference ctx n acc))"
  by (cases acc) (simp add: add_reference_def Let_def all_bounded_put safe_bounded)

lemma fold_references_bounded:
  "all_bounded (fst acc) \<Longrightarrow> all_bounded (snd acc) \<Longrightarrow>
   all_bounded (fst (fold (add_reference ctx) ns acc)) \<and> all_bounded (snd (fold (add_reference ctx) ns acc))"
  by (induction ns arbitrary: acc) (simp_all add: add_reference_bounded)

lemma detail_bounded:
  "all_bounded (d_referenced_values (condition_detail parse ctx e)) \<and>
   all_bounded (d_expected_values (condition_detail parse ctx e))"
proof -
  have "all_bounded (fst (expression_reference_values t ctx)) \<and>
      all_bounded (snd (expression_reference_values t ctx))" for t
    unfolding expression_reference_values_def by (rule fold_references_bounded) (simp_all add: all_bounded_def)
  then show ?thesis
    by (auto simp: condition_detail_def blank_detail_def Let_def all_bounded_def [of "[]"]
        split: sum.splits prod.splits) (metis fst_conv snd_conv)+
qed

text \<open>
  The values shown with a gate's conditions are bounded whatever the steps produced: strings
  have at most 203 characters, lists at most ten items at every level, and no dictionary is shown.
\<close>

theorem shown_values_bounded:
  "list_all (\<lambda>d. list_all (\<lambda>(k, v). bounded_value v) (d_referenced_values d @ d_expected_values d))
     (e_conditions (evaluate_gate_conditions_detailed parse es outs th))"
proof -
  have "list_all (\<lambda>(k, v). bounded_value v) (d_referenced_values (condition_detail parse ctx e) @
      d_expected_values (condition_detail parse ctx e))" for ctx e
    using detail_bounded [of parse ctx e] by (simp add: all_bounded_def)
  then show ?thesis
    by (simp add: evaluate_gate_conditions_detailed_def Let_def list.pred_map comp_def list.pred_True)
qed

subsection \<open>What a condition reads\<close>

text \<open>The attribute chains that the evaluation of an expression resolves.\<close>

fun read_attrs :: "node \<Rightarrow> node list" where
  "read_attrs (Attribute n a) = [Attribute n a]"
| "read_attrs (EList ns) = concat (map read_attrs ns)"
| "read_attrs (ETuple ns) = concat (map read_attrs ns)"
| "read_attrs (BoolOp p ns) = concat (map read_attrs ns)"
| "read_attrs (UnaryOp p n) = read_attrs n"
| "read_attrs (Compare n cs) = read_attrs n @ concat (map (\<lambda>(p, m). read_attrs m) cs)"
| "read_attrs _ = []"

lemma eval_node_reads:
  "(\<And>a. a \<in> set (read_attrs n) \<Longrightarrow> resolve_attribute a ctx = resolve_attribute a ctx') \<Longrightarrow>
     eval_node n ctx = eval_node n ctx'"
  "(\<And>m a. m \<in> set ns \<Longrightarrow> a \<in> set (read_attrs m) \<Longrightarrow> resolve_attribute a ctx = resolve_attribute a ctx') \<Longrightarrow>
     eval_nodes ns ctx = eval_nodes ns ctx'"
  "(\<And>p m a. (p, m) \<in> set cs \<Longrightarrow> a \<in> set (read_attrs m) \<Longrightarrow>
      resolve_attribute a ctx = resolve_attribute a ctx') \<Longrightarrow>
     eval_chain left cs ctx = eval_chain left cs ctx'"
proof (induction n ctx and ns ctx and left cs ctx rule: eval_node_eval_nodes_eval_chain.induct)
  case (2 ns ctx)
  have "eval_nodes ns ctx = eval_nodes ns ctx'" by (intro "2.IH" "2.prems") auto
  then show ?case by simp
next
  case (3 ns ctx)
  have "eval_nodes ns ctx = eval_nodes ns ctx'" by (intro "3.IH" "3.prems") auto
  then show ?case by simp
next
  case (6 p ns ctx)
  have "eval_nodes ns ctx = eval_nodes ns ctx'" by (intro "6.IH" "6.prems") auto
  then show ?case by simp
next
  case (8 n cs ctx)
  have "eval_node n ctx = eval_node n ctx'"
    by (rule "8.IH"(1)) (auto intro: "8.prems")
  moreover have "a \<in> set (read_attrs (Compare n cs))" if "(p, m) \<in> set cs" "a \<in> set (read_attrs m)" for p m a
    using that by force
  then have "eval_chain left cs ctx = eval_chain left cs ctx'" if "eval_node n ctx = Inr left" for left
    by (intro "8.IH"(2) "8.prems")
  ultimately show ?case by (auto simp: res_bind_def split: sum.splits)
next
  case (11 n ns ctx)
  have "eval_node n ctx = eval_node n ctx'" by (rule "11.IH"(1)) (auto intro: "11.prems")
  moreover have "eval_nodes ns ctx = eval_nodes ns ctx'" by (rule "11.IH"(2)) (auto intro: "11.prems")
  ultimately show ?case by simp
next
  case (13 left p n cs ctx)
  have "eval_node n ctx = eval_node n ctx'" by (rule "13.IH"(1)) (auto intro: "13.prems")
  moreover have "eval_chain right cs ctx = eval_chain right cs ctx'"
    if "eval_node n ctx = Inr right" "compare left p right = Inr True" for right
    using that by (intro "13.IH"(2)) (auto intro: "13.prems")
  ultimately show ?case by (auto simp: res_bind_def split: sum.splits)
qed auto

lemma walk_todo: "set todo \<subseteq> set (walk todo)"
  by (induction todo rule: walk.induct) auto

lemma walk_closed: "i \<in> set (walk todo) \<Longrightarrow> c \<in> set (child_nodes i) \<Longrightarrow> c \<in> set (walk todo)"
proof (induction todo rule: walk.induct)
  case (2 j todo)
  then show ?case using walk_todo [of "todo @ child_nodes j"] by auto
qed simp

lemma read_attrs_walk:
  "Node n \<in> set (walk todo) \<Longrightarrow> a \<in> set (read_attrs n) \<Longrightarrow>
     Node a \<in> set (walk todo) \<and> (\<exists>m b. a = Attribute m b)"
proof (induction n rule: read_attrs.induct)
  case (2 ns)
  then obtain m where m: "m \<in> set ns" "a \<in> set (read_attrs m)" by auto
  moreover have "Node m \<in> set (walk todo)" by (rule walk_closed [OF "2.prems"(1)]) (simp add: m)
  ultimately show ?case using "2.IH" by blast
next
  case (3 ns)
  then obtain m where m: "m \<in> set ns" "a \<in> set (read_attrs m)" by auto
  moreover have "Node m \<in> set (walk todo)" by (rule walk_closed [OF "3.prems"(1)]) (simp add: m)
  ultimately show ?case using "3.IH" by blast
next
  case (4 p ns)
  then obtain m where m: "m \<in> set ns" "a \<in> set (read_attrs m)" by auto
  moreover have "Node m \<in> set (walk todo)" by (rule walk_closed [OF "4.prems"(1)]) (simp add: m)
  ultimately show ?case using "4.IH" by blast
next
  case (5 p n)
  have "Node n \<in> set (walk todo)" by (rule walk_closed [OF "5.prems"(1)]) simp
  with 5 show ?case by simp
next
  case (6 n cs)
  from "6.prems"(2) consider "a \<in> set (read_attrs n)" | p m where "(p, m) \<in> set cs" "a \<in> set (read_attrs m)"
    by auto
  then show ?case
  proof cases
    case 1
    have "Node n \<in> set (walk todo)" by (rule walk_closed [OF "6.prems"(1)]) simp
    with 1 show ?thesis by (rule "6.IH"(1) [rotated])
  next
    case (2 p m)
    have "Node m \<in> set (walk todo)" by (rule walk_closed [OF "6.prems"(1)]) (use 2 in force)
    with 2 show ?thesis by (intro "6.IH"(2) [of "(p, m)"]) simp_all
  qed
qed simp_all

lemma read_attrs_nodes: "a \<in> set (read_attrs tree) \<Longrightarrow> a \<in> set (attribute_nodes tree)"
proof -
  assume a: "a \<in> set (read_attrs tree)"
  have "Root tree \<in> set (walk [Root tree])" using walk_todo [of "[Root tree]"] by simp
  then have "Node tree \<in> set (walk [Root tree])" by (rule walk_closed) simp
  from read_attrs_walk [OF this a] show ?thesis
    unfolding attribute_nodes_def by force
qed

text \<open>
  A chain such as \<open>outputs.plan\<close> reads all outputs of a step; the validation looks only at chains
  of three parts or more.
\<close>

definition whole_step :: "node \<Rightarrow> bool" where
  "whole_step a \<longleftrightarrow> hd (attribute_parts a) \<in> {''metadata'', ''outputs''} \<and> length (attribute_parts a) < 3"

definition names_fields :: "(string \<Rightarrow> node option) \<Rightarrow> string \<Rightarrow> bool" where
  "names_fields parse e =
     (case parse e of None \<Rightarrow> True | Some tree \<Rightarrow> list_all (\<lambda>a. \<not> whole_step a) (read_attrs tree))"

lemma map_of_map_values: "map_of (map (\<lambda>(k, v). (k, f v)) d) k = map_option f (map_of d k)"
  by (induction d) auto

lemma resolve_attribute_agree:
  assumes "a \<in> set (read_attrs tree)" and "\<not> whole_step a"
    and "\<And>ns sn fld. (ns, sn, fld) \<in> set (references tree) \<Longrightarrow> map_of outs sn = map_of outs' sn"
  shows "resolve_attribute a (build_context outs thr) = resolve_attribute a (build_context outs' thr)"
proof (cases "base_is_name a \<and> hd (attribute_parts a) \<in> set NAMESPACES")
  case True
  obtain p ps where parts: "attribute_parts a = p # ps"
    using True by (cases a) (auto simp: neq_Nil_conv split: list.splits intro: list.exhaust)
  show ?thesis
  proof (cases "p \<in> {''metadata'', ''outputs''}")
    case False
    then show ?thesis
      using True parts by (auto simp: resolve_attribute_def build_context_def NAMESPACES_def dict_get_def Let_def)
  next
    case ns: True
    with assms(2) parts have "3 \<le> length (attribute_parts a)" by (auto simp: whole_step_def)
    then obtain q r rs where ps: "ps = q # r # rs" using parts by (cases ps) (auto simp: Suc_le_length_iff)
    have "(p, q, r) \<in> set (references tree)"
      unfolding references_def using read_attrs_nodes [OF assms(1)] ns parts ps by force
    then have "map_of outs q = map_of outs' q" by (rule assms(3))
    then show ?thesis
      using True ns parts ps
      by (auto simp: resolve_attribute_def build_context_def dict_get_def map_of_map_values Let_def)
  qed
qed (auto simp: resolve_attribute_def)

lemma any_true_cong: "(\<And>x. x \<in> set xs \<Longrightarrow> f x = g x) \<Longrightarrow> any_true f xs = any_true g xs"
proof (induction xs)
  case (Cons x xs)
  then have "f x = g x" "any_true f xs = any_true g xs" by auto
  then show ?case by (simp only: any_true.simps)
qed simp

lemma references_seen:
  assumes "check_references gate seen (references tree) = Inr ()" and "(ns, sn, fld) \<in> set (references tree)"
  shows "\<exists>fs. map_of seen sn = Some fs"
  using assms references_namespaces [OF assms(2)] unfolding check_references_ok by fastforce

lemma validated_gate_reads_earlier:
  assumes "check_conditions parse gate seen es = Inr ()" and "list_all (names_fields parse) es"
    and "\<And>sn fs. map_of seen sn = Some fs \<Longrightarrow> map_of outs sn = map_of outs' sn"
  shows "evaluate_gate_conditions parse es outs thr = evaluate_gate_conditions parse es outs' thr"
proof -
  let ?ctx = "\<lambda>o'. build_context o' (case thr of None \<Rightarrow> [] | Some t \<Rightarrow> t)"
  have "eval_expression parse e (?ctx outs) = eval_expression parse e (?ctx outs')" if "e \<in> set es" for e
  proof -
    from check_conditions_ok [OF assms(1) that] obtain tree where
      tree: "parse_condition parse e = Inr tree"
      and refs: "check_references gate seen (references tree) = Inr ()" by blast
    have "parse e = Some tree" using tree by (auto simp: parse_condition_def split: option.splits)
    with assms(2) that have nw: "\<not> whole_step a" if "a \<in> set (read_attrs tree)" for a
      using that by (auto simp: names_fields_def list_all_iff)
    have "eval_node tree (?ctx outs) = eval_node tree (?ctx outs')"
      using references_seen [OF refs] assms(3)
      by (intro eval_node_reads(1) resolve_attribute_agree nw) blast+
    then show ?thesis by (simp add: eval_expression_def tree)
  qed
  then show ?thesis by (simp add: evaluate_gate_conditions_def cong: any_true_cong)
qed

text \<open>A whole-step chain passes the validation whatever step it names.\<close>

lemma whole_step_chain_accepted:
  "validate_gate_conditions (\<lambda>_. Some (Attribute (Name ''outputs'') ''later''))
     [\<lparr>gs_name = ''gate'', gs_gate = Some [''outputs.later''], gs_metadata_fields = None\<rparr>] = Inr ()"
  by (simp add: validate_gate_conditions_def parse_condition_def validate_ast_def ALLOWED_AST_NODES_def
      references_def attribute_nodes_def)

end
