(* ===== verification/Harness_Guards.thy ===== *)
theory Harness_Guards
  imports Python_Values
begin

section \<open>Guards between the model and its tools\<close>

text \<open>
  \<open>cognis/core/harness_guards.py\<close>: the loop guard, the ledger of calls executed in a turn and the
  retries of it, and the check of obviously invalid arguments; with the users of the ledger,
  \<open>_same_turn_duplicate_tool_call_indexes\<close> and \<open>_record_tool_outcome_in_same_turn_ledger\<close> of
  \<open>cognis/core/agent_loop.py\<close> and \<open>_tool_call_ledger_for_turn\<close> of
  \<open>cognis/core/turn_scheduler.py\<close>.

  JSON encoding and the hash functions are library code and come as a record of functions; no
  property needs more of them than that they are functions. Payloads are the objects that the
  source encodes as JSON. The loop guard's message has one variable part, the tool's name, so its
  result is that name.
\<close>

type_synonym args = "(string \<times> pyval) list"

record hashing =
  dumps :: "pyval \<Rightarrow> string"
  sha256_hex :: "string \<Rightarrow> string"
  sha1_hex :: "string \<Rightarrow> string"

subsection \<open>Loop guard\<close>

record loop_guard =
  last_key :: "(string \<times> string) option"
  last_result_hash :: "string option"
  identical_result_streak :: nat
  exemptions :: "string list"

definition new_loop_guard :: loop_guard where
  "new_loop_guard = \<lparr>last_key = None, last_result_hash = None, identical_result_streak = 0,
     exemptions = []\<rparr>"

definition LOOP_GUARD_EXEMPT_TOOLS :: "string list" where
  "LOOP_GUARD_EXEMPT_TOOLS = [''agent_conversation_get'', ''agent_conversation_wait'',
     ''bash_output'', ''get_subsession'', ''memory_list'', ''memory_recent'', ''memory_search'',
     ''memory_find'', ''step_request_questions'', ''request_credential'',
     ''request_auth_challenge'']"

definition canonical_args :: "hashing \<Rightarrow> args option \<Rightarrow> string" where
  "canonical_args h arguments =
     (case arguments of
        None \<Rightarrow> ''{}''
      | Some d \<Rightarrow> if d = [] then ''{}'' else dumps h (VDict d))"

definition args_hash :: "hashing \<Rightarrow> string \<Rightarrow> args option \<Rightarrow> string" where
  "args_hash h tool arguments = take 32 (sha256_hex h (tool @ ''::'' @ canonical_args h arguments))"

definition tool_call_argument_fingerprint :: "hashing \<Rightarrow> string \<Rightarrow> args option \<Rightarrow> string" where
  "tool_call_argument_fingerprint h tool arguments = args_hash h tool arguments"

definition call_key :: "hashing \<Rightarrow> string \<Rightarrow> args option \<Rightarrow> string \<times> string" where
  "call_key h tool arguments = (tool, args_hash h tool arguments)"

definition loop_exempt :: "loop_guard \<Rightarrow> string \<Rightarrow> bool" where
  "loop_exempt g tool = (tool \<in> set LOOP_GUARD_EXEMPT_TOOLS \<or> tool \<in> set (exemptions g))"

definition check_loop_guard :: "hashing \<Rightarrow> loop_guard \<Rightarrow> string \<Rightarrow> args option \<Rightarrow> string option" where
  "check_loop_guard h g tool arguments =
     (if loop_exempt g tool then None
      else if last_key g = Some (call_key h tool arguments) \<and> identical_result_streak g \<ge> 2
      then Some tool else None)"

definition record_tool_call :: "loop_guard \<Rightarrow> string \<Rightarrow> args option \<Rightarrow> loop_guard" where
  "record_tool_call g tool arguments = g"

definition result_hash :: "hashing \<Rightarrow> pyval \<Rightarrow> string" where
  "result_hash h r = take 16 (sha1_hex h (dumps h r))"

definition record_tool_result ::
  "hashing \<Rightarrow> string \<Rightarrow> args option \<Rightarrow> pyval \<Rightarrow> loop_guard \<Rightarrow> loop_guard" where
  "record_tool_result h tool arguments r g =
     (if loop_exempt g tool then g
      else if last_key g = Some (call_key h tool arguments) \<and>
              last_result_hash g = Some (result_hash h r)
      then g\<lparr>identical_result_streak := identical_result_streak g + 1\<rparr>
      else g\<lparr>last_key := Some (call_key h tool arguments),
             last_result_hash := Some (result_hash h r), identical_result_streak := 1\<rparr>)"

definition loop_guard_rejection_payload :: "string \<Rightarrow> string \<Rightarrow> pyval" where
  "loop_guard_rejection_payload tool message =
     VDict [(''status'', VStr ''rejected''), (''reason'', VStr ''loop_detected''),
            (''message'', VStr message), (''tool'', VStr tool)]"

subsection \<open>Ledger of executed calls\<close>

type_synonym call_id = "string \<times> string"

record ledger =
  executed :: "call_id set"
  uncertain :: "call_id set"

definition empty_ledger :: ledger where
  "empty_ledger = \<lparr>executed = {}, uncertain = {}\<rparr>"

definition record_fingerprint :: "string \<Rightarrow> string \<Rightarrow> ledger \<Rightarrow> ledger" where
  "record_fingerprint tool fp l =
     \<lparr>executed = insert (tool, fp) (executed l), uncertain = uncertain l - {(tool, fp)}\<rparr>"

definition ledger_record :: "hashing \<Rightarrow> string \<Rightarrow> args option \<Rightarrow> ledger \<Rightarrow> ledger" where
  "ledger_record h tool arguments l =
     record_fingerprint tool (tool_call_argument_fingerprint h tool arguments) l"

definition record_uncertain_fingerprint :: "string \<Rightarrow> string \<Rightarrow> ledger \<Rightarrow> ledger" where
  "record_uncertain_fingerprint tool fp l =
     (if (tool, fp) \<notin> executed l then l\<lparr>uncertain := insert (tool, fp) (uncertain l)\<rparr> else l)"

definition record_uncertain :: "hashing \<Rightarrow> string \<Rightarrow> args option \<Rightarrow> ledger \<Rightarrow> ledger" where
  "record_uncertain h tool arguments l =
     record_uncertain_fingerprint tool (tool_call_argument_fingerprint h tool arguments) l"

definition already_executed :: "hashing \<Rightarrow> string \<Rightarrow> args option \<Rightarrow> ledger \<Rightarrow> bool" where
  "already_executed h tool arguments l =
     ((tool, tool_call_argument_fingerprint h tool arguments) \<in> executed l)"

definition uncertain_outcome :: "hashing \<Rightarrow> string \<Rightarrow> args option \<Rightarrow> ledger \<Rightarrow> bool" where
  "uncertain_outcome h tool arguments l =
     ((tool, tool_call_argument_fingerprint h tool arguments) \<in> uncertain l)"

definition consume_uncertain :: "hashing \<Rightarrow> string \<Rightarrow> args option \<Rightarrow> ledger \<Rightarrow> ledger \<times> bool" where
  "consume_uncertain h tool arguments l =
     (let key = (tool, tool_call_argument_fingerprint h tool arguments)
      in if key \<in> uncertain l then (l\<lparr>uncertain := uncertain l - {key}\<rparr>, True) else (l, False))"

definition seed_from :: "ledger option \<Rightarrow> ledger \<Rightarrow> ledger" where
  "seed_from other l =
     (case other of
        None \<Rightarrow> l
      | Some o' \<Rightarrow>
          (let ex = executed l \<union> executed o'
           in \<lparr>executed = ex, uncertain = uncertain l \<union> (uncertain o' - ex)\<rparr>))"

subsection \<open>Users of the ledger\<close>

record tool_call =
  tc_name :: string
  tc_arguments :: args

text \<open>
  \<open>canonical\<close> is the registered name of a tool and \<open>read_only\<close> what the registry says of it, both
  from the tool registry.
\<close>

definition canonical_tool_arguments :: "args \<Rightarrow> args" where
  "canonical_tool_arguments arguments = filter (\<lambda>(k, v). k \<noteq> ''target_executor'') arguments"

definition call_class ::
  "hashing \<Rightarrow> (string \<Rightarrow> string) \<Rightarrow> (string \<Rightarrow> bool) \<Rightarrow> ledger \<Rightarrow> tool_call \<Rightarrow> string option" where
  "call_class h canonical read_only l tc =
     (let name = canonical (tc_name tc); arguments = Some (canonical_tool_arguments (tc_arguments tc))
      in if read_only (tc_name tc) then None
         else if already_executed h name arguments l then Some ''executed''
         else if uncertain_outcome h name arguments l then Some ''uncertain'' else None)"

definition same_turn_duplicate_tool_call_indexes ::
  "hashing \<Rightarrow> (string \<Rightarrow> string) \<Rightarrow> (string \<Rightarrow> bool) \<Rightarrow> ledger \<Rightarrow> tool_call list \<Rightarrow> nat list
     \<Rightarrow> nat list \<times> nat list" where
  "same_turn_duplicate_tool_call_indexes h canonical read_only l tcs excluded =
     (let idx = (\<lambda>cls. filter (\<lambda>i. i \<notin> set excluded \<and>
                    call_class h canonical read_only l (tcs ! i) = Some cls) [0..<length tcs])
      in (idx ''executed'', idx ''uncertain''))"

record tool_outcome =
  to_is_error :: bool
  to_uncertain :: bool

definition record_tool_outcome_in_same_turn_ledger ::
  "hashing \<Rightarrow> (string \<Rightarrow> bool) \<Rightarrow> tool_call \<Rightarrow> tool_outcome \<Rightarrow> ledger \<Rightarrow> ledger" where
  "record_tool_outcome_in_same_turn_ledger h read_only tc r l =
     (if read_only (tc_name tc) then l
      else if \<not> to_is_error r then ledger_record h (tc_name tc) (Some (tc_arguments tc)) l
      else if to_uncertain r then record_uncertain h (tc_name tc) (Some (tc_arguments tc)) l
      else l)"

text \<open>
  The ledgers of recent turns: a new turn gets an empty ledger, seeded from the turn it retries or
  continues, and at most 4096 ledgers are kept, the least recently used going first. Ledgers are
  shared objects in the source; the table here holds their values.
\<close>

definition MAX_TURN_TOOL_CALL_LEDGERS :: nat where
  "MAX_TURN_TOOL_CALL_LEDGERS = 4096"

type_synonym ledgers = "(string \<times> string, ledger) dict"

definition to_end :: "'k \<Rightarrow> ('k, 'v) dict \<Rightarrow> ('k, 'v) dict" where
  "to_end k d = (case map_of d k of None \<Rightarrow> d | Some v \<Rightarrow> dict_del k d @ [(k, v)])"

definition tool_call_ledger_for_turn ::
  "string \<Rightarrow> string \<Rightarrow> string option \<Rightarrow> ledgers \<Rightarrow> ledgers \<times> ledger" where
  "tool_call_ledger_for_turn conv turn source ls =
     (let (ls1, l) = (case source of
            None \<Rightarrow> (ls, empty_ledger)
          | Some s \<Rightarrow>
              (case (if s = [] then None else map_of ls (conv, s)) of
                 None \<Rightarrow> (ls, empty_ledger)
               | Some src \<Rightarrow> (to_end (conv, s) ls, seed_from (Some src) empty_ledger)));
          ls2 = to_end (conv, turn) (dict_put (conv, turn) l ls1)
      in (drop (length ls2 - MAX_TURN_TOOL_CALL_LEDGERS) ls2, l))"

subsection \<open>Argument sanity\<close>

record violation =
  v_reason :: string
  v_message :: string

definition DISALLOWED_FILE_PATHS :: "string list" where
  "DISALLOWED_FILE_PATHS = [''/dev/null'', ''/dev/zero'', ''/dev/random'', ''/dev/urandom'']"

definition PLACEHOLDER_IDENTIFIERS :: "string list" where
  "PLACEHOLDER_IDENTIFIERS = [''dummy'', ''placeholder'', ''example'', ''<call_id>'', ''<id>'', ''...'']"

definition as_str :: "pyval \<Rightarrow> string" where
  "as_str v = (if v = VNone then '''' else py_str v)"

definition call_id_tools :: "string list" where
  "call_id_tools = [''list_tool_output_anchors'', ''read_tool_output_anchor'', ''read_tool_output'',
     ''search_tool_output'']"

definition check_call_id :: "string \<Rightarrow> args \<Rightarrow> violation option" where
  "check_call_id tool arguments =
     (let call_id = py_strip (as_str (dict_get arguments ''call_id''))
      in if tool \<notin> set call_id_tools then None
         else if call_id = [] then Some \<lparr>v_reason = ''invalid_call_id'',
           v_message = tool @ '' requires a real prior tool call_id. Omit this call if you do not have one; never pass an empty string.''\<rparr>
         else if py_lower call_id \<in> set PLACEHOLDER_IDENTIFIERS then Some \<lparr>v_reason = ''invalid_call_id'',
           v_message = tool @ '' was called with a placeholder call_id ('' @ repr_str call_id
             @ ''). Use the actual call_id string from a prior tool_call event, or do not call this tool.''\<rparr>
         else None)"

definition device_violation :: "string \<Rightarrow> string \<Rightarrow> violation" where
  "device_violation tool target = \<lparr>v_reason = ''invalid_file_path'',
     v_message = tool @ '' cannot target special device file '' @ repr_str target
       @ ''. Supply an actual file path, or do not call this tool if no file change is required.''\<rparr>"

definition check_target_path :: "string \<Rightarrow> string \<Rightarrow> violation option" where
  "check_target_path tool target =
     (if target \<in> set DISALLOWED_FILE_PATHS then Some (device_violation tool target) else None)"

text \<open>\<open>str.splitlines\<close> on code points up to 255.\<close>

definition is_line_break :: "char \<Rightarrow> bool" where
  "is_line_break c = (of_char c \<in> {10, 11, 12, 13, 28, 29, 30, 133 :: nat})"

fun split_lines_acc :: "string \<Rightarrow> string \<Rightarrow> string list" where
  "split_lines_acc acc [] = (if acc = [] then [] else [rev acc])"
| "split_lines_acc acc (c # cs) =
     (if is_line_break c then
        (case cs of
           d # ds \<Rightarrow> if of_char c = (13 :: nat) \<and> of_char d = (10 :: nat)
                     then rev acc # split_lines_acc [] ds
                     else rev acc # split_lines_acc [] (d # ds)
         | [] \<Rightarrow> [rev acc])
      else split_lines_acc (c # acc) cs)"

definition splitlines :: "string \<Rightarrow> string list" where
  "splitlines s = split_lines_acc [] s"

definition PATCH_PREFIXES :: "string list" where
  "PATCH_PREFIXES = [''*** Add File: '', ''*** Update File: '', ''*** Delete File: '', ''*** Move to: '']"

definition DIFF_PREFIXES :: "string list" where
  "DIFF_PREFIXES = [''--- '', ''+++ '']"

definition patch_targets :: "string \<Rightarrow> string list" where
  "patch_targets line =
     concat (map (\<lambda>p. if py_startswith line p then [py_strip (drop (length p) line)] else []) PATCH_PREFIXES) @
     concat (map (\<lambda>p. if py_startswith line p
       then (let t = py_strip (drop (length p) line)
             in [if py_startswith t ''a/'' \<or> py_startswith t ''b/'' then drop 2 t else t])
       else []) DIFF_PREFIXES)"

fun first_violation :: "string \<Rightarrow> string list \<Rightarrow> violation option" where
  "first_violation tool [] = None"
| "first_violation tool (t # ts) =
     (case check_target_path tool t of None \<Rightarrow> first_violation tool ts | Some v \<Rightarrow> Some v)"

definition write_targets :: "string \<Rightarrow> args \<Rightarrow> string list" where
  "write_targets tool arguments =
     [py_strip (as_str (dict_get arguments ''file_path''))] @
     (if tool = ''apply_patch'' then
        (case dict_get arguments ''operation'' of
           VDict d \<Rightarrow> [py_strip (as_str (dict_get d ''path''))] | _ \<Rightarrow> []) @
        concat (map patch_targets (splitlines (as_str (dict_get arguments ''patchText''))))
      else [])"

definition check_write_target :: "string \<Rightarrow> args \<Rightarrow> violation option" where
  "check_write_target tool arguments =
     (if tool \<in> {''write'', ''edit'', ''multiedit'', ''apply_patch''}
      then first_violation tool (write_targets tool arguments) else None)"

definition check_edits :: "string \<Rightarrow> args \<Rightarrow> violation option" where
  "check_edits tool arguments =
     (if tool = ''multiedit'' \<and>
         (case dict_get arguments ''edits'' of VList vs \<Rightarrow> vs = [] | _ \<Rightarrow> True)
      then Some \<lparr>v_reason = ''empty_edits'',
        v_message = ''multiedit requires at least one edit. Pass a non-empty edits list, or use the edit tool for a single change, or do not call this tool if no change is required.''\<rparr>
      else None)"

definition check_argument_sanity :: "string \<Rightarrow> args option \<Rightarrow> violation option" where
  "check_argument_sanity tool arguments_opt =
     (let arguments = (case arguments_opt of None \<Rightarrow> [] | Some d \<Rightarrow> d)
      in case check_call_id tool arguments of
           Some v \<Rightarrow> Some v
         | None \<Rightarrow>
             (case check_write_target tool arguments of
                Some v \<Rightarrow> Some v
              | None \<Rightarrow> check_edits tool arguments))"

definition argument_sanity_rejection_payload ::
  "hashing \<Rightarrow> string \<Rightarrow> args option \<Rightarrow> violation \<Rightarrow> pyval" where
  "argument_sanity_rejection_payload h tool arguments v =
     VDict [(''status'', VStr ''rejected''), (''reason'', VStr (v_reason v)),
       (''message'', VStr (v_message v)), (''tool'', VStr tool),
       (''received'', VStr (take 500 (dumps h (VDict (case arguments of None \<Rightarrow> [] | Some d \<Rightarrow> d)))))]"

subsection \<open>When the loop guard trips\<close>

type_synonym tool_result = "string \<times> args option \<times> pyval"

definition signature :: "hashing \<Rightarrow> tool_result \<Rightarrow> (string \<times> string) \<times> string" where
  "signature h e = (case e of (tool, arguments, r) \<Rightarrow> (call_key h tool arguments, result_hash h r))"

definition guard_after :: "hashing \<Rightarrow> tool_result list \<Rightarrow> loop_guard" where
  "guard_after h hist =
     fold (\<lambda>(tool, arguments, r) g. record_tool_result h tool arguments r g) hist new_loop_guard"

definition guarded :: "tool_result list \<Rightarrow> tool_result list" where
  "guarded hist = filter (\<lambda>(tool, arguments, r). tool \<notin> set LOOP_GUARD_EXEMPT_TOOLS) hist"

lemma guard_after_state:
  "exemptions (guard_after h hist) = [] \<and>
   (if guarded hist = [] then guard_after h hist = new_loop_guard
    else last_key (guard_after h hist) = Some (fst (signature h (last (guarded hist)))) \<and>
         last_result_hash (guard_after h hist) = Some (snd (signature h (last (guarded hist)))) \<and>
         identical_result_streak (guard_after h hist) =
           length (takeWhile (\<lambda>e. signature h e = signature h (last (guarded hist))) (rev (guarded hist))))"
proof (induction hist rule: rev_induct)
  case Nil
  then show ?case by (simp add: guard_after_def guarded_def new_loop_guard_def)
next
  case (snoc e hist)
  obtain tool arguments r where e: "e = (tool, arguments, r)" by (cases e)
  have step: "guard_after h (hist @ [e]) = record_tool_result h tool arguments r (guard_after h hist)"
    by (simp add: guard_after_def e)
  show ?case
  proof (cases "tool \<in> set LOOP_GUARD_EXEMPT_TOOLS")
    case True
    then have "guarded (hist @ [e]) = guarded hist" by (simp add: guarded_def e)
    with True snoc.IH show ?thesis by (simp add: step record_tool_result_def loop_exempt_def)
  next
    case False
    then have g: "guarded (hist @ [e]) = guarded hist @ [e]" by (simp add: guarded_def e)
    have sig: "signature h e = (call_key h tool arguments, result_hash h r)"
      by (simp add: signature_def e)
    have ex: "\<not> loop_exempt (guard_after h hist) tool"
      using False snoc.IH by (simp add: loop_exempt_def)
    show ?thesis
    proof (cases "guarded hist = []")
      case True
      with snoc.IH ex show ?thesis
        by (simp add: step g record_tool_result_def new_loop_guard_def sig loop_exempt_def)
    next
      case False
      obtain us u where us: "guarded hist = us @ [u]" using False by (metis rev_exhaust)
      show ?thesis
        using snoc.IH ex unfolding step g us
        by (cases "signature h u = signature h e")
          (auto simp: record_tool_result_def sig prod_eq_iff)
    qed
  qed
qed

lemma two_trailing:
  "2 \<le> length (takeWhile (\<lambda>e. f e = f (last xs)) (rev xs)) \<longleftrightarrow>
     (\<exists>pre a b. xs = pre @ [a, b] \<and> f a = f b)"
proof (cases xs rule: rev_cases)
  case (snoc ys b)
  then show ?thesis by (cases ys rule: rev_cases) auto
qed simp

text \<open>
  The loop guard blocks a call exactly when the tool is not exempt and the last two recorded
  results of tools under the guard came from this very call and were the same. One earlier
  identical call is not enough: with a single recorded result every call goes through.
\<close>

theorem loop_guard_trips_iff:
  "(check_loop_guard h (guard_after h hist) tool arguments \<noteq> None \<longleftrightarrow>
      tool \<notin> set LOOP_GUARD_EXEMPT_TOOLS \<and>
      (\<exists>pre a b. guarded hist = pre @ [a, b] \<and> signature h a = signature h b \<and>
         fst (signature h b) = call_key h tool arguments)) \<and>
   (length hist = 1 \<longrightarrow> check_loop_guard h (guard_after h hist) tool arguments = None)"
proof -
  note st = guard_after_state [of h hist]
  have iff: "check_loop_guard h (guard_after h hist) tool arguments \<noteq> None \<longleftrightarrow>
      tool \<notin> set LOOP_GUARD_EXEMPT_TOOLS \<and>
      (\<exists>pre a b. guarded hist = pre @ [a, b] \<and> signature h a = signature h b \<and>
         fst (signature h b) = call_key h tool arguments)"
  proof (cases "guarded hist = []")
    case True
    with st show ?thesis by (simp add: check_loop_guard_def loop_exempt_def new_loop_guard_def)
  next
    case False
    have "(\<exists>pre a b. guarded hist = pre @ [a, b] \<and> signature h a = signature h b \<and>
         fst (signature h b) = call_key h tool arguments) \<longleftrightarrow>
        2 \<le> length (takeWhile (\<lambda>e. signature h e = signature h (last (guarded hist))) (rev (guarded hist))) \<and>
        fst (signature h (last (guarded hist))) = call_key h tool arguments"
      unfolding two_trailing [of "signature h"] by fastforce
    with False st show ?thesis by (auto simp: check_loop_guard_def loop_exempt_def)
  qed
  moreover have "length (guarded hist) \<le> length hist" by (simp add: guarded_def)
  ultimately show ?thesis by fastforce
qed

definition demo_hash :: hashing where
  "demo_hash = \<lparr>dumps = py_repr, sha256_hex = (\<lambda>s. s), sha1_hex = (\<lambda>s. s)\<rparr>"

theorem loop_guard_trips_iff_witness:
  "check_loop_guard demo_hash (guard_after demo_hash [(''ls'', None, VInt 1)]) ''ls'' None = None \<and>
   check_loop_guard demo_hash (guard_after demo_hash [(''ls'', None, VInt 1), (''ls'', None, VInt 1)]) ''ls'' None \<noteq> None"
proof -
  have g: "guarded [(''ls'', None, VInt 1), (''ls'', None, VInt 1)] =
      [] @ [(''ls'', None, VInt 1), (''ls'', None, VInt 1)]" and ne: "''ls'' \<notin> set LOOP_GUARD_EXEMPT_TOOLS"
    by (simp_all add: guarded_def LOOP_GUARD_EXEMPT_TOOLS_def)
  have "fst (signature demo_hash (''ls'', None, VInt 1)) = call_key demo_hash ''ls'' None"
    by (simp add: signature_def)
  with g ne have "check_loop_guard demo_hash
      (guard_after demo_hash [(''ls'', None, VInt 1), (''ls'', None, VInt 1)]) ''ls'' None \<noteq> None"
    using loop_guard_trips_iff [of demo_hash "[(''ls'', None, VInt 1), (''ls'', None, VInt 1)]" "''ls''" None]
    by blast
  moreover have "check_loop_guard demo_hash (guard_after demo_hash [(''ls'', None, VInt 1)]) ''ls'' None = None"
    using loop_guard_trips_iff [of demo_hash "[(''ls'', None, VInt 1)]" "''ls''" None] by simp
  ultimately show ?thesis by blast
qed

subsection \<open>The ledger over a turn and its retries\<close>

text \<open>
  The life of a ledger in one lineage: outcomes are recorded, warnings consumed, and a retry goes
  on with a new ledger seeded from this one.
\<close>

inductive ledger_step :: "ledger \<Rightarrow> ledger \<Rightarrow> bool" where
  lstep_executed: "ledger_step l (record_fingerprint tool fp l)"
| lstep_uncertain: "ledger_step l (record_uncertain_fingerprint tool fp l)"
| lstep_consume: "ledger_step l (fst (consume_uncertain h tool arguments l))"
| lstep_retry: "ledger_step l (seed_from (Some l) empty_ledger)"

definition ledger_ok :: "ledger \<Rightarrow> bool" where
  "ledger_ok l \<longleftrightarrow> executed l \<inter> uncertain l = {}"

interpretation lineage: mono_system "\<lambda>l. l = empty_ledger" ledger_step ledger_ok
    "\<lambda>l l'. executed l \<subseteq> executed l'"
proof unfold_locales
  fix l l'
  assume "ledger_ok l" and "ledger_step l l'"
  then show "ledger_ok l'" and "executed l \<subseteq> executed l'"
    by (auto elim!: ledger_step.cases simp: ledger_ok_def record_fingerprint_def
        record_uncertain_fingerprint_def consume_uncertain_def seed_from_def empty_ledger_def Let_def
        split: if_splits)
qed (auto simp: ledger_ok_def empty_ledger_def)

text \<open>
  A call that executed successfully stays executed for the whole lineage: after its outcome
  was recorded, and after any further outcomes, consumed warnings and retries seeded from the
  ledger, the call is classified as executed, never as uncertain and never let through. This
  is stated for calls as the ledger records them (registered name, no executor target).
\<close>

theorem executed_call_stays_suppressed:
  assumes "reach (\<lambda>l. l = empty_ledger) ledger_step l"
    and "ledger_step\<^sup>*\<^sup>* (ledger_record h tool (Some arguments) l) l'"
    and "canonical tool = tool" and "canonical_tool_arguments arguments = arguments"
    and "\<not> read_only tool"
  shows "call_class h canonical read_only l' \<lparr>tc_name = tool, tc_arguments = arguments\<rparr> = Some ''executed'' \<and>
    \<not> uncertain_outcome h tool (Some arguments) l'"
proof -
  let ?l1 = "ledger_record h tool (Some arguments) l"
  have "ledger_step l ?l1" unfolding ledger_record_def by (rule lstep_executed)
  then have ok: "ledger_ok ?l1"
    using lineage.reach_inv [OF assms(1)] by (blast intro: lineage.inv_step)
  then have "ledger_ok l'" using lineage.steps_inv [OF assms(2)] by simp
  moreover have "already_executed h tool (Some arguments) l'"
    using lineage.steps_le [OF assms(2) ok]
    by (auto simp: already_executed_def ledger_record_def record_fingerprint_def)
  ultimately show ?thesis
    using assms(3-5) by (auto simp: call_class_def ledger_ok_def already_executed_def
        uncertain_outcome_def Let_def)
qed

theorem executed_call_stays_suppressed_witness:
  "call_class demo_hash (\<lambda>s. s) (\<lambda>_. False)
     (seed_from (Some (ledger_record demo_hash ''send'' (Some [(''to'', VStr ''x'')]) empty_ledger)) empty_ledger)
     \<lparr>tc_name = ''send'', tc_arguments = [(''to'', VStr ''x'')]\<rparr> = Some ''executed''"
proof -
  have "reach (\<lambda>l. l = empty_ledger) ledger_step empty_ledger" by (rule reach_start) simp
  moreover have "ledger_step\<^sup>*\<^sup>* (ledger_record demo_hash ''send'' (Some [(''to'', VStr ''x'')]) empty_ledger)
      (seed_from (Some (ledger_record demo_hash ''send'' (Some [(''to'', VStr ''x'')]) empty_ledger)) empty_ledger)"
    by (rule r_into_rtranclp) (rule lstep_retry)
  ultimately show ?thesis
    using executed_call_stays_suppressed [of empty_ledger demo_hash "''send''" "[(''to'', VStr ''x'')]"
        _ "\<lambda>s. s" "\<lambda>_. False"]
    by (simp add: canonical_tool_arguments_def)
qed

text \<open>
  The warning about an unknown outcome is given once: a call recorded as uncertain that did
  not execute is classified as uncertain; consuming the warning succeeds, and after it the call
  is neither uncertain nor executed, so the next issue of it runs. Recording the same call as
  executed clears the uncertainty, and a later uncertain record of it has no effect.
\<close>

theorem uncertain_warns_once:
  assumes "(tool, tool_call_argument_fingerprint h tool arguments) \<notin> executed l"
  shows "uncertain_outcome h tool arguments (record_uncertain h tool arguments l) \<and>
    (case consume_uncertain h tool arguments (record_uncertain h tool arguments l) of
       (l', ok) \<Rightarrow> ok \<and> \<not> uncertain_outcome h tool arguments l' \<and>
         \<not> already_executed h tool arguments l' \<and> snd (consume_uncertain h tool arguments l') = False) \<and>
    record_uncertain h tool arguments (ledger_record h tool arguments l) =
      ledger_record h tool arguments l \<and>
    \<not> uncertain_outcome h tool arguments (ledger_record h tool arguments l)"
  using assms
  by (simp add: uncertain_outcome_def record_uncertain_def record_uncertain_fingerprint_def
      consume_uncertain_def already_executed_def ledger_record_def record_fingerprint_def)

theorem uncertain_warns_once_witness:
  "uncertain_outcome demo_hash ''send'' None (record_uncertain demo_hash ''send'' None empty_ledger)"
  using uncertain_warns_once [of "''send''" demo_hash None empty_ledger]
  by (simp add: empty_ledger_def)

text \<open>The table of ledgers keeps its bound.\<close>

lemma length_drop_excess: "length (drop (length xs - n) xs) \<le> n"
  by simp

lemma ledgers_bounded:
  "length (fst (tool_call_ledger_for_turn conv turn source ls)) \<le> MAX_TURN_TOOL_CALL_LEDGERS"
  unfolding tool_call_ledger_for_turn_def Let_def
  by (simp only: split: prod.splits) (simp only: fst_conv length_drop_excess, simp)

subsection \<open>What the argument check lets through\<close>

lemma first_violation_None:
  "first_violation tool ts = None \<longleftrightarrow> set ts \<inter> set DISALLOWED_FILE_PATHS = {}"
  by (induction ts) (auto simp: check_target_path_def split: option.splits if_splits)

text \<open>
  The argument check accepts a call exactly when none of its rules applies: an output reader
  has a call id that is not blank and no placeholder in any capitalisation; a writing tool
  (for a patch: the operation's path and every file header of the patch text) targets no special
  device; and a multi-edit has a non-empty list of edits. Any other tool is accepted.
\<close>

theorem argument_sanity_iff:
  fixes arguments
  defines "d \<equiv> (case arguments of None \<Rightarrow> [] | Some d \<Rightarrow> d)"
  shows "check_argument_sanity tool arguments = None \<longleftrightarrow>
    (tool \<in> set call_id_tools \<longrightarrow> py_strip (as_str (dict_get d ''call_id'')) \<noteq> [] \<and>
       py_lower (py_strip (as_str (dict_get d ''call_id''))) \<notin> set PLACEHOLDER_IDENTIFIERS) \<and>
    (tool \<in> {''write'', ''edit'', ''multiedit'', ''apply_patch''} \<longrightarrow>
       set (write_targets tool d) \<inter> set DISALLOWED_FILE_PATHS = {}) \<and>
    (tool = ''multiedit'' \<longrightarrow> (\<exists>e es. dict_get d ''edits'' = VList (e # es)))"
proof -
  have "check_call_id tool d = None \<longleftrightarrow> (tool \<in> set call_id_tools \<longrightarrow>
      py_strip (as_str (dict_get d ''call_id'')) \<noteq> [] \<and>
      py_lower (py_strip (as_str (dict_get d ''call_id''))) \<notin> set PLACEHOLDER_IDENTIFIERS)"
    by (simp add: check_call_id_def Let_def)
  moreover have "check_write_target tool d = None \<longleftrightarrow>
      (tool \<in> {''write'', ''edit'', ''multiedit'', ''apply_patch''} \<longrightarrow>
       set (write_targets tool d) \<inter> set DISALLOWED_FILE_PATHS = {})"
    by (simp add: check_write_target_def first_violation_None)
  moreover have "check_edits tool d = None \<longleftrightarrow>
      (tool = ''multiedit'' \<longrightarrow> (\<exists>e es. dict_get d ''edits'' = VList (e # es)))"
    by (auto simp: check_edits_def neq_Nil_conv split: pyval.splits if_splits)
  moreover have "check_argument_sanity tool arguments = None \<longleftrightarrow>
      check_call_id tool d = None \<and> check_write_target tool d = None \<and> check_edits tool d = None"
    unfolding check_argument_sanity_def Let_def d_def [symmetric] by (auto split: option.splits)
  ultimately show ?thesis by (simp only:)
qed

theorem argument_sanity_iff_witness:
  "check_argument_sanity ''multiedit'' (Some [(''file_path'', VStr ''/dev/null''), (''edits'', VList [VNone])]) \<noteq> None"
proof -
  have "''/dev/null'' \<in> set (write_targets ''multiedit'' [(''file_path'', VStr ''/dev/null''), (''edits'', VList [VNone])])
      \<inter> set DISALLOWED_FILE_PATHS"
    by (simp add: write_targets_def as_str_def dict_get_def py_strip_def py_isspace_def
        DISALLOWED_FILE_PATHS_def)
  with argument_sanity_iff [of "''multiedit''" "Some [(''file_path'', VStr ''/dev/null''), (''edits'', VList [VNone])]"]
  show ?thesis by auto
qed

end
