(* ===== verification/Workflow_Model.thy ===== *)
theory Workflow_Model
  imports Python_Values
begin

section \<open>Workflow definitions and runtime state\<close>

text \<open>
  \<open>cognis/models/workflow.py\<close>: session policies, the parts of a step, the validators that accept
  or refuse a step and a workflow, the runtime state, and the resolution of step inputs; with
  \<open>normalize_reasoning_level\<close> of \<open>cognis/models/config.py\<close> and the ownership of the task output
  of \<open>cognis/core/workflow_output_contract.py\<close>.

  A model that pydantic builds is a record whose fields already have their declared types; the
  validators of the source are functions on them, with \<open>Inl\<close> and the message for a raised
  \<open>ValueError\<close>. Where pydantic collects several errors the model has the first. Serialisation and
  hashing of a definition are library code and come as arguments.
\<close>

subsection \<open>Policies\<close>

datatype completion_family = Family_Default | Family_Direct

record delivery_policy =
  completion_mode_family :: completion_family
  allow_silent_completion :: bool

definition default_delivery :: delivery_policy where
  "default_delivery = \<lparr>completion_mode_family = Family_Default, allow_silent_completion = False\<rparr>"

record session_policy =
  allow_policies :: "pyval list"
  deny_policies :: "pyval list"
  intaris_evaluation :: "string option"

definition empty_policy :: session_policy where
  "empty_policy = \<lparr>allow_policies = [], deny_policies = [], intaris_evaluation = None\<rparr>"

definition normalize_session_policy :: "session_policy option \<Rightarrow> (string \<times> pyval) list" where
  "normalize_session_policy value =
     (case value of
        None \<Rightarrow> []
      | Some p \<Rightarrow>
          (if allow_policies p \<noteq> [] then [(''allow_policies'', VList (allow_policies p))] else []) @
          (if deny_policies p \<noteq> [] then [(''deny_policies'', VList (deny_policies p))] else []) @
          (case intaris_evaluation p of None \<Rightarrow> [] | Some e \<Rightarrow> [(''intaris_evaluation'', VStr e)]))"

definition list_of :: "pyval \<Rightarrow> pyval list" where
  "list_of v = (case v of VList vs \<Rightarrow> vs | _ \<Rightarrow> [])"

definition merge_policy :: "session_policy option \<Rightarrow> (string \<times> pyval) list \<Rightarrow> (string \<times> pyval) list" where
  "merge_policy policy merged =
     (let n = normalize_session_policy policy;
          m1 = dict_put ''allow_policies'' (VList (list_of (dict_get merged ''allow_policies'')
                 @ list_of (dict_get_or n ''allow_policies'' (VList [])))) merged;
          m2 = dict_put ''deny_policies'' (VList (list_of (dict_get m1 ''deny_policies'')
                 @ list_of (dict_get_or n ''deny_policies'' (VList [])))) m1
      in if dict_get n ''intaris_evaluation'' \<noteq> VNone
         then dict_put ''intaris_evaluation'' (dict_get n ''intaris_evaluation'') m2 else m2)"

definition merge_session_policies :: "session_policy option list \<Rightarrow> (string \<times> pyval) list" where
  "merge_session_policies policies =
     filter (\<lambda>(k, v). truthy v)
       (fold merge_policy policies [(''allow_policies'', VList []), (''deny_policies'', VList [])])"

datatype exhausted = On_Continue | On_Fail | On_Gate

record workflow_defaults =
  wd_max_attempts :: int
  wd_evaluate :: bool
  wd_on_exhausted :: exhausted
  wd_delivery :: delivery_policy
  wd_session_policy :: session_policy

definition clauses_only :: "session_policy \<Rightarrow> (string, session_policy) result" where
  "clauses_only p =
     (if intaris_evaluation p \<noteq> None
      then Inl ''Intaris evaluation belongs to the agent or task, not workflow defaults'' else Inr p)"

definition resolve_completion_delivery_policy ::
  "workflow_defaults option \<Rightarrow> delivery_policy option \<Rightarrow> delivery_policy" where
  "resolve_completion_delivery_policy defaults task_policy =
     (case task_policy of
        Some p \<Rightarrow> p
      | None \<Rightarrow> (case defaults of Some d \<Rightarrow> wd_delivery d | None \<Rightarrow> default_delivery))"

subsection \<open>Outcomes and notifications\<close>

datatype outcome_status = Outcome_Success | Outcome_Rejected | Outcome_Failed

record step_outcome =
  oc_status :: outcome_status
  oc_reason :: "string option"

definition blank :: "string option \<Rightarrow> bool" where
  "blank s = (py_strip (case s of None \<Rightarrow> '''' | Some t \<Rightarrow> t) = [])"

definition validate_step_outcome :: "step_outcome \<Rightarrow> (string, step_outcome) result" where
  "validate_step_outcome oc =
     (if oc_status oc \<in> {Outcome_Rejected, Outcome_Failed} \<and> blank (oc_reason oc)
      then Inl ''outcome.reason is required when outcome.status is rejected or failed'' else Inr oc)"

datatype notify_mode = Notify_Silent | Notify_Direct

record step_notification =
  nt_mode :: notify_mode
  nt_reason :: "string option"

definition validate_step_notification :: "step_notification \<Rightarrow> (string, step_notification) result" where
  "validate_step_notification n =
     (if nt_mode n = Notify_Silent \<and> blank (nt_reason n)
      then Inl ''notification.reason is required when notification.mode is silent'' else Inr n)"

subsection \<open>Step inputs\<close>

datatype input_type = In_Null | In_Full | In_Summary | In_Last

datatype input_source = One string | Many "string list"

record input_config =
  in_type :: input_type
  in_source :: "input_source option"
  in_reuse_session_from :: "string option"

definition validate_source :: "input_type \<Rightarrow> input_source option \<Rightarrow> (string, input_source option) result" where
  "validate_source ty src =
     (let all_source = (case src of
            Some (One s) \<Rightarrow> s = ''all''
          | Some (Many ss) \<Rightarrow> list_ex (\<lambda>s. py_strip s = ''all'') ss
          | None \<Rightarrow> False)
      in if ty = In_Full \<and> (case src of Some (Many ss) \<Rightarrow> True | _ \<Rightarrow> False)
         then Inl (''StepInputConfig type='' @ quoted ''full'' @ '' only accepts a single source, not a list'')
         else if ty = In_Full \<and> all_source
         then Inl (''StepInputConfig type='' @ quoted ''full'' @ '' cannot use source='' @ quoted ''all'')
         else case src of
           Some (Many ss) \<Rightarrow>
             (let normalized = filter (\<lambda>s. s \<noteq> []) (map py_strip ss)
              in if ''all'' \<in> set normalized \<and> length normalized > 1
                 then Inl (''StepInputConfig source='' @ quoted ''all'' @ '' must be used alone'') else Inr src)
         | _ \<Rightarrow> Inr src)"

definition validate_reuse :: "string option \<Rightarrow> (string, string option) result" where
  "validate_reuse reuse =
     (case reuse of
        None \<Rightarrow> Inr None
      | Some r \<Rightarrow> if py_strip r = [] then Inl ''StepInputConfig reuse_session_from must not be empty''
                  else Inr (Some (py_strip r)))"

definition make_input :: "input_type \<Rightarrow> input_source option \<Rightarrow> string option \<Rightarrow> (string, input_config) result" where
  "make_input ty src reuse =
     res_bind (validate_source ty src) (\<lambda>src'. res_bind (validate_reuse reuse) (\<lambda>reuse'.
       if reuse' \<noteq> None \<and> ty = In_Null
       then Inl (''StepInputConfig type='' @ quoted ''null'' @ '' cannot reuse a prior session'')
       else Inr \<lparr>in_type = ty, in_source = src', in_reuse_session_from = reuse'\<rparr>))"

definition source_names :: "input_config \<Rightarrow> string list" where
  "source_names c = (case in_source c of None \<Rightarrow> [] | Some (One s) \<Rightarrow> [s] | Some (Many ss) \<Rightarrow> ss)"

definition single_source :: "input_config \<Rightarrow> string option" where
  "single_source c =
     (case in_source c of
        None \<Rightarrow> None
      | Some (One s) \<Rightarrow> Some s
      | Some (Many ss) \<Rightarrow> (case ss of [] \<Rightarrow> None | s # _ \<Rightarrow> Some s))"

subsection \<open>Parts of a step\<close>

record gate_option =
  go_label :: string
  go_action :: string
  go_prompt :: bool

datatype timeout_action = Timeout_Fail | Timeout_Continue | Timeout_Cancel

record gate_config =
  gc_message :: string
  gc_input :: "string list"
  gc_options :: "gate_option list"
  gc_conditions :: "string list"
  gc_thresholds :: "(string \<times> pyval) list"
  gc_timeout_seconds :: int
  gc_timeout_action :: timeout_action

record completion_config =
  cc_evaluate :: bool
  cc_evaluator_prompt :: "string option"
  cc_max_attempts :: int
  cc_on_exhausted :: exhausted

record on_reject_config =
  rj_target :: string
  rj_max_loop_iterations :: int
  rj_on_exhausted :: exhausted

record outcome_route =
  rt_status :: outcome_status
  rt_action :: string
  rt_max_loop_iterations :: "int option"
  rt_on_exhausted :: exhausted

datatype profile_mode = Profile_Soft | Profile_Hard

record profile_config =
  pf_matrix :: "(string \<times> string list) list"
  pf_include :: "string list"
  pf_exclude :: "string list"
  pf_allow_tool_search :: bool

record revision_config =
  rv_allowed :: bool
  rv_use_when :: string

definition default_revision :: revision_config where
  "default_revision = \<lparr>rv_allowed = True, rv_use_when = ''''\<rparr>"

record metadata_field =
  mf_name :: string
  mf_type :: string
  mf_required :: bool
  mf_description :: string
  mf_enum :: "string list option"

record det_output =
  do_summary :: string
  do_content :: "string option"
  do_outputs :: "(string \<times> pyval) list"
  do_metadata :: "(string \<times> pyval) list"

record tool_call_config =
  tl_tool :: string
  tl_args :: "(string \<times> pyval) list"
  tl_summary :: "string option"
  tl_outputs :: "(string \<times> pyval) list"
  tl_fail_on_error :: bool
  tl_timeout_seconds :: "int option"
  tl_allow_side_effects :: bool
  tl_redact_args :: "string list"

definition validate_tool_call :: "tool_call_config \<Rightarrow> (string, tool_call_config) result" where
  "validate_tool_call c =
     (if py_strip (tl_tool c) = [] then Inl ''tool_call.tool must not be empty''
      else case tl_timeout_seconds c of
        None \<Rightarrow> Inr c
      | Some t \<Rightarrow>
          if t < 1 then Inl ''Input should be greater than or equal to 1''
          else if t > 3600 then Inl ''Input should be less than or equal to 3600'' else Inr c)"

record condition_config =
  cd_if :: string
  cd_then :: "string option"
  cd_else :: "string option"
  cd_output :: "det_output option"
  cd_revision_source :: "string option"
  cd_max_loop_iterations :: "int option"
  cd_on_exhausted :: exhausted

definition validate_condition :: "condition_config \<Rightarrow> (string, condition_config) result" where
  "validate_condition c =
     (if py_strip (cd_if c) = [] then Inl ''condition.if must not be empty''
      else case cd_max_loop_iterations c of
        None \<Rightarrow> Inr c
      | Some n \<Rightarrow>
          if n < 1 then Inl ''Input should be greater than or equal to 1''
          else if n > 100 then Inl ''Input should be less than or equal to 100'' else Inr c)"

datatype complete_status = Complete_Completed | Complete_Failed

record complete_config =
  cp_status :: complete_status
  cp_summary :: string
  cp_content :: "string option"
  cp_outputs :: "(string \<times> pyval) list"
  cp_notification :: "step_notification option"
  cp_delivery_mode_override :: "string option"

definition validate_complete :: "complete_config \<Rightarrow> (string, complete_config) result" where
  "validate_complete c =
     (if py_strip (cp_summary c) = [] then Inl ''complete.summary must not be empty'' else Inr c)"

subsection \<open>Steps\<close>

datatype step_type = Run | Gate | Tool_Call | Condition | Complete

fun step_type_value :: "step_type \<Rightarrow> string" where
  "step_type_value Run = ''run''" | "step_type_value Gate = ''gate''"
| "step_type_value Tool_Call = ''tool_call''" | "step_type_value Condition = ''condition''"
| "step_type_value Complete = ''complete''"

record step_definition =
  st_name :: string
  st_type :: step_type
  st_description :: string
  st_prompt :: string
  st_objective :: "string option"
  st_responsibilities :: "string list"
  st_defer_to :: "string list"
  st_agent_override :: "string option"
  st_agent_profile_id :: "string option"
  st_reasoning_effort :: "string option"
  st_input :: "input_config option"
  st_completion :: "completion_config option"
  st_allow_questions :: bool
  st_step_profile_id :: "string option"
  st_step_profile_mode :: profile_mode
  st_step_profile :: "profile_config option"
  st_gate :: "gate_config option"
  st_on_reject :: "on_reject_config option"
  st_outcome_routes :: "outcome_route list"
  st_require_deliverable :: bool
  st_revision :: revision_config
  st_metadata_contract :: "metadata_field list option"
  st_when :: "string option"
  st_on_skip :: "det_output option"
  st_on_error :: "string option"
  st_next :: "string option"
  st_tool_call :: "tool_call_config option"
  st_condition :: "condition_config option"
  st_complete :: "complete_config option"

definition deterministic :: "step_definition \<Rightarrow> bool" where
  "deterministic st = (st_type st \<in> {Tool_Call, Condition, Complete})"

definition has_config :: "step_definition \<Rightarrow> step_type \<Rightarrow> bool" where
  "has_config st ty =
     (case ty of Gate \<Rightarrow> st_gate st \<noteq> None | Tool_Call \<Rightarrow> st_tool_call st \<noteq> None
      | Condition \<Rightarrow> st_condition st \<noteq> None | Complete \<Rightarrow> st_complete st \<noteq> None | Run \<Rightarrow> False)"

definition incompatible_values :: "step_definition \<Rightarrow> string list" where
  "incompatible_values st =
     (if st_prompt st \<noteq> [] then [''prompt''] else []) @
     (if st_objective st \<noteq> None then [''objective''] else []) @
     (if st_responsibilities st \<noteq> [] then [''responsibilities''] else []) @
     (if st_defer_to st \<noteq> [] then [''defer_to''] else []) @
     (if st_step_profile_id st \<noteq> None then [''step_profile_id''] else []) @
     (if st_step_profile_mode st \<noteq> Profile_Soft then [''step_profile_mode''] else []) @
     (if st_step_profile st \<noteq> None then [''step_profile''] else []) @
     (if st_revision st \<noteq> default_revision then [''revision''] else []) @
     (if \<not> st_require_deliverable st then [''require_deliverable''] else [])"

definition show_names :: "string list \<Rightarrow> string" where
  "show_names ns = py_repr (VList (map VStr ns))"

text \<open>The checks on the configurations and control fields of the step's type.\<close>

definition check_configs :: "step_definition \<Rightarrow> (string, unit) result" where
  "check_configs st =
     (let ty = step_type_value (st_type st); name = repr_str (st_name st);
          mixed = filter (\<lambda>t. has_config st t \<and> t \<noteq> st_type st) [Gate, Tool_Call, Condition, Complete]
      in if deterministic st \<and> \<not> has_config st (st_type st)
         then Inl (ty @ '' step '' @ name @ '' requires '' @ ty @ '' configuration'')
         else if mixed \<noteq> []
         then Inl (ty @ '' step '' @ name @ '' has incompatible configuration: ''
                   @ show_names (map step_type_value mixed))
         else if \<not> deterministic st \<and> (st_when st \<noteq> None \<or> st_on_skip st \<noteq> None \<or>
                   st_on_error st \<noteq> None \<or> st_next st \<noteq> None)
         then Inl (ty @ '' step '' @ name @ '' cannot use deterministic control fields'')
         else Inr ())"

definition check_deterministic :: "step_definition \<Rightarrow> (string, unit) result" where
  "check_deterministic st =
     (let name = repr_str (st_name st)
      in if \<not> deterministic st then Inr ()
         else if st_agent_override st \<noteq> None \<or> st_agent_profile_id st \<noteq> None \<or>
            st_reasoning_effort st \<noteq> None \<or> st_input st \<noteq> None \<or> st_completion st \<noteq> None \<or>
            st_on_reject st \<noteq> None \<or> st_metadata_contract st \<noteq> None
         then Inl (''deterministic step '' @ name @ '' cannot use agent/input/completion/review fields'')
         else if st_outcome_routes st \<noteq> [] \<or> st_allow_questions st
         then Inl (''deterministic step '' @ name @ '' cannot use outcome routing or questions'')
         else if incompatible_values st \<noteq> []
         then Inl (''deterministic step '' @ name @ '' has incompatible fields: ''
                   @ show_names (sort (incompatible_values st)))
         else Inr ())"

definition check_routing :: "step_definition \<Rightarrow> (string, unit) result" where
  "check_routing st =
     (let name = repr_str (st_name st)
      in if st_type st = Complete \<and> st_next st \<noteq> None
         then Inl (''complete step '' @ name @ '' cannot define next'')
         else if st_type st = Condition \<and> st_next st \<noteq> None
         then Inl (''condition step '' @ name @ '' uses condition.then/else instead of next'')
         else if st_when st \<noteq> None \<and> blank (st_when st) then Inl ''when must not be empty''
         else Inr ())"

definition validate_step_type_contract :: "step_definition \<Rightarrow> (string, unit) result" where
  "validate_step_type_contract st =
     res_bind (check_configs st) (\<lambda>_. res_bind (check_deterministic st) (\<lambda>_. check_routing st))"

definition validate_objective :: "string option \<Rightarrow> (string, string option) result" where
  "validate_objective v =
     (case v of
        None \<Rightarrow> Inr None
      | Some s \<Rightarrow> if py_strip s = [] then Inl ''objective must not be empty'' else Inr (Some (py_strip s)))"

definition validate_non_empty_unique_items :: "string list \<Rightarrow> (string, string list) result" where
  "validate_non_empty_unique_items vs =
     (let normalized = map py_strip vs
      in if [] \<in> set normalized then Inl ''items must not be empty''
         else if \<not> distinct normalized then Inl ''items must not contain duplicates''
         else Inr normalized)"

definition NORMALIZED_REASONING_LEVELS :: "string list" where
  "NORMALIZED_REASONING_LEVELS = [''default'', ''none'', ''low'', ''medium'', ''high'', ''xhigh'', ''max'', ''ultra'']"

definition normalize_reasoning_level :: "string option \<Rightarrow> string option" where
  "normalize_reasoning_level v =
     (case v of
        None \<Rightarrow> None
      | Some s \<Rightarrow>
          (let n = py_lower (py_strip s)
           in if n = [] then None
              else if n \<in> {''off'', ''reset''} then Some ''default''
              else let m = (if n = ''minimal'' then ''low'' else n)
                in if m \<in> set NORMALIZED_REASONING_LEVELS then Some m else None))"

definition validate_reasoning_effort :: "string option \<Rightarrow> (string, string option) result" where
  "validate_reasoning_effort v =
     (case v of
        None \<Rightarrow> Inr None
      | Some s \<Rightarrow>
          (case normalize_reasoning_level (Some s) of
             Some n \<Rightarrow> Inr (Some n)
           | None \<Rightarrow>
               if py_strip s = [] then Inr None
               else Inl (''reasoning_effort must be one of '' @ join_with '', '' NORMALIZED_REASONING_LEVELS
                         @ ''; got '' @ repr_str s)))"

text \<open>Inputs of older workflows are a step name or a list of names.\<close>

definition coerce_legacy_input :: "pyval \<Rightarrow> pyval" where
  "coerce_legacy_input v =
     (case v of
        VStr s \<Rightarrow> VDict [(''type'', VStr ''last''), (''source'', VStr s)]
      | VList vs \<Rightarrow>
          (case filter is_str vs of
             [] \<Rightarrow> VNone
           | [x] \<Rightarrow> VDict [(''type'', VStr ''last''), (''source'', x)]
           | xs \<Rightarrow> VDict [(''type'', VStr ''last''), (''source'', VList xs)])
      | _ \<Rightarrow> v)"

text \<open>Building a step: the field validators in the order of the fields, then the contract.\<close>

definition validate_step :: "step_definition \<Rightarrow> (string, step_definition) result" where
  "validate_step st =
     res_bind (validate_objective (st_objective st)) (\<lambda>obj.
     res_bind (validate_non_empty_unique_items (st_responsibilities st)) (\<lambda>resp.
     res_bind (validate_non_empty_unique_items (st_defer_to st)) (\<lambda>defer.
     res_bind (validate_reasoning_effort (st_reasoning_effort st)) (\<lambda>effort.
       let st' = st\<lparr>st_objective := obj, st_responsibilities := resp, st_defer_to := defer,
                    st_reasoning_effort := effort\<rparr>
       in res_bind (validate_step_type_contract st') (\<lambda>_. Inr st')))))"

subsection \<open>Workflows and their presentation\<close>

record phase =
  ph_id :: string
  ph_title :: string
  ph_description :: string
  ph_step_names :: "string list"

definition validate_phase :: "phase \<Rightarrow> (string, phase) result" where
  "validate_phase ph =
     (if py_strip (ph_id ph) = [] \<or> py_strip (ph_title ph) = [] then Inl ''must not be empty''
      else if ph_step_names ph = [] then Inl ''phase must contain at least one step''
      else if \<not> distinct (ph_step_names ph) then Inl ''phase step_names must not contain duplicates''
      else Inr ph)"

definition validate_phases :: "phase list \<Rightarrow> (string, phase list) result" where
  "validate_phases phs =
     (if phs = [] then Inl ''presentation must contain at least one phase''
      else if \<not> distinct (map ph_id phs) then Inl ''phase ids must be unique'' else Inr phs)"

record workflow =
  wf_id :: string
  wf_name :: string
  wf_description :: string
  wf_version :: int
  wf_criteria :: string
  wf_tags :: "string list"
  wf_interaction_mode :: string
  wf_defaults :: workflow_defaults
  wf_steps :: "step_definition list"
  wf_presentation :: "phase list option"
  wf_is_system :: bool
  wf_owner_email :: "string option"
  wf_lifecycle :: string
  wf_archived_at :: "time option"
  wf_lineage :: "pyval option"
  wf_allow_user_override :: bool
  wf_allow_user_disable :: bool
  wf_editable_fields :: "string list"
  wf_has_overrides :: bool
  wf_disabled :: bool
  wf_override_warnings :: "string list"

definition validate_presentation :: "workflow \<Rightarrow> (string, workflow) result" where
  "validate_presentation w =
     (case wf_presentation w of
        None \<Rightarrow> Inr w
      | Some phases \<Rightarrow>
          (let canonical = map st_name (wf_steps w);
               phase_names = concat (map ph_step_names phases);
               unknown = filter (\<lambda>n. n \<notin> set canonical) phase_names;
               missing = filter (\<lambda>n. n \<notin> set phase_names) canonical
           in if unknown \<noteq> []
              then Inl (''presentation references unknown steps: '' @ show_names unknown)
              else if \<not> distinct phase_names
              then Inl ''each workflow step must belong to exactly one phase''
              else if missing \<noteq> []
              then Inl (''presentation is missing workflow steps: '' @ show_names missing)
              else if phase_names \<noteq> canonical
              then Inl ''phase step_names and phase order must preserve canonical workflow step order''
              else Inr w))"

subsection \<open>Runtime state\<close>

record workflow_state =
  ws_current_step_index :: int
  ws_step_outputs :: "(string \<times> (string \<times> pyval) list) list"
  ws_loop_iterations :: "(string \<times> int) list"
  ws_version :: int
  ws_last_consumed_gate_id :: "string option"
  ws_status :: string
  ws_skipped_steps :: "string list"
  ws_routing_skips :: "(string \<times> string) list"
  ws_effective_workflow_version :: "int option"
  ws_effective_workflow_digest :: "string option"
  ws_effective_workflow_definition :: "pyval option"
  ws_last_evaluation_feedback :: "string option"
  ws_last_retry_reason :: "string option"
  ws_last_revision_context :: "string option"
  ws_last_operator_instruction :: "string option"
  ws_pending_pause_type :: "string option"
  ws_pending_pause_payload :: "(string \<times> pyval) list option"
  ws_current_step_status :: "string option"
  ws_resume_failed_step :: bool

definition initial_workflow_state :: workflow_state where
  "initial_workflow_state = \<lparr>ws_current_step_index = 0, ws_step_outputs = [], ws_loop_iterations = [],
     ws_version = 0, ws_last_consumed_gate_id = None, ws_status = ''running'', ws_skipped_steps = [],
     ws_routing_skips = [], ws_effective_workflow_version = None, ws_effective_workflow_digest = None,
     ws_effective_workflow_definition = None, ws_last_evaluation_feedback = None,
     ws_last_retry_reason = None, ws_last_revision_context = None, ws_last_operator_instruction = None,
     ws_pending_pause_type = None, ws_pending_pause_payload = None, ws_current_step_status = None,
     ws_resume_failed_step = False\<rparr>"

definition normalize_terminal_current_step_status :: "string option \<Rightarrow> string option" where
  "normalize_terminal_current_step_status v =
     (if v \<in> Some ` {''completed'', ''failed'', ''cancelled''} then None else v)"

definition normalize_last_retry_reason :: "string option \<Rightarrow> string option" where
  "normalize_last_retry_reason v =
     (if v \<in> Some ` {''execution_failed'', ''evaluation_rejected'', ''routed_revision''} then v else None)"

definition get_source_intaris_session_id :: "workflow_state \<Rightarrow> string \<Rightarrow> (string, string) result" where
  "get_source_intaris_session_id state step_name =
     (case map_of (ws_step_outputs state) step_name of
        None \<Rightarrow> Inl (''No output found for source step '' @ repr_str step_name)
      | Some raw \<Rightarrow>
          if \<not> truthy (dict_get raw ''intaris_session_id'')
          then Inl (''Source step '' @ repr_str step_name @ '' output missing intaris_session_id'')
          else Inr (py_str (dict_get raw ''intaris_session_id'')))"

text \<open>\<open>dump\<close> is the JSON form of a workflow, \<open>digest\<close> the hash of its canonical encoding.\<close>

definition pin_effective_workflow ::
  "(workflow \<Rightarrow> pyval) \<Rightarrow> (pyval \<Rightarrow> string) \<Rightarrow> workflow \<Rightarrow> workflow_state \<Rightarrow> workflow_state" where
  "pin_effective_workflow dump digest w state =
     (if ws_effective_workflow_definition state \<noteq> None then state
      else state\<lparr>ws_effective_workflow_version := Some (wf_version w),
                 ws_effective_workflow_digest := Some (digest (dump w)),
                 ws_effective_workflow_definition := Some (dump w)\<rparr>)"

subsection \<open>Resolution of step inputs\<close>

text \<open>
  The index of a step counts from 0; an index beyond the list of steps raises \<open>IndexError\<close>,
  the message in \<open>INDEX_ERROR\<close>.
\<close>

definition INDEX_ERROR :: string where
  "INDEX_ERROR = ''list index out of range''"

fun find_previous_run_step :: "nat \<Rightarrow> step_definition list \<Rightarrow> (string, string option) result" where
  "find_previous_run_step 0 steps = Inr None"
| "find_previous_run_step (Suc i) steps =
     (if i \<ge> length steps then Inl INDEX_ERROR
      else if st_type (steps ! i) = Run then Inr (Some (st_name (steps ! i)))
      else find_previous_run_step i steps)"

definition resolve_effective_input ::
  "step_definition \<Rightarrow> nat \<Rightarrow> step_definition list \<Rightarrow> (string, input_config) result" where
  "resolve_effective_input st i steps =
     (let none = make_input In_Null None None
      in case st_input st of
           None \<Rightarrow>
             if i = 0 then none
             else res_bind (find_previous_run_step i steps) (\<lambda>prev_name.
               case prev_name of
                 None \<Rightarrow> none
               | Some prev \<Rightarrow> make_input In_Last (Some (One prev)) None)
         | Some config \<Rightarrow>
             if in_type config \<in> {In_Last, In_Summary, In_Full} \<and> in_source config = None then
               (if i = 0 then none
                else res_bind (find_previous_run_step i steps) (\<lambda>prev_name.
                  case prev_name of
                    None \<Rightarrow> none
                  | Some prev \<Rightarrow>
                      make_input (in_type config) (Some (One prev)) (in_reuse_session_from config)))
             else Inr config)"

definition resolve_source_names ::
  "step_definition \<Rightarrow> nat \<Rightarrow> step_definition list \<Rightarrow> (string, string list) result" where
  "resolve_source_names st i steps =
     res_bind (resolve_effective_input st i steps) (\<lambda>effective.
       if source_names effective \<noteq> [''all''] then Inr (source_names effective)
       else if i > length steps then Inl INDEX_ERROR
       else Inr (map st_name (filter (\<lambda>s. st_type s = Run) (take i steps))))"

subsection \<open>Which step owns the task's output\<close>

definition required_output_producers :: "step_definition list \<Rightarrow> step_definition list" where
  "required_output_producers steps = filter (\<lambda>s. st_type s = Run \<and> st_require_deliverable s) steps"

record ownership =
  ow_task_output :: "bool option"
  ow_producer_step :: "string option"
  ow_reason :: string

definition unknown_ownership :: "string \<Rightarrow> ownership" where
  "unknown_ownership reason = \<lparr>ow_task_output = None, ow_producer_step = None, ow_reason = reason\<rparr>"

definition set_text :: "string option \<Rightarrow> bool" where
  "set_text s = (s \<noteq> None \<and> s \<noteq> Some [])"

definition nonlinear :: "step_definition \<Rightarrow> bool" where
  "nonlinear st = (set_text (st_when st) \<or> st_on_reject st \<noteq> None \<or> set_text (st_on_error st) \<or>
     st_on_skip st \<noteq> None \<or> set_text (st_next st) \<or>
     list_ex (\<lambda>r. rt_action r \<noteq> ''continue'') (st_outcome_routes st))"

definition silent_terminal :: "step_definition \<Rightarrow> bool" where
  "silent_terminal st =
     (st_type st = Complete \<and> st_outcome_routes st = [] \<and>
      (case st_complete st of
         None \<Rightarrow> False
       | Some t \<Rightarrow> cp_status t = Complete_Completed \<and> cp_content t = None \<and>
                   cp_notification t = None \<and> cp_delivery_mode_override t = Some ''silent''))"

fun ownership_obstacle :: "step_definition list \<Rightarrow> string option" where
  "ownership_obstacle [] = None"
| "ownership_obstacle (st # rest) =
     (if nonlinear st then Some ''nonlinear_route''
      else if st_type st = Run then ownership_obstacle rest
      else if \<not> (rest = [] \<and> silent_terminal st) then Some ''unproven_nonproducer''
      else ownership_obstacle rest)"

definition resolve_output_ownership ::
  "step_definition list option \<Rightarrow> step_definition \<Rightarrow> int \<Rightarrow> ownership" where
  "resolve_output_ownership steps_opt st index =
     (case steps_opt of
        None \<Rightarrow> unknown_ownership ''unknown_position''
      | Some steps \<Rightarrow>
          if steps = [] \<or> \<not> (0 \<le> index \<and> index < int (length steps)) \<or> steps ! nat index \<noteq> st \<or>
             \<not> distinct (map st_name steps)
          then unknown_ownership ''unknown_position''
          else case ownership_obstacle steps of
            Some reason \<Rightarrow> unknown_ownership reason
          | None \<Rightarrow>
              (let producers = required_output_producers steps
               in if producers = [] \<or> st \<notin> set producers
                  then unknown_ownership ''not_required_producer''
                  else \<lparr>ow_task_output = Some (st = last producers),
                        ow_producer_step = Some (st_name (last producers)),
                        ow_reason = ''linear_required_runs''\<rparr>))"

definition step_is_task_output ::
  "step_definition list option \<Rightarrow> step_definition \<Rightarrow> int \<Rightarrow> bool option" where
  "step_is_task_output steps st index = ow_task_output (resolve_output_ownership steps st index)"

subsection \<open>Properties\<close>

text \<open>
  A presentation is accepted exactly when its phases cut the workflow's list of steps into
  consecutive pieces without repetition: the step names of the phases, in order, are the names
  of the steps, in order, and no name occurs twice.
\<close>

theorem presentation_partitions_steps:
  "(\<exists>w'. validate_presentation w = Inr w') \<longleftrightarrow>
     (case wf_presentation w of
        None \<Rightarrow> True
      | Some phases \<Rightarrow> concat (map ph_step_names phases) = map st_name (wf_steps w) \<and>
                       distinct (map st_name (wf_steps w)))"
proof (cases "wf_presentation w")
  case (Some phases)
  let ?names = "concat (map ph_step_names phases)" and ?steps = "map st_name (wf_steps w)"
  have "filter (\<lambda>n. n \<notin> set ?steps) ?names = [] \<and> filter (\<lambda>n. n \<notin> set ?names) ?steps = []"
    if "?names = ?steps"
    unfolding that by (simp add: filter_empty_conv)
  with Some show ?thesis
    unfolding validate_presentation_def Let_def by (auto simp del: set_concat set_map)
qed (simp add: validate_presentation_def)

definition run_names :: "step_definition list \<Rightarrow> string list" where
  "run_names steps = map st_name (filter (\<lambda>s. st_type s = Run) steps)"

definition last_only :: "'a list \<Rightarrow> 'a list" where
  "last_only xs = (if xs = [] then [] else [last xs])"

lemma find_previous_run_step_eq:
  "i \<le> length steps \<Longrightarrow> find_previous_run_step i steps =
     Inr (if run_names (take i steps) = [] then None else Some (last (run_names (take i steps))))"
  by (induction i) (auto simp: run_names_def take_Suc_conv_app_nth)

definition no_input :: input_config where
  "no_input = \<lparr>in_type = In_Null, in_source = None, in_reuse_session_from = None\<rparr>"

lemma make_input_null [simp]: "make_input In_Null None None = Inr no_input"
  by (simp add: make_input_def validate_source_def validate_reuse_def no_input_def)

lemma source_names_no_input [simp]: "source_names no_input = []"
  by (simp add: source_names_def no_input_def)

lemma make_input_single:
  assumes "s \<noteq> ''all''" and "make_input ty None reuse = Inr c"
  shows "\<exists>c'. make_input ty (Some (One s)) reuse = Inr c' \<and> source_names c' = [s]"
proof (cases "validate_reuse reuse")
  case (Inr r)
  with assms have "make_input ty (Some (One s)) reuse =
      Inr \<lparr>in_type = ty, in_source = Some (One s), in_reuse_session_from = r\<rparr>"
    by (auto simp: make_input_def validate_source_def split: if_splits)
  then show ?thesis by (simp add: source_names_def)
qed (use assms in \<open>simp add: make_input_def\<close>)

text \<open>A step whose input names no source, and what its input then is.\<close>

definition sourceless :: "step_definition \<Rightarrow> bool" where
  "sourceless st = (case st_input st of
     None \<Rightarrow> True
   | Some c \<Rightarrow> in_source c = None \<and> in_type c \<noteq> In_Null \<and>
               make_input (in_type c) None (in_reuse_session_from c) = Inr c)"

lemma sourceless_input:
  assumes "sourceless st"
  shows "\<exists>ty reuse c. make_input ty None reuse = Inr c \<and>
    resolve_effective_input st i steps = (if i = 0 then Inr no_input
      else res_bind (find_previous_run_step i steps) (\<lambda>prev.
        case prev of None \<Rightarrow> Inr no_input | Some p \<Rightarrow> make_input ty (Some (One p)) reuse))"
proof (cases "st_input st")
  case None
  have "\<exists>c. make_input In_Last None None = Inr c"
    by (simp add: make_input_def validate_source_def validate_reuse_def)
  with None show ?thesis
    by (intro exI [of _ In_Last] exI [of _ None]) (simp add: resolve_effective_input_def Let_def)
next
  case (Some c)
  with assms have c: "in_source c = None" "in_type c \<noteq> In_Null"
    "make_input (in_type c) None (in_reuse_session_from c) = Inr c"
    by (simp_all add: sourceless_def)
  from c(2) have "in_type c \<in> {In_Last, In_Summary, In_Full}" by (cases "in_type c") simp_all
  with Some c show ?thesis
    by (intro exI [of _ "in_type c"] exI [of _ "in_reuse_session_from c"] exI [of _ c])
      (simp add: resolve_effective_input_def Let_def)
qed

text \<open>
  Sources of a step's input, for a step of the workflow whose steps are not called
  \<open>all\<close>. Without an input configuration, or with one of type last, summary or full that names
  no source, the source is the nearest earlier step of type run and nothing if there is none;
  the source \<open>all\<close> stands for all the earlier run steps in order. In each of these cases the
  resolution succeeds.
\<close>

theorem default_sources_are_earlier_runs:
  assumes i: "i \<le> length steps" and all: "''all'' \<notin> st_name ` set steps" and st: "sourceless st"
  shows "resolve_source_names st i steps = Inr (last_only (run_names (take i steps))) \<and>
    resolve_source_names (st\<lparr>st_input := Some \<lparr>in_type = ty, in_source = Some (One ''all''),
      in_reuse_session_from = reuse\<rparr>\<rparr>) i steps = Inr (run_names (take i steps))"
proof
  let ?runs = "run_names (take i steps)"
  have not_all: "last ?runs \<noteq> ''all''" if "?runs \<noteq> []"
    using last_in_set [OF that] all by (auto simp: run_names_def dest: in_set_takeD)
  obtain ty' reuse' c0 where valid: "make_input ty' None reuse' = Inr c0"
    and eff: "resolve_effective_input st i steps = (if i = 0 then Inr no_input
      else res_bind (find_previous_run_step i steps) (\<lambda>prev.
        case prev of None \<Rightarrow> Inr no_input | Some p \<Rightarrow> make_input ty' (Some (One p)) reuse'))"
    using sourceless_input [OF st] by blast
  have "\<exists>c. resolve_effective_input st i steps = Inr c \<and> source_names c = last_only ?runs"
  proof (cases "?runs = []")
    case True
    with i eff show ?thesis by (simp add: find_previous_run_step_eq last_only_def)
  next
    case False
    then have "i \<noteq> 0" by (cases i) (simp_all add: run_names_def)
    with i eff False make_input_single [OF not_all [OF False] valid] show ?thesis
      by (simp add: find_previous_run_step_eq last_only_def)
  qed
  then obtain c where c: "resolve_effective_input st i steps = Inr c"
    and names: "source_names c = last_only ?runs" by blast
  have "source_names c \<noteq> [''all'']" using names not_all by (simp add: last_only_def)
  with c names show "resolve_source_names st i steps = Inr (last_only ?runs)"
    by (simp add: resolve_source_names_def)
  show "resolve_source_names (st\<lparr>st_input := Some \<lparr>in_type = ty, in_source = Some (One ''all''),
      in_reuse_session_from = reuse\<rparr>\<rparr>) i steps = Inr ?runs"
    using i by (simp add: resolve_source_names_def resolve_effective_input_def source_names_def
        run_names_def)
qed

definition demo_step :: "string \<Rightarrow> step_definition" where
  "demo_step n = \<lparr>st_name = n, st_type = Run, st_description = [], st_prompt = ''do it'',
     st_objective = None, st_responsibilities = [], st_defer_to = [], st_agent_override = None,
     st_agent_profile_id = None, st_reasoning_effort = None, st_input = None, st_completion = None,
     st_allow_questions = False, st_step_profile_id = None, st_step_profile_mode = Profile_Soft,
     st_step_profile = None, st_gate = None, st_on_reject = None, st_outcome_routes = [],
     st_require_deliverable = True, st_revision = default_revision, st_metadata_contract = None,
     st_when = None, st_on_skip = None, st_on_error = None, st_next = None, st_tool_call = None,
     st_condition = None, st_complete = None\<rparr>"

definition demo_workflow :: "step_definition list \<Rightarrow> workflow" where
  "demo_workflow steps = \<lparr>wf_id = ''w'', wf_name = ''w'', wf_description = [], wf_version = 1, wf_criteria = [],
     wf_tags = [], wf_interaction_mode = ''none'',
     wf_defaults = \<lparr>wd_max_attempts = 2, wd_evaluate = True, wd_on_exhausted = On_Fail,
       wd_delivery = default_delivery, wd_session_policy = empty_policy\<rparr>,
     wf_steps = steps, wf_presentation = None, wf_is_system = False, wf_owner_email = None,
     wf_lifecycle = ''persistent'', wf_archived_at = None, wf_lineage = None, wf_allow_user_override = False,
     wf_allow_user_disable = False, wf_editable_fields = [], wf_has_overrides = False, wf_disabled = False,
     wf_override_warnings = []\<rparr>"

theorem default_sources_are_earlier_runs_witness:
  "resolve_source_names (demo_step ''c'') 2 [demo_step ''a'', demo_step ''b'', demo_step ''c''] = Inr [''b'']"
proof -
  have d: "st_input (demo_step n) = None" "st_name (demo_step n) = n" "st_type (demo_step n) = Run" for n
    by (simp_all add: demo_step_def)
  have "(2::nat) \<le> length [demo_step ''a'', demo_step ''b'', demo_step ''c'']"
    "''all'' \<notin> st_name ` set [demo_step ''a'', demo_step ''b'', demo_step ''c'']"
    by (simp_all add: d)
  from default_sources_are_earlier_runs [OF this, of "demo_step ''c''"] show ?thesis
    by (simp add: d sourceless_def run_names_def last_only_def numeral_2_eq_2)
qed

text \<open>Merged policies key by key, over the policies in the order of precedence.\<close>

lemma dict_get_normalize:
  "list_of (dict_get_or (normalize_session_policy p) ''allow_policies'' (VList [])) =
     (case p of None \<Rightarrow> [] | Some q \<Rightarrow> allow_policies q)"
  "list_of (dict_get_or (normalize_session_policy p) ''deny_policies'' (VList [])) =
     (case p of None \<Rightarrow> [] | Some q \<Rightarrow> deny_policies q)"
  "dict_get (normalize_session_policy p) ''intaris_evaluation'' =
     (case p of None \<Rightarrow> VNone
      | Some q \<Rightarrow> (case intaris_evaluation q of None \<Rightarrow> VNone | Some e \<Rightarrow> VStr e))"
  by (auto simp: normalize_session_policy_def dict_get_or_def dict_get_def list_of_def
      split: option.splits)

definition policy_clauses :: "(session_policy \<Rightarrow> pyval list) \<Rightarrow> session_policy option list \<Rightarrow> pyval list" where
  "policy_clauses f ps = concat (map (\<lambda>p. case p of None \<Rightarrow> [] | Some q \<Rightarrow> f q) ps)"

definition last_evaluation :: "session_policy option list \<Rightarrow> string option" where
  "last_evaluation ps =
     fold (\<lambda>p e. case p of None \<Rightarrow> e
        | Some q \<Rightarrow> (case intaris_evaluation q of None \<Rightarrow> e | Some x \<Rightarrow> Some x)) ps None"

definition merged_dict :: "pyval list \<Rightarrow> pyval list \<Rightarrow> string option \<Rightarrow> (string \<times> pyval) list" where
  "merged_dict a d e =
     [(''allow_policies'', VList a), (''deny_policies'', VList d)] @
     (case e of None \<Rightarrow> [] | Some x \<Rightarrow> [(''intaris_evaluation'', VStr x)])"

lemma merge_policy_step:
  "merge_policy p (merged_dict a d e) =
     merged_dict (a @ policy_clauses allow_policies [p]) (d @ policy_clauses deny_policies [p])
       (case p of None \<Rightarrow> e
        | Some q \<Rightarrow> (case intaris_evaluation q of None \<Rightarrow> e | Some x \<Rightarrow> Some x))"
  unfolding merge_policy_def Let_def dict_get_normalize
  by (auto simp: merged_dict_def dict_get_def list_of_def policy_clauses_def split: option.splits)

lemma fold_merge_policy:
  "fold merge_policy ps (merged_dict a d e) =
     merged_dict (a @ policy_clauses allow_policies ps) (d @ policy_clauses deny_policies ps)
       (fold (\<lambda>p e. case p of None \<Rightarrow> e
          | Some q \<Rightarrow> (case intaris_evaluation q of None \<Rightarrow> e | Some x \<Rightarrow> Some x)) ps e)"
proof (induction ps arbitrary: a d e)
  case Nil
  show ?case by (simp add: policy_clauses_def)
next
  case (Cons p ps)
  show ?case by (simp add: merge_policy_step Cons.IH policy_clauses_def)
qed

text \<open>
  Merging session policies loses no clause: the merged allow and deny clauses are the
  clauses of all the policies, in order of precedence and verbatim, a key is left out exactly
  when it has no clause, and the evaluation setting is the last one that is set.
\<close>

theorem merged_policies_keep_clauses:
  "merge_session_policies ps =
     (let a = policy_clauses allow_policies ps; d = policy_clauses deny_policies ps
      in (if a \<noteq> [] then [(''allow_policies'', VList a)] else []) @
         (if d \<noteq> [] then [(''deny_policies'', VList d)] else []) @
         (case last_evaluation ps of
            None \<Rightarrow> []
          | Some e \<Rightarrow> if e \<noteq> [] then [(''intaris_evaluation'', VStr e)] else []))"
proof -
  have "merge_session_policies ps = filter (\<lambda>(k, v). truthy v)
      (merged_dict (policy_clauses allow_policies ps) (policy_clauses deny_policies ps) (last_evaluation ps))"
    using fold_merge_policy [of ps "[]" "[]" None]
    by (simp add: merge_session_policies_def merged_dict_def last_evaluation_def)
  then show ?thesis by (simp add: merged_dict_def Let_def split: option.splits)
qed

text \<open>Normalising a reasoning level or a list of items twice changes nothing more.\<close>

lemma normalized_levels_all:
  "list_all (\<lambda>l. normalize_reasoning_level (Some l) = Some l) NORMALIZED_REASONING_LEVELS"
  by code_simp

lemma normalized_levels_fixed:
  "l \<in> set NORMALIZED_REASONING_LEVELS \<Longrightarrow> normalize_reasoning_level (Some l) = Some l"
  using normalized_levels_all by (auto simp: list_all_iff)

lemma normalize_reasoning_level_in:
  "normalize_reasoning_level v = Some l \<Longrightarrow> l \<in> set NORMALIZED_REASONING_LEVELS"
  by (auto simp: normalize_reasoning_level_def Let_def NORMALIZED_REASONING_LEVELS_def
      split: option.splits if_splits)

lemma validate_reasoning_effort_idem:
  assumes "validate_reasoning_effort v = Inr w"
  shows "validate_reasoning_effort w = Inr w"
proof (cases w)
  case (Some l)
  with assms have "normalize_reasoning_level v = Some l"
    by (auto simp: validate_reasoning_effort_def split: option.splits if_splits)
  then have "normalize_reasoning_level (Some l) = Some l"
    by (blast dest: normalize_reasoning_level_in normalized_levels_fixed)
  with Some show ?thesis by (simp add: validate_reasoning_effort_def)
qed (simp add: validate_reasoning_effort_def)

lemma validate_items_idem:
  "validate_non_empty_unique_items vs = Inr ws \<Longrightarrow> validate_non_empty_unique_items ws = Inr ws"
  by (auto simp: validate_non_empty_unique_items_def Let_def o_def split: if_splits)

lemma validate_objective_idem:
  "validate_objective v = Inr w \<Longrightarrow> validate_objective w = Inr w"
  by (auto simp: validate_objective_def split: option.splits if_splits)

text \<open>
  Building a step from a validated one changes nothing: the values that the validators
  normalise are fixed points, so a step that was accepted is accepted again when the stored
  workflow is loaded, with the same fields. And a step of a deterministic type that is
  accepted has the configuration of its own type, no other configuration, and no field of an
  agent step.
\<close>

theorem validated_step_reloads:
  assumes "validate_step st = Inr st'"
  shows "validate_step st' = Inr st' \<and> st_type st' = st_type st \<and>
    (deterministic st' \<longrightarrow>
       has_config st' (st_type st') \<and>
       (\<forall>ty. ty \<noteq> st_type st' \<longrightarrow> \<not> has_config st' ty) \<and>
       st_prompt st' = [] \<and> st_input st' = None \<and> st_completion st' = None \<and>
       st_agent_override st' = None \<and> st_outcome_routes st' = [])"
proof -
  from assms obtain obj resp dfr effort
    where f: "validate_objective (st_objective st) = Inr obj"
      "validate_non_empty_unique_items (st_responsibilities st) = Inr resp"
      "validate_non_empty_unique_items (st_defer_to st) = Inr dfr"
      "validate_reasoning_effort (st_reasoning_effort st) = Inr effort"
    and st': "st' = st\<lparr>st_objective := obj, st_responsibilities := resp, st_defer_to := dfr,
      st_reasoning_effort := effort\<rparr>"
    and ok: "validate_step_type_contract st' = Inr ()"
    by (auto simp: validate_step_def Let_def)
  have idem: "validate_objective obj = Inr obj" "validate_non_empty_unique_items resp = Inr resp"
    "validate_non_empty_unique_items dfr = Inr dfr" "validate_reasoning_effort effort = Inr effort"
    using f by (auto dest: validate_objective_idem validate_items_idem validate_reasoning_effort_idem)
  have proj: "st_objective st' = obj" "st_responsibilities st' = resp" "st_defer_to st' = dfr"
    "st_reasoning_effort st' = effort" "st_type st' = st_type st"
    by (simp_all add: st')
  have same: "st'\<lparr>st_objective := obj, st_responsibilities := resp, st_defer_to := dfr,
      st_reasoning_effort := effort\<rparr> = st'"
    by (simp add: st')
  have "validate_step st' = Inr st'"
    by (simp add: validate_step_def Let_def proj idem same ok)
  moreover have "has_config st' (st_type st')" "st_prompt st' = []" "st_input st' = None"
    "st_completion st' = None" "st_agent_override st' = None" "st_outcome_routes st' = []"
    "has_config st' ty \<Longrightarrow> ty = st_type st'" if "deterministic st'" for ty
    using ok that
    by (auto simp: validate_step_type_contract_def check_configs_def check_deterministic_def
        incompatible_values_def has_config_def Let_def filter_empty_conv
        split: if_splits step_type.splits)
  ultimately show ?thesis using proj(5) by blast
qed

text \<open>
  At most one step of a workflow owns the task's output: if the ownership of the step at
  some index is decided positively, the step is a run with a required deliverable, every later
  step of the workflow is none, and no other index is decided positively.
\<close>

theorem task_output_owner_unique:
  assumes "step_is_task_output (Some steps) st index = Some True"
  shows "st_type st = Run \<and> st_require_deliverable st \<and> 0 \<le> index \<and> steps ! nat index = st \<and>
    (\<forall>j. nat index < j \<and> j < length steps \<longrightarrow>
       \<not> (st_type (steps ! j) = Run \<and> st_require_deliverable (steps ! j))) \<and>
    (\<forall>st' index'. step_is_task_output (Some steps) st' index' = Some True \<longrightarrow> index' = index)"
proof -
  have owner: "0 \<le> i \<and> i < int (length steps) \<and> steps ! nat i = s \<and> distinct (map st_name steps) \<and>
      s \<in> set (required_output_producers steps) \<and> s = last (required_output_producers steps)"
    if "step_is_task_output (Some steps) s i = Some True" for s i
    using that by (auto simp: step_is_task_output_def resolve_output_ownership_def
        unknown_ownership_def Let_def split: if_splits option.splits)
  note o = owner [OF assms]
  have dist: "distinct steps" using o by (meson distinct_map)
  have "st \<in> set (required_output_producers steps)" using o by blast
  then have req: "st_type st = Run \<and> st_require_deliverable st"
    by (simp add: required_output_producers_def)
  have later: "\<not> (st_type (steps ! j) = Run \<and> st_require_deliverable (steps ! j))"
    if "nat index < j" "j < length steps" for j
  proof
    let ?P = "\<lambda>s. st_type s = Run \<and> st_require_deliverable s"
    assume p: "?P (steps ! j)"
    have split: "steps = take j steps @ steps ! j # drop (Suc j) steps"
      using that(2) by (rule id_take_nth_drop)
    have "required_output_producers steps =
        filter ?P (take j steps) @ (steps ! j # filter ?P (drop (Suc j) steps))"
      unfolding required_output_producers_def by (subst split) (simp add: p)
    then have "last (required_output_producers steps) \<in> set (drop j steps)"
      using last_in_set [of "steps ! j # filter ?P (drop (Suc j) steps)"] that(2)
      by (auto simp: Cons_nth_drop_Suc [symmetric] split: if_splits)
    then obtain m where "m < length (drop j steps)" "drop j steps ! m = last (required_output_producers steps)"
      by (auto simp: in_set_conv_nth)
    then have "j \<le> j + m" "j + m < length steps" "steps ! (j + m) = st" using o by simp_all
    then obtain k where "j \<le> k" "k < length steps" "steps ! k = st" by blast
    moreover have "steps ! nat index = st" "nat index < length steps" using o by auto
    ultimately have "k = nat index"
      using nth_eq_iff_index_eq [OF dist, of k "nat index"] by simp
    with \<open>j \<le> k\<close> that(1) show False by simp
  qed
  have unique: "index' = index" if "step_is_task_output (Some steps) st' index' = Some True" for st' index'
  proof -
    note o' = owner [OF that]
    have "nat index' < length steps" "nat index < length steps" using o o' by auto
    moreover have "steps ! nat index' = steps ! nat index" using o o' by simp
    ultimately have "nat index' = nat index"
      using nth_eq_iff_index_eq [OF dist, of "nat index'" "nat index"] by (simp only:)
    moreover have "0 \<le> index'" "0 \<le> index" using o o' by blast+
    ultimately show ?thesis by linarith
  qed
  show ?thesis using o req later unique by blast
qed

theorem validated_step_reloads_witness:
  "\<exists>st'. validate_step (demo_step ''a'' \<lparr>st_objective := Some '' find ''\<rparr>) = Inr st' \<and>
     validate_step st' = Inr st' \<and> st_objective st' = Some ''find''"
proof -
  have "validate_step (demo_step ''a'' \<lparr>st_objective := Some '' find ''\<rparr>) =
      Inr (demo_step ''a'' \<lparr>st_objective := Some ''find''\<rparr>)"
    by (simp add: validate_step_def validate_objective_def validate_non_empty_unique_items_def
        validate_reasoning_effort_def validate_step_type_contract_def check_configs_def
        check_deterministic_def check_routing_def deterministic_def has_config_def demo_step_def
        py_strip_def py_isspace_def Let_def)
  with validated_step_reloads [OF this] show ?thesis by auto
qed

theorem task_output_owner_unique_witness:
  "step_is_task_output (Some [demo_step ''a'', demo_step ''b'']) (demo_step ''b'') 1 = Some True \<and>
   st_require_deliverable (demo_step ''b'')"
proof -
  have "step_is_task_output (Some [demo_step ''a'', demo_step ''b'']) (demo_step ''b'') 1 = Some True"
    by (simp add: step_is_task_output_def resolve_output_ownership_def demo_step_def nonlinear_def
        set_text_def required_output_producers_def Let_def)
  with task_output_owner_unique [OF this] show ?thesis by blast
qed

end
