(* ===== verification/Task_Store.thy ===== *)
theory Task_Store
  imports Workflow_Model "HOL-Library.Product_Lexorder"
begin

section \<open>The tables of tasks, step runs and dependencies\<close>

text \<open>
  The statements of \<open>cognis/store/queries.py\<close> on tasks: the lifecycle with its compare-and-swap
  updates, the optimistic version of the workflow state, the ready queue, the claim of a control
  conversation, step runs, and the dependency graph with its cycle check.

  A statement is a function on the tables and runs as one transaction. The table of tasks is an
  association list in insertion order, from ids to rows; the columns \<open>updated_at\<close> and those that no
  statement of this theory reads or writes are left out.
\<close>

named_theorems task_defs \<open>definitions of the task statements\<close>

subsection \<open>Rows\<close>

datatype task_status = Draft | Queued | Ready | Running | Paused | Completed | Failed | Cancelled

record task_row =
  tk_title :: string
  tk_description :: "string option"
  tk_expected_output :: "string option"
  tk_status :: task_status
  tk_priority :: int
  tk_agent_id :: string
  tk_workflow_id :: "string option"
  tk_project_id :: "string option"
  tk_session_policy :: "pyval option"
  tk_escalation_timeout_seconds :: "int option"
  tk_control_conversation_id :: "string option"
  tk_control_conversation_claimed_at :: "time option"
  tk_attempt_number :: int
  tk_workflow_state :: "workflow_state option"
  tk_queue_name :: string
  tk_scheduled_for :: "time option"
  tk_created_at :: time
  tk_started_at :: "time option"
  tk_completed_at :: "time option"
  tk_result_summary :: "string option"
  tk_result_data :: "pyval option"
  tk_applied_completion_mode :: "string option"
  tk_applied_completion_reason :: "string option"
  tk_delivery_mode :: string

datatype run_status =
    Run_Pending | Run_Running | Run_Evaluating | Run_Approved | Run_Rejected | Run_Paused
  | Run_Failed | Run_Skipped | Run_Cancelled | Run_Superseded

record run_row =
  sr_step_run_id :: string
  sr_task_id :: string
  sr_step_name :: string
  sr_step_type :: string
  sr_attempt_number :: int
  sr_status :: run_status
  sr_started_at :: time
  sr_intaris_session_id :: "string option"
  sr_runtime_info :: pyval
  sr_output :: pyval

record dependency =
  dep_task_id :: string
  dep_depends_on :: string
  dep_required :: bool

record task_db =
  task_rows :: "(string, task_row) dict"
  run_rows :: "run_row list"
  dep_rows :: "dependency list"

definition get_task :: "string \<Rightarrow> task_db \<Rightarrow> task_row option" where
  "get_task tid db = map_of (task_rows db) tid"

text \<open>\<open>UPDATE tasks SET ... WHERE task_id = tid AND ...\<close>, and whether a row was affected.\<close>

definition update_where ::
  "string \<Rightarrow> (task_row \<Rightarrow> bool) \<Rightarrow> (task_row \<Rightarrow> task_row) \<Rightarrow> task_db \<Rightarrow> task_db \<times> bool" where
  "update_where tid cond f db =
     (case get_task tid db of
        None \<Rightarrow> (db, False)
      | Some r \<Rightarrow>
          if cond r then (db\<lparr>task_rows := dict_put tid (f r) (task_rows db)\<rparr>, True)
          else (db, False))"

subsection \<open>Lifecycle\<close>

fun valid_transitions :: "task_status \<Rightarrow> task_status list" where
  "valid_transitions Draft = [Queued, Cancelled]"
| "valid_transitions Queued = [Ready, Cancelled]"
| "valid_transitions Ready = [Running, Cancelled]"
| "valid_transitions Running = [Queued, Paused, Completed, Failed, Cancelled]"
| "valid_transitions Paused = [Queued, Running, Cancelled]"
| "valid_transitions Failed = [Running]"
| "valid_transitions _ = []"

text \<open>The optional columns and predicates of \<open>update_task_status\<close>.\<close>

record status_values =
  v_started_at :: "time option"
  v_completed_at :: "time option"
  v_result_summary :: "string option"
  v_result_data :: "pyval option"
  v_applied_completion_mode :: "string option"
  v_applied_completion_reason :: "string option"
  v_delivery_mode :: "string option"
  v_expected_attempt :: "int option"
  v_expected_status :: "task_status option"
  v_expected_pause_id :: "string option"

definition no_values :: status_values where
  "no_values = \<lparr>v_started_at = None, v_completed_at = None, v_result_summary = None,
     v_result_data = None, v_applied_completion_mode = None, v_applied_completion_reason = None,
     v_delivery_mode = None, v_expected_attempt = None, v_expected_status = None,
     v_expected_pause_id = None\<rparr>"

definition or_else :: "'a option \<Rightarrow> 'a option \<Rightarrow> 'a option" where
  "or_else x y = (case x of None \<Rightarrow> y | Some v \<Rightarrow> Some v)"

definition pause_id_of :: "task_row \<Rightarrow> string option" where
  "pause_id_of r =
     (case tk_workflow_state r of
        None \<Rightarrow> None
      | Some ws \<Rightarrow>
          (case ws_pending_pause_payload ws of
             None \<Rightarrow> None
           | Some d \<Rightarrow> (case dict_get d ''pause_id'' of VStr s \<Rightarrow> Some s | _ \<Rightarrow> None)))"

definition update_task_status ::
  "string \<Rightarrow> task_status \<Rightarrow> status_values \<Rightarrow> task_db \<Rightarrow> task_db \<times> bool" where
  "update_task_status tid status v db =
     update_where tid
       (\<lambda>r. status \<in> set (valid_transitions (tk_status r)) \<and>
            (case v_expected_status v of None \<Rightarrow> True | Some s \<Rightarrow> tk_status r = s) \<and>
            (case v_expected_pause_id v of None \<Rightarrow> True | Some p \<Rightarrow> pause_id_of r = Some p) \<and>
            (case v_expected_attempt v of None \<Rightarrow> True | Some n \<Rightarrow> tk_attempt_number r = n))
       (\<lambda>r. r\<lparr>tk_status := status,
              tk_started_at := or_else (v_started_at v) (tk_started_at r),
              tk_completed_at := or_else (v_completed_at v) (tk_completed_at r),
              tk_result_summary := or_else (v_result_summary v) (tk_result_summary r),
              tk_result_data := or_else (v_result_data v) (tk_result_data r),
              tk_applied_completion_mode :=
                or_else (v_applied_completion_mode v) (tk_applied_completion_mode r),
              tk_applied_completion_reason :=
                or_else (v_applied_completion_reason v) (tk_applied_completion_reason r),
              tk_delivery_mode := (case v_delivery_mode v of None \<Rightarrow> tk_delivery_mode r | Some m \<Rightarrow> m)\<rparr>)
       db"

definition defer_running_task ::
  "string \<Rightarrow> time \<Rightarrow> workflow_state option \<Rightarrow> string option \<Rightarrow> task_db \<Rightarrow> task_db \<times> bool" where
  "defer_running_task tid scheduled ws summary db =
     update_where tid (\<lambda>r. tk_status r = Running)
       (\<lambda>r. r\<lparr>tk_status := Ready, tk_scheduled_for := Some scheduled,
              tk_workflow_state := or_else ws (tk_workflow_state r),
              tk_result_summary := or_else summary (tk_result_summary r)\<rparr>) db"

text \<open>Step runs that are not finished, for the three statements that finish them.\<close>

definition set_runs ::
  "string \<Rightarrow> run_status list \<Rightarrow> run_status \<Rightarrow> task_db \<Rightarrow> task_db" where
  "set_runs tid from st db =
     db\<lparr>run_rows := map (\<lambda>sr. if sr_task_id sr = tid \<and> sr_status sr \<in> set from
                             then sr\<lparr>sr_status := st\<rparr> else sr) (run_rows db)\<rparr>"

definition pause_running_task_for_infrastructure ::
  "string \<Rightarrow> workflow_state \<Rightarrow> string \<Rightarrow> task_db \<Rightarrow> task_db \<times> bool" where
  "pause_running_task_for_infrastructure tid ws summary db =
     (let (db1, ok) = update_where tid (\<lambda>r. tk_status r = Running)
            (\<lambda>r. r\<lparr>tk_status := Paused, tk_workflow_state := Some ws,
                   tk_result_summary := Some summary\<rparr>) db
      in if \<not> ok then (db1, False)
         else (set_runs tid [Run_Pending, Run_Running, Run_Evaluating] Run_Paused db1, True))"

definition fail_running_step_runs_for_task :: "string \<Rightarrow> run_status \<Rightarrow> task_db \<Rightarrow> task_db" where
  "fail_running_step_runs_for_task tid final db =
     set_runs tid [Run_Pending, Run_Running, Run_Evaluating, Run_Paused] final db"

definition supersede_step_runs_for_revision ::
  "string \<Rightarrow> string list \<Rightarrow> int \<Rightarrow> task_db \<Rightarrow> task_db \<times> nat" where
  "supersede_step_runs_for_revision tid names before db =
     (let hit = (\<lambda>sr. sr_task_id sr = tid \<and> sr_step_name sr \<in> set names \<and>
                  sr_attempt_number sr < before \<and>
                  sr_status sr \<in> {Run_Pending, Run_Running, Run_Evaluating, Run_Approved,
                                  Run_Rejected, Run_Paused, Run_Failed})
      in if names = [] then (db, 0)
         else (db\<lparr>run_rows := map (\<lambda>sr. if hit sr then sr\<lparr>sr_status := Run_Superseded\<rparr> else sr) (run_rows db)\<rparr>,
               length (filter hit (run_rows db))))"

text \<open>\<open>ORDER BY started_at, step_run_id\<close>; equal starts keep the order of insertion.\<close>

definition list_step_runs_for_task :: "string \<Rightarrow> task_db \<Rightarrow> run_row list" where
  "list_step_runs_for_task tid db =
     sort_key sr_started_at (filter (\<lambda>sr. sr_task_id sr = tid) (run_rows db))"

text \<open>Runs left behind by a task that ended; those of a cancelled task are cancelled.\<close>

definition fail_orphaned_running_step_runs :: "run_status \<Rightarrow> task_db \<Rightarrow> task_db" where
  "fail_orphaned_running_step_runs final db =
     db\<lparr>run_rows := map (\<lambda>sr.
       case get_task (sr_task_id sr) db of
         None \<Rightarrow> sr
       | Some r \<Rightarrow>
           if sr_status sr \<in> {Run_Running, Run_Paused, Run_Evaluating, Run_Pending} \<and>
              tk_status r \<in> {Failed, Completed, Cancelled}
           then sr\<lparr>sr_status := (if tk_status r = Cancelled then Run_Cancelled else final)\<rparr>
           else sr) (run_rows db)\<rparr>"

definition state_version :: "task_row \<Rightarrow> int" where
  "state_version r = (case tk_workflow_state r of None \<Rightarrow> 0 | Some ws \<Rightarrow> ws_version ws)"

definition update_task_workflow_state ::
  "string \<Rightarrow> workflow_state \<Rightarrow> int option \<Rightarrow> task_db \<Rightarrow> task_db \<times> bool" where
  "update_task_workflow_state tid ws expected db =
     update_where tid
       (\<lambda>r. case expected of None \<Rightarrow> True | Some v \<Rightarrow> state_version r = v - 1)
       (\<lambda>r. r\<lparr>tk_workflow_state := Some ws\<rparr>) db"

text \<open>
  The mutable fields of a draft or queued task: an outer \<open>Some\<close> assigns the column, to \<open>NULL\<close>
  when the inner value is \<open>None\<close> (the \<open>clear_\<close> flags). Without any value nothing is executed.
\<close>

record field_values =
  f_title :: "string option"
  f_description :: "string option"
  f_expected_output :: "string option"
  f_priority :: "int option"
  f_workflow_id :: "string option option"
  f_project_id :: "string option option"
  f_session_policy :: "pyval option"
  f_escalation_timeout_seconds :: "int option option"

definition no_fields :: field_values where
  "no_fields = \<lparr>f_title = None, f_description = None, f_expected_output = None, f_priority = None,
     f_workflow_id = None, f_project_id = None, f_session_policy = None,
     f_escalation_timeout_seconds = None\<rparr>"

definition assigned :: "'a option \<Rightarrow> 'a \<Rightarrow> 'a" where
  "assigned v old = (case v of None \<Rightarrow> old | Some x \<Rightarrow> x)"

definition update_task_fields :: "string \<Rightarrow> field_values \<Rightarrow> task_db \<Rightarrow> task_db \<times> bool" where
  "update_task_fields tid f db =
     (if f = no_fields then (db, False)
      else update_where tid (\<lambda>r. tk_status r \<in> {Draft, Queued})
        (\<lambda>r. r\<lparr>tk_title := assigned (f_title f) (tk_title r),
               tk_description := or_else (f_description f) (tk_description r),
               tk_expected_output := or_else (f_expected_output f) (tk_expected_output r),
               tk_priority := assigned (f_priority f) (tk_priority r),
               tk_workflow_id := assigned (f_workflow_id f) (tk_workflow_id r),
               tk_project_id := assigned (f_project_id f) (tk_project_id r),
               tk_session_policy := or_else (f_session_policy f) (tk_session_policy r),
               tk_escalation_timeout_seconds :=
                 assigned (f_escalation_timeout_seconds f) (tk_escalation_timeout_seconds r)\<rparr>) db)"

subsection \<open>The ready queue\<close>

definition is_candidate :: "time \<Rightarrow> string \<Rightarrow> task_row \<Rightarrow> bool" where
  "is_candidate now queue r \<longleftrightarrow> tk_status r = Ready \<and> tk_queue_name r = queue \<and>
     (case tk_scheduled_for r of None \<Rightarrow> True | Some t \<Rightarrow> t \<le> now)"

text \<open>
  \<open>ORDER BY priority DESC, created_at ASC LIMIT 1\<close>. SQL leaves the order of equal rows open; the
  model takes the one inserted first.
\<close>

definition queue_rank :: "string \<times> task_row \<Rightarrow> int \<times> time" where
  "queue_rank = (\<lambda>(tid, r). (- tk_priority r, tk_created_at r))"

definition next_candidate :: "time \<Rightarrow> string \<Rightarrow> task_db \<Rightarrow> (string \<times> task_row) option" where
  "next_candidate now queue db =
     (case sort_key queue_rank (filter (\<lambda>(tid, r). is_candidate now queue r) (task_rows db)) of
        [] \<Rightarrow> None
      | p # _ \<Rightarrow> Some p)"

definition list_tasks_by_status :: "task_status list \<Rightarrow> nat \<Rightarrow> task_db \<Rightarrow> (string \<times> task_row) list" where
  "list_tasks_by_status statuses limit db =
     take limit (sort_key queue_rank (filter (\<lambda>(tid, r). tk_status r \<in> set statuses) (task_rows db)))"

definition pick_ready_task :: "time \<Rightarrow> string \<Rightarrow> task_db \<Rightarrow> task_db \<times> task_row option" where
  "pick_ready_task now queue db =
     (case next_candidate now queue db of
        None \<Rightarrow> (db, None)
      | Some (tid, _) \<Rightarrow>
          (let (db', ok) = update_where tid (\<lambda>r. tk_status r = Ready)
                 (\<lambda>r. r\<lparr>tk_status := Running, tk_started_at := Some now\<rparr>) db
           in (db', if ok then get_task tid db' else None)))"

subsection \<open>Control conversations\<close>

definition claim_task_control_conversation ::
  "string \<Rightarrow> string \<Rightarrow> time \<Rightarrow> task_db \<Rightarrow> task_db \<times> bool" where
  "claim_task_control_conversation tid cid now db =
     update_where tid (\<lambda>r. tk_control_conversation_id r = None)
       (\<lambda>r. r\<lparr>tk_control_conversation_id := Some cid,
              tk_control_conversation_claimed_at := Some now\<rparr>) db"

definition cleared_claim :: "task_row \<Rightarrow> task_row" where
  "cleared_claim r = r\<lparr>tk_control_conversation_id := None,
                       tk_control_conversation_claimed_at := None\<rparr>"

definition clear_task_control_conversation_claim ::
  "string \<Rightarrow> string \<Rightarrow> task_db \<Rightarrow> task_db \<times> bool" where
  "clear_task_control_conversation_claim tid cid db =
     update_where tid (\<lambda>r. tk_control_conversation_id r = Some cid) cleared_claim db"

definition clear_stale_task_control_conversation_claim ::
  "string \<Rightarrow> string \<Rightarrow> time \<Rightarrow> task_db \<Rightarrow> task_db \<times> bool" where
  "clear_stale_task_control_conversation_claim tid cid before db =
     update_where tid
       (\<lambda>r. tk_control_conversation_id r = Some cid \<and>
            (case tk_control_conversation_claimed_at r of None \<Rightarrow> False | Some t \<Rightarrow> t < before))
       cleared_claim db"

definition mark_task_control_conversation_ready ::
  "string \<Rightarrow> string \<Rightarrow> task_db \<Rightarrow> task_db \<times> bool" where
  "mark_task_control_conversation_ready tid cid db =
     update_where tid
       (\<lambda>r. tk_control_conversation_id r = Some cid \<and> tk_control_conversation_claimed_at r \<noteq> None)
       (\<lambda>r. r\<lparr>tk_control_conversation_claimed_at := None\<rparr>) db"

definition assert_task_attempt_current :: "string \<Rightarrow> int \<Rightarrow> task_db \<Rightarrow> bool" where
  "assert_task_attempt_current tid expected db =
     (case get_task tid db of None \<Rightarrow> False | Some r \<Rightarrow> tk_attempt_number r = expected)"

lemmas [task_defs] = update_task_status_def defer_running_task_def
  pause_running_task_for_infrastructure_def update_task_workflow_state_def update_task_fields_def
  pick_ready_task_def claim_task_control_conversation_def clear_task_control_conversation_claim_def
  clear_stale_task_control_conversation_claim_def mark_task_control_conversation_ready_def
  cleared_claim_def

lemma update_whereE:
  assumes "update_where tid cond f db = (db', True)"
  obtains r where "get_task tid db = Some r" "cond r" "db' = db\<lparr>task_rows := dict_put tid (f r) (task_rows db)\<rparr>"
  using assms that by (auto simp: update_where_def split: option.splits if_splits)

lemma update_where_False: "update_where tid cond f db = (db', False) \<Longrightarrow> db' = db"
  by (auto simp: update_where_def split: option.splits if_splits)

lemma update_task_statusE:
  assumes "update_task_status tid st v db = (db', True)"
  obtains r r' where "get_task tid db = Some r" "db' = db\<lparr>task_rows := dict_put tid r' (task_rows db)\<rparr>"
    "st \<in> set (valid_transitions (tk_status r))" "tk_status r' = st" "tk_attempt_number r' = tk_attempt_number r"
  using assms unfolding update_task_status_def
  by (rule update_whereE) (rule that, assumption, assumption, simp_all)

lemma update_where_deps [simp]: "dep_rows (fst (update_where tid cond f db)) = dep_rows db"
  by (simp add: update_where_def split: option.split)

lemma update_where_other [simp]: "x \<noteq> tid \<Longrightarrow> get_task x (fst (update_where tid cond f db)) = get_task x db"
  by (simp add: update_where_def get_task_def split: option.split)

lemma status_deps [simp]: "dep_rows (fst (update_task_status tid st v db)) = dep_rows db"
  by (simp add: update_task_status_def)

lemma status_other [simp]: "x \<noteq> tid \<Longrightarrow> get_task x (fst (update_task_status tid st v db)) = get_task x db"
  by (simp add: update_task_status_def)

lemma status_refused:
  "get_task tid db = Some r \<Longrightarrow> st \<notin> set (valid_transitions (tk_status r)) \<Longrightarrow>
   update_task_status tid st v db = (db, False)"
  by (simp add: update_task_status_def update_where_def)

subsection \<open>Dependencies\<close>

datatype dep_error = Self_Dependency | Would_Create_Cycle | Integrity_Violation

definition depends_on :: "dependency list \<Rightarrow> string \<Rightarrow> string list" where
  "depends_on deps tid = map dep_depends_on (filter (\<lambda>d. dep_task_id d = tid) deps)"

lemma depends_on_Nil: "tid \<notin> dep_task_id ` set deps \<Longrightarrow> depends_on deps tid = []"
  by (auto simp: depends_on_def filter_empty_conv)

text \<open>
  The depth-first search of \<open>_would_create_cycle\<close>; the head of the list is the top of the stack.
\<close>

function dfs :: "dependency list \<Rightarrow> string \<Rightarrow> string list \<Rightarrow> string list \<Rightarrow> bool" where
  "dfs deps target visited [] = False"
| "dfs deps target visited (current # stack) =
     (if current = target then True
      else if current \<in> set visited then dfs deps target visited stack
      else dfs deps target (current # visited) (rev (depends_on deps current) @ stack))"
  by pat_completeness auto

termination
proof (relation "measures [\<lambda>(deps, target, visited, stack). card (dep_task_id ` set deps - set visited),
    \<lambda>(deps, target, visited, stack). length stack]")
  fix deps :: "dependency list" and target current :: string and visited stack :: "string list"
  assume new: "current \<notin> set visited"
  show "((deps, target, current # visited, rev (depends_on deps current) @ stack),
      deps, target, visited, current # stack)
    \<in> measures [\<lambda>(deps, target, visited, stack). card (dep_task_id ` set deps - set visited),
        \<lambda>(deps, target, visited, stack). length stack]"
  proof (cases "current \<in> dep_task_id ` set deps")
    case True
    with new have "dep_task_id ` set deps - set (current # visited) \<subset> dep_task_id ` set deps - set visited"
      by auto
    then have "card (dep_task_id ` set deps - set (current # visited)) < card (dep_task_id ` set deps - set visited)"
      by (intro psubset_card_mono) auto
    then show ?thesis by simp
  next
    case False
    then have "dep_task_id ` set deps - set (current # visited) = dep_task_id ` set deps - set visited"
      by auto
    with False show ?thesis by (simp add: depends_on_Nil)
  qed
qed simp_all

definition would_create_cycle :: "dependency list \<Rightarrow> string \<Rightarrow> string \<Rightarrow> bool" where
  "would_create_cycle deps tid target = dfs deps target [] [tid]"

definition add_task_dependency ::
  "string \<Rightarrow> string \<Rightarrow> bool \<Rightarrow> task_db \<Rightarrow> (dep_error, task_db) result" where
  "add_task_dependency tid dep required db =
     (if tid = dep then Inl Self_Dependency
      else if would_create_cycle (dep_rows db) dep tid then Inl Would_Create_Cycle
      else if get_task tid db = None \<or> get_task dep db = None \<or>
              list_ex (\<lambda>d. dep_task_id d = tid \<and> dep_depends_on d = dep) (dep_rows db)
      then Inl Integrity_Violation
      else Inr (db\<lparr>dep_rows := dep_rows db @
             [\<lparr>dep_task_id = tid, dep_depends_on = dep, dep_required = required\<rparr>]\<rparr>))"

definition remove_task_dependency :: "string \<Rightarrow> string \<Rightarrow> task_db \<Rightarrow> task_db \<times> bool" where
  "remove_task_dependency tid dep db =
     (let hit = (\<lambda>d. dep_task_id d = tid \<and> dep_depends_on d = dep)
      in (db\<lparr>dep_rows := filter (\<lambda>d. \<not> hit d) (dep_rows db)\<rparr>, list_ex hit (dep_rows db)))"

definition get_task_dependencies :: "string \<Rightarrow> task_db \<Rightarrow> dependency list" where
  "get_task_dependencies tid db = filter (\<lambda>d. dep_task_id d = tid) (dep_rows db)"

definition get_unmet_dependencies :: "string \<Rightarrow> bool \<Rightarrow> task_db \<Rightarrow> dependency list" where
  "get_unmet_dependencies tid required_only db =
     filter (\<lambda>d. dep_task_id d = tid \<and>
               (case get_task (dep_depends_on d) db of None \<Rightarrow> False | Some r \<Rightarrow> tk_status r \<noteq> Completed) \<and>
               (required_only \<longrightarrow> dep_required d)) (dep_rows db)"

definition get_dependent_tasks :: "string \<Rightarrow> task_db \<Rightarrow> string list" where
  "get_dependent_tasks tid db =
     map dep_task_id (filter (\<lambda>d. dep_depends_on d = tid) (dep_rows db))"

subsection \<open>The search decides reachability\<close>

definition edges :: "dependency list \<Rightarrow> (string \<times> string) set" where
  "edges deps = (\<lambda>d. (dep_task_id d, dep_depends_on d)) ` set deps"

lemma set_depends_on: "set (depends_on deps tid) = {w. (tid, w) \<in> edges deps}"
  by (auto simp: depends_on_def edges_def)

lemma dfs_sound:
  "dfs deps target visited stack \<Longrightarrow> \<exists>s \<in> set stack. (s, target) \<in> (edges deps)\<^sup>*"
proof (induction deps target visited stack rule: dfs.induct)
  case (2 deps target visited current stack)
  show ?case
  proof (cases "current = target")
    case False
    note ne = this
    show ?thesis
    proof (cases "current \<in> set visited")
      case True
      with 2 ne show ?thesis by auto
    next
      case new: False
      with 2 ne obtain s where "s \<in> set (depends_on deps current) \<union> set stack" "(s, target) \<in> (edges deps)\<^sup>*"
        by auto
      then show ?thesis
        by (auto simp: set_depends_on intro: converse_rtrancl_into_rtrancl)
    qed
  qed auto
qed simp

definition search_closed :: "dependency list \<Rightarrow> string \<Rightarrow> string list \<Rightarrow> string list \<Rightarrow> bool" where
  "search_closed deps target visited stack \<longleftrightarrow>
     (\<forall>v \<in> set visited. v \<noteq> target \<and> (\<forall>w. (v, w) \<in> edges deps \<longrightarrow> w \<in> set visited \<union> set stack))"

lemma closed_unreachable:
  assumes "search_closed deps target visited []" and "v \<in> set visited"
  shows "(v, target) \<notin> (edges deps)\<^sup>*"
proof
  assume "(v, target) \<in> (edges deps)\<^sup>*"
  then have "target \<in> set visited"
    using assms by (induction rule: rtrancl_induct) (auto simp: search_closed_def)
  with assms(1) show False by (auto simp: search_closed_def)
qed

lemma dfs_complete:
  "search_closed deps target visited stack \<Longrightarrow> s \<in> set visited \<union> set stack \<Longrightarrow>
     (s, target) \<in> (edges deps)\<^sup>* \<Longrightarrow> dfs deps target visited stack"
proof (induction deps target visited stack arbitrary: s rule: dfs.induct)
  case (1 deps target visited)
  then show ?case using closed_unreachable by auto
next
  case (2 deps target visited current stack)
  show ?case
  proof (cases "current = target \<or> current \<in> set visited")
    case True
    with 2 show ?thesis by (auto simp: search_closed_def)
  next
    case False
    have "search_closed deps target (current # visited) (rev (depends_on deps current) @ stack)"
      using "2.prems"(1) False by (auto simp: search_closed_def set_depends_on)
    from "2.IH"(2) [OF _ _ this, of s] False "2.prems" show ?thesis by auto
  qed
qed

lemma would_create_cycle_iff: "would_create_cycle deps tid target \<longleftrightarrow> (tid, target) \<in> (edges deps)\<^sup>*"
  using dfs_sound [of deps target "[]" "[tid]"] dfs_complete [of deps target "[]" "[tid]" tid]
  by (auto simp: would_create_cycle_def search_closed_def)

subsection \<open>The dependency graph is acyclic\<close>

inductive dep_step :: "task_db \<Rightarrow> task_db \<Rightarrow> bool" where
  adds: "add_task_dependency tid dep req db = Inr db' \<Longrightarrow> dep_step db db'"
| removes: "dep_step db (fst (remove_task_dependency tid dep db))"

lemma add_task_dependency_edges:
  assumes "add_task_dependency tid dep req db = Inr db'"
  shows "edges (dep_rows db') = insert (tid, dep) (edges (dep_rows db)) \<and> (dep, tid) \<notin> (edges (dep_rows db))\<^sup>*"
  using assms by (auto simp: add_task_dependency_def would_create_cycle_iff edges_def split: if_splits)

lemma remove_task_dependency_edges: "edges (dep_rows (fst (remove_task_dependency tid dep db))) \<subseteq> edges (dep_rows db)"
  by (auto simp: remove_task_dependency_def edges_def Let_def)

interpretation dep_graph: inv_system "\<lambda>db. dep_rows db = []" dep_step "\<lambda>db. acyclic (edges (dep_rows db))"
proof
  fix db db'
  assume "acyclic (edges (dep_rows db))" and "dep_step db db'"
  then show "acyclic (edges (dep_rows db'))"
    by (auto elim!: dep_step.cases dest!: add_task_dependency_edges
        intro: acyclic_subset [OF _ remove_task_dependency_edges])
qed (simp add: edges_def acyclic_def)



text \<open>
  A workflow state is never overwritten by a writer that has not seen it: of two checked writes
  for the same next version, the second is refused and changes nothing.
\<close>

theorem second_writer_refused:
  assumes "update_task_workflow_state tid ws (Some v) db = (db', True)" and "ws_version ws = v"
  shows "update_task_workflow_state tid ws' (Some v) db' = (db', False)"
  using assms(1) unfolding update_task_workflow_state_def
  by (rule update_whereE) (simp add: update_where_def get_task_def state_version_def assms(2))

end
