(* ===== verification/Workflow_Routing.thy ===== *)
theory Workflow_Routing
  imports Gate_Conditions Task_Store
begin

section \<open>Routing between the steps of a workflow\<close>

text \<open>
  The parts of \<open>cognis/core/workflow_engine.py\<close> that compute on a workflow and its state without
  waiting for anything: revise actions, targets, completion settings, outcome routes, deterministic
  routes with their jump limit, the result of a deterministic step and its recovery, the gates built
  for exhausted steps, the sessions that later steps need, and the summary of the result.

  Rendering by the template engine, the JSON form of a step output and its validation are library
  code; they come as the record \<open>library\<close> of functions.
\<close>

subsection \<open>Step outputs\<close>

record step_output =
  so_summary :: string
  so_content :: string
  so_outputs :: "(string \<times> pyval) list"
  so_metadata :: "(string \<times> pyval) list"
  so_claims :: "string list"
  so_outcome :: "step_outcome option"
  so_notification :: "step_notification option"
  so_deliverable_id :: "string option"
  so_error :: "string option"
  so_session_id :: "string option"

definition make_output :: "string \<Rightarrow> step_output" where
  "make_output summary = \<lparr>so_summary = summary, so_content = '''', so_outputs = [], so_metadata = [],
     so_claims = [], so_outcome = None, so_notification = None, so_deliverable_id = None,
     so_error = None, so_session_id = None\<rparr>"

record library =
  lb_text :: "string \<Rightarrow> (string, string) result"
  lb_expression :: "string \<Rightarrow> (string, bool) result"
  lb_native :: "(string \<times> pyval) list \<Rightarrow> (string, (string \<times> pyval) list) result"
  lb_json_size :: "pyval \<Rightarrow> (string, nat) result"
  lb_audit :: "string \<Rightarrow> bool \<Rightarrow> pyval"
  lb_dump :: "step_output \<Rightarrow> (string \<times> pyval) list"
  lb_load :: "(string \<times> pyval) list \<Rightarrow> (string, step_output) result"

text \<open>Subscripts of a Python list: negative ones count from the end.\<close>

definition py_index :: "'a list \<Rightarrow> int \<Rightarrow> 'a option" where
  "py_index xs i =
     (if 0 \<le> i \<and> i < int (length xs) then Some (xs ! nat i)
      else if - int (length xs) \<le> i \<and> i < 0 then Some (xs ! nat (int (length xs) + i))
      else None)"

definition py_endswith :: "string \<Rightarrow> string \<Rightarrow> bool" where
  "py_endswith s p = py_startswith (rev s) (rev p)"

text \<open>\<open>" ".join(s.split())\<close>: words separated by single spaces.\<close>

fun py_words :: "string \<Rightarrow> string \<Rightarrow> string list" where
  "py_words acc [] = (if acc = [] then [] else [rev acc])"
| "py_words acc (c # s) =
     (if py_isspace c then (if acc = [] then py_words [] s else rev acc # py_words [] s)
      else py_words (c # acc) s)"

definition squeeze :: "string \<Rightarrow> string" where
  "squeeze s = join_with '' '' (py_words [] s)"

subsection \<open>Actions and targets\<close>

definition parse_revise_action :: "string \<Rightarrow> string option" where
  "parse_revise_action action =
     (if py_startswith action ''revise('' \<and> py_endswith action '')'' then Some (butlast (drop 7 action))
      else if py_startswith action ''revise:'' then Some (drop 7 action)
      else None)"

definition find_step_index :: "workflow \<Rightarrow> string \<Rightarrow> int option" where
  "find_step_index w name =
     (let i = length (takeWhile (\<lambda>st. st_name st \<noteq> name) (wf_steps w))
      in if i < length (wf_steps w) then Some (int i) else None)"

definition resolve_completion :: "step_definition \<Rightarrow> workflow \<Rightarrow> completion_config option" where
  "resolve_completion st w =
     (case st_completion st of
        Some c \<Rightarrow> Some c
      | None \<Rightarrow>
          if wd_evaluate (wf_defaults w)
          then Some \<lparr>cc_evaluate = True, cc_evaluator_prompt = None,
                     cc_max_attempts = wd_max_attempts (wf_defaults w),
                     cc_on_exhausted = wd_on_exhausted (wf_defaults w)\<rparr>
          else None)"

definition get_on_exhausted :: "step_definition \<Rightarrow> workflow \<Rightarrow> exhausted" where
  "get_on_exhausted st w =
     (case st_completion st of Some c \<Rightarrow> cc_on_exhausted c | None \<Rightarrow> wd_on_exhausted (wf_defaults w))"

definition missing_required_deliverable :: "step_definition \<Rightarrow> step_output option \<Rightarrow> bool" where
  "missing_required_deliverable st out =
     (case out of
        None \<Rightarrow> False
      | Some o' \<Rightarrow> st_require_deliverable st \<and>
          (case so_deliverable_id o' of None \<Rightarrow> True | Some d \<Rightarrow> d = []))"

definition fail_route :: "outcome_status \<Rightarrow> outcome_route" where
  "fail_route status = \<lparr>rt_status = status, rt_action = ''fail'', rt_max_loop_iterations = None,
     rt_on_exhausted = On_Fail\<rparr>"

definition resolve_outcome_route :: "step_definition \<Rightarrow> outcome_status \<Rightarrow> outcome_route option" where
  "resolve_outcome_route st status =
     (case find_first (\<lambda>r. rt_status r = status) (st_outcome_routes st) of
        Some r \<Rightarrow> Some r
      | None \<Rightarrow> if status = Outcome_Success then None else Some (fail_route status))"

fun outcome_value :: "outcome_status \<Rightarrow> string" where
  "outcome_value Outcome_Success = ''success''"
| "outcome_value Outcome_Rejected = ''rejected''"
| "outcome_value Outcome_Failed = ''failed''"

definition NL :: string where
  "NL = [CHR 0x0A]"

definition build_revision_context :: "step_definition \<Rightarrow> step_output \<Rightarrow> string" where
  "build_revision_context st out =
     ''The previous step `'' @ st_name st @ ''` completed successfully but requested revisions.'' @
     (case so_outcome out of
        None \<Rightarrow> ''''
      | Some oc \<Rightarrow> NL @ NL @ ''Outcome: '' @ outcome_value (oc_status oc) @
          (case oc_reason oc of
             None \<Rightarrow> '''' | Some r \<Rightarrow> if r = [] then '''' else NL @ ''Reason: '' @ r)) @
     (if so_summary out \<noteq> [] then NL @ NL @ ''Summary:'' @ NL @ so_summary out else '''') @
     (if so_content out \<noteq> [] then NL @ NL @ ''Reviewer Output:'' @ NL @ so_content out
      else if so_claims out \<noteq> []
      then NL @ NL @ ''Reviewer Claims:'' @ NL @ join_with NL (map (\<lambda>c. ''- '' @ c) (so_claims out))
      else '''')"

definition nonempty :: "string option \<Rightarrow> string list" where
  "nonempty s = (case s of None \<Rightarrow> [] | Some t \<Rightarrow> if t = [] then [] else [t])"

definition build_step_task_context :: "task_row \<Rightarrow> workflow_state \<Rightarrow> string" where
  "build_step_task_context r ws =
     py_strip (join_with (NL @ NL)
       (map (\<lambda>t. ''Task title: '' @ t) (nonempty (Some (tk_title r))) @
        map (\<lambda>t. ''Task description: '' @ t) (nonempty (tk_description r)) @
        map (\<lambda>t. ''Expected output: '' @ t) (nonempty (tk_expected_output r)) @
        map (\<lambda>t. ''Operator instruction for this step: '' @ py_strip t)
          (nonempty (ws_last_operator_instruction ws))))"

subsection \<open>Deterministic routes\<close>

definition MAX_DETERMINISTIC_JUMPS :: int where
  "MAX_DETERMINISTIC_JUMPS = 100"

definition counter :: "workflow_state \<Rightarrow> string \<Rightarrow> int \<Rightarrow> int" where
  "counter ws key d = (case map_of (ws_loop_iterations ws) key of None \<Rightarrow> d | Some n \<Rightarrow> n)"

definition set_counter :: "string \<Rightarrow> int \<Rightarrow> workflow_state \<Rightarrow> workflow_state" where
  "set_counter key n ws = ws\<lparr>ws_loop_iterations := dict_put key n (ws_loop_iterations ws)\<rparr>"

definition pop_counter :: "string \<Rightarrow> workflow_state \<Rightarrow> workflow_state" where
  "pop_counter key ws = ws\<lparr>ws_loop_iterations := dict_del key (ws_loop_iterations ws)\<rparr>"

definition explicit_next_index :: "workflow \<Rightarrow> string option \<Rightarrow> int \<Rightarrow> (string, int) result" where
  "explicit_next_index w target fallback =
     (case target of
        None \<Rightarrow> Inr fallback
      | Some name \<Rightarrow>
          (case find_step_index w name of
             None \<Rightarrow> Inl (''unknown deterministic routing target '' @ repr_str name)
           | Some i \<Rightarrow> Inr i))"

text \<open>The two loops of \<open>_apply_deterministic_route\<close>, over the steps passed by and the steps entered again.\<close>

definition skip_step :: "string \<Rightarrow> step_definition \<Rightarrow> workflow_state \<Rightarrow> workflow_state" where
  "skip_step reason st ws =
     ws\<lparr>ws_routing_skips := dict_put (st_name st) (take 500 reason) (ws_routing_skips ws),
        ws_step_outputs := dict_del (st_name st) (ws_step_outputs ws)\<rparr>"

definition reenter_step :: "string \<Rightarrow> workflow_state \<Rightarrow> workflow_state" where
  "reenter_step name ws =
     (let key = ''deterministic_generation:'' @ name
      in set_counter key (counter ws key 0 + 1)
           (ws\<lparr>ws_routing_skips := dict_del name (ws_routing_skips ws),
               ws_step_outputs := dict_del name (ws_step_outputs ws)\<rparr>))"

definition slice :: "int \<Rightarrow> int \<Rightarrow> 'a list \<Rightarrow> 'a list" where
  "slice i j xs = take (nat (j - i)) (drop (nat i) xs)"

text \<open>The state is changed in place, so it is returned also when the route raises.\<close>

definition apply_deterministic_route ::
  "workflow \<Rightarrow> int \<Rightarrow> int \<Rightarrow> string \<Rightarrow> workflow_state \<Rightarrow> workflow_state \<times> (string, unit) result" where
  "apply_deterministic_route w source target reason ws =
     (if target = source + 1 then (ws, Inr ())
      else
        (let jumps = counter ws ''deterministic_jumps'' 0 + 1;
             ws1 = set_counter ''deterministic_jumps'' jumps ws
         in if jumps > MAX_DETERMINISTIC_JUMPS then (ws1, Inl ''deterministic workflow jump limit exceeded'')
            else if target > source
            then (fold (skip_step reason) (slice (source + 1) target (wf_steps w)) ws1, Inr ())
            else case py_index (wf_steps w) target of
                None \<Rightarrow> (ws1, Inl INDEX_ERROR)
              | Some t \<Rightarrow>
                  (let key = ''attempts:'' @ st_name t;
                       ws2 = set_counter key (max (counter ws1 key 1) 1 + 1)
                               (ws1\<lparr>ws_last_retry_reason := Some ''routed_revision''\<rparr>);
                       names = List.map_filter (\<lambda>i. map_option st_name (py_index (wf_steps w) i)) [target..source]
                   in (fold reenter_step names ws2, Inr ()))))"

definition deterministic_route_reason :: "step_definition \<Rightarrow> step_output \<Rightarrow> string" where
  "deterministic_route_reason st out =
     (case dict_get (so_metadata out) ''selected_branch'' of
        VStr b \<Rightarrow> take 500 (''condition:'' @ st_name st @ '':'' @ b)
      | _ \<Rightarrow>
          if truthy (dict_get (so_metadata out) ''skipped'') then take 500 (''when:'' @ st_name st @ '':false'')
          else take 500 (''next:'' @ st_name st))"

subsection \<open>Deterministic steps\<close>

record det_result =
  dr_output :: step_output
  dr_status :: string
  dr_next_step_index :: "int option"
  dr_workflow_status :: "string option"
  dr_delivery_mode_override :: "string option"
  dr_error_action :: "string option"
  dr_route_loop_key :: "string option"
  dr_route_loop_iterations :: "int option"
  dr_revision_context :: "string option"

text \<open>\<open>isinstance(v, int)\<close> holds of booleans too.\<close>

fun as_int :: "pyval \<Rightarrow> int option" where
  "as_int (VInt i) = Some i"
| "as_int (VBool b) = Some (if b then 1 else 0)"
| "as_int _ = None"

fun as_str :: "pyval \<Rightarrow> string option" where
  "as_str (VStr s) = Some s"
| "as_str _ = None"

fun of_str :: "string option \<Rightarrow> pyval" where
  "of_str None = VNone" | "of_str (Some s) = VStr s"

fun of_int_opt :: "int option \<Rightarrow> pyval" where
  "of_int_opt None = VNone" | "of_int_opt (Some i) = VInt i"

definition dict_update :: "(string \<times> pyval) list \<Rightarrow> (string \<times> pyval) list \<Rightarrow> (string \<times> pyval) list" where
  "dict_update new d = fold (\<lambda>(k, v). dict_put k v) new d"

definition finalize_deterministic_step ::
  "step_definition \<Rightarrow> (string \<times> pyval) list \<Rightarrow> step_output \<Rightarrow> string \<Rightarrow> int option \<Rightarrow> string option \<Rightarrow>
   string option \<Rightarrow> string option \<Rightarrow> det_result \<times> (string \<times> pyval) list" where
  "finalize_deterministic_step st ri out status next_index wf_status delivery error_action =
     (let next = (case next_index of Some i \<Rightarrow> Some i | None \<Rightarrow> as_int (dict_get ri ''next_step_index''));
          ri' = dict_update
            [(''deterministic_substate'', VStr ''persisted''), (''terminal_status'', VStr status),
             (''next_step_index'', of_int_opt next), (''workflow_status'', of_str wf_status),
             (''delivery_mode_override'', of_str delivery), (''error_action'', of_str error_action),
             (''output_refs'', VDict [(''step_output'', VStr (st_name st)),
                (''tool_call_id'', dict_get (so_metadata out) ''call_identity''),
                (''tool_output_ref'', dict_get (so_metadata out) ''output_ref''),
                (''artifact_id'', dict_get (so_metadata out) ''tool_output_artifact_id'')])] ri
      in (\<lparr>dr_output = out, dr_status = status, dr_next_step_index = next, dr_workflow_status = wf_status,
           dr_delivery_mode_override = delivery, dr_error_action = error_action,
           dr_route_loop_key = as_str (dict_get ri ''route_loop_key''),
           dr_route_loop_iterations = as_int (dict_get ri ''route_loop_iterations''),
           dr_revision_context = as_str (dict_get ri ''revision_context'')\<rparr>, ri'))"

definition truthy_str :: "string option \<Rightarrow> bool" where
  "truthy_str s = (case s of None \<Rightarrow> False | Some t \<Rightarrow> t \<noteq> [])"

definition failed_output :: "step_definition \<Rightarrow> string \<Rightarrow> string \<Rightarrow> step_output" where
  "failed_output st action bounded =
     (make_output (''Deterministic step '' @ [CHR 0x27] @ st_name st @ [CHR 0x27] @ '' failed.''))
       \<lparr>so_metadata := [(''deterministic_step'', VBool True), (''step_type'', VStr (step_type_value (st_type st))),
          (''error_action'', VStr action)],
        so_error := Some bounded\<rparr>"

definition fail_deterministic_step ::
  "step_definition \<Rightarrow> (string \<times> pyval) list \<Rightarrow> string \<Rightarrow> step_output option \<Rightarrow> string option \<Rightarrow>
   det_result \<times> (string \<times> pyval) list" where
  "fail_deterministic_step st ri error out override =
     (let squeezed = take 1000 (squeeze error);
          bounded = (if squeezed = [] then ''Deterministic step failed.'' else squeezed);
          action = (if truthy_str override then the override
                    else if truthy_str (st_on_error st) then the (st_on_error st) else ''fail'');
          out1 = (case out of Some o' \<Rightarrow> o' | None \<Rightarrow> failed_output st action bounded);
          out2 = out1\<lparr>so_metadata := dict_update
            [(''error_action'', VStr action), (''skipped'', VBool (action = ''skip'')),
             (''skip_reason'', if action = ''skip'' then VStr ''on_error'' else VNone)] (so_metadata out1)\<rparr>;
          ri' = dict_update [(''error'', VStr bounded), (''error_action'', VStr action)] ri
      in finalize_deterministic_step st ri' out2 (if action = ''skip'' then ''skipped'' else ''failed'')
           None None None (Some action))"

text \<open>
  One deterministic step writes to its run row; a result comes with the \<open>runtime_info\<close> that was
  written. An error propagates as \<open>Inl\<close> with its message and the \<open>runtime_info\<close> at that point,
  which the handler of the step goes on with.
\<close>

type_synonym det = "det_result \<times> (string \<times> pyval) list"
type_synonym raising = "(string \<times> (string \<times> pyval) list, det) result"

definition raised_at :: "(string \<times> pyval) list \<Rightarrow> (string, 'a) result \<Rightarrow> (string \<times> (string \<times> pyval) list, 'a) result" where
  "raised_at ri r = (case r of Inl e \<Rightarrow> Inl (e, ri) | Inr x \<Rightarrow> Inr x)"

definition MAX_METADATA_BYTES :: nat where
  "MAX_METADATA_BYTES = 64000"

definition normalize_deterministic_output ::
  "library \<Rightarrow> det_output \<Rightarrow> step_type \<Rightarrow> (string, step_output) result" where
  "normalize_deterministic_output lb config ty =
     res_bind (lb_native lb (do_metadata config)) (\<lambda>md.
       let md' = dict_update [(''deterministic_step'', VBool True), (''step_type'', VStr (step_type_value ty))] md in
       res_bind (lb_json_size lb (VDict md')) (\<lambda>n.
         if n > MAX_METADATA_BYTES then Inl ''workflow output metadata exceeds size limit''
         else res_bind (lb_text lb (do_summary config)) (\<lambda>sm.
           res_bind (case do_content config of None \<Rightarrow> Inr '''' | Some c \<Rightarrow> lb_text lb c) (\<lambda>ct.
             res_bind (lb_native lb (do_outputs config)) (\<lambda>outs.
               if py_strip sm = [] then Inl ''summary must not be empty''
               else Inr ((make_output sm)\<lparr>so_content := ct, so_outputs := outs, so_metadata := md'\<rparr>))))))"

definition squote :: "string \<Rightarrow> string" where
  "squote s = [CHR 0x27] @ s @ [CHR 0x27]"

definition revision_source_context ::
  "library \<Rightarrow> workflow \<Rightarrow> workflow_state \<Rightarrow> string \<Rightarrow> (string, string) result" where
  "revision_source_context lb w ws source =
     (case (find_step_index w source, map_of (ws_step_outputs ws) source) of
        (Some i, Some payload) \<Rightarrow>
          res_bind (lb_load lb payload) (\<lambda>out.
            case py_index (wf_steps w) i of
              None \<Rightarrow> Inl INDEX_ERROR
            | Some st \<Rightarrow> Inr (build_revision_context st out))
      | _ \<Rightarrow> Inl (''condition revision_source '' @ repr_str source @ '' has no completed output''))"

definition exhausted_value :: "exhausted \<Rightarrow> string" where
  "exhausted_value e = (case e of On_Continue \<Rightarrow> ''continue'' | On_Fail \<Rightarrow> ''fail'' | On_Gate \<Rightarrow> ''gate'')"

definition condition_loop_key :: "step_definition \<Rightarrow> string \<Rightarrow> string" where
  "condition_loop_key st target = ''condition:'' @ st_name st @ ''->'' @ target"

definition condition_branch ::
  "library \<Rightarrow> step_definition \<Rightarrow> condition_config \<Rightarrow> bool \<Rightarrow> string option \<Rightarrow> int \<Rightarrow> (string \<times> pyval) list \<Rightarrow>
   raising" where
  "condition_branch lb st cd selected target next ri =
     (let branch = (if selected then ''then'' else ''else'');
          config = (case cd_output cd of
             Some c \<Rightarrow> c
           | None \<Rightarrow> \<lparr>do_summary = ''Condition '' @ squote (st_name st) @ '' selected the '' @ branch @ '' branch.'',
                        do_content = None, do_outputs = [], do_metadata = []\<rparr>)
      in res_bind (raised_at ri (normalize_deterministic_output lb config (st_type st))) (\<lambda>out.
           Inr (finalize_deterministic_step st
             (dict_update [(''condition'', lb_audit lb (cd_if cd) selected), (''condition_expression'', VStr (cd_if cd)),
                (''selected_branch'', VStr branch), (''selected_target'', of_str target), (''next_step_index'', VInt next)] ri)
             (out\<lparr>so_metadata := dict_update [(''condition_result'', VBool selected),
                (''selected_branch'', VStr branch), (''selected_target'', of_str target)] (so_metadata out)\<rparr>)
             ''approved'' (Some next) None None None)))"

text \<open>A backward branch keeps the output of its revision source as context.\<close>

definition with_revision_source ::
  "library \<Rightarrow> workflow \<Rightarrow> condition_config \<Rightarrow> workflow_state \<Rightarrow> (string \<times> pyval) list \<Rightarrow> (string, (string \<times> pyval) list) result" where
  "with_revision_source lb w cd ws ri =
     (case cd_revision_source cd of
        None \<Rightarrow> Inr ri
      | Some src \<Rightarrow>
          res_bind (revision_source_context lb w ws src) (\<lambda>ctx. Inr (dict_put ''revision_context'' (VStr ctx) ri)))"

text \<open>A branch to step \<open>t\<close>, this one or an earlier one, within the loop budget of the route.\<close>

definition condition_backward ::
  "library \<Rightarrow> workflow \<Rightarrow> step_definition \<Rightarrow> condition_config \<Rightarrow> workflow_state \<Rightarrow> bool \<Rightarrow> string \<Rightarrow> int \<Rightarrow>
   (string \<times> pyval) list \<Rightarrow> raising" where
  "condition_backward lb w st cd ws selected t next ri =
     (let key = condition_loop_key st t; n = counter ws key 0;
          go = (\<lambda>ri1. res_bind (raised_at ri1 (with_revision_source lb w cd ws ri1))
                 (\<lambda>ri'. condition_branch lb st cd selected (Some t) next ri'))
      in case cd_max_loop_iterations cd of
           None \<Rightarrow> go ri
         | Some limit \<Rightarrow>
             if n \<ge> limit
             then Inr (fail_deterministic_step st
               (dict_update [(''selected_branch'', VStr ''exhausted''), (''selected_target'', VStr t),
                  (''condition_exhausted'', VBool True), (''next_step_index'', VInt (ws_current_step_index ws + 1)),
                  (''loop_key'', VStr key), (''loop_iterations'', VInt n), (''max_loop_iterations'', VInt limit)] ri)
               (''Condition route '' @ squote (st_name st) @ '' exhausted after '' @ show_int n @ '' backward iterations.'')
               None (Some (exhausted_value (cd_on_exhausted cd))))
             else go (dict_update [(''route_loop_key'', VStr key), (''route_loop_iterations'', VInt (n + 1))] ri))"

definition execute_condition_step ::
  "library \<Rightarrow> workflow \<Rightarrow> step_definition \<Rightarrow> condition_config \<Rightarrow> workflow_state \<Rightarrow> (string \<times> pyval) list \<Rightarrow>
   raising" where
  "execute_condition_step lb w st cd ws ri =
     res_bind (raised_at ri (lb_expression lb (cd_if cd))) (\<lambda>selected.
       let target = (if selected then cd_then cd else cd_else cd); here = ws_current_step_index ws in
       res_bind (raised_at ri (explicit_next_index w target (here + 1))) (\<lambda>next.
         case target of
           None \<Rightarrow> condition_branch lb st cd selected target next ri
         | Some t \<Rightarrow>
             if next > here then condition_branch lb st cd selected target next ri
             else condition_backward lb w st cd ws selected t next ri))"

fun complete_value :: "complete_status \<Rightarrow> string" where
  "complete_value Complete_Completed = ''completed''" | "complete_value Complete_Failed = ''failed''"

definition execute_complete_step ::
  "library \<Rightarrow> step_definition \<Rightarrow> complete_config \<Rightarrow> (string \<times> pyval) list \<Rightarrow> raising" where
  "execute_complete_step lb st cp ri =
     raised_at ri (res_bind (if cp_delivery_mode_override cp = Some ''silent'' \<and> cp_notification cp = None
               then res_bind (lb_text lb (cp_summary cp)) (\<lambda>sm.
                 res_bind (validate_step_notification \<lparr>nt_mode = Notify_Silent, nt_reason = Some sm\<rparr>) (\<lambda>n. Inr (Some n)))
               else Inr (cp_notification cp)) (\<lambda>notification.
       res_bind (lb_text lb (cp_summary cp)) (\<lambda>sm.
         res_bind (case cp_content cp of None \<Rightarrow> Inr '''' | Some c \<Rightarrow> if c = [] then Inr '''' else lb_text lb c) (\<lambda>ct.
           res_bind (lb_native lb (cp_outputs cp)) (\<lambda>outs.
             if py_strip sm = [] then Inl ''summary must not be empty''
             else Inr (finalize_deterministic_step st
               (dict_update [(''workflow_status'', VStr (complete_value (cp_status cp))),
                  (''delivery_mode_override'', of_str (cp_delivery_mode_override cp))] ri)
               ((make_output sm)\<lparr>so_content := ct, so_outputs := outs, so_notification := notification,
                  so_metadata := [(''deterministic_step'', VBool True), (''step_type'', VStr (step_type_value (st_type st))),
                    (''completion_status'', VStr (complete_value (cp_status cp))),
                    (''delivery_mode_override'', of_str (cp_delivery_mode_override cp))]\<rparr>)
               ''approved'' None (Some (complete_value (cp_status cp))) (cp_delivery_mode_override cp) None))))))"

text \<open>A step that its \<open>when\<close> expression leaves out.\<close>

definition skip_deterministic_step ::
  "library \<Rightarrow> workflow \<Rightarrow> step_definition \<Rightarrow> workflow_state \<Rightarrow> (string \<times> pyval) list \<Rightarrow> raising" where
  "skip_deterministic_step lb w st ws ri =
     (let config = (case st_on_skip st of
            Some c \<Rightarrow> c
          | None \<Rightarrow> \<lparr>do_summary = ''Skipped deterministic step '' @ squote (st_name st) @ ''.'', do_content = None,
                       do_outputs = [], do_metadata = [(''skipped'', VBool True), (''skip_reason'', VStr ''when_false'')]\<rparr>)
      in res_bind (raised_at ri (normalize_deterministic_output lb config (st_type st))) (\<lambda>out.
           res_bind (raised_at ri (explicit_next_index w (st_next st) (ws_current_step_index ws + 1))) (\<lambda>next.
             Inr (finalize_deterministic_step st ri
               (out\<lparr>so_metadata := dict_update [(''skipped'', VBool True), (''skip_reason'', VStr ''when_false'')]
                  (so_metadata out)\<rparr>)
               ''skipped'' (Some next) None None None))))"

subsection \<open>Recovery of a deterministic step\<close>

definition deterministic_result_from_persisted ::
  "library \<Rightarrow> workflow \<Rightarrow> string \<Rightarrow> (string \<times> pyval) list \<Rightarrow> (string \<times> pyval) list \<Rightarrow> (string, det_result) result" where
  "deterministic_result_from_persisted lb w status raw ri =
     res_bind (lb_load lb raw) (\<lambda>out. Inr
       \<lparr>dr_output = out, dr_status = status,
        dr_next_step_index =
          (if dict_get ri ''condition_exhausted'' \<noteq> VBool True \<and> is_str (dict_get ri ''selected_target'')
           then find_step_index w (the (as_str (dict_get ri ''selected_target'')))
           else as_int (dict_get ri ''next_step_index'')),
        dr_workflow_status =
          (if dict_get ri ''workflow_status'' \<in> {VStr ''completed'', VStr ''failed''}
           then as_str (dict_get ri ''workflow_status'') else None),
        dr_delivery_mode_override = as_str (dict_get ri ''delivery_mode_override''),
        dr_error_action = as_str (dict_get ri ''error_action''),
        dr_route_loop_key = as_str (dict_get ri ''route_loop_key''),
        dr_route_loop_iterations = as_int (dict_get ri ''route_loop_iterations''),
        dr_revision_context = as_str (dict_get ri ''revision_context'')\<rparr>)"

fun run_status_value :: "run_status \<Rightarrow> string" where
  "run_status_value Run_Pending = ''pending''" | "run_status_value Run_Running = ''running''"
| "run_status_value Run_Evaluating = ''evaluating''" | "run_status_value Run_Approved = ''approved''"
| "run_status_value Run_Rejected = ''rejected''" | "run_status_value Run_Paused = ''paused''"
| "run_status_value Run_Failed = ''failed''" | "run_status_value Run_Skipped = ''skipped''"
| "run_status_value Run_Cancelled = ''cancelled''" | "run_status_value Run_Superseded = ''superseded''"

definition AMBIGUOUS_DISPATCH :: string where
  "AMBIGUOUS_DISPATCH = ''Deterministic tool dispatch outcome is ambiguous after restart; '' @
     ''the side-effecting or unknown tool was not replayed.''"

definition plain_dict :: "pyval \<Rightarrow> (string \<times> pyval) list" where
  "plain_dict v = (case v of VDict d \<Rightarrow> d | _ \<Rightarrow> [])"

text \<open>\<open>Inr None\<close>: nothing to recover, the step runs (again).\<close>

definition recover_deterministic_step ::
  "library \<Rightarrow> workflow \<Rightarrow> step_definition \<Rightarrow> run_row \<Rightarrow> (string, det_result option) result" where
  "recover_deterministic_step lb w st latest =
     (let ri = plain_dict (sr_runtime_info latest); sub = dict_get ri ''deterministic_substate'' in
      if sr_status latest \<in> {Run_Approved, Run_Skipped, Run_Failed, Run_Paused} \<and> is_dict (sr_output latest)
      then res_bind (deterministic_result_from_persisted lb w (run_status_value (sr_status latest))
             (plain_dict (sr_output latest)) ri) (\<lambda>r. Inr (Some r))
      else if sub = VStr ''persisted'' \<and> is_dict (sr_output latest)
      then (let terminal = dict_get ri ''terminal_status'';
                status = (if truthy terminal then py_str terminal else ''approved'')
            in res_bind (deterministic_result_from_persisted lb w status (plain_dict (sr_output latest)) ri) (\<lambda>r. Inr (Some r)))
      else if sub = VStr ''executing'' \<and> dict_get ri ''tool_read_only'' \<noteq> VBool True
      then Inr (Some (fst (fail_deterministic_step st ri AMBIGUOUS_DISPATCH None None)))
      else Inr None)"

text \<open>
  The whole step. \<open>latest\<close> is the last run row of the step in this attempt; \<open>tool\<close> is what
  \<open>_execute_tool_call_step\<close> gives from the \<open>runtime_info\<close> at hand. An error of any part is the
  failed result of the step.
\<close>

definition deterministic_body ::
  "library \<Rightarrow> workflow \<Rightarrow> step_definition \<Rightarrow> workflow_state \<Rightarrow> ((string \<times> pyval) list \<Rightarrow> raising) \<Rightarrow> bool \<Rightarrow>
   (string \<times> pyval) list \<Rightarrow> raising" where
  "deterministic_body lb w st ws tool wanted ri =
     (if \<not> wanted then skip_deterministic_step lb w st ws ri
      else if st_type st = Condition
      then (case st_condition st of None \<Rightarrow> Inl (''AssertionError'', ri) | Some cd \<Rightarrow> execute_condition_step lb w st cd ws ri)
      else if st_type st = Complete
      then (case st_complete st of None \<Rightarrow> Inl (''AssertionError'', ri) | Some cp \<Rightarrow> execute_complete_step lb st cp ri)
      else tool ri)"

definition run_deterministic_step ::
  "library \<Rightarrow> workflow \<Rightarrow> step_definition \<Rightarrow> workflow_state \<Rightarrow> ((string \<times> pyval) list \<Rightarrow> raising) \<Rightarrow>
   (string \<times> pyval) list \<Rightarrow> raising" where
  "run_deterministic_step lb w st ws tool ri =
     (case st_when st of
        None \<Rightarrow> deterministic_body lb w st ws tool True ri
      | Some e \<Rightarrow> res_bind (raised_at ri (lb_expression lb e)) (\<lambda>v.
          deterministic_body lb w st ws tool v (dict_put ''when'' (lb_audit lb e v) ri)))"

definition generation_key :: "step_definition \<Rightarrow> string" where
  "generation_key st = ''deterministic_generation:'' @ st_name st"

definition fresh_info :: "step_definition \<Rightarrow> workflow_state \<Rightarrow> (string \<times> pyval) list" where
  "fresh_info st ws = [(''deterministic_step'', VBool True), (''deterministic_substate'', VStr ''rendering''),
     (''deterministic_generation'', VInt (counter ws (generation_key st) 0))]"

definition deterministic_outcome ::
  "library \<Rightarrow> workflow \<Rightarrow> step_definition \<Rightarrow> workflow_state \<Rightarrow> ((string \<times> pyval) list \<Rightarrow> raising) \<Rightarrow>
   (string \<times> pyval) list \<Rightarrow> det" where
  "deterministic_outcome lb w st ws tool ri =
     (case run_deterministic_step lb w st ws tool ri of
        Inl (e, ri') \<Rightarrow> fail_deterministic_step st ri' e None None
      | Inr d \<Rightarrow> d)"

definition execute_deterministic_step ::
  "library \<Rightarrow> workflow \<Rightarrow> step_definition \<Rightarrow> workflow_state \<Rightarrow> ((string \<times> pyval) list \<Rightarrow> raising) \<Rightarrow>
   run_row option \<Rightarrow> det" where
  "execute_deterministic_step lb w st ws tool latest =
     (let same = (case latest of
             None \<Rightarrow> None
           | Some sr \<Rightarrow>
               if py_eq (dict_get (plain_dict (sr_runtime_info sr)) ''deterministic_generation'')
                    (VInt (counter ws (generation_key st) 0))
               then Some sr else None)
      in case same of
           None \<Rightarrow> deterministic_outcome lb w st ws tool (fresh_info st ws)
         | Some sr \<Rightarrow>
             (let ri = plain_dict (sr_runtime_info sr) in
              case recover_deterministic_step lb w st sr of
                Inl e \<Rightarrow> fail_deterministic_step st ri e None None
              | Inr (Some r) \<Rightarrow> (r, ri)
              | Inr None \<Rightarrow> deterministic_outcome lb w st ws tool ri))"

subsection \<open>Gates the engine builds\<close>

definition gate_of :: "string \<Rightarrow> gate_option list \<Rightarrow> gate_config" where
  "gate_of message options = \<lparr>gc_message = message, gc_input = [], gc_options = options, gc_conditions = [],
     gc_thresholds = [], gc_timeout_seconds = 3600, gc_timeout_action = Timeout_Fail\<rparr>"

definition option_of :: "string \<Rightarrow> string \<Rightarrow> gate_option" where
  "option_of label action = \<lparr>go_label = label, go_action = action, go_prompt = False\<rparr>"

definition build_exhaustion_gate :: "step_definition \<Rightarrow> string option \<Rightarrow> gate_config" where
  "build_exhaustion_gate st last_error =
     (let attempts = (case st_completion st of Some c \<Rightarrow> cc_max_attempts c | None \<Rightarrow> 3)
      in gate_of
        (''Step '' @ squote (st_name st) @ '' has exhausted its retry limit ('' @ show_int attempts @ '' attempts).'' @
         concat (map (\<lambda>e. NL @ NL @ ''Last failure: '' @ take 500 e) (nonempty last_error)) @
         NL @ NL @ ''You can retry or cancel the task from the task board.'')
        [option_of ''Retry step'' (''revise('' @ st_name st @ '')''),
         option_of ''Continue anyway'' ''continue'', option_of ''Cancel task'' ''cancel''])"

definition build_outcome_gate :: "step_definition \<Rightarrow> string option \<Rightarrow> gate_config" where
  "build_outcome_gate st reason =
     gate_of
       (''Step '' @ squote (st_name st) @ '' completed but reported a failed outcome.'' @
        concat (map (\<lambda>r. NL @ NL @ ''Reason: '' @ take 500 r) (nonempty reason)) @
        NL @ NL @ ''You can retry the step or continue anyway.'')
       [option_of ''Retry step'' (''revise('' @ st_name st @ '')''),
        option_of ''Continue'' ''continue'', option_of ''Cancel'' ''cancel'']"

definition build_error_gate :: "step_definition \<Rightarrow> string \<Rightarrow> gate_config" where
  "build_error_gate st error =
     gate_of
       (''Deterministic step '' @ squote (st_name st) @ '' requires operator review.'' @ NL @ NL @ take 500 (squeeze error))
       [option_of ''Continue'' ''continue'', option_of ''Cancel task'' ''cancel'']"

subsection \<open>Sessions that later steps continue\<close>

definition reuses :: "workflow_state \<Rightarrow> string \<Rightarrow> step_definition \<Rightarrow> bool" where
  "reuses ws session st =
     (case st_input st of
        None \<Rightarrow> False
      | Some i \<Rightarrow>
          (case in_reuse_session_from i of
             None \<Rightarrow> False
           | Some src \<Rightarrow>
               (case map_of (ws_step_outputs ws) src of
                  None \<Rightarrow> False
                | Some raw \<Rightarrow> dict_get raw ''session_id'' = VStr session)))"

definition names_source :: "string \<Rightarrow> step_definition \<Rightarrow> bool" where
  "names_source name st =
     (case st_input st of None \<Rightarrow> False | Some i \<Rightarrow> in_reuse_session_from i = Some name)"

definition session_needed_by_future_reuse ::
  "workflow \<Rightarrow> workflow_state \<Rightarrow> int \<Rightarrow> string \<Rightarrow> string \<Rightarrow> bool" where
  "session_needed_by_future_reuse w ws index name session =
     list_ex (\<lambda>st. names_source name st \<or> reuses ws session st) (drop (nat (index + 1)) (wf_steps w))"

definition session_needed_by_reuse_from_index :: "workflow \<Rightarrow> workflow_state \<Rightarrow> int \<Rightarrow> string \<Rightarrow> bool" where
  "session_needed_by_reuse_from_index w ws index session =
     list_ex (reuses ws session) (drop (nat index) (wf_steps w))"

subsection \<open>The result of a workflow\<close>

definition build_result_summary :: "workflow_state \<Rightarrow> workflow \<Rightarrow> string" where
  "build_result_summary ws w =
     (if wf_steps w = [] then ''''
      else case map_of (ws_step_outputs ws) (st_name (last (wf_steps w))) of
        None \<Rightarrow> ''''
      | Some raw \<Rightarrow> if raw = [] then '''' else py_str (dict_get_or raw ''summary'' (VStr '''')))"

definition build_failure_result_summary :: "workflow_state \<Rightarrow> workflow \<Rightarrow> string" where
  "build_failure_result_summary ws w =
     (if ws_last_retry_reason ws = Some ''execution_failed'' \<and> truthy_str (ws_last_evaluation_feedback ws)
      then the (ws_last_evaluation_feedback ws)
      else
        (let current = (if wf_steps w = [] then []
               else (case map_of (ws_step_outputs ws)
                       (st_name (wf_steps w ! nat (min (max (ws_current_step_index ws) 0) (int (length (wf_steps w)) - 1)))) of
                       None \<Rightarrow> [] | Some raw \<Rightarrow> raw));
             summary = py_strip (py_str (dict_get_or current ''summary'' (VStr '''')));
             error = py_strip (py_str (dict_get_or current ''error'' (VStr '''')))
         in if summary \<noteq> [] then summary else if error \<noteq> [] then error else build_result_summary ws w))"

definition last_step_output :: "library \<Rightarrow> workflow_state \<Rightarrow> step_output option" where
  "last_step_output lb ws =
     (case List.map_filter (\<lambda>(n, raw). case lb_load lb raw of Inl e \<Rightarrow> None | Inr out \<Rightarrow> Some out)
             (rev (ws_step_outputs ws)) of
        [] \<Rightarrow> None | out # _ \<Rightarrow> Some out)"

definition DELIVERY_MODES :: "string list" where
  "DELIVERY_MODES = [''same_conversation'', ''preferred_channel'', ''latest_active_for_agent'',
     ''specific_conversation'', ''silent'']"

definition deterministic_completion_delivery_override :: "library \<Rightarrow> workflow_state \<Rightarrow> string option" where
  "deterministic_completion_delivery_override lb ws =
     (case last_step_output lb ws of
        None \<Rightarrow> None
      | Some out \<Rightarrow>
          if dict_get (so_metadata out) ''step_type'' \<noteq> VStr ''complete'' then None
          else (case dict_get (so_metadata out) ''delivery_mode_override'' of
                  VStr m \<Rightarrow> if m \<in> set DELIVERY_MODES then Some m else None
                | _ \<Rightarrow> None))"

definition AUTO_SILENT :: string where
  "AUTO_SILENT = ''Auto-silent completion: allow_silent_completion=true and no explicit notification override was requested.''"

definition NO_FINAL_MESSAGE :: string where
  "NO_FINAL_MESSAGE = ''Direct delivery requested but no final assistant message was available.''"

definition resolve_applied_completion ::
  "library \<Rightarrow> task_status \<Rightarrow> delivery_policy option \<Rightarrow> pyval option \<Rightarrow> workflow_state \<Rightarrow> string \<times> string option" where
  "resolve_applied_completion lb status policy data ws =
     (let note = (case last_step_output lb ws of None \<Rightarrow> None | Some out \<Rightarrow> so_notification out);
          p = (case policy of None \<Rightarrow> default_delivery | Some p \<Rightarrow> p)
      in if status \<noteq> Completed then (''default'', None)
         else case note of
           Some n \<Rightarrow>
             (case nt_mode n of Notify_Silent \<Rightarrow> (''silent'', nt_reason n) | Notify_Direct \<Rightarrow> (''direct'', nt_reason n))
         | None \<Rightarrow>
             if allow_silent_completion p then (''silent'', Some AUTO_SILENT)
             else if completion_mode_family p = Family_Direct
             then (case data of
                     Some (VDict d) \<Rightarrow>
                       (case dict_get d ''final_content'' of
                          VStr s \<Rightarrow> if py_strip s \<noteq> [] then (''direct'', None) else (''default'', Some NO_FINAL_MESSAGE)
                        | _ \<Rightarrow> (''default'', Some NO_FINAL_MESSAGE))
                   | _ \<Rightarrow> (''default'', Some NO_FINAL_MESSAGE))
             else (''default'', None))"

definition todos_for_evaluation_retry ::
  "workflow_state \<Rightarrow> (string \<times> pyval) list list \<Rightarrow> (string \<times> pyval) list list" where
  "todos_for_evaluation_retry ws todos =
     (let status = (\<lambda>t. let v = dict_get t ''status'' in if truthy v then py_str v else ''pending'') in
      if todos = [] \<or> \<not> list_all (\<lambda>t. status t \<in> {''completed'', ''cancelled'', ''done''}) todos then todos
      else
        (let (content, feedback) =
               (if ws_last_retry_reason ws = Some ''routed_revision''
                then (''Revise this step based on the routed independent review.'', ws_last_revision_context ws)
                else (''Revise the step output based on evaluator feedback.'', ws_last_evaluation_feedback ws));
             fb = py_strip (case feedback of None \<Rightarrow> '''' | Some f \<Rightarrow> f)
         in [[(''content'', VStr (if fb \<noteq> [] then content @ '' Feedback: '' @ fb else content)),
              (''status'', VStr ''pending'')]]))"

subsection \<open>Revise actions\<close>

lemma py_endswith_iff: "py_endswith s p \<longleftrightarrow> (\<exists>t. s = t @ p)"
  unfolding py_endswith_def py_startswith_iff by (metis rev_append rev_rev_ident)

lemma suffix_after_prefix: "a = p @ s \<Longrightarrow> a = t @ [c] \<Longrightarrow> last p \<noteq> c \<Longrightarrow> \<exists>n. a = p @ n @ [c]"
  by (cases s rule: rev_cases) (auto simp: last_snoc)

text \<open>
  Revise actions parse exactly as they are written: an action names a step to revise if and only
  if it is that name in one of the two forms, and the name comes back unchanged.
\<close>

theorem revise_action_roundtrip:
  "parse_revise_action action = Some name \<longleftrightarrow>
     action = ''revise('' @ name @ '')'' \<or> action = ''revise:'' @ name"
proof -
  have "py_startswith action ''revise('' \<and> py_endswith action '')'' \<longleftrightarrow> (\<exists>n. action = ''revise('' @ n @ '')'')"
  proof
    assume "py_startswith action ''revise('' \<and> py_endswith action '')''"
    then obtain s t where s: "action = ''revise('' @ s" and t: "action = t @ '')''"
      unfolding py_startswith_iff py_endswith_iff by blast
    show "\<exists>n. action = ''revise('' @ n @ '')''" by (rule suffix_after_prefix [OF s t]) simp
  qed (auto simp: py_startswith_iff py_endswith_iff)
  then show ?thesis
    by (auto simp: parse_revise_action_def py_startswith_iff)
qed

subsection \<open>A deterministic step survives a crash\<close>

lemma map_of_dict_update:
  "map_of (dict_update new d) k = (case map_of (rev new) k of None \<Rightarrow> map_of d k | Some v \<Rightarrow> Some v)"
  unfolding dict_update_def
proof (induction new arbitrary: d)
  case (Cons p new)
  then show ?case by (cases p) (auto simp: map_of_append map_add_def split: option.splits)
qed simp

lemma dict_get_update:
  "dict_get (dict_update new d) k = (case map_of (rev new) k of None \<Rightarrow> dict_get d k | Some v \<Rightarrow> v)"
  by (simp add: dict_get_def map_of_dict_update split: option.split)

lemma dict_get_put: "dict_get (dict_put k v d) k' = (if k' = k then v else dict_get d k')"
  by (simp add: dict_get_def)

lemma as_of_str [simp]: "as_str (of_str x) = x" "is_str (of_str x) \<longleftrightarrow> x \<noteq> None"
  by (cases x, simp_all)+

lemma as_of_int [simp]: "as_int (of_int_opt i) = i"
  by (cases i) simp_all

text \<open>The route a result takes is the one its \<open>runtime_info\<close> describes.\<close>

definition routed_as :: "workflow \<Rightarrow> (string \<times> pyval) list \<Rightarrow> int option \<Rightarrow> bool" where
  "routed_as w ri next \<longleftrightarrow>
     (if dict_get ri ''condition_exhausted'' \<noteq> VBool True \<and> is_str (dict_get ri ''selected_target'')
      then next = find_step_index w (the (as_str (dict_get ri ''selected_target'')))
      else True)"

lemma finalize_persisted:
  assumes "finalize_deterministic_step st ri out status nx ws dl ea = (r, ri')"
    and "lb_load lb (lb_dump lb out) = Inr out"
    and "routed_as w ri (dr_next_step_index r)"
    and "ws \<in> {None, Some ''completed'', Some ''failed''}"
  shows "deterministic_result_from_persisted lb w status (lb_dump lb out) ri' = Inr r \<and>
    dict_get ri' ''deterministic_substate'' = VStr ''persisted'' \<and> dict_get ri' ''terminal_status'' = VStr status \<and>
    dr_output r = out \<and> dr_status r = status"
proof -
  from assms(1) have r: "r = fst (finalize_deterministic_step st ri out status nx ws dl ea)"
    and ri': "ri' = snd (finalize_deterministic_step st ri out status nx ws dl ea)" by simp_all
  show ?thesis
    using assms(2-4) unfolding r ri'
    by (auto simp: finalize_deterministic_step_def deterministic_result_from_persisted_def Let_def
        dict_get_update routed_as_def split: if_splits)
qed

definition finalized :: "workflow \<Rightarrow> pyval \<Rightarrow> det \<Rightarrow> bool" where
  "finalized w g d \<longleftrightarrow>
     (\<exists>st ri out status nx wfs dl ea. d = finalize_deterministic_step st ri out status nx wfs dl ea \<and>
        routed_as w ri (dr_next_step_index (fst d)) \<and> wfs \<in> {None, Some ''completed'', Some ''failed''} \<and>
        dict_get ri ''deterministic_generation'' = g \<and> status \<in> {''approved'', ''skipped'', ''failed''})"

lemma fail_is_finalize:
  "\<exists>ri' out' status ea. fail_deterministic_step st ri e out ov = finalize_deterministic_step st ri' out' status None None None ea \<and>
     status \<in> {''skipped'', ''failed''} \<and>
     (\<forall>k \<in> {''deterministic_generation'', ''next_step_index'', ''condition_exhausted'', ''selected_target''}. dict_get ri' k = dict_get ri k)"
  unfolding fail_deterministic_step_def Let_def
  by (intro exI conjI) (rule refl, simp_all add: dict_get_update)

lemma finalized_fail:
  assumes "routed_as w ri (as_int (dict_get ri ''next_step_index''))"
  shows "finalized w (dict_get ri ''deterministic_generation'') (fail_deterministic_step st ri e out ov)"
proof -
  from fail_is_finalize [of st ri e out ov] obtain ri' out' status ea where
      f: "fail_deterministic_step st ri e out ov = finalize_deterministic_step st ri' out' status None None None ea"
      "status \<in> {''skipped'', ''failed''}"
      "\<forall>k \<in> {''deterministic_generation'', ''next_step_index'', ''condition_exhausted'', ''selected_target''}. dict_get ri' k = dict_get ri k"
    by blast
  have "dr_next_step_index (fst (finalize_deterministic_step st ri' out' status None None None ea)) = as_int (dict_get ri ''next_step_index'')"
    using f(3) by (simp add: finalize_deterministic_step_def Let_def)
  then show ?thesis
    unfolding finalized_def f(1) using assms f(2,3)
    by (intro exI [of _ st] exI [of _ ri'] exI [of _ out'] exI [of _ status] exI [of _ None] exI [of _ ea])
      (auto simp: routed_as_def)
qed

lemma next_finalize [simp]:
  "dr_next_step_index (fst (finalize_deterministic_step st ri out status (Some i) wfs dl ea)) = Some i"
  by (simp add: finalize_deterministic_step_def Let_def)

lemma raised_at_cases:
  "raised_at ri r = Inl (e, ri') \<Longrightarrow> ri' = ri" "raised_at ri r = Inr x \<longleftrightarrow> r = Inr x"
  by (auto simp: raised_at_def split: sum.splits)

text \<open>What a step adds before it routes: no target yet.\<close>

definition unrouted :: "pyval \<Rightarrow> (string \<times> pyval) list \<Rightarrow> bool" where
  "unrouted g ri \<longleftrightarrow> dict_get ri ''deterministic_generation'' = g \<and> dict_get ri ''selected_target'' = VNone"

lemma unrouted_routed: "unrouted g ri \<Longrightarrow> routed_as w ri i"
  by (simp add: unrouted_def routed_as_def)

lemma unrouted_put: "k \<notin> {''deterministic_generation'', ''selected_target''} \<Longrightarrow> unrouted g ri \<Longrightarrow> unrouted g (dict_put k v ri)"
  by (auto simp: unrouted_def dict_get_put)

lemma unrouted_update:
  "set (map fst new) \<inter> {''deterministic_generation'', ''selected_target''} = {} \<Longrightarrow> unrouted g ri \<Longrightarrow> unrouted g (dict_update new ri)"
  unfolding dict_update_def by (induction new arbitrary: ri) (auto simp: unrouted_put split: prod.splits)

lemma finalized_unrouted: "unrouted g ri \<Longrightarrow> finalized w g (fail_deterministic_step st ri e out ov)"
  using finalized_fail [OF unrouted_routed, of g ri w st e out ov] by (simp add: unrouted_def)

definition settles :: "workflow \<Rightarrow> pyval \<Rightarrow> raising \<Rightarrow> bool" where
  "settles w g r \<longleftrightarrow> (case r of Inl (e, ri) \<Rightarrow> unrouted g ri | Inr d \<Rightarrow> finalized w g d)"

lemma settles_bind:
  assumes "unrouted g ri" and "\<And>x. r = Inr x \<Longrightarrow> settles w g (f x)"
  shows "settles w g (res_bind (raised_at ri r) f)"
proof (cases r)
  case (Inl e)
  with assms(1) show ?thesis by (simp add: res_bind_def raised_at_def settles_def)
next
  case (Inr x)
  with assms(2) show ?thesis by (simp add: res_bind_def raised_at_def)
qed

lemma explicit_next_SomeD: "explicit_next_index w (Some t) i = Inr n \<Longrightarrow> find_step_index w t = Some n"
  by (auto simp: explicit_next_index_def split: option.splits)

lemma settles_branch:
  assumes "unrouted g ri" and "dict_get ri ''condition_exhausted'' = VNone" and "explicit_next_index w target (h + 1) = Inr next"
  shows "settles w g (condition_branch lb st cd selected target next ri)"
  unfolding condition_branch_def Let_def
proof (rule settles_bind [OF assms(1)])
  fix out
  let ?branch = "if selected then ''then'' else ''else''"
  let ?ri = "dict_update [(''condition'', lb_audit lb (cd_if cd) selected), (''condition_expression'', VStr (cd_if cd)),
      (''selected_branch'', VStr ?branch), (''selected_target'', of_str target), (''next_step_index'', VInt next)] ri"
  have "routed_as w ?ri (Some next)" "dict_get ?ri ''deterministic_generation'' = g"
    using assms explicit_next_SomeD [of w _ "h + 1" "next"]
    by (cases target; simp add: routed_as_def dict_get_update unrouted_def)+
  then show "settles w g (Inr (finalize_deterministic_step st ?ri
      (out\<lparr>so_metadata := dict_update [(''condition_result'', VBool selected), (''selected_branch'', VStr ?branch),
         (''selected_target'', of_str target)] (so_metadata out)\<rparr>) ''approved'' (Some next) None None None))"
    unfolding settles_def finalized_def
    by (simp only: sum.case next_finalize) (intro exI conjI, rule refl, simp_all)
qed

lemma settles_backward:
  assumes "unrouted g ri" and "dict_get ri ''condition_exhausted'' = VNone" and "find_step_index w t = Some nx"
  shows "settles w g (condition_backward lb w st cd ws selected t nx ri)"
proof -
  have sourced: "settles w g (res_bind (raised_at ri1 (with_revision_source lb w cd ws ri1))
      (\<lambda>ri'. condition_branch lb st cd selected (Some t) nx ri'))"
    if ri1: "unrouted g ri1" "dict_get ri1 ''condition_exhausted'' = VNone" for ri1
  proof (rule settles_bind [OF ri1(1)])
    fix ri' assume "with_revision_source lb w cd ws ri1 = Inr ri'"
    then have "ri' = ri1 \<or> (\<exists>v. ri' = dict_put ''revision_context'' v ri1)"
      by (auto simp: with_revision_source_def res_bind_def split: option.splits sum.splits)
    with ri1 have "unrouted g ri'" "dict_get ri' ''condition_exhausted'' = VNone"
      by (auto simp: unrouted_put dict_get_put)
    then show "settles w g (condition_branch lb st cd selected (Some t) nx ri')"
      by (rule settles_branch) (simp add: explicit_next_index_def assms(3))
  qed
  have gone: "finalized w g (fail_deterministic_step st
      (dict_update [(''selected_branch'', VStr ''exhausted''), (''selected_target'', VStr t),
         (''condition_exhausted'', VBool True), (''next_step_index'', VInt i),
         (''loop_key'', k), (''loop_iterations'', n), (''max_loop_iterations'', l)] ri) e out ov)" for i k n l e out ov
    using finalized_fail [of w "dict_update [(''selected_branch'', VStr ''exhausted''), (''selected_target'', VStr t),
         (''condition_exhausted'', VBool True), (''next_step_index'', VInt i),
         (''loop_key'', k), (''loop_iterations'', n), (''max_loop_iterations'', l)] ri" st e out ov] assms(1)
    by (simp add: routed_as_def dict_get_update unrouted_def)
  have step: "unrouted g (dict_update [(''route_loop_key'', x), (''route_loop_iterations'', y)] ri)"
    "dict_get (dict_update [(''route_loop_key'', x), (''route_loop_iterations'', y)] ri) ''condition_exhausted'' = VNone" for x y
    using assms(1,2) by (simp_all add: unrouted_update dict_get_update)
  show ?thesis
    using sourced [OF assms(1,2)] sourced [OF step] gone
    by (simp add: condition_backward_def Let_def settles_def [of _ _ "Inr _"] split: option.split)
qed

lemma settles_condition:
  assumes "unrouted g ri" and "dict_get ri ''condition_exhausted'' = VNone"
  shows "settles w g (execute_condition_step lb w st cd ws ri)"
  unfolding execute_condition_step_def Let_def
  by (intro settles_bind [OF assms(1)])
    (auto split: option.split if_split intro: settles_branch [OF assms] settles_backward [OF assms]
      dest: explicit_next_SomeD simp: explicit_next_SomeD)

lemma settles_final:
  assumes "unrouted g ri" and "wfs \<in> {None, Some ''completed'', Some ''failed''}"
    and "status \<in> {''approved'', ''skipped'', ''failed''}"
  shows "settles w g (Inr (finalize_deterministic_step st ri out status nx wfs dl ea))"
  unfolding settles_def finalized_def
  by (simp only: sum.case) (intro exI conjI, rule refl, use assms in \<open>simp_all add: unrouted_routed unrouted_def\<close>)

lemma settles_skip:
  assumes "unrouted g ri"
  shows "settles w g (skip_deterministic_step lb w st ws ri)"
  unfolding skip_deterministic_step_def Let_def
  by (intro settles_bind [OF assms] settles_final [OF assms]) simp_all

text \<open>A completion raises before it changes anything, or is finalized with its status.\<close>

lemma complete_cases:
  obtains (raised) e where "execute_complete_step lb st cp ri = Inl (e, ri)"
  | (final) out dl where "execute_complete_step lb st cp ri =
      Inr (finalize_deterministic_step st (dict_update [(''workflow_status'', VStr (complete_value (cp_status cp))),
          (''delivery_mode_override'', of_str (cp_delivery_mode_override cp))] ri) out ''approved'' None
        (Some (complete_value (cp_status cp))) dl None)"
proof (cases "execute_complete_step lb st cp ri")
  case (Inl p)
  then have "snd p = ri" by (auto simp: execute_complete_step_def raised_at_def split: sum.splits)
  with Inl raised show thesis by (metis prod.collapse)
next
  case (Inr d)
  with final show thesis
    unfolding execute_complete_step_def raised_at_def res_bind_def by (simp split: sum.splits if_splits) blast+
qed

lemma settles_complete:
  assumes "unrouted g ri"
  shows "settles w g (execute_complete_step lb st cp ri)"
proof (cases rule: complete_cases [of lb st cp ri])
  case (raised e)
  with assms show ?thesis by (simp add: settles_def)
next
  case (final out dl)
  have "unrouted g (dict_update [(''workflow_status'', VStr (complete_value (cp_status cp))),
      (''delivery_mode_override'', of_str (cp_delivery_mode_override cp))] ri)"
    using assms by (rule unrouted_update [rotated]) simp
  then show ?thesis
    unfolding final by (rule settles_final) (cases "cp_status cp"; simp)+
qed

lemma settles_run:
  assumes "unrouted g ri" and "dict_get ri ''condition_exhausted'' = VNone" and "st_type st \<in> {Condition, Complete}"
  shows "settles w g (run_deterministic_step lb w st ws tool ri)"
proof -
  have body: "settles w g (deterministic_body lb w st ws tool wanted ri')"
    if "unrouted g ri'" "dict_get ri' ''condition_exhausted'' = VNone" for wanted ri'
    using that assms(3)
    by (auto simp: deterministic_body_def settles_skip settles_condition settles_complete settles_def [of _ _ "Inl _"]
        split: option.split)
  have "unrouted g (dict_put ''when'' v ri)" "dict_get (dict_put ''when'' v ri) ''condition_exhausted'' = VNone" for v
    using assms(1,2) by (simp_all add: unrouted_put dict_get_put)
  with body assms(1,2) show ?thesis
    by (auto simp: run_deterministic_step_def split: option.split intro!: settles_bind)
qed

lemma outcome_finalized:
  assumes "st_type st \<in> {Condition, Complete}"
  shows "finalized w (VInt (counter ws (generation_key st) 0)) (deterministic_outcome lb w st ws tool (fresh_info st ws))"
proof -
  let ?g = "VInt (counter ws (generation_key st) 0)"
  have "settles w ?g (run_deterministic_step lb w st ws tool (fresh_info st ws))"
    using assms by (intro settles_run) (simp_all add: unrouted_def fresh_info_def dict_get_def)
  then show ?thesis
    by (auto simp: settles_def deterministic_outcome_def finalized_unrouted split: sum.splits prod.splits)
qed

text \<open>
  C27. A condition or a completion is decided once: when the controller dies after the decision was
  persisted, with or without the final status of the run, the next run takes the very same result
  from the row, the route included, whatever the templates would render to by then.
\<close>

theorem deterministic_decision_survives_crash:
  assumes "\<And>out. lb_load lb (lb_dump lb out) = Inr out"
    and "st_type st \<in> {Condition, Complete}"
    and "execute_deterministic_step lb w st ws tool None = (r, ri)"
    and "sr_runtime_info sr = VDict ri" and "sr_output sr = VDict (lb_dump lb (dr_output r))"
    and "sr_status sr = Run_Running \<or> run_status_value (sr_status sr) = dr_status r"
  shows "execute_deterministic_step (lb\<lparr>lb_text := text', lb_expression := expression', lb_native := native'\<rparr>) w st ws tool' (Some sr)
     = (r, ri)"
proof -
  let ?lb = "lb\<lparr>lb_text := text', lb_expression := expression', lb_native := native'\<rparr>"
  have d: "deterministic_outcome lb w st ws tool (fresh_info st ws) = (r, ri)"
    using assms(3) by (simp add: execute_deterministic_step_def)
  from outcome_finalized [OF assms(2), of w ws lb tool] obtain st' ri0 out status nx wfs dl ea
    where f: "finalize_deterministic_step st' ri0 out status nx wfs dl ea = (r, ri)"
      "routed_as w ri0 (dr_next_step_index r)" "wfs \<in> {None, Some ''completed'', Some ''failed''}"
      and g: "dict_get ri0 ''deterministic_generation'' = VInt (counter ws (generation_key st) 0)"
      and status: "status \<in> {''approved'', ''skipped'', ''failed''}"
    unfolding finalized_def d by auto
  from finalize_persisted [OF f(1) assms(1) f(2,3)]
  have p: "deterministic_result_from_persisted ?lb w status (lb_dump lb out) ri = Inr r"
      "dict_get ri ''deterministic_substate'' = VStr ''persisted''" "dict_get ri ''terminal_status'' = VStr status"
      "dr_output r = out" "dr_status r = status"
    by (simp_all add: deterministic_result_from_persisted_def)
  have gen: "dict_get ri ''deterministic_generation'' = VInt (counter ws (generation_key st) 0)"
    using f(1) g by (auto simp: finalize_deterministic_step_def Let_def dict_get_update)
  have "run_status_value (sr_status sr) = status \<Longrightarrow> sr_status sr \<in> {Run_Approved, Run_Skipped, Run_Failed, Run_Paused}"
    using status by (cases "sr_status sr") auto
  moreover have "\<not> run_status_value (sr_status sr) = status \<Longrightarrow> sr_status sr = Run_Running" using assms(6) p(5) by auto
  ultimately have "recover_deterministic_step ?lb w st sr = Inr (Some r)"
    using p status assms(4,5) by (auto simp: recover_deterministic_step_def plain_dict_def res_bind_def Let_def)
  then show ?thesis
    using gen by (simp add: execute_deterministic_step_def plain_dict_def assms(4))
qed

subsection \<open>Loop counters of conditions\<close>

text \<open>The only loop counter a deterministic step asks the engine to set is the one of its condition.\<close>

definition condition_key :: "string option \<Rightarrow> bool" where
  "condition_key k = (case k of None \<Rightarrow> True | Some s \<Rightarrow> py_startswith s ''condition:'')"

definition keyed :: "(string \<times> pyval) list \<Rightarrow> bool" where
  "keyed ri \<longleftrightarrow> condition_key (as_str (dict_get ri ''route_loop_key''))"

definition route_keyed :: "raising \<Rightarrow> bool" where
  "route_keyed r = (case r of Inl (e, ri) \<Rightarrow> keyed ri | Inr d \<Rightarrow> condition_key (dr_route_loop_key (fst d)))"

lemma keyed_update:
  "''route_loop_key'' \<notin> fst ` set new \<Longrightarrow> keyed ri \<Longrightarrow> keyed (dict_update new ri)"
  unfolding dict_update_def keyed_def
  by (induction new arbitrary: ri) (auto simp: dict_get_put split: prod.splits)

lemma keyed_put: "k \<noteq> ''route_loop_key'' \<Longrightarrow> keyed ri \<Longrightarrow> keyed (dict_put k v ri)"
  by (auto simp: keyed_def dict_get_put)

lemma keyed_loop: "keyed (dict_update [(''route_loop_key'', VStr (condition_loop_key st t)), (''route_loop_iterations'', n)] ri)"
  by (simp add: keyed_def dict_get_update condition_key_def condition_loop_key_def)

lemma keyed_finalize: "keyed ri \<Longrightarrow> condition_key (dr_route_loop_key (fst (finalize_deterministic_step st ri out status nx wfs dl ea)))"
  by (simp add: finalize_deterministic_step_def Let_def keyed_def)

lemma keyed_fail: "keyed ri \<Longrightarrow> condition_key (dr_route_loop_key (fst (fail_deterministic_step st ri e out ov)))"
  unfolding fail_deterministic_step_def Let_def by (intro keyed_finalize keyed_update) simp_all

lemma route_keyed_bind:
  assumes "keyed ri" and "\<And>x. r = Inr x \<Longrightarrow> route_keyed (f x)"
  shows "route_keyed (res_bind (raised_at ri r) f)"
proof (cases r)
  case (Inl e)
  with assms(1) show ?thesis by (simp add: res_bind_def raised_at_def route_keyed_def)
next
  case (Inr x)
  with assms(2) show ?thesis by (simp add: res_bind_def raised_at_def)
qed

lemma route_keyed_Inr: "keyed ri \<Longrightarrow> route_keyed (Inr (finalize_deterministic_step st ri out status nx wfs dl ea))"
  by (simp add: route_keyed_def keyed_finalize)

lemma route_keyed_branch: "keyed ri \<Longrightarrow> route_keyed (condition_branch lb st cd selected target nx ri)"
  unfolding condition_branch_def Let_def by (intro route_keyed_bind route_keyed_Inr keyed_update) simp_all

lemma with_revision_source_keyed: "with_revision_source lb w cd ws ri = Inr ri' \<Longrightarrow> keyed ri \<Longrightarrow> keyed ri'"
  by (auto simp: with_revision_source_def res_bind_def keyed_put split: option.splits sum.splits)

lemma route_keyed_backward: "keyed ri \<Longrightarrow> route_keyed (condition_backward lb w st cd ws selected t nx ri)"
proof -
  assume ri: "keyed ri"
  have go: "route_keyed (res_bind (raised_at ri1 (with_revision_source lb w cd ws ri1))
      (\<lambda>ri'. condition_branch lb st cd selected (Some t) nx ri'))" if "keyed ri1" for ri1
    by (rule route_keyed_bind [OF that]) (rule route_keyed_branch, rule with_revision_source_keyed [OF _ that])
  have "route_keyed (Inr (fail_deterministic_step st (dict_update [(''selected_branch'', a), (''selected_target'', b),
      (''condition_exhausted'', c), (''next_step_index'', d), (''loop_key'', e), (''loop_iterations'', f), (''max_loop_iterations'', g)] ri) m None ov))"
    for a b c d e f g m ov unfolding route_keyed_def by (simp add: keyed_fail keyed_update ri)
  with go [OF ri] go [OF keyed_loop] show ?thesis
    by (simp add: condition_backward_def Let_def split: option.split)
qed

lemma route_keyed_body:
  assumes "keyed ri" and "route_keyed (tool ri)"
  shows "route_keyed (deterministic_body lb w st ws tool wanted ri)"
proof -
  have "route_keyed (skip_deterministic_step lb w st ws ri)"
    unfolding skip_deterministic_step_def Let_def by (intro route_keyed_bind route_keyed_Inr assms)
  moreover have "route_keyed (execute_condition_step lb w st cd ws ri)" for cd
    unfolding execute_condition_step_def Let_def
    by (intro route_keyed_bind assms) (auto intro: route_keyed_branch route_keyed_backward assms split: option.split)
  moreover have "route_keyed (execute_complete_step lb st cp ri)" for cp
  proof (cases rule: complete_cases [of lb st cp ri])
    case (raised e)
    with assms(1) show ?thesis by (simp add: route_keyed_def)
  next
    case (final out dl)
    show ?thesis unfolding final by (intro route_keyed_Inr keyed_update assms) simp
  qed
  ultimately show ?thesis
    using assms by (auto simp: deterministic_body_def route_keyed_def [of "Inl _"] split: option.split)
qed

lemma persisted_keyed:
  "deterministic_result_from_persisted lb w status raw ri = Inr r \<Longrightarrow> keyed ri \<Longrightarrow> condition_key (dr_route_loop_key r)"
  by (auto simp: deterministic_result_from_persisted_def res_bind_def keyed_def split: sum.splits)

lemma recovered_keyed:
  assumes "recover_deterministic_step lb w st sr = Inr (Some r)" and "keyed (plain_dict (sr_runtime_info sr))"
  shows "condition_key (dr_route_loop_key r)"
  using assms by (auto simp: recover_deterministic_step_def Let_def res_bind_def keyed_fail
      split: if_splits sum.splits dest: persisted_keyed)

lemma outcome_keyed:
  assumes "keyed ri" and "\<And>ri. keyed ri \<Longrightarrow> route_keyed (tool ri)"
  shows "condition_key (dr_route_loop_key (fst (deterministic_outcome lb w st ws tool ri)))"
proof -
  have "route_keyed (run_deterministic_step lb w st ws tool ri)"
    unfolding run_deterministic_step_def
    by (auto split: option.split intro!: route_keyed_body route_keyed_bind keyed_put assms)
  then show ?thesis
    by (auto simp: deterministic_outcome_def route_keyed_def keyed_fail split: sum.splits prod.splits)
qed

lemma executed_keyed:
  assumes "\<And>ri. keyed ri \<Longrightarrow> route_keyed (tool ri)"
    and "\<And>sr. latest = Some sr \<Longrightarrow> keyed (plain_dict (sr_runtime_info sr))"
  shows "condition_key (dr_route_loop_key (fst (execute_deterministic_step lb w st ws tool latest)))"
proof -
  have "keyed (fresh_info st ws)" by (simp add: keyed_def fresh_info_def dict_get_def condition_key_def)
  with assms show ?thesis
    by (auto simp: execute_deterministic_step_def Let_def outcome_keyed keyed_fail
        split: option.split sum.split dest: recovered_keyed)
qed

subsection \<open>An instance\<close>

definition demo_dump :: "step_output \<Rightarrow> (string \<times> pyval) list" where
  "demo_dump out =
     [(''summary'', VStr (so_summary out)), (''content'', VStr (so_content out)), (''outputs'', VDict (so_outputs out)),
      (''metadata'', VDict (so_metadata out)), (''claims'', VList (map VStr (so_claims out))),
      (''outcome'', case so_outcome out of None \<Rightarrow> VNone
         | Some oc \<Rightarrow> VDict [(''status'', VStr (outcome_value (oc_status oc))), (''reason'', of_str (oc_reason oc))]),
      (''notification'', case so_notification out of None \<Rightarrow> VNone
         | Some n \<Rightarrow> VDict [(''mode'', VStr (if nt_mode n = Notify_Silent then ''silent'' else ''direct'')),
                             (''reason'', of_str (nt_reason n))]),
      (''deliverable_id'', of_str (so_deliverable_id out)), (''error'', of_str (so_error out)),
      (''session_id'', of_str (so_session_id out))]"

definition str_of :: "pyval \<Rightarrow> string" where
  "str_of v = (case v of VStr s \<Rightarrow> s | _ \<Rightarrow> [])"

definition demo_load :: "(string \<times> pyval) list \<Rightarrow> (string, step_output) result" where
  "demo_load d = Inr
     \<lparr>so_summary = str_of (dict_get d ''summary''), so_content = str_of (dict_get d ''content''),
      so_outputs = plain_dict (dict_get d ''outputs''), so_metadata = plain_dict (dict_get d ''metadata''),
      so_claims = map str_of (list_of (dict_get d ''claims'')),
      so_outcome = (case dict_get d ''outcome'' of
         VDict oc \<Rightarrow> Some \<lparr>oc_status = (let s = str_of (dict_get oc ''status'') in
             if s = ''success'' then Outcome_Success else if s = ''rejected'' then Outcome_Rejected else Outcome_Failed),
           oc_reason = as_str (dict_get oc ''reason'')\<rparr>
       | _ \<Rightarrow> None),
      so_notification = (case dict_get d ''notification'' of
         VDict n \<Rightarrow> Some \<lparr>nt_mode = (if dict_get n ''mode'' = VStr ''silent'' then Notify_Silent else Notify_Direct),
           nt_reason = as_str (dict_get n ''reason'')\<rparr>
       | _ \<Rightarrow> None),
      so_deliverable_id = as_str (dict_get d ''deliverable_id''), so_error = as_str (dict_get d ''error''),
      so_session_id = as_str (dict_get d ''session_id'')\<rparr>"

definition demo_library :: library where
  "demo_library = \<lparr>lb_text = Inr, lb_expression = (\<lambda>e. Inr True), lb_native = Inr, lb_json_size = (\<lambda>v. Inr 1),
     lb_audit = (\<lambda>e v. VBool v), lb_dump = demo_dump, lb_load = demo_load\<rparr>"

lemma demo_load_dump: "demo_load (demo_dump out) = Inr out"
proof (cases out)
  case (fields sm ct os md cs oc nt dl er se)
  have "map str_of (map VStr cs) = cs" by (induction cs) (simp_all add: str_of_def)
  moreover have "(case (case oc of None \<Rightarrow> VNone
      | Some oc \<Rightarrow> VDict [(''status'', VStr (outcome_value (oc_status oc))), (''reason'', of_str (oc_reason oc))]) of
         VDict oc \<Rightarrow> Some \<lparr>oc_status = (let s = str_of (dict_get oc ''status'') in
             if s = ''success'' then Outcome_Success else if s = ''rejected'' then Outcome_Rejected else Outcome_Failed),
           oc_reason = as_str (dict_get oc ''reason'')\<rparr>
       | _ \<Rightarrow> None) = oc"
  proof (cases oc)
    case (Some c)
    then show ?thesis by (cases c; cases "oc_status c") (simp_all add: dict_get_def str_of_def)
  qed simp
  moreover have "(case (case nt of None \<Rightarrow> VNone
      | Some n \<Rightarrow> VDict [(''mode'', VStr (if nt_mode n = Notify_Silent then ''silent'' else ''direct'')),
                             (''reason'', of_str (nt_reason n))]) of
         VDict n \<Rightarrow> Some \<lparr>nt_mode = (if dict_get n ''mode'' = VStr ''silent'' then Notify_Silent else Notify_Direct),
           nt_reason = as_str (dict_get n ''reason'')\<rparr>
       | _ \<Rightarrow> None) = nt"
  proof (cases nt)
    case (Some c)
    then show ?thesis by (cases c; cases "nt_mode c") (simp_all add: dict_get_def)
  qed simp
  ultimately show ?thesis
    unfolding fields by (simp add: demo_load_def demo_dump_def dict_get_def str_of_def plain_dict_def list_of_def)
qed

definition demo_condition :: step_definition where
  "demo_condition = (demo_step ''check'')\<lparr>st_type := Condition, st_condition := Some
     \<lparr>cd_if = ''again'', cd_then = Some ''work'', cd_else = None, cd_output = None, cd_revision_source = None,
      cd_max_loop_iterations = Some 2, cd_on_exhausted = On_Gate\<rparr>\<rparr>"

theorem deterministic_decision_survives_crash_witness:
  defines "w \<equiv> demo_workflow [demo_step ''work'', demo_condition]"
    and "ws \<equiv> initial_workflow_state\<lparr>ws_current_step_index := 1\<rparr>"
  shows "\<exists>r ri sr. execute_deterministic_step demo_library w demo_condition ws (\<lambda>ri. Inl (''none'', ri)) None = (r, ri) \<and>
    dr_next_step_index r = Some 0 \<and> sr_status sr = Run_Running \<and>
    execute_deterministic_step (demo_library\<lparr>lb_expression := \<lambda>e. Inr False\<rparr>) w demo_condition ws
      (\<lambda>ri. Inl (''none'', ri)) (Some sr) = (r, ri)"
proof -
  let ?tool = "\<lambda>ri. Inl (''none'', ri)"
  obtain r ri where r: "execute_deterministic_step demo_library w demo_condition ws ?tool None = (r, ri)" by fastforce
  have nx: "dr_next_step_index (fst (execute_deterministic_step demo_library w demo_condition ws ?tool None)) = Some 0"
    by (simp add: execute_deterministic_step_def deterministic_outcome_def run_deterministic_step_def
        deterministic_body_def execute_condition_step_def condition_backward_def condition_branch_def
        with_revision_source_def explicit_next_index_def find_step_index_def raised_at_def res_bind_def
        normalize_deterministic_output_def MAX_METADATA_BYTES_def demo_library_def demo_condition_def demo_step_def
        w_def demo_workflow_def ws_def initial_workflow_state_def counter_def py_strip_def py_isspace_def Let_def)
  define sr where "sr = \<lparr>sr_step_run_id = ''r1'', sr_task_id = ''t'', sr_step_name = ''check'', sr_step_type = ''condition'',
     sr_attempt_number = 1, sr_status = Run_Running, sr_started_at = 1, sr_intaris_session_id = None,
     sr_runtime_info = VDict ri, sr_output = VDict (demo_dump (dr_output r))\<rparr>"
  have "execute_deterministic_step (demo_library\<lparr>lb_text := lb_text demo_library, lb_expression := \<lambda>e. Inr False,
      lb_native := lb_native demo_library\<rparr>) w demo_condition ws ?tool (Some sr) = (r, ri)"
    by (rule deterministic_decision_survives_crash [OF _ _ r])
      (simp_all add: demo_library_def demo_load_dump demo_condition_def sr_def)
  then show ?thesis using r nx by (intro exI [of _ r] exI [of _ ri] exI [of _ sr]) (simp add: sr_def demo_library_def)
qed

end
