(* ===== verification/Task_Execution.thy ===== *)
theory Task_Execution
  imports Task_Store Leases
begin

section \<open>Execution claims of tasks\<close>

text \<open>
  \<open>cognis/core/task_execution.py\<close>: a controller that runs a task holds three leases, one of the
  task, one of a global and one of a per-agent capacity slot, claimed in one transaction with the
  change of the task's status. \<open>TaskExecutionStore\<close> claims, renews and releases them;
  \<open>TaskExecutionFence\<close> guards every write of a running workflow.

  A method is a function on the tables of tasks and leases, and returns the tables it started
  from where the source rolls back. \<open>now\<close> is the database clock, \<open>uuid\<close> the random part of a
  claim's owner id.
\<close>

named_theorems exec_defs \<open>definitions of the execution store\<close>

subsection \<open>Claims\<close>

record exec_db =
  xd_tasks :: task_db
  xd_leases :: lease_db

record claim =
  cl_task_id :: string
  cl_agent_id :: string
  cl_attempt_number :: int
  cl_task_lease :: lease
  cl_global_lease :: "lease option"
  cl_agent_lease :: "lease option"

definition opt_list :: "'a option \<Rightarrow> 'a list" where
  "opt_list x = (case x of None \<Rightarrow> [] | Some v \<Rightarrow> [v])"

definition claim_leases :: "claim \<Rightarrow> lease list" where
  "claim_leases c = cl_task_lease c # opt_list (cl_global_lease c) @ opt_list (cl_agent_lease c)"

definition has_capacity :: "claim \<Rightarrow> bool" where
  "has_capacity c \<longleftrightarrow> cl_global_lease c \<noteq> None \<and> cl_agent_lease c \<noteq> None"

definition task_lease_key :: "string \<Rightarrow> string" where
  "task_lease_key tid = ''workflow-task:'' @ tid"

definition global_capacity_key :: "nat \<Rightarrow> string" where
  "global_capacity_key slot = ''workflow-capacity:global:'' @ show_nat slot"

definition agent_capacity_key :: "string \<Rightarrow> nat \<Rightarrow> string" where
  "agent_capacity_key agent slot = ''workflow-capacity:agent:'' @ agent @ '':'' @ show_nat slot"

text \<open>The settings of a store; \<open>range\<close> of a negative limit is empty.\<close>

record exec_config =
  xc_owner_id :: string
  xc_max_active_global :: int
  xc_max_active_per_agent :: int
  xc_ttl :: time

definition global_slots :: "exec_config \<Rightarrow> string list" where
  "global_slots cfg = map global_capacity_key [0..<nat (xc_max_active_global cfg)]"

definition agent_slots :: "exec_config \<Rightarrow> string \<Rightarrow> string list" where
  "agent_slots cfg agent = map (agent_capacity_key agent) [0..<nat (xc_max_active_per_agent cfg)]"

definition claim_owner_id :: "exec_config \<Rightarrow> string \<Rightarrow> string \<Rightarrow> string" where
  "claim_owner_id cfg tid uuid = xc_owner_id cfg @ '':task:'' @ tid @ '':'' @ uuid"

subsection \<open>Claiming\<close>

text \<open>The upsert with a condition on the row in conflict.\<close>

definition exec_acquire ::
  "time \<Rightarrow> time \<Rightarrow> string \<Rightarrow> string \<Rightarrow> lease_db \<Rightarrow> lease_db \<times> lease option" where
  "exec_acquire now t key owner ls =
     (let row = (case ls key of
            None \<Rightarrow> Some (inserted_row now t owner)
          | Some r \<Rightarrow> if row_owner_id r = owner \<or> row_lease_expires_at r \<le> now
                      then Some (r\<lparr>row_owner_id := owner, row_fencing_token := row_fencing_token r + 1,
                                    row_lease_expires_at := now + t, row_updated_at := now\<rparr>)
                      else None)
      in case row of None \<Rightarrow> (ls, None) | Some r \<Rightarrow> (ls(key \<mapsto> r), Some (lease_of key r)))"

fun acquire_capacity ::
  "time \<Rightarrow> time \<Rightarrow> string \<Rightarrow> string list \<Rightarrow> lease_db \<Rightarrow> lease_db \<times> lease option" where
  "acquire_capacity now t owner [] ls = (ls, None)"
| "acquire_capacity now t owner (key # keys) ls =
     (case exec_acquire now t key owner ls of
        (ls', Some l) \<Rightarrow> (ls', Some l)
      | (ls', None) \<Rightarrow> acquire_capacity now t owner keys ls')"

text \<open>The three leases of a claim, in the order the source takes them.\<close>

definition acquire_all ::
  "time \<Rightarrow> exec_config \<Rightarrow> string \<Rightarrow> string \<Rightarrow> string \<Rightarrow> lease_db \<Rightarrow> (lease_db \<times> lease \<times> lease \<times> lease) option" where
  "acquire_all now cfg owner tid agent ls =
     (case exec_acquire now (xc_ttl cfg) (task_lease_key tid) owner ls of
        (ls1, None) \<Rightarrow> None
      | (ls1, Some tkl) \<Rightarrow>
     (case acquire_capacity now (xc_ttl cfg) owner (global_slots cfg) ls1 of
        (ls2, None) \<Rightarrow> None
      | (ls2, Some gl) \<Rightarrow>
     (case acquire_capacity now (xc_ttl cfg) owner (agent_slots cfg agent) ls2 of
        (ls3, None) \<Rightarrow> None
      | (ls3, Some al) \<Rightarrow> Some (ls3, tkl, gl, al))))"

definition attempt_or_one :: "task_row \<Rightarrow> int" where
  "attempt_or_one r = (if tk_attempt_number r = 0 then 1 else tk_attempt_number r)"

definition make_claim :: "string \<Rightarrow> task_row \<Rightarrow> lease \<Rightarrow> lease \<Rightarrow> lease \<Rightarrow> claim" where
  "make_claim tid r tkl gl al =
     \<lparr>cl_task_id = tid, cl_agent_id = tk_agent_id r, cl_attempt_number = attempt_or_one r,
      cl_task_lease = tkl, cl_global_lease = Some gl, cl_agent_lease = Some al\<rparr>"

definition claim_ready ::
  "time \<Rightarrow> exec_config \<Rightarrow> string \<Rightarrow> string \<Rightarrow> exec_db \<Rightarrow> exec_db \<times> claim option" where
  "claim_ready now cfg queue uuid db =
     (case next_candidate now queue (xd_tasks db) of
        None \<Rightarrow> (db, None)
      | Some (tid, r) \<Rightarrow>
     (case acquire_all now cfg (claim_owner_id cfg tid uuid) tid (tk_agent_id r) (xd_leases db) of
        None \<Rightarrow> (db, None)
      | Some (ls, tkl, gl, al) \<Rightarrow>
          (let (tasks', claimed) = update_where tid (\<lambda>r. tk_status r = Ready)
                 (\<lambda>r. r\<lparr>tk_status := Running, tk_started_at := Some now\<rparr>) (xd_tasks db)
           in if \<not> claimed then (db, None)
              else (db\<lparr>xd_tasks := tasks', xd_leases := ls\<rparr>, Some (make_claim tid r tkl gl al)))))"

definition claim_existing ::
  "time \<Rightarrow> exec_config \<Rightarrow> string \<Rightarrow> task_status list \<Rightarrow> string \<Rightarrow> exec_db \<Rightarrow> exec_db \<times> claim option" where
  "claim_existing now cfg tid statuses uuid db =
     (case get_task tid (xd_tasks db) of
        None \<Rightarrow> (db, None)
      | Some r \<Rightarrow>
          if tk_status r \<notin> set statuses then (db, None)
          else case acquire_all now cfg (claim_owner_id cfg tid uuid) tid (tk_agent_id r) (xd_leases db) of
                 None \<Rightarrow> (db, None)
               | Some (ls, tkl, gl, al) \<Rightarrow>
                   (db\<lparr>xd_leases := ls\<rparr>, Some (make_claim tid r tkl gl al)))"

definition claim_paused ::
  "time \<Rightarrow> exec_config \<Rightarrow> string \<Rightarrow> string \<Rightarrow> exec_db \<Rightarrow> exec_db \<times> claim option" where
  "claim_paused now cfg tid uuid db = claim_existing now cfg tid [Paused] uuid db"

text \<open>\<open>next_scheduled_delay\<close>: the time to the next scheduled task of the queue, never negative.\<close>

definition next_scheduled_delay :: "time \<Rightarrow> string \<Rightarrow> exec_db \<Rightarrow> time option" where
  "next_scheduled_delay now queue db =
     (let future = concat (map (\<lambda>(tid, r).
            case tk_scheduled_for r of
              None \<Rightarrow> []
            | Some t \<Rightarrow> if tk_status r = Ready \<and> tk_queue_name r = queue \<and> t > now then [t] else [])
            (task_rows (xd_tasks db)))
      in if future = [] then None else Some (max 0 (Min (set future) - now)))"

subsection \<open>Keeping and giving up a claim\<close>

definition attempt_live :: "claim \<Rightarrow> task_status option \<Rightarrow> task_db \<Rightarrow> bool" where
  "attempt_live c terminal tasks =
     (case get_task (cl_task_id c) tasks of
        None \<Rightarrow> False
      | Some r \<Rightarrow> tk_attempt_number r = cl_attempt_number c \<and>
                  tk_status r \<in> set ([Running, Paused] @ opt_list terminal))"

fun renew_leases :: "time \<Rightarrow> time \<Rightarrow> lease list \<Rightarrow> lease_db \<Rightarrow> (lease_db \<times> lease list) option" where
  "renew_leases now t [] ls = Some (ls, [])"
| "renew_leases now t (l # rest) ls =
     (case renew now t l ls of
        (ls1, None) \<Rightarrow> None
      | (ls1, Some l') \<Rightarrow>
          (case renew_leases now t rest ls1 of
             None \<Rightarrow> None
           | Some (ls2, rest') \<Rightarrow> Some (ls2, l' # rest')))"

text \<open>The two capacity leases of a claim come and go together, so \<open>renewed[2]\<close> exists with the
  second of them.\<close>

definition renew_claim ::
  "time \<Rightarrow> exec_config \<Rightarrow> claim \<Rightarrow> task_status option \<Rightarrow> exec_db \<Rightarrow> exec_db \<times> claim option" where
  "renew_claim now cfg c terminal db =
     (if \<not> attempt_live c terminal (xd_tasks db) then (db, None)
      else case renew_leases now (xc_ttl cfg) (claim_leases c) (xd_leases db) of
             None \<Rightarrow> (db, None)
           | Some (ls, renewed) \<Rightarrow>
               (db\<lparr>xd_leases := ls\<rparr>,
                Some (c\<lparr>cl_task_lease := renewed ! 0,
                        cl_global_lease := (if cl_global_lease c \<noteq> None then Some (renewed ! 1) else None),
                        cl_agent_lease := (if cl_agent_lease c \<noteq> None then Some (renewed ! 2) else None)\<rparr>)))"

text \<open>A lease that is current is expired on the spot; one that is not makes the whole step fail.\<close>

definition release_current :: "time \<Rightarrow> lease \<Rightarrow> lease_db \<Rightarrow> lease_db option" where
  "release_current now l ls =
     (case ls (resource_key l) of
        None \<Rightarrow> None
      | Some r \<Rightarrow>
          if row_current now l r
          then Some (ls(resource_key l \<mapsto> r\<lparr>row_lease_expires_at := now, row_updated_at := now\<rparr>))
          else None)"

definition release_capacity :: "time \<Rightarrow> claim \<Rightarrow> exec_db \<Rightarrow> exec_db \<times> claim option" where
  "release_capacity now c db =
     (case (cl_global_lease c, cl_agent_lease c) of
        (Some gl, Some al) \<Rightarrow>
          if \<not> is_current now (cl_task_lease c) (xd_leases db) then (db, None)
          else (case release_current now gl (xd_leases db) of
                  None \<Rightarrow> (db, None)
                | Some ls1 \<Rightarrow>
                    (case release_current now al ls1 of
                       None \<Rightarrow> (db, None)
                     | Some ls2 \<Rightarrow>
                         (db\<lparr>xd_leases := ls2\<rparr>,
                          Some (c\<lparr>cl_global_lease := None, cl_agent_lease := None\<rparr>))))
      | _ \<Rightarrow> (db, Some c))"

definition reacquire_capacity :: "time \<Rightarrow> exec_config \<Rightarrow> claim \<Rightarrow> exec_db \<Rightarrow> exec_db \<times> claim option" where
  "reacquire_capacity now cfg c db =
     (if has_capacity c then (db, Some c)
      else if \<not> is_current now (cl_task_lease c) (xd_leases db) then (db, None)
      else let owner = owner_id (cl_task_lease c) in
        case acquire_capacity now (xc_ttl cfg) owner (global_slots cfg) (xd_leases db) of
          (ls1, None) \<Rightarrow> (db, None)
        | (ls1, Some gl) \<Rightarrow>
            (case acquire_capacity now (xc_ttl cfg) owner (agent_slots cfg (cl_agent_id c)) ls1 of
               (ls2, None) \<Rightarrow> (db, None)
             | (ls2, Some al) \<Rightarrow>
                 (db\<lparr>xd_leases := ls2\<rparr>,
                  Some (c\<lparr>cl_global_lease := Some gl, cl_agent_lease := Some al\<rparr>))))"

definition release_claim :: "time \<Rightarrow> claim \<Rightarrow> exec_db \<Rightarrow> exec_db" where
  "release_claim now c db =
     db\<lparr>xd_leases := fold (\<lambda>l ls. fst (release now l ls)) (claim_leases c) (xd_leases db)\<rparr>"

definition invalidate_task_lease :: "time \<Rightarrow> string \<Rightarrow> lease_db \<Rightarrow> lease_db" where
  "invalidate_task_lease now tid ls =
     (case ls (task_lease_key tid) of
        None \<Rightarrow> ls
      | Some r \<Rightarrow> ls(task_lease_key tid \<mapsto> r\<lparr>row_lease_expires_at := now, row_updated_at := now\<rparr>))"

lemmas [exec_defs] = claim_ready_def claim_existing_def claim_paused_def renew_claim_def
  release_capacity_def reacquire_capacity_def release_claim_def

subsection \<open>The fence of a running workflow\<close>

record fence =
  fn_claim :: claim
  fn_lost :: bool
  fn_cancel :: bool
  fn_terminal :: "task_status option"

datatype fence_error = Stale_Owner string

definition lose :: "fence \<Rightarrow> fence" where
  "lose f = f\<lparr>fn_lost := True, fn_cancel := True\<rparr>"

text \<open>One round of the renewal loop; \<open>raised\<close> says that the database call failed. The second
  component is whether the loop goes on.\<close>

definition renew_round :: "time \<Rightarrow> exec_config \<Rightarrow> bool \<Rightarrow> fence \<Rightarrow> exec_db \<Rightarrow> exec_db \<times> fence \<times> bool" where
  "renew_round now cfg raised f db =
     (if raised then (db, lose f, False)
      else case renew_claim now cfg (fn_claim f) (fn_terminal f) db of
             (db', Some c) \<Rightarrow> (db', f\<lparr>fn_claim := c\<rparr>, True)
           | (db', None) \<Rightarrow> (db', lose f, False))"

definition assert_current :: "time \<Rightarrow> fence \<Rightarrow> exec_db \<Rightarrow> fence \<times> (fence_error, unit) result" where
  "assert_current now f db =
     (let stale = Inl (Stale_Owner (cl_task_id (fn_claim f)))
      in if fn_lost f then (f, stale)
         else if \<not> attempt_live (fn_claim f) (fn_terminal f) (xd_tasks db) then (lose f, stale)
         else if list_all (\<lambda>l. is_current now l (xd_leases db)) (claim_leases (fn_claim f))
         then (f, Inr ())
         else (lose f, stale))"

definition mark_terminal :: "task_status \<Rightarrow> fence \<Rightarrow> fence" where
  "mark_terminal st f = f\<lparr>fn_terminal := Some st\<rparr>"

definition suspend_capacity ::
  "time \<Rightarrow> fence \<Rightarrow> exec_db \<Rightarrow> exec_db \<times> fence \<times> (fence_error, unit) result" where
  "suspend_capacity now f db =
     (case release_capacity now (fn_claim f) db of
        (db', None) \<Rightarrow> (db', lose f, Inl (Stale_Owner (cl_task_id (fn_claim f))))
      | (db', Some c) \<Rightarrow> (db', f\<lparr>fn_claim := c\<rparr>, Inr ()))"

definition ensure_capacity ::
  "time \<Rightarrow> exec_config \<Rightarrow> fence \<Rightarrow> exec_db \<Rightarrow> exec_db \<times> fence \<times> (fence_error, bool) result" where
  "ensure_capacity now cfg f db =
     (if has_capacity (fn_claim f) then (db, f, Inr True)
      else case reacquire_capacity now cfg (fn_claim f) db of
             (db', Some c) \<Rightarrow> (db', f\<lparr>fn_claim := c\<rparr>, Inr True)
           | (db', None) \<Rightarrow>
               (case assert_current now f db' of
                  (f', Inl e) \<Rightarrow> (db', f', Inl e)
                | (f', Inr _) \<Rightarrow> (db', f', Inr False)))"

definition close_fence :: "time \<Rightarrow> fence \<Rightarrow> exec_db \<Rightarrow> exec_db" where
  "close_fence now f db = release_claim now (fn_claim f) db"

subsection \<open>What claiming does to the leases\<close>

text \<open>The upsert of the execution store is the one of the lease store.\<close>

lemma exec_acquire_eq: "exec_acquire = acquire_in_session"
  by (intro ext) (simp add: exec_acquire_def lease_defs Let_def split: option.splits)

lemma acquire_capacity_NoneD:
  "acquire_capacity now t owner keys ls = (ls', None) \<Longrightarrow> ls' = ls"
  by (induction keys arbitrary: ls)
    (auto simp: exec_acquire_eq split: prod.splits option.splits dest: acquire_in_session_NoneD)

lemma acquire_capacity_SomeD:
  "acquire_capacity now t owner keys ls = (ls', Some l) \<Longrightarrow>
     \<exists>k \<in> set keys. acquire_in_session now t k owner ls = (ls', Some l)"
proof (induction keys)
  case (Cons k keys)
  then show ?case
    by (auto simp: exec_acquire_eq split: prod.splits option.splits dest: acquire_in_session_NoneD)
qed simp

text \<open>An upsert of one owner leaves the live leases of the others and of other keys alone.\<close>

lemma acquire_keeps_others:
  assumes "acquire_in_session now t k owner ls = (ls', Some l)"
    and "is_current now m ls" and "owner_id m \<noteq> owner"
  shows "is_current now m ls'"
  using assms by (auto simp: lease_defs Let_def split: option.splits if_splits)

lemma acquire_keeps_keys:
  assumes "acquire_in_session now t k owner ls = (ls', Some l)" and "resource_key m \<noteq> k"
  shows "is_current u m ls' \<longleftrightarrow> is_current u m ls"
  using assms by (auto simp: lease_defs Let_def split: option.splits if_splits)

lemma slot_keys_disjoint [simp]:
  "task_lease_key tid \<noteq> global_capacity_key n"
  "task_lease_key tid \<noteq> agent_capacity_key a n"
  "global_capacity_key n \<noteq> agent_capacity_key a m"
  "global_capacity_key n \<noteq> task_lease_key tid"
  "agent_capacity_key a n \<noteq> task_lease_key tid"
  "agent_capacity_key a m \<noteq> global_capacity_key n"
  by (simp_all add: task_lease_key_def global_capacity_key_def agent_capacity_key_def)

lemma acquire_all_SomeD:
  assumes "acquire_all now cfg owner tid agent ls = Some (ls', tkl, gl, al)"
  obtains ls1 ls2 gk ak where
    "acquire_in_session now (xc_ttl cfg) (task_lease_key tid) owner ls = (ls1, Some tkl)"
    "gk \<in> set (global_slots cfg)" "acquire_in_session now (xc_ttl cfg) gk owner ls1 = (ls2, Some gl)"
    "ak \<in> set (agent_slots cfg agent)" "acquire_in_session now (xc_ttl cfg) ak owner ls2 = (ls', Some al)"
proof -
  from assms obtain ls1 ls2 where
    a: "acquire_in_session now (xc_ttl cfg) (task_lease_key tid) owner ls = (ls1, Some tkl)"
    and b: "acquire_capacity now (xc_ttl cfg) owner (global_slots cfg) ls1 = (ls2, Some gl)"
    and c: "acquire_capacity now (xc_ttl cfg) owner (agent_slots cfg agent) ls2 = (ls', Some al)"
    by (auto simp: acquire_all_def exec_acquire_eq split: prod.splits option.splits)
  from acquire_capacity_SomeD [OF b] acquire_capacity_SomeD [OF c] a show thesis
    by (blast intro: that)
qed

lemma acquire_all_leases:
  assumes "acquire_all now cfg owner tid agent ls = Some (ls', tkl, gl, al)"
  shows "resource_key tkl = task_lease_key tid \<and> resource_key gl \<in> set (global_slots cfg) \<and>
    resource_key al \<in> set (agent_slots cfg agent) \<and>
    owner_id tkl = owner \<and> owner_id gl = owner \<and> owner_id al = owner \<and>
    (\<forall>u l. l \<in> {tkl, gl, al} \<longrightarrow> (is_current u l ls' \<longleftrightarrow> u < now + xc_ttl cfg))"
  using assms
proof (rule acquire_all_SomeD)
  fix ls1 ls2 gk ak
  assume a: "acquire_in_session now (xc_ttl cfg) (task_lease_key tid) owner ls = (ls1, Some tkl)"
    and gk: "gk \<in> set (global_slots cfg)"
    and b: "acquire_in_session now (xc_ttl cfg) gk owner ls1 = (ls2, Some gl)"
    and ak: "ak \<in> set (agent_slots cfg agent)"
    and c: "acquire_in_session now (xc_ttl cfg) ak owner ls2 = (ls', Some al)"
  note da = acquire_in_session_SomeD [OF a] and db = acquire_in_session_SomeD [OF b]
    and dc = acquire_in_session_SomeD [OF c]
  have ne: "task_lease_key tid \<noteq> gk" "task_lease_key tid \<noteq> ak" "gk \<noteq> ak"
    using gk ak by (auto simp: global_slots_def agent_slots_def)
  have "is_current u tkl ls' \<longleftrightarrow> u < now + xc_ttl cfg" for u
    using acquire_then_current [OF a, of u] acquire_keeps_keys [OF b, of tkl u]
      acquire_keeps_keys [OF c, of tkl u] da ne by simp
  moreover have "is_current u gl ls' \<longleftrightarrow> u < now + xc_ttl cfg" for u
    using acquire_then_current [OF b, of u] acquire_keeps_keys [OF c, of gl u] db ne by simp
  moreover have "is_current u al ls' \<longleftrightarrow> u < now + xc_ttl cfg" for u
    using acquire_then_current [OF c, of u] by simp
  ultimately show ?thesis using da db dc gk ak by blast
qed

lemma acquire_all_keeps_others:
  assumes "acquire_all now cfg owner tid agent ls = Some (ls', tkl, gl, al)"
    and "is_current now m ls" and "owner_id m \<noteq> owner"
  shows "is_current now m ls'"
  using assms(1)
  by (rule acquire_all_SomeD) (use assms(2,3) in \<open>blast intro: acquire_keeps_others\<close>)

lemma renew_leases_shape:
  "renew_leases now t ms ls = Some (ls', ms') \<Longrightarrow>
     length ms' = length ms \<and>
     (\<forall>i < length ms. resource_key (ms' ! i) = resource_key (ms ! i) \<and> owner_id (ms' ! i) = owner_id (ms ! i))"
proof (induction ms arbitrary: ls ms')
  case (Cons m ms)
  from Cons.prems obtain ls1 m' ms'' where r: "renew now t m ls = (ls1, Some m')"
    "renew_leases now t ms ls1 = Some (ls', ms'')" "ms' = m' # ms''"
    by (auto split: prod.splits option.splits)
  have "resource_key m' = resource_key m \<and> owner_id m' = owner_id m"
    using r(1) by (auto simp: lease_defs Let_def split: option.splits if_splits)
  with Cons.IH [OF r(2)] r(3) show ?case by (auto simp: nth_Cons split: nat.splits)
qed simp

subsection \<open>Runs of many controllers\<close>

text \<open>
  Controllers with their own names share the tables and the limits. Claims they were given are
  collected; the owner id of a new claim is fresh. The table of tasks may change in any way, and
  so may the leases under keys of other components.
\<close>

record exec_sys =
  xs_db :: exec_db
  xs_claims :: "claim list"

definition claim_owner :: "claim \<Rightarrow> string" where
  "claim_owner c = owner_id (cl_task_lease c)"

definition limits :: "int \<Rightarrow> int \<Rightarrow> exec_config \<Rightarrow> bool" where
  "limits mg ma cfg \<longleftrightarrow> xc_max_active_global cfg = mg \<and> xc_max_active_per_agent cfg = ma"

definition fresh_owner :: "claim \<Rightarrow> exec_sys \<Rightarrow> bool" where
  "fresh_owner c s \<longleftrightarrow> claim_owner c \<notin> claim_owner ` set (xs_claims s)"

definition workflow_key :: "string \<Rightarrow> bool" where
  "workflow_key k = py_startswith k ''workflow-''"

definition exec_start :: "exec_sys \<Rightarrow> bool" where
  "exec_start s \<longleftrightarrow> xs_claims s = []"

inductive exec_step :: "int \<Rightarrow> int \<Rightarrow> exec_sys \<Rightarrow> exec_sys \<Rightarrow> bool" for mg ma where
  claims_ready: "limits mg ma cfg \<Longrightarrow> claim_ready now cfg queue uuid (xs_db s) = (db', Some c) \<Longrightarrow>
     fresh_owner c s \<Longrightarrow> exec_step mg ma s \<lparr>xs_db = db', xs_claims = c # xs_claims s\<rparr>"
| claims_existing: "limits mg ma cfg \<Longrightarrow>
     claim_existing now cfg tid statuses uuid (xs_db s) = (db', Some c) \<Longrightarrow>
     fresh_owner c s \<Longrightarrow> exec_step mg ma s \<lparr>xs_db = db', xs_claims = c # xs_claims s\<rparr>"
| renews: "c \<in> set (xs_claims s) \<Longrightarrow> renew_claim now cfg c terminal (xs_db s) = (db', Some c') \<Longrightarrow>
     exec_step mg ma s \<lparr>xs_db = db', xs_claims = c' # xs_claims s\<rparr>"
| releases_capacity: "c \<in> set (xs_claims s) \<Longrightarrow> release_capacity now c (xs_db s) = (db', Some c') \<Longrightarrow>
     exec_step mg ma s \<lparr>xs_db = db', xs_claims = c' # xs_claims s\<rparr>"
| reacquires: "limits mg ma cfg \<Longrightarrow> c \<in> set (xs_claims s) \<Longrightarrow>
     reacquire_capacity now cfg c (xs_db s) = (db', Some c') \<Longrightarrow>
     exec_step mg ma s \<lparr>xs_db = db', xs_claims = c' # xs_claims s\<rparr>"
| releases: "c \<in> set (xs_claims s) \<Longrightarrow>
     exec_step mg ma s (s\<lparr>xs_db := release_claim now c (xs_db s)\<rparr>)"
| invalidates: "exec_step mg ma s
     (s\<lparr>xs_db := (xs_db s)\<lparr>xd_leases := invalidate_task_lease now tid (xd_leases (xs_db s))\<rparr>\<rparr>)"
| tasks_change: "exec_step mg ma s (s\<lparr>xs_db := (xs_db s)\<lparr>xd_tasks := tasks'\<rparr>\<rparr>)"
| other_leases: "(\<And>k. workflow_key k \<Longrightarrow> ls' k = xd_leases (xs_db s) k) \<Longrightarrow>
     exec_step mg ma s (s\<lparr>xs_db := (xs_db s)\<lparr>xd_leases := ls'\<rparr>\<rparr>)"

definition claim_ok :: "int \<Rightarrow> int \<Rightarrow> claim \<Rightarrow> bool" where
  "claim_ok mg ma c \<longleftrightarrow>
     resource_key (cl_task_lease c) = task_lease_key (cl_task_id c) \<and>
     (\<forall>l. cl_global_lease c = Some l \<longrightarrow> owner_id l = claim_owner c \<and>
        resource_key l \<in> global_capacity_key ` {..<nat mg}) \<and>
     (\<forall>l. cl_agent_lease c = Some l \<longrightarrow> owner_id l = claim_owner c \<and>
        resource_key l \<in> agent_capacity_key (cl_agent_id c) ` {..<nat ma}) \<and>
     (cl_global_lease c = None \<longleftrightarrow> cl_agent_lease c = None)"

definition same_run :: "claim \<Rightarrow> claim \<Rightarrow> bool" where
  "same_run c c' \<longleftrightarrow> (claim_owner c = claim_owner c' \<longrightarrow>
     cl_task_id c = cl_task_id c' \<and> cl_agent_id c = cl_agent_id c')"

definition exec_inv :: "int \<Rightarrow> int \<Rightarrow> exec_sys \<Rightarrow> bool" where
  "exec_inv mg ma s \<longleftrightarrow> (\<forall>c \<in> set (xs_claims s). claim_ok mg ma c) \<and>
     (\<forall>c \<in> set (xs_claims s). \<forall>c' \<in> set (xs_claims s). same_run c c')"

lemma make_claim_ok:
  assumes "limits mg ma cfg" and "acquire_all now cfg owner tid (tk_agent_id r) ls = Some (ls', tkl, gl, al)"
  shows "claim_ok mg ma (make_claim tid r tkl gl al)"
  using acquire_all_leases [OF assms(2)] assms(1)
  by (auto simp: claim_ok_def make_claim_def claim_owner_def limits_def global_slots_def agent_slots_def
      atLeast0LessThan)

lemma claim_existing_SomeD:
  assumes "claim_existing now cfg tid statuses uuid db = (db', Some c)"
  obtains r ls tkl gl al where "get_task tid (xd_tasks db) = Some r" "tk_status r \<in> set statuses"
    "acquire_all now cfg (claim_owner_id cfg tid uuid) tid (tk_agent_id r) (xd_leases db) = Some (ls, tkl, gl, al)"
    "db' = db\<lparr>xd_leases := ls\<rparr>" "c = make_claim tid r tkl gl al"
  using assms by (auto simp: claim_existing_def split: option.splits if_splits)

lemma claim_ready_SomeD:
  assumes "claim_ready now cfg queue uuid db = (db', Some c)"
  obtains tid r ls tkl gl al tasks' where "next_candidate now queue (xd_tasks db) = Some (tid, r)"
    "acquire_all now cfg (claim_owner_id cfg tid uuid) tid (tk_agent_id r) (xd_leases db) = Some (ls, tkl, gl, al)"
    "update_where tid (\<lambda>r. tk_status r = Ready) (\<lambda>r. r\<lparr>tk_status := Running, tk_started_at := Some now\<rparr>)
       (xd_tasks db) = (tasks', True)"
    "db' = db\<lparr>xd_tasks := tasks', xd_leases := ls\<rparr>" "c = make_claim tid r tkl gl al"
  using assms by (auto simp: claim_ready_def Let_def split: option.splits if_splits prod.splits)

lemma exec_inv_add:
  assumes "exec_inv mg ma s" and "claim_ok mg ma c"
    and "fresh_owner c s \<or> (\<exists>c0 \<in> set (xs_claims s). claim_owner c = claim_owner c0 \<and>
      cl_task_id c = cl_task_id c0 \<and> cl_agent_id c = cl_agent_id c0)"
  shows "exec_inv mg ma \<lparr>xs_db = db', xs_claims = c # xs_claims s\<rparr>"
proof -
  have old: "claim_ok mg ma d" "same_run d d'" if "d \<in> set (xs_claims s)" "d' \<in> set (xs_claims s)" for d d'
    using assms(1) that by (simp_all add: exec_inv_def)
  have "same_run c d \<and> same_run d c" if d: "d \<in> set (xs_claims s)" for d
    using assms(3)
  proof
    assume "fresh_owner c s"
    with d have "claim_owner c \<noteq> claim_owner d" by (auto simp: fresh_owner_def)
    then show ?thesis by (simp add: same_run_def)
  next
    assume "\<exists>c0 \<in> set (xs_claims s). claim_owner c = claim_owner c0 \<and>
      cl_task_id c = cl_task_id c0 \<and> cl_agent_id c = cl_agent_id c0"
    then obtain c0 where c0: "c0 \<in> set (xs_claims s)" "claim_owner c = claim_owner c0"
      "cl_task_id c = cl_task_id c0" "cl_agent_id c = cl_agent_id c0" by blast
    from old(2) [OF c0(1) d] old(2) [OF d c0(1)] c0 show ?thesis by (simp add: same_run_def)
  qed
  moreover have "same_run c c" by (simp add: same_run_def)
  ultimately show ?thesis using old assms(2) by (simp add: exec_inv_def)
qed

lemma renew_claim_ok:
  assumes "renew_claim now cfg c terminal db = (db', Some c')" and "claim_ok mg ma c"
  shows "claim_ok mg ma c' \<and> claim_owner c' = claim_owner c \<and> cl_task_id c' = cl_task_id c \<and>
    cl_agent_id c' = cl_agent_id c"
proof -
  from assms(1) obtain ls ms where r: "renew_leases now (xc_ttl cfg) (claim_leases c) (xd_leases db) = Some (ls, ms)"
    and c': "c' = c\<lparr>cl_task_lease := ms ! 0,
      cl_global_lease := (if cl_global_lease c \<noteq> None then Some (ms ! 1) else None),
      cl_agent_lease := (if cl_agent_lease c \<noteq> None then Some (ms ! 2) else None)\<rparr>"
    by (auto simp: renew_claim_def split: if_splits option.splits prod.splits)
  note shape = renew_leases_shape [OF r]
  have n: "length (claim_leases c) = (if cl_global_lease c = None then 1 else 3)"
    using assms(2) by (auto simp: claim_leases_def opt_list_def claim_ok_def split: option.splits)
  have p0: "resource_key (ms ! 0) = resource_key (cl_task_lease c)" "owner_id (ms ! 0) = owner_id (cl_task_lease c)"
    using shape by (auto simp: claim_leases_def)
  have p1: "resource_key (ms ! 1) = resource_key gl \<and> owner_id (ms ! 1) = owner_id gl \<and>
      resource_key (ms ! 2) = resource_key al \<and> owner_id (ms ! 2) = owner_id al"
    if "cl_global_lease c = Some gl" "cl_agent_lease c = Some al" for gl al
  proof -
    have cs: "claim_leases c = [cl_task_lease c, gl, al]" using that by (simp add: claim_leases_def opt_list_def)
    show ?thesis
      using shape [THEN conjunct2, rule_format, of 1] shape [THEN conjunct2, rule_format, of 2]
      by (simp add: cs)
  qed
  show ?thesis
  proof (cases "cl_global_lease c")
    case None
    with assms(2) have "cl_agent_lease c = None" by (simp add: claim_ok_def)
    with None assms(2) p0 show ?thesis by (simp add: claim_ok_def claim_owner_def c')
  next
    case (Some gl)
    with assms(2) obtain al where al: "cl_agent_lease c = Some al" by (auto simp: claim_ok_def)
    from p1 [OF Some al] Some al assms(2) p0 show ?thesis
      by (simp add: claim_ok_def claim_owner_def c')
  qed
qed

lemma reacquire_ok:
  assumes "reacquire_capacity now cfg c db = (db', Some c')" and "claim_ok mg ma c" and "limits mg ma cfg"
  shows "claim_ok mg ma c' \<and> claim_owner c' = claim_owner c \<and> cl_task_id c' = cl_task_id c \<and>
    cl_agent_id c' = cl_agent_id c"
proof (cases "has_capacity c")
  case True
  with assms show ?thesis by (simp add: reacquire_capacity_def)
next
  case False
  with assms(1) obtain ls1 ls2 gl al where
    "acquire_capacity now (xc_ttl cfg) (claim_owner c) (global_slots cfg) (xd_leases db) = (ls1, Some gl)"
    "acquire_capacity now (xc_ttl cfg) (claim_owner c) (agent_slots cfg (cl_agent_id c)) ls1 = (ls2, Some al)"
    and c': "c' = c\<lparr>cl_global_lease := Some gl, cl_agent_lease := Some al\<rparr>"
    by (auto simp: reacquire_capacity_def claim_owner_def Let_def split: if_splits prod.splits option.splits)
  then obtain gk ak where k: "gk \<in> set (global_slots cfg)" "ak \<in> set (agent_slots cfg (cl_agent_id c))"
    and a: "acquire_in_session now (xc_ttl cfg) gk (claim_owner c) (xd_leases db) = (ls1, Some gl)"
    and b: "acquire_in_session now (xc_ttl cfg) ak (claim_owner c) ls1 = (ls2, Some al)"
    by (blast dest: acquire_capacity_SomeD)
  have "resource_key gl = gk \<and> owner_id gl = claim_owner c" "resource_key al = ak \<and> owner_id al = claim_owner c"
    using acquire_in_session_SomeD [OF a] acquire_in_session_SomeD [OF b] by blast+
  moreover have "gk \<in> global_capacity_key ` {..<nat mg}" "ak \<in> agent_capacity_key (cl_agent_id c) ` {..<nat ma}"
    using k assms(3) by (auto simp: limits_def global_slots_def agent_slots_def atLeast0LessThan)
  ultimately show ?thesis
    using assms(2) by (simp add: claim_ok_def claim_owner_def c')
qed

lemma release_capacity_ok:
  assumes "release_capacity now c db = (db', Some c')" and "claim_ok mg ma c"
  shows "claim_ok mg ma c' \<and> claim_owner c' = claim_owner c \<and> cl_task_id c' = cl_task_id c \<and>
    cl_agent_id c' = cl_agent_id c"
  using assms by (auto simp: release_capacity_def claim_ok_def claim_owner_def
      split: option.splits if_splits)

lemma exec_step_inv:
  assumes "exec_step mg ma s t" and "exec_inv mg ma s"
  shows "exec_inv mg ma t"
  using assms(1)
proof cases
  case (claims_ready cfg now queue uuid db' c)
  from claims_ready(3) show ?thesis
    by (rule claim_ready_SomeD)
      (use claims_ready assms(2) make_claim_ok in \<open>auto intro!: exec_inv_add\<close>)
next
  case (claims_existing cfg now tid statuses uuid db' c)
  from claims_existing(3) show ?thesis
    by (rule claim_existing_SomeD)
      (use claims_existing assms(2) make_claim_ok in \<open>auto intro!: exec_inv_add\<close>)
next
  case (renews c now cfg terminal db' c')
  have "claim_ok mg ma c" using renews(2) assms(2) by (simp add: exec_inv_def)
  from renew_claim_ok [OF renews(3) this] renews assms(2) show ?thesis
    by (auto intro!: exec_inv_add)
next
  case (releases_capacity c now db' c')
  have "claim_ok mg ma c" using releases_capacity(2) assms(2) by (simp add: exec_inv_def)
  from release_capacity_ok [OF releases_capacity(3) this] releases_capacity assms(2) show ?thesis
    by (auto intro!: exec_inv_add)
next
  case (reacquires cfg c now db' c')
  have "claim_ok mg ma c" using reacquires(3) assms(2) by (simp add: exec_inv_def)
  from reacquire_ok [OF reacquires(4) this reacquires(2)] reacquires assms(2) show ?thesis
    by (auto intro!: exec_inv_add)
qed (use assms(2) in \<open>simp_all add: exec_inv_def\<close>)

interpretation claims: inv_system exec_start "exec_step mg ma" "exec_inv mg ma" for mg ma
  by unfold_locales (auto simp: exec_start_def exec_inv_def dest: exec_step_inv)

subsection \<open>Capacity and exclusion\<close>

text \<open>The claims that hold all their leases, among them both capacity slots, at a time.\<close>

definition executing :: "time \<Rightarrow> exec_db \<Rightarrow> claim \<Rightarrow> bool" where
  "executing now db c \<longleftrightarrow> has_capacity c \<and> list_all (\<lambda>l. is_current now l (xd_leases db)) (claim_leases c)"

lemma executingD:
  assumes "executing now db c"
  obtains gl al where "cl_global_lease c = Some gl" "is_current now gl (xd_leases db)"
    "cl_agent_lease c = Some al" "is_current now al (xd_leases db)"
    "is_current now (cl_task_lease c) (xd_leases db)"
  using assms by (auto simp: executing_def has_capacity_def claim_leases_def opt_list_def)

lemma current_same_owner:
  "is_current t l ls \<Longrightarrow> is_current t' l' ls \<Longrightarrow> resource_key l = resource_key l' \<Longrightarrow> owner_id l = owner_id l'"
  by (auto simp: lease_defs split: option.splits)

text \<open>If each thing of a set has a slot and things with the same slot are equal, the slots bound the
  number of things.\<close>

lemma card_le_slots:
  assumes "finite K" and "\<And>x. x \<in> X \<Longrightarrow> \<exists>k \<in> K. slot x k"
    and "\<And>x y k. x \<in> X \<Longrightarrow> y \<in> X \<Longrightarrow> slot x k \<Longrightarrow> slot y k \<Longrightarrow> x = y"
  shows "card X \<le> card K"
proof -
  obtain f where f: "\<And>x. x \<in> X \<Longrightarrow> f x \<in> K \<and> slot x (f x)" using assms(2) by metis
  have "inj_on f X" using f assms(3) by (metis inj_onI)
  moreover have "f ` X \<subseteq> K" using f by blast
  ultimately show ?thesis using assms(1) by (metis card_image card_mono)
qed

definition executing_tasks :: "time \<Rightarrow> exec_sys \<Rightarrow> string set" where
  "executing_tasks now s = cl_task_id ` {c \<in> set (xs_claims s). executing now (xs_db s) c}"

definition executing_for :: "time \<Rightarrow> string \<Rightarrow> exec_sys \<Rightarrow> string set" where
  "executing_for now agent s =
     cl_task_id ` {c \<in> set (xs_claims s). executing now (xs_db s) c \<and> cl_agent_id c = agent}"


text \<open>A controller with two slots in all and one per agent, and a queue of two tasks.\<close>

definition demo_cfg :: exec_config where
  "demo_cfg = \<lparr>xc_owner_id = ''ctl'', xc_max_active_global = 2, xc_max_active_per_agent = 1, xc_ttl = 60\<rparr>"

definition demo_task :: "string \<Rightarrow> int \<Rightarrow> task_row" where
  "demo_task agent prio = \<lparr>tk_title = ''t'', tk_description = None, tk_expected_output = None,
     tk_status = Ready, tk_priority = prio, tk_agent_id = agent, tk_workflow_id = None,
     tk_project_id = None, tk_session_policy = None, tk_escalation_timeout_seconds = None,
     tk_control_conversation_id = None, tk_control_conversation_claimed_at = None,
     tk_attempt_number = 1, tk_workflow_state = None, tk_queue_name = ''default'',
     tk_scheduled_for = None, tk_created_at = 0, tk_started_at = None, tk_completed_at = None,
     tk_result_summary = None, tk_result_data = None, tk_applied_completion_mode = None,
     tk_applied_completion_reason = None, tk_delivery_mode = ''silent''\<rparr>"

definition demo_exec :: exec_db where
  "demo_exec = \<lparr>xd_tasks = \<lparr>task_rows = [(''a'', demo_task ''x'' 0), (''b'', demo_task ''x'' 5)],
     run_rows = [], dep_rows = []\<rparr>, xd_leases = Map.empty\<rparr>"

lemma demo_candidate: "next_candidate 0 ''default'' (xd_tasks demo_exec) = Some (''b'', demo_task ''x'' 5)"
  by (simp add: next_candidate_def demo_exec_def demo_task_def is_candidate_def queue_rank_def)

lemmas demo_claim_eval = claim_ready_def demo_candidate acquire_all_def exec_acquire_def
  global_slots_def agent_slots_def demo_cfg_def claim_owner_id_def lease_defs update_where_def get_task_def

lemma demo_claimed: "\<exists>db' c. claim_ready 0 demo_cfg ''default'' ''u1'' demo_exec = (db', Some c)"
  by (simp add: demo_claim_eval Let_def upt_rec numeral_2_eq_2) (simp add: update_where_def get_task_def demo_exec_def demo_task_def)

lemma demo_exec_reach:
  "\<exists>s c. reach exec_start (exec_step 2 1) s \<and> xs_claims s = [c] \<and>
     claim_ready 0 demo_cfg ''default'' ''u1'' demo_exec = (xs_db s, Some c)"
proof -
  from demo_claimed obtain db' c where claim: "claim_ready 0 demo_cfg ''default'' ''u1'' demo_exec = (db', Some c)"
    by blast
  let ?s0 = "\<lparr>xs_db = demo_exec, xs_claims = []\<rparr>" and ?s1 = "\<lparr>xs_db = db', xs_claims = [c]\<rparr>"
  have "exec_step 2 1 ?s0 ?s1"
    using exec_step.claims_ready [of 2 1 demo_cfg 0 "''default''" "''u1''" ?s0 db' c] claim
    by (simp add: limits_def demo_cfg_def fresh_owner_def)
  then have "reach exec_start (exec_step 2 1) ?s1"
    by (rule reach_step [rotated]) (rule reach_start, simp add: exec_start_def)
  with claim show ?thesis by (intro exI [of _ ?s1] exI [of _ c]) simp
qed


text \<open>
  C24. One worker per task: of the claims handed out in a run, two claims of one task whose fences
  both pass have the same owner and the same fencing token. So two controllers never both believe
  they run the task, and a workflow that lost its claim stops at its next checked write.
\<close>

theorem one_worker_per_task:
  assumes "reach exec_start (exec_step mg ma) s"
    and "fn_claim f \<in> set (xs_claims s)" and "fn_claim f' \<in> set (xs_claims s)"
    and "cl_task_id (fn_claim f) = cl_task_id (fn_claim f')"
    and "snd (assert_current now f (xs_db s)) = Inr ()" and "snd (assert_current now' f' (xs_db s)) = Inr ()"
  shows "claim_owner (fn_claim f) = claim_owner (fn_claim f') \<and>
    fencing_token (cl_task_lease (fn_claim f)) = fencing_token (cl_task_lease (fn_claim f'))"
proof -
  have inv: "exec_inv mg ma s" using assms(1) by (rule claims.reach_inv)
  have own: "resource_key (cl_task_lease (fn_claim g)) = task_lease_key (cl_task_id (fn_claim g))"
    if "fn_claim g \<in> set (xs_claims s)" for g
    using inv that by (simp add: exec_inv_def claim_ok_def)
  have key: "resource_key (cl_task_lease (fn_claim f)) = resource_key (cl_task_lease (fn_claim f'))"
    using own [OF assms(2)] own [OF assms(3)] assms(4) by simp
  have cur: "is_current t (cl_task_lease (fn_claim g)) (xd_leases (xs_db s))"
    if "snd (assert_current t g (xs_db s)) = Inr ()" for t g
    using that by (auto simp: assert_current_def claim_leases_def Let_def split: if_splits)
  show ?thesis
    using current_same_owner [OF cur [OF assms(5)] cur [OF assms(6)] key]
      store.current_same_fence [OF cur [OF assms(5)] cur [OF assms(6)] key]
    by (simp add: claim_owner_def)
qed

lemma next_candidate_best:
  assumes "next_candidate now queue db = Some (tid, r)"
  shows "(tid, r) \<in> set (task_rows db) \<and> is_candidate now queue r \<and>
    (\<forall>(tid', r') \<in> set (task_rows db). is_candidate now queue r' \<longrightarrow>
       tk_priority r' < tk_priority r \<or> tk_priority r' = tk_priority r \<and> tk_created_at r \<le> tk_created_at r')"
proof -
  let ?ready = "filter (\<lambda>(tid, r). is_candidate now queue r) (task_rows db)"
  from assms obtain ps where ps: "sort_key queue_rank ?ready = (tid, r) # ps"
    by (auto simp: next_candidate_def split: list.splits)
  have set: "set ((tid, r) # ps) = set ?ready" by (metis ps set_sort)
  have "sorted (map queue_rank ((tid, r) # ps))" by (metis ps sorted_sort_key)
  then have "queue_rank (tid, r) \<le> queue_rank p" if "p \<in> set ?ready" for p
    using that set by auto
  then have "tk_priority r' < tk_priority r \<or> tk_priority r' = tk_priority r \<and> tk_created_at r \<le> tk_created_at r'"
    if "(tid', r') \<in> set ?ready" for tid' r'
    using that by (fastforce simp: queue_rank_def less_eq_prod_def)
  moreover have "(tid, r) \<in> set ?ready" using set by (metis list.set_intros(1))
  ultimately show ?thesis by auto
qed

text \<open>
  Claiming is all or nothing: without a claim the tables are as before. With one, the task was
  a due ready task of the queue with no candidate of higher priority, or as high and older; it is
  running now; the claim holds its three leases exactly until the time to live is over; and every
  lease of another owner that was live is still live, so nothing was taken from anyone.
\<close>

theorem claim_all_or_nothing:
  assumes "dict_ok (task_rows (xd_tasks db))"
    and "claim_ready now cfg queue uuid db = (db', oc)"
  shows "case oc of
      None \<Rightarrow> db' = db
    | Some c \<Rightarrow>
        (\<exists>r. get_task (cl_task_id c) (xd_tasks db) = Some r \<and> is_candidate now queue r \<and>
           (\<forall>(tid', r') \<in> set (task_rows (xd_tasks db)). is_candidate now queue r' \<longrightarrow>
              tk_priority r' < tk_priority r \<or>
              tk_priority r' = tk_priority r \<and> tk_created_at r \<le> tk_created_at r') \<and>
           get_task (cl_task_id c) (xd_tasks db') = Some (r\<lparr>tk_status := Running, tk_started_at := Some now\<rparr>)) \<and>
        (\<forall>u. executing u db' c \<longleftrightarrow> u < now + xc_ttl cfg) \<and>
        (\<forall>m. is_current now m (xd_leases db) \<and> owner_id m \<noteq> claim_owner c \<longrightarrow>
             is_current now m (xd_leases db'))"
proof (cases oc)
  case None
  with assms(2) show ?thesis
    by (auto simp: claim_ready_def Let_def split: option.splits if_splits prod.splits)
next
  case (Some c)
  with assms(2) have "claim_ready now cfg queue uuid db = (db', Some c)" by simp
  then show ?thesis
  proof (rule claim_ready_SomeD)
    fix tid r ls tkl gl al tasks'
    assume cand: "next_candidate now queue (xd_tasks db) = Some (tid, r)"
      and acq: "acquire_all now cfg (claim_owner_id cfg tid uuid) tid (tk_agent_id r) (xd_leases db) = Some (ls, tkl, gl, al)"
      and upd: "update_where tid (\<lambda>r. tk_status r = Ready)
        (\<lambda>r. r\<lparr>tk_status := Running, tk_started_at := Some now\<rparr>) (xd_tasks db) = (tasks', True)"
      and db': "db' = db\<lparr>xd_tasks := tasks', xd_leases := ls\<rparr>" and c: "c = make_claim tid r tkl gl al"
    note best = next_candidate_best [OF cand]
    have row: "get_task tid (xd_tasks db) = Some r"
      using best assms(1) by (auto simp: get_task_def dict_ok_def)
    then have "get_task tid tasks' = Some (r\<lparr>tk_status := Running, tk_started_at := Some now\<rparr>)"
      using upd by (auto simp: update_where_def get_task_def split: if_splits)
    moreover note acquire_all_leases [OF acq]
    then have "executing u db' c \<longleftrightarrow> u < now + xc_ttl cfg" for u
      by (auto simp: executing_def has_capacity_def claim_leases_def opt_list_def c make_claim_def db')
    moreover have "is_current now m ls" if "is_current now m (xd_leases db)" "owner_id m \<noteq> claim_owner c" for m
      using acquire_all_keeps_others [OF acq that(1)] that(2) acquire_all_leases [OF acq]
      by (simp add: c make_claim_def claim_owner_def)
    moreover have "cl_task_id c = tid" by (simp add: c make_claim_def)
    ultimately show ?thesis using Some row best by (simp add: db')
  qed
qed

theorem claim_all_or_nothing_witness:
  "\<exists>db' c r. claim_ready 0 demo_cfg ''default'' ''u1'' demo_exec = (db', Some c) \<and>
     get_task (cl_task_id c) (xd_tasks db') = Some r \<and> tk_status r = Running \<and> executing 59 db' c \<and>
     \<not> executing 60 db' c"
proof -
  from demo_claimed obtain db' c where claim: "claim_ready 0 demo_cfg ''default'' ''u1'' demo_exec = (db', Some c)"
    by blast
  have ok: "dict_ok (task_rows (xd_tasks demo_exec))" by (simp add: demo_exec_def dict_ok_def)
  from claim_all_or_nothing [OF ok claim] obtain r where
    "get_task (cl_task_id c) (xd_tasks db') = Some (r\<lparr>tk_status := Running, tk_started_at := Some 0\<rparr>)"
    and "\<forall>u. executing u db' c \<longleftrightarrow> u < 0 + xc_ttl demo_cfg" by auto
  with claim show ?thesis
    by (intro exI [of _ db'] exI [of _ c] exI [of _ "r\<lparr>tk_status := Running, tk_started_at := Some 0\<rparr>"])
      (simp add: demo_cfg_def)
qed

theorem one_worker_per_task_witness:
  "\<exists>(s :: exec_sys) c. xs_claims s = [c] \<and> snd (assert_current 10 \<lparr>fn_claim = c, fn_lost = False, fn_cancel = False, fn_terminal = None\<rparr> (xs_db s)) = Inr () \<and>
     claim_owner c = claim_owner c"
proof -
  from demo_exec_reach obtain s c where s: "reach exec_start (exec_step 2 1) s" "xs_claims s = [c]"
    "claim_ready 0 demo_cfg ''default'' ''u1'' demo_exec = (xs_db s, Some c)" by blast
  let ?f = "\<lparr>fn_claim = c, fn_lost = False, fn_cancel = False, fn_terminal = None\<rparr>"
  have pass: "snd (assert_current 10 ?f (xs_db s)) = Inr ()"
    using s(3)
  proof (rule claim_ready_SomeD)
    fix tid r ls tkl gl al tasks'
    assume cand: "next_candidate 0 ''default'' (xd_tasks demo_exec) = Some (tid, r)"
      and acq: "acquire_all 0 demo_cfg (claim_owner_id demo_cfg tid ''u1'') tid (tk_agent_id r) (xd_leases demo_exec) = Some (ls, tkl, gl, al)"
      and upd: "update_where tid (\<lambda>r. tk_status r = Ready)
        (\<lambda>r. r\<lparr>tk_status := Running, tk_started_at := Some 0\<rparr>) (xd_tasks demo_exec) = (tasks', True)"
      and db': "xs_db s = demo_exec\<lparr>xd_tasks := tasks', xd_leases := ls\<rparr>" and c: "c = make_claim tid r tkl gl al"
    have r: "tid = ''b''" "r = demo_task ''x'' 5" using cand demo_candidate by simp_all
    have "get_task ''b'' tasks' = Some (r\<lparr>tk_status := Running, tk_started_at := Some 0\<rparr>)"
      using upd unfolding r by (auto simp: update_where_def get_task_def demo_exec_def split: if_splits)
    then have "attempt_live c None tasks'"
      by (simp add: attempt_live_def c make_claim_def r attempt_or_one_def demo_task_def)
    moreover have "\<forall>l \<in> {tkl, gl, al}. is_current 10 l ls"
      using acquire_all_leases [OF acq] by (simp add: demo_cfg_def)
    ultimately show ?thesis
      by (simp add: assert_current_def db' claim_leases_def opt_list_def c make_claim_def Let_def)
  qed
  have mem: "fn_claim ?f \<in> set (xs_claims s)" using s(2) by simp
  from one_worker_per_task [OF s(1) mem mem refl pass pass] s(2) pass show ?thesis
    by (intro exI [of _ s] exI [of _ c]) simp
qed

end
