(* ===== verification/Task_Queue.thy ===== *)
theory Task_Queue
  imports Task_Execution
begin

section \<open>The task queue\<close>

text \<open>
  \<open>cognis/core/task_queue.py\<close>: the operations that move tasks through their lifecycle (submit, pause,
  resume, retry, revise, cancel), the resolution of dependencies, the recovery after a crash, and
  the ends of a run.

  An operation is a function on the tables of tasks and leases. A raised \<open>ValueError\<close> is \<open>Inl\<close> with
  its message; a transaction that raises before its commit leaves the tables as they were. Where an
  operation uses several transactions, what others commit in between is an argument \<open>other\<close>.
  Messages to the event bus, metrics and the coroutine of a run are not part of the state; a
  returned claim says that a run was launched with it.
\<close>

subsection \<open>Submitting\<close>

definition on_tasks :: "(task_db \<Rightarrow> task_db) \<Rightarrow> exec_db \<Rightarrow> exec_db" where
  "on_tasks f db = db\<lparr>xd_tasks := f (xd_tasks db)\<rparr>"

definition try_transition_to_ready :: "string \<Rightarrow> task_db \<Rightarrow> task_db \<times> bool" where
  "try_transition_to_ready tid db =
     (if get_unmet_dependencies tid True db = [] then update_task_status tid Ready no_values db
      else (db, False))"

definition reconcile_submitted :: "string \<Rightarrow> task_db \<Rightarrow> task_db \<times> task_row option" where
  "reconcile_submitted tid db =
     (case get_task tid db of
        None \<Rightarrow> (db, None)
      | Some r \<Rightarrow>
          if tk_status r = Queued
          then (let db' = fst (try_transition_to_ready tid db) in (db', get_task tid db'))
          else (db, Some r))"

definition submit_existing :: "string \<Rightarrow> task_db \<Rightarrow> task_db \<times> (string, task_row) result" where
  "submit_existing tid db =
     (case get_task tid db of
        None \<Rightarrow> (db, Inl ''Task not found'')
      | Some r \<Rightarrow>
          if tk_status r \<noteq> Draft then (db, Inl ''Only draft tasks can be submitted'')
          else (case update_task_status tid Queued no_values db of
                  (db1, False) \<Rightarrow> (db, Inl ''Task could not be submitted'')
                | (db1, True) \<Rightarrow> (fst (try_transition_to_ready tid db1), Inr (r\<lparr>tk_status := Queued\<rparr>))))"

fun batch_submit :: "string list \<Rightarrow> task_db \<Rightarrow> task_db \<times> (string \<times> (string, task_row) result) list" where
  "batch_submit [] db = (db, [])"
| "batch_submit (tid # tids) db =
     (let (db1, res) = submit_existing tid db; (db2, rest) = batch_submit tids db1
      in (db2, (tid, res) # rest))"

subsection \<open>Pausing and resuming\<close>

definition attempt_changed :: "string \<Rightarrow> int option \<Rightarrow> task_db \<Rightarrow> bool" where
  "attempt_changed tid expected db =
     (case expected of None \<Rightarrow> False | Some n \<Rightarrow> \<not> assert_task_attempt_current tid n db)"

definition ATTEMPT_CHANGED :: string where
  "ATTEMPT_CHANGED = ''Task attempt changed; refresh before mutating''"

definition pause_task :: "string \<Rightarrow> int option \<Rightarrow> task_db \<Rightarrow> task_db \<times> (string, task_row) result" where
  "pause_task tid expected db =
     (if attempt_changed tid expected db then (db, Inl ATTEMPT_CHANGED)
      else case get_task tid db of
        None \<Rightarrow> (db, Inl ''Task not found'')
      | Some r \<Rightarrow>
          if tk_status r \<noteq> Running then (db, Inl ''Only running tasks can be paused'')
          else (case update_task_status tid Paused no_values db of
                  (db1, False) \<Rightarrow> (db, Inl ''Task could not be paused'')
                | (db1, True) \<Rightarrow> (db1, Inr (r\<lparr>tk_status := Paused\<rparr>))))"

text \<open>
  What this controller knows of a task: an open gate or question, a run that has not ended, and
  whether that run was asked to stop.
\<close>

record local_run =
  lr_pending :: bool
  lr_active :: bool
  lr_stopping :: bool

definition NO_CAPACITY :: string where
  "NO_CAPACITY = ''No execution capacity available to resume the task''"

text \<open>The transaction that sets the status, in both branches of \<open>resume_task\<close>.\<close>

definition resume_status :: "string \<Rightarrow> int option \<Rightarrow> exec_db \<Rightarrow> (string, exec_db) result" where
  "resume_status tid expected db =
     (if attempt_changed tid expected (xd_tasks db) then Inl ATTEMPT_CHANGED
      else case update_task_status tid Running no_values (xd_tasks db) of
             (ts, False) \<Rightarrow> Inl ''Task could not be resumed''
           | (ts, True) \<Rightarrow> Inr (db\<lparr>xd_tasks := ts\<rparr>))"

definition resume_task ::
  "time \<Rightarrow> exec_config \<Rightarrow> string \<Rightarrow> local_run \<Rightarrow> (exec_db \<Rightarrow> exec_db) \<Rightarrow> (exec_db \<Rightarrow> exec_db) \<Rightarrow>
   string \<Rightarrow> int option \<Rightarrow> exec_db \<Rightarrow> exec_db \<times> (string, task_row \<times> claim option) result" where
  "resume_task now cfg uuid lr ending other tid expected db =
     (if lr_pending lr then (db, Inl ''Task is waiting for gate or step input response'')
      else if attempt_changed tid expected (xd_tasks db) then (db, Inl ATTEMPT_CHANGED)
      else case get_task tid (xd_tasks db) of
        None \<Rightarrow> (db, Inl ''Task not found'')
      | Some r \<Rightarrow>
          if tk_status r \<noteq> Paused then (db, Inl ''Only paused tasks can be resumed'')
          else if lr_active lr \<and> \<not> lr_stopping lr
          then (case resume_status tid expected db of
                  Inl e \<Rightarrow> (db, Inl e)
                | Inr db' \<Rightarrow> (db', Inr (r\<lparr>tk_status := Running\<rparr>, None)))
          else (case claim_paused now cfg tid uuid (if lr_active lr then ending db else db) of
              (db1, None) \<Rightarrow> (db1, Inl NO_CAPACITY)
            | (db1, Some c) \<Rightarrow>
                (case resume_status tid expected (other db1) of
                   Inl e \<Rightarrow> (release_claim now c (other db1), Inl e)
                 | Inr db' \<Rightarrow> (db', Inr (r\<lparr>tk_status := Running\<rparr>, Some c)))))"

subsection \<open>Retrying and revising\<close>

definition state_or_initial :: "workflow_state option \<Rightarrow> workflow_state" where
  "state_or_initial ws = (case ws of None \<Rightarrow> initial_workflow_state | Some s \<Rightarrow> s)"

definition cleared_result :: "task_row \<Rightarrow> task_row" where
  "cleared_result r = r\<lparr>tk_completed_at := None, tk_result_summary := None, tk_result_data := None\<rparr>"

definition retried_state :: "bool \<Rightarrow> workflow_state option \<Rightarrow> workflow_state" where
  "retried_state preserve ws =
     (state_or_initial ws)\<lparr>ws_loop_iterations := [], ws_resume_failed_step := preserve,
        ws_status := ''running'', ws_current_step_status := None, ws_pending_pause_type := None,
        ws_pending_pause_payload := None\<rparr>"

definition retried_row :: "bool \<Rightarrow> workflow_state \<Rightarrow> task_row \<Rightarrow> task_row" where
  "retried_row preserve ws r =
     (cleared_result r)\<lparr>tk_workflow_state := Some ws,
        tk_attempt_number := tk_attempt_number r + (if preserve then 0 else 1)\<rparr>"

text \<open>The transaction of a retry that has its claim.\<close>

definition retry_claimed ::
  "time \<Rightarrow> claim \<Rightarrow> workflow_state \<Rightarrow> bool \<Rightarrow> string \<Rightarrow> exec_db \<Rightarrow> exec_db \<times> (string, task_row \<times> claim) result" where
  "retry_claimed now c ws preserve tid db =
     (case get_task tid (xd_tasks db) of
        None \<Rightarrow> (release_claim now c db, Inl ''Task not found'')
      | Some r \<Rightarrow>
          (let r' = retried_row preserve ws r in
           case update_task_status tid Running no_values
                  ((xd_tasks db)\<lparr>task_rows := dict_put tid r' (task_rows (xd_tasks db))\<rparr>) of
             (ts, False) \<Rightarrow> (release_claim now c db, Inl ''Task could not be retried'')
           | (ts, True) \<Rightarrow>
               (db\<lparr>xd_tasks := ts\<rparr>,
                Inr (r'\<lparr>tk_status := Running\<rparr>, c\<lparr>cl_attempt_number := tk_attempt_number r'\<rparr>))))"

definition retry_failed_task ::
  "time \<Rightarrow> exec_config \<Rightarrow> string \<Rightarrow> (exec_db \<Rightarrow> exec_db) \<Rightarrow> string \<Rightarrow> bool \<Rightarrow> exec_db \<Rightarrow>
   exec_db \<times> (string, task_row \<times> claim) result" where
  "retry_failed_task now cfg uuid other tid preserve db =
     (case get_task tid (xd_tasks db) of
        None \<Rightarrow> (db, Inl ''Task not found'')
      | Some r \<Rightarrow>
          if tk_status r \<noteq> Failed then (db, Inl ''Only failed tasks can be retried via retry_failed_task'')
          else (case claim_existing now cfg tid [Failed] uuid db of
              (db1, None) \<Rightarrow> (db1, Inl ''Task execution ownership is unavailable'')
            | (db1, Some c) \<Rightarrow>
                retry_claimed now c (retried_state preserve (tk_workflow_state r)) preserve tid (other db1)))"

text \<open>
  A revision by a human. \<open>flow\<close> is the pinned workflow of the task or the one the registry has;
  \<open>other\<close> is what happens between the commit and the claim, the end of the former run included.
  The result is an \<open>IndexError\<close> where \<open>step_names[target_index]\<close> raises, after everything is done.
\<close>

record revision_result =
  rr_task :: task_row
  rr_target_step :: string
  rr_superseded_count :: nat
  rr_relaunched :: bool

definition revised_state :: "string list \<Rightarrow> nat \<Rightarrow> string \<Rightarrow> workflow_state \<Rightarrow> workflow_state" where
  "revised_state names target instruction ws =
     ws\<lparr>ws_current_step_index := int target, ws_status := ''running'', ws_current_step_status := None,
        ws_pending_pause_type := None, ws_pending_pause_payload := None,
        ws_last_operator_instruction := Some instruction, ws_last_revision_context := Some instruction,
        ws_step_outputs := fold dict_del (drop target names) (ws_step_outputs ws)\<rparr>"

definition revision_target :: "string list \<Rightarrow> string option \<Rightarrow> workflow_state \<Rightarrow> nat" where
  "revision_target names target ws =
     (case target of
        Some s \<Rightarrow> if s \<noteq> [] then length (takeWhile (\<lambda>n. n \<noteq> s) names)
                  else nat (max 0 (ws_current_step_index ws))
      | None \<Rightarrow> nat (max 0 (ws_current_step_index ws)))"

definition revise_row :: "string list \<Rightarrow> nat \<Rightarrow> string \<Rightarrow> task_row \<Rightarrow> task_row" where
  "revise_row names target instruction r =
     (cleared_result r)\<lparr>tk_attempt_number := attempt_or_one r + 1, tk_status := Running,
        tk_workflow_state := Some (revised_state names target instruction (state_or_initial (tk_workflow_state r)))\<rparr>"

definition revision_error :: "string option \<Rightarrow> workflow option \<Rightarrow> task_row \<Rightarrow> string option" where
  "revision_error target flow r =
     (if tk_status r = Cancelled then Some ''Cancelled tasks cannot be revised''
      else if tk_workflow_id r = None then Some ''Task has no workflow to revise''
      else case flow of
        None \<Rightarrow> Some ''Workflow not found''
      | Some w \<Rightarrow>
          if wf_steps w = [] then Some ''Workflow has no steps''
          else case target of
            Some s \<Rightarrow> if s \<noteq> [] \<and> s \<notin> st_name ` set (wf_steps w) then Some ''Target step not found'' else None
          | None \<Rightarrow> None)"

text \<open>The transaction of a revision: step runs superseded, row rewritten, lease invalidated.\<close>

definition commit_revision ::
  "time \<Rightarrow> string list \<Rightarrow> nat \<Rightarrow> string \<Rightarrow> string \<Rightarrow> task_row \<Rightarrow> exec_db \<Rightarrow> exec_db \<times> nat" where
  "commit_revision now names i instruction tid r db =
     (let r' = revise_row names i instruction r;
          (ts, n) = supersede_step_runs_for_revision tid (drop i names) (tk_attempt_number r') (xd_tasks db)
      in (\<lparr>xd_tasks = ts\<lparr>task_rows := dict_put tid r' (task_rows ts)\<rparr>,
           xd_leases = invalidate_task_lease now tid (xd_leases db)\<rparr>, n))"

definition request_revision ::
  "time \<Rightarrow> exec_config \<Rightarrow> string \<Rightarrow> workflow option \<Rightarrow> (exec_db \<Rightarrow> exec_db) \<Rightarrow> string \<Rightarrow> string option \<Rightarrow>
   string \<Rightarrow> int option \<Rightarrow> exec_db \<Rightarrow> exec_db \<times> claim option \<times> (string, revision_result) result" where
  "request_revision now cfg uuid flow other tid target instruction expected db =
     (if attempt_changed tid expected (xd_tasks db) then (db, None, Inl ATTEMPT_CHANGED)
      else case get_task tid (xd_tasks db) of
        None \<Rightarrow> (db, None, Inl ''Task not found'')
      | Some r \<Rightarrow>
          (case revision_error target flow r of
             Some e \<Rightarrow> (db, None, Inl e)
           | None \<Rightarrow>
               (let names = (case flow of None \<Rightarrow> [] | Some w \<Rightarrow> map st_name (wf_steps w));
                    i = revision_target names target (state_or_initial (tk_workflow_state r));
                    (db1, n) = commit_revision now names i instruction tid r db;
                    (db2, oc) = claim_existing now cfg tid [Running] uuid (other db1)
                in (db2, oc,
                    if i < length names
                    then Inr \<lparr>rr_task = revise_row names i instruction r, rr_target_step = names ! i, rr_superseded_count = n,
                              rr_relaunched = (oc \<noteq> None)\<rparr>
                    else Inl ''IndexError''))))"

subsection \<open>Cancelling\<close>

definition cancelled_state :: "workflow_state \<Rightarrow> workflow_state" where
  "cancelled_state ws = ws\<lparr>ws_status := ''cancelled'', ws_current_step_status := None,
     ws_pending_pause_type := None, ws_pending_pause_payload := None, ws_version := ws_version ws + 1\<rparr>"

definition clear_interaction :: "string \<Rightarrow> task_db \<Rightarrow> task_db" where
  "clear_interaction tid db = fst (update_where tid (\<lambda>_. True)
     (\<lambda>r. r\<lparr>tk_workflow_state := map_option cancelled_state (tk_workflow_state r)\<rparr>) db)"

definition cancel_task ::
  "time \<Rightarrow> string \<Rightarrow> int option \<Rightarrow> exec_db \<Rightarrow> exec_db \<times> (string, task_row) result" where
  "cancel_task now tid expected db =
     (if attempt_changed tid expected (xd_tasks db) then (db, Inl ATTEMPT_CHANGED)
      else case get_task tid (xd_tasks db) of
        None \<Rightarrow> (db, Inl ''Task not found'')
      | Some r \<Rightarrow>
          if tk_status r \<in> {Completed, Failed} then (db, Inr r)
          else if tk_status r = Cancelled
          then (on_tasks (clear_interaction tid) db,
                Inr (r\<lparr>tk_workflow_state := map_option cancelled_state (tk_workflow_state r)\<rparr>))
          else (case update_task_status tid Cancelled
                       (no_values\<lparr>v_completed_at := Some now, v_expected_attempt := expected\<rparr>) (xd_tasks db) of
                  (ts, False) \<Rightarrow> (db, Inl ''Task could not be cancelled'')
                | (ts, True) \<Rightarrow>
                    (\<lparr>xd_tasks = clear_interaction tid (fail_running_step_runs_for_task tid Run_Cancelled ts),
                      xd_leases = invalidate_task_lease now tid (xd_leases db)\<rparr>,
                     Inr (r\<lparr>tk_status := Cancelled, tk_completed_at := Some now,
                            tk_workflow_state := map_option cancelled_state (tk_workflow_state r)\<rparr>))))"

subsection \<open>Dependencies of a finished task\<close>

text \<open>One dependent of a finished task: whether it became ready.\<close>

definition resolve_dependent :: "string \<Rightarrow> task_db \<Rightarrow> task_db \<times> bool" where
  "resolve_dependent dep_id db =
     (let unmet = get_unmet_dependencies dep_id True db
      in if unmet = [] then update_task_status dep_id Ready no_values db
         else if list_ex (\<lambda>d. dep_required d \<and>
                 (case get_task (dep_depends_on d) db of
                    None \<Rightarrow> False | Some r \<Rightarrow> tk_status r \<in> {Failed, Cancelled})) unmet
         then (fst (update_task_status dep_id Paused no_values db), False)
         else (db, False))"

fun resolve_dependents :: "string list \<Rightarrow> task_db \<Rightarrow> task_db \<times> string list" where
  "resolve_dependents [] db = (db, [])"
| "resolve_dependents (d # ds) db =
     (let (db1, ok) = resolve_dependent d db; (db2, rest) = resolve_dependents ds db1
      in (db2, if ok then d # rest else rest))"

definition fence_check :: "time \<Rightarrow> fence option \<Rightarrow> exec_db \<Rightarrow> (fence_error, unit) result" where
  "fence_check now f db = (case f of None \<Rightarrow> Inr () | Some f \<Rightarrow> snd (assert_current now f db))"

definition resolve_dependencies ::
  "time \<Rightarrow> fence option \<Rightarrow> string \<Rightarrow> exec_db \<Rightarrow> exec_db \<times> (fence_error, string list) result" where
  "resolve_dependencies now f tid db =
     (case fence_check now f db of
        Inl e \<Rightarrow> (db, Inl e)
      | Inr _ \<Rightarrow>
          (let (ts, ready) = resolve_dependents (get_dependent_tasks tid (xd_tasks db)) (xd_tasks db)
           in (db\<lparr>xd_tasks := ts\<rparr>, Inr ready)))"

subsection \<open>Recovery after a crash\<close>

datatype recovery =
    Safe_Before_Tool_Dispatch
  | Recoverable_Persisted_Output
  | Retry_Read_Only_Tool
  | Ambiguous_Tool_Execution
  | Recoverable_Completed_Tool_Calls

fun recovery_value :: "recovery \<Rightarrow> string" where
  "recovery_value Safe_Before_Tool_Dispatch = ''safe_before_tool_dispatch''"
| "recovery_value Recoverable_Persisted_Output = ''recoverable_persisted_deterministic_output''"
| "recovery_value Retry_Read_Only_Tool = ''retry_read_only_deterministic_tool''"
| "recovery_value Ambiguous_Tool_Execution = ''ambiguous_tool_execution''"
| "recovery_value Recoverable_Completed_Tool_Calls = ''recoverable_completed_tool_calls''"

definition dict_of :: "pyval \<Rightarrow> (string \<times> pyval) list" where
  "dict_of v = (case v of VDict d \<Rightarrow> d | _ \<Rightarrow> [])"

definition event_call_id :: "pyval \<Rightarrow> string option" where
  "event_call_id ev =
     (case dict_get (dict_of (dict_get (dict_of ev) ''data'')) ''call_id'' of
        VStr s \<Rightarrow> if s = [] then None else Some s
      | _ \<Rightarrow> None)"

definition event_type :: "pyval \<Rightarrow> pyval" where
  "event_type ev = dict_get (dict_of ev) ''type''"

definition tool_name :: "pyval \<Rightarrow> pyval" where
  "tool_name ev =
     (let data = dict_of (dict_get (dict_of ev) ''data'')
      in if truthy (dict_get data ''name'') then dict_get data ''name'' else dict_get data ''tool_name'')"

text \<open>The loop over the events of the session: the calls with their tools, and the results.\<close>

fun collect_calls ::
  "pyval list \<Rightarrow> (string \<times> pyval) list \<Rightarrow> string list \<Rightarrow> (string \<times> pyval) list \<times> string list" where
  "collect_calls [] calls results = (calls, results)"
| "collect_calls (ev # evs) calls results =
     (case event_call_id ev of
        None \<Rightarrow> collect_calls evs calls results
      | Some cid \<Rightarrow>
          if event_type ev = VStr ''tool_call'' then collect_calls evs (dict_put cid (tool_name ev) calls) results
          else if event_type ev = VStr ''tool_result'' then collect_calls evs calls (cid # results)
          else collect_calls evs calls results)"

text \<open>
  \<open>history\<close> gives the tool events of a guardrails session, all pages together and without the
  entries that are not dictionaries; \<open>None\<close> stands for no provider, a failed read, and a read
  that fell back from a missing stream.
\<close>

definition deterministic_recovery :: "run_row \<Rightarrow> (string \<times> pyval) list \<Rightarrow> recovery \<times> (string \<times> pyval) list" where
  "deterministic_recovery sr ri =
     (let sub = dict_get ri ''deterministic_substate'';
          details = [(''step_run_id'', VStr (sr_step_run_id sr)), (''step_type'', VStr (sr_step_type sr)),
                     (''substate'', sub), (''tool_name'', dict_get ri ''tool_name''),
                     (''call_identity'', dict_get ri ''call_identity'')]
      in if sub = VStr ''persisted'' \<and> is_dict (sr_output sr) then (Recoverable_Persisted_Output, details)
         else if sub = VNone \<or> sub = VStr ''rendering'' then (Safe_Before_Tool_Dispatch, details)
         else if sub = VStr ''executing'' \<and> dict_get ri ''tool_read_only'' = VBool True
         then (Retry_Read_Only_Tool, details)
         else (Ambiguous_Tool_Execution,
               details @ [(''reason'', VStr ''ambiguous_deterministic_tool_dispatch'')]))"

definition classify_crash_recovery ::
  "(string \<Rightarrow> pyval list option) \<Rightarrow> string \<Rightarrow> task_db \<Rightarrow> recovery \<times> (string \<times> pyval) list" where
  "classify_crash_recovery history tid db =
     (case find_first (\<lambda>sr. sr_status sr = Run_Running) (rev (list_step_runs_for_task tid db)) of
        None \<Rightarrow> (Safe_Before_Tool_Dispatch, [])
      | Some sr \<Rightarrow>
          (let ri = dict_of (sr_runtime_info sr); sid = [(''step_run_id'', VStr (sr_step_run_id sr))] in
           if dict_get ri ''deterministic_step'' = VBool True then deterministic_recovery sr ri
           else case sr_intaris_session_id sr of
             None \<Rightarrow> (Safe_Before_Tool_Dispatch, sid)
           | Some s \<Rightarrow>
               if s = [] then (Safe_Before_Tool_Dispatch, sid)
               else (case history s of
                  None \<Rightarrow> (Ambiguous_Tool_Execution, sid @ [(''reason'', VStr ''tool_event_history_unavailable'')])
                | Some evs \<Rightarrow>
                    (let (calls, results) = collect_calls evs [] [] in
                     case find_first (\<lambda>(cid, name). cid \<notin> set results) calls of
                       Some (cid, name) \<Rightarrow>
                         (Ambiguous_Tool_Execution, sid @ [(''call_id'', VStr cid), (''tool_name'', name)])
                     | None \<Rightarrow>
                         (if calls \<noteq> [] then Recoverable_Completed_Tool_Calls else Safe_Before_Tool_Dispatch, sid)))))"

definition RECOVERY_STOPPED :: string where
  "RECOVERY_STOPPED = ''Workflow recovery stopped because a tool call may have '' @
     ''completed without a durable result; it was not replayed.''"

text \<open>
  One running task found by the sweep: \<open>None\<close> when it is left alone, otherwise what it was
  classified as and the claim of the run that was launched, if any.
\<close>

definition recover_stale_task ::
  "time \<Rightarrow> exec_config \<Rightarrow> (string \<Rightarrow> pyval list option) \<Rightarrow> bool \<Rightarrow> string \<Rightarrow> string \<Rightarrow> exec_db \<Rightarrow>
   exec_db \<times> (fence_error, (recovery \<times> claim option) option) result" where
  "recover_stale_task now cfg history active uuid tid db =
     (if active then (db, Inr None)
      else case claim_existing now cfg tid [Running] uuid db of
        (db1, None) \<Rightarrow> (db1, Inr None)
      | (db1, Some c) \<Rightarrow>
          (let (cls, details) = classify_crash_recovery history tid (xd_tasks db1) in
           if cls = Ambiguous_Tool_Execution
           then (case snd (assert_current now \<lparr>fn_claim = c, fn_lost = False, fn_cancel = False, fn_terminal = None\<rparr> db1) of
                   Inl e \<Rightarrow> (db1, Inl e)
                 | Inr _ \<Rightarrow>
                     (let ts = fail_running_step_runs_for_task tid Run_Failed (xd_tasks db1);
                          ts' = fst (update_task_status tid Failed
                            (no_values\<lparr>v_completed_at := Some now, v_result_summary := Some RECOVERY_STOPPED,
                               v_result_data := Some (VDict
                                 ((''recovery_classification'', VStr (recovery_value cls)) # details))\<rparr>) ts)
                      in (release_claim now c (db1\<lparr>xd_tasks := ts'\<rparr>), Inr (Some (cls, None)))))
           else (db1, Inr (Some (cls, Some c)))))"

fun recover_stale ::
  "time \<Rightarrow> exec_config \<Rightarrow> (string \<Rightarrow> pyval list option) \<Rightarrow> (string \<Rightarrow> bool) \<Rightarrow> (string \<Rightarrow> string) \<Rightarrow>
   string list \<Rightarrow> exec_db \<Rightarrow> exec_db \<times> claim list \<times> (fence_error, string list) result" where
  "recover_stale now cfg history active uuid [] db = (db, [], Inr [])"
| "recover_stale now cfg history active uuid (tid # tids) db =
     (case recover_stale_task now cfg history (active tid) (uuid tid) tid db of
        (db1, Inl e) \<Rightarrow> (db1, [], Inl e)
      | (db1, Inr res) \<Rightarrow>
          (case recover_stale now cfg history active uuid tids db1 of
             (db2, launched, Inl e) \<Rightarrow>
               (db2, (case res of Some (_, oc) \<Rightarrow> opt_list oc | None \<Rightarrow> []) @ launched, Inl e)
           | (db2, launched, Inr rest) \<Rightarrow>
               (db2, (case res of Some (_, oc) \<Rightarrow> opt_list oc | None \<Rightarrow> []) @ launched,
                Inr (if res = None then rest else tid # rest))))"

definition recover_stale_tasks ::
  "time \<Rightarrow> exec_config \<Rightarrow> (string \<Rightarrow> pyval list option) \<Rightarrow> (string \<Rightarrow> bool) \<Rightarrow> (string \<Rightarrow> string) \<Rightarrow>
   exec_db \<Rightarrow> exec_db \<times> claim list \<times> (fence_error, string list) result" where
  "recover_stale_tasks now cfg history active uuid db =
     recover_stale now cfg history active uuid
       (map fst (list_tasks_by_status [Running] 1000 (xd_tasks db))) db"

definition launch_recovered_paused_task ::
  "time \<Rightarrow> exec_config \<Rightarrow> bool \<Rightarrow> string \<Rightarrow> string \<Rightarrow> exec_db \<Rightarrow> exec_db \<times> claim option" where
  "launch_recovered_paused_task now cfg active uuid tid db =
     (if active then (db, None) else claim_paused now cfg tid uuid db)"

definition recover_orphaned_running_step_runs :: "task_db \<Rightarrow> task_db" where
  "recover_orphaned_running_step_runs db = fail_orphaned_running_step_runs Run_Failed db"

subsection \<open>The ends of a run\<close>

text \<open>
  A run that raises, or whose workflow is unknown, fails its task if it still owns it; a cancelled
  run closes the step runs it leaves. The fence is closed in every case.
\<close>

definition fail_run :: "time \<Rightarrow> fence \<Rightarrow> int \<Rightarrow> string \<Rightarrow> exec_db \<Rightarrow> exec_db \<times> (fence_error, unit) result" where
  "fail_run now f attempt summary db =
     (let f' = mark_terminal Failed f; tid = cl_task_id (fn_claim f) in
      case snd (assert_current now f' db) of
        Inl e \<Rightarrow> (close_fence now f' db, Inl e)
      | Inr _ \<Rightarrow>
          (close_fence now f' (on_tasks (\<lambda>ts. fst (update_task_status tid Failed
             (no_values\<lparr>v_result_summary := Some summary, v_completed_at := Some now,
                v_expected_attempt := Some attempt\<rparr>) ts)) db), Inr ()))"

definition interrupted_run_status :: "task_status option \<Rightarrow> run_status" where
  "interrupted_run_status st =
     (case st of Some Cancelled \<Rightarrow> Run_Cancelled | Some Paused \<Rightarrow> Run_Paused | _ \<Rightarrow> Run_Failed)"

definition interrupt_run :: "time \<Rightarrow> fence \<Rightarrow> exec_db \<Rightarrow> exec_db" where
  "interrupt_run now f db =
     (let tid = cl_task_id (fn_claim f) in
      case snd (assert_current now f db) of
        Inl e \<Rightarrow> close_fence now f db
      | Inr _ \<Rightarrow>
          close_fence now f (on_tasks (\<lambda>ts. fail_running_step_runs_for_task tid
            (interrupted_run_status (map_option tk_status (get_task tid ts))) ts) db))"

subsection \<open>The lifecycle as a specification\<close>

text \<open>
  What a client may rely on about one task, given by its status and attempt number: the transitions
  of the store, the deferral of a running task, a fresh attempt after a failure, and a revision.
  \<open>keeps_lifecycle\<close> says that every task moved along this graph.
\<close>

inductive life :: "task_status \<times> int \<Rightarrow> task_status \<times> int \<Rightarrow> bool" where
  advance: "s' \<in> set (valid_transitions s) \<Longrightarrow> life (s, n) (s', n)"
| deferral: "life (Running, n) (Ready, n)"
| fresh_attempt: "Running \<in> set (valid_transitions s) \<Longrightarrow> life (s, n) (Running, n + 1)"
| revision: "s \<noteq> Cancelled \<Longrightarrow> life (s, n) (Running, (if n = 0 then 1 else n) + 1)"

definition life_of :: "task_row \<Rightarrow> task_status \<times> int" where
  "life_of r = (tk_status r, tk_attempt_number r)"

definition keeps_lifecycle :: "task_db \<Rightarrow> task_db \<Rightarrow> bool" where
  "keeps_lifecycle db db' \<longleftrightarrow>
     (\<forall>tid. rel_option life\<^sup>*\<^sup>* (map_option life_of (get_task tid db)) (map_option life_of (get_task tid db')))"

definition exec_keeps :: "exec_db \<Rightarrow> exec_db \<Rightarrow> bool" where
  "exec_keeps db db' \<longleftrightarrow> keeps_lifecycle (xd_tasks db) (xd_tasks db')"

named_theorems keeps \<open>statements and operations keep to the lifecycle\<close>

lemma keeps_same_life:
  "(\<And>tid. map_option life_of (get_task tid db) = map_option life_of (get_task tid db')) \<Longrightarrow>
   keeps_lifecycle db db'"
  unfolding keeps_lifecycle_def by (auto intro!: option.rel_refl)

lemma keeps_refl [keeps]: "keeps_lifecycle db db"
  by (rule keeps_same_life) (rule refl)

lemma keeps_trans [trans]: "keeps_lifecycle a b \<Longrightarrow> keeps_lifecycle b c \<Longrightarrow> keeps_lifecycle a c"
  unfolding keeps_lifecycle_def using option.rel_transp [OF transp_rtranclp [of life]]
  by (blast dest: transpD)

lemma keeps_update_where:
  assumes "\<And>r. get_task tid db = Some r \<Longrightarrow> cond r \<Longrightarrow> life\<^sup>*\<^sup>* (life_of r) (life_of (f r))"
  shows "keeps_lifecycle db (fst (update_where tid cond f db))"
  using assms
  by (auto simp: keeps_lifecycle_def update_where_def get_task_def option.rel_refl split: option.splits)

lemma keeps_put:
  assumes "get_task tid db = Some r" and "life\<^sup>*\<^sup>* (life_of r) (life_of r')" and "task_rows db' = dict_put tid r' (task_rows db)"
  shows "keeps_lifecycle db db'"
  using assms by (auto simp: keeps_lifecycle_def get_task_def option.rel_refl)

lemma get_task_runs [simp]: "get_task tid (db\<lparr>run_rows := x\<rparr>) = get_task tid db"
  by (simp add: get_task_def)

lemma keeps_runs [keeps]: "keeps_lifecycle db db' \<Longrightarrow> keeps_lifecycle db (db'\<lparr>run_rows := x\<rparr>)"
  by (simp add: keeps_lifecycle_def)

lemma keeps_set_runs [keeps]:
  "keeps_lifecycle db db' \<Longrightarrow> keeps_lifecycle db (set_runs tid sts st db')"
  "keeps_lifecycle db db' \<Longrightarrow> keeps_lifecycle db (fail_running_step_runs_for_task tid final db')"
  by (simp_all add: set_runs_def fail_running_step_runs_for_task_def keeps_runs)

lemma keeps_status [keeps]: "keeps_lifecycle db (fst (update_task_status tid st v db))"
  unfolding update_task_status_def
  by (rule keeps_update_where) (auto simp: life_of_def intro!: r_into_rtranclp life.advance)

lemma keeps_statusD: "update_task_status tid st v db = (db', ok) \<Longrightarrow> keeps_lifecycle db db'"
  using keeps_status [of db tid st v] by simp

lemma keeps_defer [keeps]: "keeps_lifecycle db (fst (defer_running_task tid t ws sm db))"
  unfolding defer_running_task_def
  by (rule keeps_update_where) (auto simp: life_of_def intro!: r_into_rtranclp life.deferral)

lemma keeps_infrastructure [keeps]:
  "keeps_lifecycle db (fst (pause_running_task_for_infrastructure tid ws sm db))"
proof -
  have "keeps_lifecycle db (fst (update_where tid (\<lambda>r. tk_status r = Running)
      (\<lambda>r. r\<lparr>tk_status := Paused, tk_workflow_state := Some ws, tk_result_summary := Some sm\<rparr>) db))"
    by (rule keeps_update_where) (auto simp: life_of_def intro!: r_into_rtranclp life.advance)
  then show ?thesis
    by (auto simp: pause_running_task_for_infrastructure_def keeps split: prod.splits)
qed

lemma keeps_columns [keeps]:
  "keeps_lifecycle db (fst (update_task_workflow_state tid ws e db))"
  "keeps_lifecycle db (fst (update_task_fields tid f db))"
  "keeps_lifecycle db (fst (claim_task_control_conversation tid cid now db))"
  "keeps_lifecycle db (fst (clear_task_control_conversation_claim tid cid db))"
  "keeps_lifecycle db (fst (clear_stale_task_control_conversation_claim tid cid now db))"
  "keeps_lifecycle db (fst (mark_task_control_conversation_ready tid cid db))"
  by (auto simp: task_defs life_of_def intro!: keeps_refl keeps_update_where)

lemma keeps_dependencies [keeps]:
  "add_task_dependency tid dep req db = Inr db' \<Longrightarrow> keeps_lifecycle db db'"
  "keeps_lifecycle db (fst (remove_task_dependency tid dep db))"
  by (auto simp: add_task_dependency_def remove_task_dependency_def get_task_def Let_def
      intro!: keeps_same_life split: if_splits)

subsection \<open>The operations refine the lifecycle\<close>

lemma keeps_ready [keeps]: "keeps_lifecycle db (fst (try_transition_to_ready tid db))"
  by (simp add: try_transition_to_ready_def keeps)

lemma keeps_reconcile: "keeps_lifecycle db (fst (reconcile_submitted tid db))"
  by (auto simp: reconcile_submitted_def keeps Let_def split: option.splits)

lemma keeps_submit: "keeps_lifecycle db (fst (submit_existing tid db))"
  by (auto simp: submit_existing_def keeps split: option.splits prod.splits bool.splits
      dest!: keeps_statusD intro: keeps_trans)

lemma keeps_batch: "keeps_lifecycle db (fst (batch_submit tids db))"
proof (induction tids db rule: batch_submit.induct)
  case (2 tid tids db)
  then show ?case
    using keeps_submit [of db tid] by (auto split: prod.splits intro: keeps_trans)
qed (simp add: keeps)

lemma keeps_pause: "keeps_lifecycle db (fst (pause_task tid e db))"
  by (auto simp: pause_task_def keeps split: option.splits prod.splits bool.splits dest!: keeps_statusD)

lemma exec_keeps_refl [keeps]: "exec_keeps db db"
  by (simp add: exec_keeps_def keeps)

lemma exec_keeps_trans [trans]: "exec_keeps a b \<Longrightarrow> exec_keeps b c \<Longrightarrow> exec_keeps a c"
  unfolding exec_keeps_def by (rule keeps_trans)

lemma exec_keeps_tasks: "keeps_lifecycle (xd_tasks db) ts \<Longrightarrow> exec_keeps db (db\<lparr>xd_tasks := ts\<rparr>)"
  by (simp add: exec_keeps_def)

lemma claim_existing_tasks [simp]: "xd_tasks (fst (claim_existing now cfg tid sts uuid db)) = xd_tasks db"
  by (auto simp: claim_existing_def split: option.splits prod.splits)

lemma release_claim_tasks [simp]: "xd_tasks (release_claim now c db) = xd_tasks db"
  by (simp add: release_claim_def)

lemma claim_existing_tasksD: "claim_existing now cfg tid sts uuid db = (db', oc) \<Longrightarrow> xd_tasks db' = xd_tasks db"
  using claim_existing_tasks [of now cfg tid sts uuid db] by simp

lemma exec_keeps_claim_ready: "exec_keeps db (fst (claim_ready now cfg queue uuid db))"
proof -
  have "keeps_lifecycle ts (fst (update_where tid (\<lambda>r. tk_status r = Ready)
      (\<lambda>r. r\<lparr>tk_status := Running, tk_started_at := Some now\<rparr>) ts))" for tid ts
    by (rule keeps_update_where) (auto simp: life_of_def intro!: r_into_rtranclp life.advance)
  then show ?thesis
    by (auto simp: claim_ready_def exec_keeps_def keeps Let_def split: option.splits prod.splits)
      (metis fst_conv)
qed

lemma exec_keeps_claim_existing: "exec_keeps db (fst (claim_existing now cfg tid sts uuid db))"
  by (simp add: exec_keeps_def keeps)

lemma exec_keeps_resume_status: "resume_status tid e db = Inr db' \<Longrightarrow> exec_keeps db db'"
  by (auto simp: resume_status_def exec_keeps_def split: if_splits prod.splits bool.splits dest: keeps_statusD)

lemma exec_keeps_resume:
  assumes "\<And>d. exec_keeps d (ending d)" and "\<And>d. exec_keeps d (other d)"
  shows "exec_keeps db (fst (resume_task now cfg uuid lr ending other tid e db))"
proof -
  let ?db1 = "if lr_active lr then ending db else db"
  have "exec_keeps db ?db1" using assms(1) by (simp add: keeps)
  also note exec_keeps_claim_existing [of ?db1 now cfg tid "[Paused]" uuid]
  finally have claimed: "exec_keeps db (fst (claim_paused now cfg tid uuid ?db1))"
    by (simp only: claim_paused_def)
  also note assms(2)
  finally have before: "exec_keeps db (other (fst (claim_paused now cfg tid uuid ?db1)))" .
  then have released: "exec_keeps db (release_claim now c (other (fst (claim_paused now cfg tid uuid ?db1))))" for c
    by (simp add: exec_keeps_def)
  have resumed: "resume_status tid e (other (fst (claim_paused now cfg tid uuid ?db1))) = Inr db' \<Longrightarrow> exec_keeps db db'" for db'
    by (rule exec_keeps_trans [OF before exec_keeps_resume_status])
  obtain db1 oc where c: "claim_paused now cfg tid uuid ?db1 = (db1, oc)" by fastforce
  have "exec_keeps db (fst (case resume_status tid e (other db1) of
      Inl e \<Rightarrow> (release_claim now c (other db1), Inl e) | Inr db' \<Rightarrow> (db', Inr (r, Some c))))" for c and r :: task_row
    using released [of c] resumed c by (simp split: sum.split)
  moreover have "exec_keeps db (fst (case resume_status tid e db of
      Inl e \<Rightarrow> (db, Inl e) | Inr db' \<Rightarrow> (db', Inr (r, None :: claim option))))" for r :: task_row
    using exec_keeps_resume_status by (simp add: keeps split: sum.split)
  moreover have "exec_keeps db db1" using claimed c by simp
  ultimately show ?thesis
    unfolding resume_task_def c by (simp add: keeps split: option.split)
qed

lemma keeps_retried:
  assumes "get_task tid ts = Some r"
    and "update_task_status tid Running no_values (ts\<lparr>task_rows := dict_put tid (retried_row preserve ws r) (task_rows ts)\<rparr>) = (ts', True)"
  shows "keeps_lifecycle ts ts'"
proof -
  from assms(2) obtain r0 r' where "get_task tid (ts\<lparr>task_rows := dict_put tid (retried_row preserve ws r) (task_rows ts)\<rparr>) = Some r0"
      "Running \<in> set (valid_transitions (tk_status r0))" "tk_status r' = Running" "tk_attempt_number r' = tk_attempt_number r0"
    and ts': "ts' = ts\<lparr>task_rows := dict_put tid r' (dict_put tid (retried_row preserve ws r) (task_rows ts))\<rparr>"
    by (rule update_task_statusE) simp
  then have "life (life_of r) (life_of r')"
    using life.advance [of Running "tk_status r"] life.fresh_attempt [of "tk_status r"]
    by (auto simp: life_of_def get_task_def retried_row_def cleared_result_def split: if_splits)
  with assms(1) show ?thesis
    by (auto simp: keeps_lifecycle_def get_task_def option.rel_refl ts')
qed

lemma exec_keeps_retry_claimed: "exec_keeps db (fst (retry_claimed now c ws preserve tid db))"
  using keeps_retried [of tid "xd_tasks db"]
  by (auto simp: retry_claimed_def exec_keeps_def keeps Let_def split: option.splits prod.splits bool.splits)

lemma exec_keeps_retry:
  assumes "\<And>d. exec_keeps d (other d)"
  shows "exec_keeps db (fst (retry_failed_task now cfg uuid other tid preserve db))"
proof -
  let ?db1 = "fst (claim_existing now cfg tid [Failed] uuid db)"
  have "exec_keeps db (fst (retry_claimed now c ws preserve tid (other ?db1)))" for c ws
    by (rule exec_keeps_trans [OF exec_keeps_trans [OF exec_keeps_claim_existing assms] exec_keeps_retry_claimed])
  with exec_keeps_claim_existing [of db now cfg tid "[Failed]" uuid] show ?thesis
    by (auto simp: retry_failed_task_def keeps split: option.splits prod.splits)
qed

lemma keeps_revised:
  assumes "get_task tid ts = Some r" and "tk_status r \<noteq> Cancelled"
  shows "keeps_lifecycle ts (ts'\<lparr>task_rows := dict_put tid (revise_row names i ins r) (task_rows ts)\<rparr>)"
  using assms life.revision [of "tk_status r" "tk_attempt_number r"]
  by (auto simp: keeps_lifecycle_def get_task_def option.rel_refl life_of_def revise_row_def attempt_or_one_def
      cleared_result_def)

lemma supersede_rows [simp]: "task_rows (fst (supersede_step_runs_for_revision tid ns n db)) = task_rows db"
  by (simp add: supersede_step_runs_for_revision_def Let_def)

lemma exec_keeps_commit:
  assumes "get_task tid (xd_tasks db) = Some r" and "tk_status r \<noteq> Cancelled"
  shows "exec_keeps db (fst (commit_revision now names i ins tid r db))"
  using keeps_revised [OF assms] by (simp add: exec_keeps_def commit_revision_def Let_def case_prod_beta)

lemma commit_revision_row:
  "get_task tid (xd_tasks (fst (commit_revision now names i ins tid r db))) = Some (revise_row names i ins r)"
  by (simp add: commit_revision_def Let_def case_prod_beta get_task_def)

text \<open>A revision either changes nothing, or commits and then claims.\<close>

lemma request_revisionE:
  assumes "request_revision now cfg uuid flow other tid target ins e db = (db', oc, res)"
  obtains (refused) "db' = db" "oc = None" "\<exists>m. res = Inl m"
  | (committed) r names i where "get_task tid (xd_tasks db) = Some r" "tk_status r \<noteq> Cancelled"
      "claim_existing now cfg tid [Running] uuid (other (fst (commit_revision now names i ins tid r db))) = (db', oc)"
proof (cases "attempt_changed tid e (xd_tasks db) \<or> get_task tid (xd_tasks db) = None")
  case True
  with assms refused show thesis by (auto simp: request_revision_def split: if_splits)
next
  case False
  then obtain r where r: "get_task tid (xd_tasks db) = Some r" by blast
  show thesis
  proof (cases "revision_error target flow r")
    case None
    then have live: "tk_status r \<noteq> Cancelled" by (auto simp: revision_error_def split: if_splits)
    let ?names = "case flow of None \<Rightarrow> [] | Some w \<Rightarrow> map st_name (wf_steps w)"
    let ?i = "revision_target ?names target (state_or_initial (tk_workflow_state r))"
    have "claim_existing now cfg tid [Running] uuid (other (fst (commit_revision now ?names ?i ins tid r db))) = (db', oc)"
      using assms False r None by (simp add: request_revision_def Let_def case_prod_beta prod_eq_iff)
    then show thesis by (rule committed [OF r live])
  next
    case (Some err)
    with assms False r refused show thesis by (auto simp: request_revision_def)
  qed
qed

lemma exec_keeps_revision:
  assumes "\<And>d. exec_keeps d (other d)"
  shows "exec_keeps db (fst (request_revision now cfg uuid flow other tid target ins e db))"
proof -
  obtain db' oc res where req: "request_revision now cfg uuid flow other tid target ins e db = (db', oc, res)"
    by (metis prod_cases3)
  then show ?thesis
  proof (cases rule: request_revisionE)
    case (committed r names i)
    then have "exec_keeps db (fst (claim_existing now cfg tid [Running] uuid
        (other (fst (commit_revision now names i ins tid r db)))))"
      using exec_keeps_trans [OF exec_keeps_trans [OF exec_keeps_commit assms] exec_keeps_claim_existing] by blast
    with committed(3) req show ?thesis by simp
  qed (use req in \<open>simp add: keeps\<close>)
qed

lemma keeps_clear_interaction: "keeps_lifecycle db (clear_interaction tid db)"
  unfolding clear_interaction_def by (rule keeps_update_where) (simp add: life_of_def)

lemma exec_keeps_cancel: "exec_keeps db (fst (cancel_task now tid e db))"
proof -
  obtain ts ok where up: "update_task_status tid Cancelled
      (no_values\<lparr>v_completed_at := Some now, v_expected_attempt := e\<rparr>) (xd_tasks db) = (ts, ok)" by fastforce
  have "keeps_lifecycle (xd_tasks db) (fail_running_step_runs_for_task tid Run_Cancelled ts)"
    by (rule keeps_set_runs) (rule keeps_statusD [OF up])
  from keeps_trans [OF this keeps_clear_interaction] keeps_clear_interaction show ?thesis
    by (cases ok) (simp_all add: cancel_task_def up exec_keeps_def keeps on_tasks_def split: option.split)
qed

lemma keeps_resolve_dependent: "keeps_lifecycle db (fst (resolve_dependent d db))"
  by (simp add: resolve_dependent_def keeps Let_def)

lemma keeps_resolve_dependents: "keeps_lifecycle db (fst (resolve_dependents ds db))"
proof (induction ds db rule: resolve_dependents.induct)
  case (2 d ds db)
  then show ?case
    using keeps_resolve_dependent [of db d] by (auto simp: Let_def split: prod.splits intro: keeps_trans)
qed (simp add: keeps)

lemma exec_keeps_resolve: "exec_keeps db (fst (resolve_dependencies now f tid db))"
  using keeps_resolve_dependents [of "xd_tasks db" "get_dependent_tasks tid (xd_tasks db)"]
  by (auto simp: resolve_dependencies_def exec_keeps_def keeps split: sum.splits prod.splits)

lemma exec_keeps_recover_task: "exec_keeps db (fst (recover_stale_task now cfg history active uuid tid db))"
proof -
  have "keeps_lifecycle ts (fst (update_task_status tid Failed v (fail_running_step_runs_for_task tid Run_Failed ts)))" for ts v
    by (rule keeps_trans [OF keeps_set_runs(2) [OF keeps_refl] keeps_status])
  then show ?thesis
    by (auto simp: recover_stale_task_def exec_keeps_def keeps Let_def
        split: prod.splits option.splits sum.splits dest!: claim_existing_tasksD)
qed

lemma exec_keeps_recover_stale: "exec_keeps db (fst (recover_stale now cfg history active uuid tids db))"
proof (induction now cfg history active uuid tids db rule: recover_stale.induct)
  case (2 now cfg history active uuid tid tids db)
  then show ?case
    using exec_keeps_recover_task [of db now cfg history "active tid" "uuid tid" tid]
    by (auto split: prod.splits sum.splits intro: exec_keeps_trans)
qed (simp add: keeps)

lemma exec_keeps_fail_run: "exec_keeps db (fst (fail_run now f n sm db))"
  by (auto simp: fail_run_def close_fence_def exec_keeps_def on_tasks_def keeps Let_def split: sum.splits)

lemma exec_keeps_interrupt_run: "exec_keeps db (interrupt_run now f db)"
  by (auto simp: interrupt_run_def close_fence_def exec_keeps_def on_tasks_def keeps Let_def split: sum.splits)

text \<open>
  Everything the queue, the engine and the workers commit, as steps of the tables. Others who
  commit inside an operation are only relied on to keep to the lifecycle themselves.
\<close>

inductive queue_step :: "exec_db \<Rightarrow> exec_db \<Rightarrow> bool" where
  submits: "queue_step db (on_tasks (\<lambda>ts. fst (submit_existing tid ts)) db)"
| reconciles: "queue_step db (on_tasks (\<lambda>ts. fst (reconcile_submitted tid ts)) db)"
| pauses: "queue_step db (on_tasks (\<lambda>ts. fst (pause_task tid e ts)) db)"
| resumes: "(\<And>d. exec_keeps d (ending d)) \<Longrightarrow> (\<And>d. exec_keeps d (other d)) \<Longrightarrow>
    queue_step db (fst (resume_task now cfg uuid lr ending other tid e db))"
| retries: "(\<And>d. exec_keeps d (other d)) \<Longrightarrow>
    queue_step db (fst (retry_failed_task now cfg uuid other tid preserve db))"
| revises: "(\<And>d. exec_keeps d (other d)) \<Longrightarrow>
    queue_step db (fst (request_revision now cfg uuid flow other tid target ins e db))"
| cancels: "queue_step db (fst (cancel_task now tid e db))"
| resolves: "queue_step db (fst (resolve_dependencies now f tid db))"
| picks: "queue_step db (fst (claim_ready now cfg queue uuid db))"
| recovers: "queue_step db (fst (recover_stale_tasks now cfg history active uuids db))"
| fails: "queue_step db (fst (fail_run now fn n sm db))"
| interrupts: "queue_step db (interrupt_run now fn db)"
| sets_status: "queue_step db (on_tasks (\<lambda>ts. fst (update_task_status tid st v ts)) db)"
| defers: "queue_step db (on_tasks (\<lambda>ts. fst (defer_running_task tid t ws osm ts)) db)"
| pauses_infrastructure:
    "queue_step db (on_tasks (\<lambda>ts. fst (pause_running_task_for_infrastructure tid ws sm ts)) db)"
| writes_state: "queue_step db (on_tasks (\<lambda>ts. fst (update_task_workflow_state tid ws ver ts)) db)"
| edits: "queue_step db (on_tasks (\<lambda>ts. fst (update_task_fields tid fv ts)) db)"
| adds_dependency: "add_task_dependency tid dep req (xd_tasks db) = Inr ts \<Longrightarrow> queue_step db (db\<lparr>xd_tasks := ts\<rparr>)"
| removes_dependency: "queue_step db (on_tasks (\<lambda>ts. fst (remove_task_dependency tid dep ts)) db)"
| leases_change: "queue_step db (db\<lparr>xd_leases := ls\<rparr>)"

lemma exec_keeps_on_tasks: "(\<And>ts. keeps_lifecycle ts (g ts)) \<Longrightarrow> exec_keeps db (on_tasks g db)"
  by (simp add: exec_keeps_def on_tasks_def)

lemma queue_step_keeps: "queue_step db db' \<Longrightarrow> exec_keeps db db'"
proof (induction rule: queue_step.induct)
  case (submits db tid)
  show ?case by (rule exec_keeps_on_tasks) (rule keeps_submit)
next
  case (reconciles db tid)
  show ?case by (rule exec_keeps_on_tasks) (rule keeps_reconcile)
next
  case (pauses db tid e)
  show ?case by (rule exec_keeps_on_tasks) (rule keeps_pause)
next
  case (recovers db now cfg history active uuids)
  show ?case unfolding recover_stale_tasks_def by (rule exec_keeps_recover_stale)
next
  case (leases_change db ls)
  show ?case by (simp add: exec_keeps_def keeps)
next
  case (adds_dependency tid dep req db ts)
  then show ?case by (auto intro: exec_keeps_tasks keeps)
qed (auto intro: exec_keeps_on_tasks keeps exec_keeps_resume exec_keeps_retry exec_keeps_revision
    exec_keeps_cancel exec_keeps_resolve exec_keeps_claim_ready exec_keeps_fail_run exec_keeps_interrupt_run)

interpretation lifecycle: mono_system "\<lambda>_. True" queue_step "\<lambda>_. True" exec_keeps
  by unfold_locales (auto intro: keeps exec_keeps_trans queue_step_keeps)

text \<open>
  C4. The queue refines the lifecycle: over any number of steps of the queue, the engine and the
  workers no task disappears, and every task moves along the specified graph of statuses and
  attempt numbers only.
\<close>

theorem queue_refines_lifecycle:
  assumes "queue_step\<^sup>*\<^sup>* db db'"
  shows "rel_option life\<^sup>*\<^sup>* (map_option life_of (get_task tid (xd_tasks db)))
    (map_option life_of (get_task tid (xd_tasks db')))"
  using lifecycle.steps_le [OF assms] by (simp add: exec_keeps_def keeps_lifecycle_def)

lemma life_cancelled: "life\<^sup>*\<^sup>* p q \<Longrightarrow> fst p = Cancelled \<Longrightarrow> q = p"
  by (induction rule: rtranclp_induct) (auto elim: life.cases)

lemma life_attempts: "life\<^sup>*\<^sup>* p q \<Longrightarrow> snd p \<le> snd q"
  by (induction rule: rtranclp_induct) (auto elim!: life.cases split: if_splits)

lemma exec_keeps_row:
  assumes "exec_keeps db db'" and "get_task tid (xd_tasks db) = Some r"
  obtains r' where "get_task tid (xd_tasks db') = Some r'" "life\<^sup>*\<^sup>* (life_of r) (life_of r')"
proof -
  have "rel_option life\<^sup>*\<^sup>* (Some (life_of r)) (map_option life_of (get_task tid (xd_tasks db')))"
    using assms unfolding exec_keeps_def keeps_lifecycle_def by (metis option.simps(9))
  then show thesis using that by (cases "get_task tid (xd_tasks db')") auto
qed

text \<open>
  A cancelled task is cancelled for good, in the same attempt: whatever the queue does later,
  no worker's fence passes for it and no controller can claim it again.
\<close>

theorem cancelled_is_final:
  assumes "queue_step\<^sup>*\<^sup>* db db'"
    and "get_task tid (xd_tasks db) = Some r" and "tk_status r = Cancelled"
  shows "(\<exists>r'. get_task tid (xd_tasks db') = Some r' \<and> tk_status r' = Cancelled \<and>
            tk_attempt_number r' = tk_attempt_number r) \<and>
    (\<forall>now f. cl_task_id (fn_claim f) = tid \<and> fn_terminal f \<noteq> Some Cancelled \<longrightarrow>
       snd (assert_current now f db') = Inl (Stale_Owner tid)) \<and>
    claim_paused now' cfg tid uuid db' = (db', None) \<and>
    claim_existing now' cfg tid [Running] uuid db' = (db', None) \<and>
    claim_existing now' cfg tid [Failed] uuid db' = (db', None)"
proof -
  have "exec_keeps db db'" by (simp add: lifecycle.steps_le assms(1))
  then obtain r' where r': "get_task tid (xd_tasks db') = Some r'" "life\<^sup>*\<^sup>* (life_of r) (life_of r')"
    using assms(2) by (rule exec_keeps_row)
  have "life_of r' = life_of r" by (rule life_cancelled [OF r'(2)]) (simp add: life_of_def assms(3))
  then have st: "tk_status r' = Cancelled" "tk_attempt_number r' = tk_attempt_number r"
    using assms(3) by (simp_all add: life_of_def)
  have "snd (assert_current now f db') = Inl (Stale_Owner tid)"
    if "cl_task_id (fn_claim f) = tid" "fn_terminal f \<noteq> Some Cancelled" for now f
    using that r'(1) st(1)
    by (cases "fn_terminal f") (auto simp: assert_current_def attempt_live_def opt_list_def Let_def)
  with r'(1) st show ?thesis by (simp add: claim_paused_def claim_existing_def)
qed

text \<open>
  C25. A revision takes the task from its worker: once it is committed, no fence of a claim of the
  former attempt passes again, whatever follows.
\<close>

theorem revision_fences_out_former_worker:
  assumes "\<And>d. exec_keeps d (other d)"
    and "get_task tid (xd_tasks db) = Some r"
    and "request_revision now cfg uuid flow other tid target ins e db = (db1, oc, Inr res)"
    and "queue_step\<^sup>*\<^sup>* db1 db'"
    and "cl_task_id (fn_claim f) = tid" and "cl_attempt_number (fn_claim f) \<le> attempt_or_one r"
  shows "snd (assert_current now' f db') = Inl (Stale_Owner tid)"
proof -
  from assms(3) obtain names i where claim: "claim_existing now cfg tid [Running] uuid
      (other (fst (commit_revision now names i ins tid r db))) = (db1, oc)"
    using assms(2) by (cases rule: request_revisionE) auto
  let ?d = "fst (commit_revision now names i ins tid r db)"
  have "exec_keeps ?d db1"
    using exec_keeps_trans [OF assms(1) exec_keeps_claim_existing [of _ now cfg tid "[Running]" uuid]] claim
    by (metis fst_conv)
  also have "exec_keeps db1 db'" by (simp add: lifecycle.steps_le assms(4))
  finally obtain r' where r': "get_task tid (xd_tasks db') = Some r'" "life\<^sup>*\<^sup>* (life_of (revise_row names i ins r)) (life_of r')"
    using commit_revision_row by (rule exec_keeps_row)
  from life_attempts [OF r'(2)] have "attempt_or_one r + 1 \<le> tk_attempt_number r'"
    by (simp add: life_of_def revise_row_def)
  with r'(1) assms(5,6) show ?thesis
    by (auto simp: assert_current_def attempt_live_def Let_def)
qed

text \<open>What \<open>resolve_dependents\<close> leaves alone: tasks that are ready or completed.\<close>

lemma resolve_dependent_settled:
  assumes "get_task tid db = Some r" and "tk_status r \<in> {Ready, Completed}"
  shows "get_task tid (fst (resolve_dependent d db)) = Some r"
proof (cases "d = tid")
  case True
  with assms status_refused [OF assms(1), of Ready no_values] status_refused [OF assms(1), of Paused no_values]
  show ?thesis by (auto simp: resolve_dependent_def Let_def)
next
  case False
  with assms(1) show ?thesis by (simp add: resolve_dependent_def Let_def)
qed

lemma resolve_dependent_deps [simp]: "dep_rows (fst (resolve_dependent d db)) = dep_rows db"
  by (simp add: resolve_dependent_def Let_def)

lemma resolve_dependents_settled:
  assumes "get_task tid db = Some r" and "tk_status r \<in> {Ready, Completed}"
  shows "get_task tid (fst (resolve_dependents ds db)) = Some r"
  using assms
proof (induction ds arbitrary: db)
  case (Cons d ds)
  then show ?case
    using resolve_dependent_settled [of tid db r d] by (simp add: case_prod_beta Let_def)
qed simp

lemma resolve_dependents_deps [simp]: "dep_rows (fst (resolve_dependents ds db)) = dep_rows db"
  by (induction ds arbitrary: db) (simp_all add: case_prod_beta Let_def)

lemma unmet_Nil_iff:
  "get_unmet_dependencies tid True db = [] \<longleftrightarrow>
     (\<forall>d \<in> set (dep_rows db). dep_task_id d = tid \<and> dep_required d \<longrightarrow>
        (\<forall>r. get_task (dep_depends_on d) db = Some r \<longrightarrow> tk_status r = Completed))"
  by (auto simp: get_unmet_dependencies_def filter_empty_conv split: option.splits)


lemma became_ready:
  assumes "get_unmet_dependencies tid True db = []" and "update_task_status tid Ready no_values db = (db', True)"
  shows "get_unmet_dependencies tid True db' = [] \<and> (\<exists>r. get_task tid db' = Some r \<and> tk_status r = Ready)"
proof -
  from assms(2) obtain r r' where r: "get_task tid db = Some r" "Ready \<in> set (valid_transitions (tk_status r))"
      "tk_status r' = Ready" and db': "db' = db\<lparr>task_rows := dict_put tid r' (task_rows db)\<rparr>"
    by (rule update_task_statusE)
  from r(2) have "tk_status r \<noteq> Completed" by auto
  have "get_task x db' = (if x = tid then Some r' else get_task x db)" for x
    by (simp add: db' get_task_def)
  with assms(1) r \<open>tk_status r \<noteq> Completed\<close> show ?thesis by (auto simp: unmet_Nil_iff db' split: if_splits)
qed

lemma resolve_dependents_ready:
  assumes "tid \<in> set (snd (resolve_dependents ds db))"
  shows "get_unmet_dependencies tid True (fst (resolve_dependents ds db)) = [] \<and>
    (\<exists>r. get_task tid (fst (resolve_dependents ds db)) = Some r \<and> tk_status r = Ready)"
  using assms
proof (induction ds arbitrary: db)
  case (Cons d ds)
  let ?db1 = "fst (resolve_dependent d db)"
  show ?case
  proof (cases "tid \<in> set (snd (resolve_dependents ds ?db1))")
    case True
    from Cons.IH [OF this] show ?thesis by (simp add: case_prod_beta Let_def)
  next
    case False
    with Cons.prems have d: "d = tid" "snd (resolve_dependent d db)"
      by (auto simp: case_prod_beta Let_def split: if_splits)
    then have "get_unmet_dependencies tid True db = []" "update_task_status tid Ready no_values db = (?db1, True)"
      by (auto simp: resolve_dependent_def Let_def prod_eq_iff split: if_splits)
    then have now: "get_unmet_dependencies tid True ?db1 = []" "\<exists>r. get_task tid ?db1 = Some r \<and> tk_status r = Ready"
      using became_ready by blast+
    have "get_unmet_dependencies tid True (fst (resolve_dependents ds ?db1)) = []"
      unfolding unmet_Nil_iff
    proof (intro ballI allI impI, elim conjE)
      fix e r
      assume e: "e \<in> set (dep_rows (fst (resolve_dependents ds ?db1)))" "dep_task_id e = tid" "dep_required e"
        and r: "get_task (dep_depends_on e) (fst (resolve_dependents ds ?db1)) = Some r"
      show "tk_status r = Completed"
      proof (cases "get_task (dep_depends_on e) ?db1")
        case None
        with r show ?thesis using keeps_resolve_dependents [of ?db1 ds]
          by (auto simp: keeps_lifecycle_def dest!: spec [of _ "dep_depends_on e"])
      next
        case (Some r1)
        with now(1) e have "tk_status r1 = Completed" by (auto simp: unmet_Nil_iff)
        with resolve_dependents_settled [OF Some] r show ?thesis by simp
      qed
    qed
    moreover have "\<exists>r. get_task tid (fst (resolve_dependents ds ?db1)) = Some r \<and> tk_status r = Ready"
      using now(2) resolve_dependents_settled by blast
    ultimately show ?thesis by (simp add: case_prod_beta Let_def)
  qed
qed simp

text \<open>
  The queue makes a task ready only when every task it requires has completed: after a task
  ends, each dependent reported as transitioned is ready and has no unmet required dependency left.
\<close>

theorem ready_only_when_dependencies_met:
  assumes "resolve_dependencies now f done_id db = (db', Inr ready)" and "tid \<in> set ready"
  shows "(\<exists>r. get_task tid (xd_tasks db') = Some r \<and> tk_status r = Ready) \<and>
    (\<forall>d \<in> set (dep_rows (xd_tasks db')). dep_task_id d = tid \<and> dep_required d \<longrightarrow>
       (\<forall>r. get_task (dep_depends_on d) (xd_tasks db') = Some r \<longrightarrow> tk_status r = Completed))"
proof -
  let ?res = "resolve_dependents (get_dependent_tasks done_id (xd_tasks db)) (xd_tasks db)"
  from assms(1) have "xd_tasks db' = fst ?res" "ready = snd ?res"
    by (auto simp: resolve_dependencies_def split: sum.splits prod.splits)
  with resolve_dependents_ready [of tid _ "xd_tasks db"] assms(2)
  have "get_unmet_dependencies tid True (xd_tasks db') = []" "\<exists>r. get_task tid (xd_tasks db') = Some r \<and> tk_status r = Ready"
    by simp_all
  then show ?thesis by (simp add: unmet_Nil_iff)
qed

text \<open>
  C34. A dependent that waits in the queue for a task that failed or was cancelled is not paused for
  a decision: the transition from queued to paused is refused, so it stays queued as it was.
\<close>

theorem blocked_dependent_stays_queued:
  assumes "get_task tid db = Some r" and "tk_status r = Queued"
    and "d \<in> set (dep_rows db)" and "dep_task_id d = tid" and "dep_required d"
    and "get_task (dep_depends_on d) db = Some r'" and "tk_status r' \<in> {Failed, Cancelled}"
  shows "resolve_dependent tid db = (db, False)"
proof -
  have "d \<in> set (get_unmet_dependencies tid True db)"
    using assms by (auto simp: get_unmet_dependencies_def)
  then have "get_unmet_dependencies tid True db \<noteq> []" by auto
  moreover have "update_task_status tid Paused no_values db = (db, False)"
    by (rule status_refused [OF assms(1)]) (simp add: assms(2))
  ultimately show ?thesis by (simp add: resolve_dependent_def Let_def)
qed

subsection \<open>Recovery does not repeat a tool call\<close>

lemma collect_calls_sound:
  assumes "collect_calls evs calls results = (calls', results')"
  shows "set results \<subseteq> set results' \<and> fst ` set calls \<subseteq> fst ` set calls' \<and>
    (\<forall>ev \<in> set evs. event_type ev = VStr ''tool_call'' \<longrightarrow> (\<forall>cid. event_call_id ev = Some cid \<longrightarrow> cid \<in> fst ` set calls')) \<and>
    set results' \<subseteq> set results \<union> {cid. \<exists>ev \<in> set evs. event_type ev = VStr ''tool_result'' \<and> event_call_id ev = Some cid}"
  using assms
proof (induction evs calls results rule: collect_calls.induct)
  case (2 ev evs calls results)
  show ?case
  proof (cases "event_call_id ev")
    case None
    with 2 show ?thesis by auto
  next
    case (Some cid)
    show ?thesis
    proof (cases "event_type ev = VStr ''tool_call''")
      case True
      with 2 Some show ?thesis by auto
    next
      case False
      with 2 Some show ?thesis by (cases "event_type ev = VStr ''tool_result''") auto
    qed
  qed
qed auto

lemma classify_not_ambiguous:
  assumes "classify_crash_recovery history tid db = (cls, details)" and "cls \<noteq> Ambiguous_Tool_Execution"
    and "find_first (\<lambda>sr. sr_status sr = Run_Running) (rev (list_step_runs_for_task tid db)) = Some sr"
    and "dict_get (dict_of (sr_runtime_info sr)) ''deterministic_step'' \<noteq> VBool True"
    and "sr_intaris_session_id sr = Some s" and "s \<noteq> []"
  shows "\<exists>evs. history s = Some evs \<and>
    (\<forall>ev \<in> set evs. event_type ev = VStr ''tool_call'' \<longrightarrow> (\<forall>cid. event_call_id ev = Some cid \<longrightarrow>
       (\<exists>ev' \<in> set evs. event_type ev' = VStr ''tool_result'' \<and> event_call_id ev' = Some cid)))"
proof -
  from assms obtain evs where evs: "history s = Some evs"
    by (cases "history s") (simp_all add: classify_crash_recovery_def)
  obtain calls results where c: "collect_calls evs [] [] = (calls, results)" by fastforce
  have "\<forall>p \<in> set calls. fst p \<in> set results"
  proof (rule ccontr)
    assume "\<not> ?thesis"
    then have "find_first (\<lambda>(cid, name). cid \<notin> set results) calls \<noteq> None"
      by (simp add: case_prod_beta)
    then obtain cid name where "find_first (\<lambda>(cid, name). cid \<notin> set results) calls = Some (cid, name)"
      by (metis not_None_eq surj_pair)
    with assms evs c show False by (auto simp: classify_crash_recovery_def Let_def)
  qed
  with collect_calls_sound [OF c] evs show ?thesis by fastforce
qed

lemma deterministic_not_ambiguous:
  assumes "classify_crash_recovery history tid db = (cls, details)" and "cls \<noteq> Ambiguous_Tool_Execution"
    and "find_first (\<lambda>sr. sr_status sr = Run_Running) (rev (list_step_runs_for_task tid db)) = Some sr"
    and "dict_get (dict_of (sr_runtime_info sr)) ''deterministic_step'' = VBool True"
  shows "dict_get (dict_of (sr_runtime_info sr)) ''deterministic_substate'' \<in> {VNone, VStr ''rendering''} \<or>
    dict_get (dict_of (sr_runtime_info sr)) ''deterministic_substate'' = VStr ''persisted'' \<and> is_dict (sr_output sr) \<or>
    dict_get (dict_of (sr_runtime_info sr)) ''deterministic_substate'' = VStr ''executing'' \<and>
      dict_get (dict_of (sr_runtime_info sr)) ''tool_read_only'' = VBool True"
  using assms by (auto simp: classify_crash_recovery_def deterministic_recovery_def Let_def split: if_splits)


subsection \<open>Instances\<close>

theorem queue_refines_lifecycle_witness:
  "life\<^sup>*\<^sup>* (Ready, 1) (Running, 1) \<and> map_option life_of (get_task ''b'' (xd_tasks demo_exec)) = Some (Ready, 1) \<and>
   map_option life_of (get_task ''b'' (xd_tasks (on_tasks (\<lambda>ts. fst (update_task_status ''b'' Running no_values ts)) demo_exec)))
     = Some (Running, 1)"
proof -
  let ?db' = "on_tasks (\<lambda>ts. fst (update_task_status ''b'' Running no_values ts)) demo_exec"
  have before: "map_option life_of (get_task ''b'' (xd_tasks demo_exec)) = Some (Ready, 1)"
    by (simp add: demo_exec_def get_task_def demo_task_def life_of_def)
  have after: "map_option life_of (get_task ''b'' (xd_tasks ?db')) = Some (Running, 1)"
    by (simp add: demo_exec_def on_tasks_def update_task_status_def update_where_def get_task_def
        demo_task_def life_of_def no_values_def)
  have "queue_step\<^sup>*\<^sup>* demo_exec ?db'" by (rule r_into_rtranclp) (rule queue_step.sets_status)
  from queue_refines_lifecycle [OF this, of "''b''"] before after show ?thesis by simp
qed

definition demo_db :: "task_status \<Rightarrow> task_status \<Rightarrow> run_row list \<Rightarrow> exec_db" where
  "demo_db sa sb runs = \<lparr>xd_tasks = \<lparr>task_rows = [(''a'', (demo_task ''x'' 0)\<lparr>tk_status := sa, tk_workflow_id := Some ''w''\<rparr>),
       (''b'', (demo_task ''x'' 5)\<lparr>tk_status := sb\<rparr>)],
     run_rows = runs, dep_rows = [\<lparr>dep_task_id = ''b'', dep_depends_on = ''a'', dep_required = True\<rparr>]\<rparr>,
     xd_leases = Map.empty\<rparr>"

lemmas demo_db_eval = demo_db_def demo_task_def get_task_def update_task_status_def update_where_def
  no_values_def or_else_def on_tasks_def

theorem cancelled_is_final_witness:
  defines "db \<equiv> fst (cancel_task 5 ''a'' None (demo_db Running Queued []))"
  shows "claim_existing 9 demo_cfg ''a'' [Running] ''u1'' db = (db, None) \<and>
    snd (assert_current 9 \<lparr>fn_claim = \<lparr>cl_task_id = ''a'', cl_agent_id = ''x'', cl_attempt_number = 1,
        cl_task_lease = \<lparr>resource_key = task_lease_key ''a'', owner_id = ''o'', fencing_token = 1, expires_at = 60\<rparr>,
        cl_global_lease = None, cl_agent_lease = None\<rparr>, fn_lost = False, fn_cancel = False, fn_terminal = None\<rparr> db)
      = Inl (Stale_Owner ''a'')"
proof -
  have "\<exists>r. get_task ''a'' (xd_tasks db) = Some r \<and> tk_status r = Cancelled"
    by (simp add: db_def cancel_task_def attempt_changed_def demo_db_eval clear_interaction_def
        fail_running_step_runs_for_task_def set_runs_def)
  then obtain r where "get_task ''a'' (xd_tasks db) = Some r" "tk_status r = Cancelled" by blast
  from cancelled_is_final [OF rtranclp.rtrancl_refl [of queue_step db] this, of 9 demo_cfg "''u1''"] show ?thesis by simp
qed

theorem revision_fences_out_former_worker_witness:
  "\<exists>db1 oc res. request_revision 5 demo_cfg ''u2'' (Some (demo_workflow [demo_step ''s1'', demo_step ''s2''])) id
       ''a'' (Some ''s2'') ''redo'' (Some 1) (demo_db Running Queued []) = (db1, oc, Inr res) \<and>
     rr_target_step res = ''s2'' \<and>
     snd (assert_current 9 \<lparr>fn_claim = \<lparr>cl_task_id = ''a'', cl_agent_id = ''x'', cl_attempt_number = 1,
        cl_task_lease = \<lparr>resource_key = task_lease_key ''a'', owner_id = ''o'', fencing_token = 1, expires_at = 60\<rparr>,
        cl_global_lease = None, cl_agent_lease = None\<rparr>, fn_lost = False, fn_cancel = False, fn_terminal = None\<rparr> db1)
       = Inl (Stale_Owner ''a'')"
proof -
  let ?flow = "Some (demo_workflow [demo_step ''s1'', demo_step ''s2''])" and ?db = "demo_db Running Queued []"
  let ?r = "(demo_task ''x'' 0)\<lparr>tk_status := Running, tk_workflow_id := Some ''w''\<rparr>"
  let ?f = "\<lparr>fn_claim = \<lparr>cl_task_id = ''a'', cl_agent_id = ''x'', cl_attempt_number = 1,
      cl_task_lease = \<lparr>resource_key = task_lease_key ''a'', owner_id = ''o'', fencing_token = 1, expires_at = 60\<rparr>,
      cl_global_lease = None, cl_agent_lease = None\<rparr>, fn_lost = False, fn_cancel = False, fn_terminal = None\<rparr>"
  have keep: "exec_keeps d (id d)" for d by (simp add: keeps)
  have row: "get_task ''a'' (xd_tasks ?db) = Some ?r" by (simp add: demo_db_def get_task_def)
  have "\<exists>db1 oc res. request_revision 5 demo_cfg ''u2'' ?flow id ''a'' (Some ''s2'') ''redo'' (Some 1) ?db = (db1, oc, Inr res) \<and>
      rr_target_step res = ''s2''"
    by (simp add: request_revision_def attempt_changed_def assert_task_attempt_current_def row
        revision_error_def demo_workflow_def revision_target_def demo_step_def Let_def case_prod_beta)
      (simp add: demo_task_def)
  then obtain db1 oc res where req: "request_revision 5 demo_cfg ''u2'' ?flow id ''a'' (Some ''s2'') ''redo'' (Some 1) ?db
      = (db1, oc, Inr res)" "rr_target_step res = ''s2''" by blast
  have "snd (assert_current 9 ?f db1) = Inl (Stale_Owner ''a'')"
    by (rule revision_fences_out_former_worker [OF keep row req(1) rtranclp.rtrancl_refl])
      (simp_all add: attempt_or_one_def demo_task_def)
  with req show ?thesis by blast
qed

theorem ready_only_when_dependencies_met_witness:
  "\<exists>db' r. resolve_dependencies 9 None ''a'' (demo_db Completed Queued []) = (db', Inr [''b'']) \<and>
     get_task ''b'' (xd_tasks db') = Some r \<and> tk_status r = Ready"
proof -
  have "\<exists>db'. resolve_dependencies 9 None ''a'' (demo_db Completed Queued []) = (db', Inr [''b''])"
    by (simp add: resolve_dependencies_def fence_check_def get_dependent_tasks_def resolve_dependent_def
        get_unmet_dependencies_def demo_db_eval)
  then obtain db' where db': "resolve_dependencies 9 None ''a'' (demo_db Completed Queued []) = (db', Inr [''b''])" by blast
  with ready_only_when_dependencies_met [OF db', of "''b''"] show ?thesis by auto
qed

theorem blocked_dependent_stays_queued_witness:
  "resolve_dependent ''b'' (xd_tasks (demo_db Failed Queued [])) = (xd_tasks (demo_db Failed Queued []), False)"
  using blocked_dependent_stays_queued [of "''b''" "xd_tasks (demo_db Failed Queued [])" "(demo_task ''x'' 5)\<lparr>tk_status := Queued\<rparr>"
      "\<lparr>dep_task_id = ''b'', dep_depends_on = ''a'', dep_required = True\<rparr>"
      "(demo_task ''x'' 0)\<lparr>tk_status := Failed, tk_workflow_id := Some ''w''\<rparr>"]
  by (simp add: demo_db_def get_task_def)

definition demo_run :: run_row where
  "demo_run = \<lparr>sr_step_run_id = ''r1'', sr_task_id = ''a'', sr_step_name = ''s'', sr_step_type = ''run'',
     sr_attempt_number = 1, sr_status = Run_Running, sr_started_at = 1, sr_intaris_session_id = Some ''i'',
     sr_runtime_info = VNone, sr_output = VNone\<rparr>"

definition demo_event :: "string \<Rightarrow> pyval" where
  "demo_event ty = VDict [(''type'', VStr ty), (''data'', VDict [(''call_id'', VStr ''c1''), (''name'', VStr ''mail'')])]"

definition demo_history :: "string \<Rightarrow> pyval list option" where
  "demo_history s = Some [demo_event ''tool_call'', demo_event ''tool_result'']"


end
