(* ===== verification/Workflow_Engine.thy ===== *)
theory Workflow_Engine
  imports Workflow_Routing Task_Queue
begin

section \<open>The workflow engine\<close>

text \<open>
  The loop of \<open>execute_workflow\<close> in \<open>cognis/core/workflow_engine.py\<close> and its handlers: gates, retries,
  review loops, outcome routes, exhaustion, deferral and the writes of the workflow state.

  A handler is a function on the state of a run: the task row in the database, the task in memory
  and its workflow state. It returns a value or halts with an exception of the source. What comes
  from outside in one turn of the loop is a record \<open>world\<close>: what others have committed, whether the
  fence of the run passes, the output of an agent, the verdict of the evaluator, the answer to a
  gate. Rows of step runs and deliverables, sessions and notifications are written elsewhere and
  not part of the state.
\<close>

subsection \<open>State, world and exceptions\<close>

datatype halt =
    Interrupted                  \<comment> \<open>\<open>StepInterrupted\<close>\<close>
  | Stale_Writer                 \<comment> \<open>\<open>StaleTaskExecutionOwner\<close>\<close>
  | Timed_Out                    \<comment> \<open>\<open>TimeoutError\<close>\<close>
  | Recovery_Timeout string pyval \<comment> \<open>\<open>ExecutorRecoveryTimeout\<close> with its detail\<close>
  | Failed_With string           \<comment> \<open>any other exception\<close>

record job =
  jb_task_id :: string
  jb_attempt :: int
  jb_mode :: string
  jb_workflow :: workflow
  jb_policy :: "delivery_policy option"

definition interaction_mode :: "string option \<Rightarrow> workflow \<Rightarrow> string" where
  "interaction_mode override w = (if truthy_str override then the override else wf_interaction_mode w)"

record eng =
  en_db :: task_db
  en_status :: task_status
  en_state :: workflow_state
  en_delivery :: string
  en_summary :: "string option"
  en_data :: "pyval option"
  en_completed_at :: "time option"
  en_scheduled_for :: "time option"
  en_completion :: "string \<times> string option"

datatype verdict = Approved | Revise | Verdict_Failed

record evaluation =
  ev_decision :: verdict
  ev_reasoning :: string
  ev_feedback :: "string option"

datatype run_result =
    Ran step_output
  | No_Output
  | Executor_Unavailable int
  | Run_Halted halt

record notification =
  nf_resolved :: bool
  nf_resolution :: "(string \<times> pyval) list"
  nf_expires_at :: "string option"

record world =
  wo_lib :: library
  wo_parse :: "string \<Rightarrow> node option"
  wo_load_gate :: "(string \<times> pyval) list \<Rightarrow> (string, gate_config) result"
  wo_dump_gate :: "gate_config \<Rightarrow> pyval"
  wo_deadline :: "int \<Rightarrow> string"
  wo_normal_time :: "string \<Rightarrow> (string, string) result"
  wo_other :: "task_db \<Rightarrow> task_db"
  wo_between :: "task_db \<Rightarrow> task_db"
  wo_owner :: bool
  wo_now :: time
  wo_after :: "rat \<Rightarrow> time"
  wo_elapsed :: int
  wo_over_time :: bool
  wo_run :: run_result
  wo_transient :: bool
  wo_evaluation :: "(halt, evaluation) result"
  wo_feedback_kept :: bool
  wo_rejected :: "(string \<times> pyval) list option"
  wo_uuid :: string
  wo_notification :: "notification option"
  wo_answer :: "(string \<times> (string \<times> pyval) list) option"
  wo_det_halt :: "run_result option"
  wo_tool :: "(string \<times> pyval) list \<Rightarrow> raising"
  wo_latest :: "run_row option"
  wo_data :: pyval

type_synonym 'a act = "eng \<Rightarrow> eng \<times> (halt, 'a) result"

definition act_bind :: "'a act \<Rightarrow> ('a \<Rightarrow> 'b act) \<Rightarrow> 'b act" where
  "act_bind m f e = (case m e of (e', Inl h) \<Rightarrow> (e', Inl h) | (e', Inr x) \<Rightarrow> f x e')"

definition give :: "'a \<Rightarrow> 'a act" where
  "give x e = (e, Inr x)"

definition halts :: "halt \<Rightarrow> 'a act" where
  "halts h e = (e, Inl h)"

definition modify :: "(workflow_state \<Rightarrow> workflow_state) \<Rightarrow> eng \<Rightarrow> eng" where
  "modify f e = e\<lparr>en_state := f (en_state e)\<rparr>"

subsection \<open>Writing the workflow state\<close>

definition read_task_status :: "job \<Rightarrow> task_db \<Rightarrow> task_status" where
  "read_task_status j db = (case get_task (jb_task_id j) db of None \<Rightarrow> Failed | Some r \<Rightarrow> tk_status r)"

text \<open>A decision on a gate takes the task from paused to running only if the row still has that gate.\<close>

definition consume_values :: "job \<Rightarrow> workflow_state \<Rightarrow> status_values" where
  "consume_values j ws = no_values\<lparr>v_expected_status := Some Paused, v_expected_attempt := Some (jb_attempt j),
     v_expected_pause_id := ws_last_consumed_gate_id ws\<rparr>"

definition consumes_gate :: "task_status \<Rightarrow> eng \<Rightarrow> bool" where
  "consumes_gate st e \<longleftrightarrow> st = Paused \<and> en_status e = Running \<and> ws_pending_pause_type (en_state e) = None \<and>
     ws_last_consumed_gate_id (en_state e) \<noteq> None"

definition persist_workflow_state :: "job \<Rightarrow> world \<Rightarrow> bool \<Rightarrow> unit act" where
  "persist_workflow_state j wd sync e =
     (let db = wo_other wd (en_db e); st = read_task_status j db; db0 = wo_between wd db; tid = jb_task_id j
      in if st \<in> {Cancelled, Failed} \<and> en_status e \<notin> {Cancelled, Failed}
         then (e\<lparr>en_db := db, en_status := st\<rparr>, Inl Interrupted)
         else (let ws = (en_state e)\<lparr>ws_version := ws_version (en_state e) + 1\<rparr>;
                   e1 = e\<lparr>en_db := db0, en_state := ws\<rparr> in
           if \<not> wo_owner wd then (e1, Inl Stale_Writer)
           else case (if consumes_gate st e then update_task_status tid Running (consume_values j ws) db0 else (db0, True)) of
                  (db1, False) \<Rightarrow> (e1, Inl Stale_Writer)
                | (db1, True) \<Rightarrow>
                    (case update_task_workflow_state tid ws (Some (ws_version ws)) db1 of
                       (db2, False) \<Rightarrow> (e1, Inl Stale_Writer)
                     | (db2, True) \<Rightarrow>
                         (e1\<lparr>en_db := (if sync then fst (update_task_status tid (en_status e) no_values db2) else db2)\<rparr>,
                          Inr ()))))"

definition final_state :: "task_status \<Rightarrow> workflow_state \<Rightarrow> workflow_state" where
  "final_state st ws =
     (if st \<in> {Completed, Failed, Cancelled}
      then ws\<lparr>ws_status := (if st = Completed then ''completed'' else if st = Cancelled then ''cancelled'' else ''failed''),
              ws_pending_pause_type := None, ws_pending_pause_payload := None, ws_current_step_status := None\<rparr>
      else ws)"

definition persist_task_final :: "job \<Rightarrow> world \<Rightarrow> unit act" where
  "persist_task_final j wd e =
     (let db0 = wo_other wd (en_db e); tid = jb_task_id j; ws = final_state (en_status e) (en_state e);
          e1 = e\<lparr>en_db := db0, en_state := ws\<rparr> in
      if \<not> wo_owner wd then (e1, Inl Stale_Writer)
      else (let db1 = (if ws_pending_pause_type ws = None \<and> ws_last_consumed_gate_id ws \<noteq> None
                       then fst (update_task_status tid Running (consume_values j ws) db0) else db0) in
            case update_task_status tid (en_status e)
                   (no_values\<lparr>v_completed_at := en_completed_at e, v_result_summary := en_summary e,
                      v_result_data := en_data e, v_applied_completion_mode := Some (fst (en_completion e)),
                      v_applied_completion_reason := snd (en_completion e), v_delivery_mode := Some (en_delivery e),
                      v_expected_attempt := Some (jb_attempt j)\<rparr>) db1 of
              (db2, False) \<Rightarrow> (e1\<lparr>en_status := read_task_status j db0\<rparr>, Inl Interrupted)
            | (db2, True) \<Rightarrow> (e1\<lparr>en_db := fst (update_task_workflow_state tid ws None db2)\<rparr>, Inr ())))"

subsection \<open>Gates\<close>

definition payload_of :: "workflow_state \<Rightarrow> (string \<times> pyval) list" where
  "payload_of ws = (case ws_pending_pause_payload ws of None \<Rightarrow> [] | Some d \<Rightarrow> d)"

text \<open>\<open>str(v or "")\<close>.\<close>

definition or_blank :: "pyval \<Rightarrow> string" where
  "or_blank v = (if truthy v then py_str v else '''')"

definition instruction_of :: "(string \<times> pyval) list \<Rightarrow> string" where
  "instruction_of d =
     py_strip (if truthy (dict_get d ''note'') then py_str (dict_get d ''note'') else or_blank (dict_get d ''feedback''))"

definition gate_context :: "gate_config \<Rightarrow> workflow_state \<Rightarrow> (string \<times> pyval) list" where
  "gate_context g ws = fold (\<lambda>n d. case map_of (ws_step_outputs ws) n of
       None \<Rightarrow> d | Some raw \<Rightarrow> if raw = [] then d else dict_put n (VDict raw) d) (gc_input g) []"

fun timeout_value :: "timeout_action \<Rightarrow> string" where
  "timeout_value Timeout_Fail = ''fail''" | "timeout_value Timeout_Continue = ''continue''"
| "timeout_value Timeout_Cancel = ''cancel''"

definition option_value :: "gate_option \<Rightarrow> pyval" where
  "option_value opt = VDict [(''label'', VStr (go_label opt)), (''action'', VStr (go_action opt)),
     (''prompt'', VBool (go_prompt opt))]"

definition pause_payload ::
  "job \<Rightarrow> world \<Rightarrow> string \<Rightarrow> string \<Rightarrow> gate_config \<Rightarrow> string \<Rightarrow> string \<Rightarrow> workflow_state \<Rightarrow> (string \<times> pyval) list" where
  "pause_payload j wd pause_id name g origin expires ws =
     [(''pause_id'', VStr pause_id), (''task_id'', VStr (jb_task_id j)), (''step_name'', VStr name),
      (''message'', VStr (gc_message g)), (''context'', VDict (gate_context g ws)),
      (''options'', VList (map option_value (gc_options g))), (''gate_definition'', wo_dump_gate wd g),
      (''origin_step'', VStr origin), (''origin_step_index'', VInt (ws_current_step_index ws)),
      (''task_attempt'', VInt (jb_attempt j)), (''expires_at'', VStr expires),
      (''timeout_action'', VStr (timeout_value (gc_timeout_action g)))]"

text \<open>What a decision does to the state, right after it is read; it is written with its consequence.\<close>

definition decided :: "string \<Rightarrow> string \<Rightarrow> string \<Rightarrow> workflow_state \<Rightarrow> workflow_state" where
  "decided pause_id action instruction ws =
     ws\<lparr>ws_status := ''running'', ws_current_step_status := Some ''running'', ws_pending_pause_type := None,
        ws_pending_pause_payload := None, ws_last_consumed_gate_id := Some pause_id,
        ws_last_operator_instruction :=
          (if instruction \<noteq> [] \<and> action \<noteq> ''cancel'' then Some instruction else ws_last_operator_instruction ws)\<rparr>"

definition gate_revision_context :: "string \<Rightarrow> string \<Rightarrow> string \<Rightarrow> string \<Rightarrow> string \<Rightarrow> string" where
  "gate_revision_context name target message context instruction =
     join_with (NL @ NL) ([''Gate '' @ squote name @ '' requested revision of step '' @ squote target @ ''.''] @
       map (\<lambda>m. ''Gate message: '' @ m) (nonempty (Some message)) @
       map (\<lambda>c. ''Gate context:'' @ NL @ c) (nonempty (Some context)) @
       map (\<lambda>i. ''Operator note:'' @ NL @ i) (nonempty (Some instruction)))"

text \<open>The wait: no answer stands for a second timeout, after the timeout action was proposed.\<close>

definition await_gate :: "job \<Rightarrow> world \<Rightarrow> string \<Rightarrow> gate_config \<Rightarrow> string \<Rightarrow> string \<Rightarrow> string act" where
  "await_gate j wd name g pause_id expires e =
     (let ws = en_state e in
      case py_index (wf_steps (jb_workflow j)) (ws_current_step_index ws) of
        None \<Rightarrow> (modify (\<lambda>ws. ws\<lparr>ws_status := ''paused'', ws_current_step_status := Some ''paused'',
                    ws_pending_pause_type := Some ''gate''\<rparr>) e, Inl (Failed_With INDEX_ERROR))
      | Some origin \<Rightarrow>
          act_bind (persist_workflow_state j wd True) (\<lambda>_ e2.
            case wo_answer wd of
              None \<Rightarrow> (e2, Inl Interrupted)
            | Some (action, data) \<Rightarrow>
                (let instruction = instruction_of data;
                     revise = (\<lambda>ws. case parse_revise_action action of
                        None \<Rightarrow> ws
                      | Some t \<Rightarrow>
                          if truthy_str (ws_last_revision_context ws) then ws
                          else ws\<lparr>ws_last_revision_context := Some (gate_revision_context name t (gc_message g)
                            (if gate_context g ws = [] then '''' else py_str (VDict (gate_context g ws))) instruction)\<rparr>)
                 in ((modify (\<lambda>ws. decided pause_id action instruction (revise ws)) e2)\<lparr>en_status := Running\<rparr>, Inr action)))
            ((modify (\<lambda>ws. ws\<lparr>ws_status := ''paused'', ws_current_step_status := Some ''paused'',
                ws_pending_pause_type := Some ''gate'',
                ws_pending_pause_payload := Some (pause_payload j wd pause_id name g (st_name origin) expires ws)\<rparr>) e)
               \<lparr>en_status := Paused\<rparr>))"

definition gate_wanted :: "world \<Rightarrow> gate_config \<Rightarrow> workflow_state \<Rightarrow> bool" where
  "gate_wanted wd g ws =
     (let ev = evaluate_gate_conditions_detailed (wo_parse wd) (gc_conditions g)
            (map (\<lambda>(n, d). (n, VDict d)) (ws_step_outputs ws)) (Some (gc_thresholds g))
      in e_errors ev \<noteq> [] \<or> e_passed ev)"

text \<open>A gate that was open before a restart is the gate of the pause, not that of the definition.\<close>

definition gate_to_open ::
  "world \<Rightarrow> bool \<Rightarrow> (string \<times> pyval) list \<Rightarrow> gate_config option \<Rightarrow> (string, gate_config option) result" where
  "gate_to_open wd reuse payload gate =
     (case dict_get payload ''gate_definition'' of
        VDict d \<Rightarrow> if reuse then res_bind (wo_load_gate wd d) (\<lambda>g. Inr (Some g)) else Inr gate
      | _ \<Rightarrow> Inr gate)"

definition open_gate :: "job \<Rightarrow> world \<Rightarrow> string \<Rightarrow> gate_config \<Rightarrow> string \<Rightarrow> string \<Rightarrow> string act" where
  "open_gate j wd name g pause_id expires e =
     (case wo_normal_time wd expires of
        Inl m \<Rightarrow> (e, Inl (Failed_With m))
      | Inr t \<Rightarrow> await_gate j wd name g pause_id t e)"

definition handle_gate_step :: "job \<Rightarrow> world \<Rightarrow> string \<Rightarrow> gate_config option \<Rightarrow> string act" where
  "handle_gate_step j wd name gate e =
     (let ws = en_state e; payload = payload_of ws; pending = (ws_pending_pause_type ws = Some ''gate'');
          reuse = (pending \<and> or_blank (dict_get payload ''step_name'') = name) in
      if pending \<and> \<not> reuse then (e, Inl Interrupted)
      else if \<not> reuse \<and> jb_mode j = ''none'' then (e, Inr ''continue'')
      else case gate_to_open wd reuse payload gate of
        Inl m \<Rightarrow> (e, Inl (Failed_With m))
      | Inr None \<Rightarrow> (e, Inr ''continue'')
      | Inr (Some g) \<Rightarrow>
          if gc_conditions g \<noteq> [] \<and> \<not> reuse \<and> \<not> gate_wanted wd g ws then (e, Inr ''continue'')
          else (let fresh = wo_deadline wd (max 1 (gc_timeout_seconds g));
                    saved = or_blank (dict_get payload ''expires_at'');
                    go = (\<lambda>pause_id expires. open_gate j wd name g pause_id expires e)
                in if \<not> reuse then go (''gate_'' @ wo_uuid wd) (if saved = [] then fresh else saved)
                   else (let pause_id = py_strip (or_blank (dict_get payload ''pause_id'')) in
                     if pause_id = [] then (e, Inl Interrupted)
                     else case wo_notification wd of
                       None \<Rightarrow> if saved = [] then (e, Inl Interrupted) else go pause_id saved
                     | Some n \<Rightarrow>
                         if nf_resolved n
                         then (let action = (if truthy (dict_get (nf_resolution n) ''decision'')
                                  then py_str (dict_get (nf_resolution n) ''decision'') else ''continue'')
                               in ((modify (decided pause_id action (instruction_of (nf_resolution n))) e)\<lparr>en_status := Running\<rparr>,
                                   Inr action))
                         else (case nf_expires_at n of
                                 Some t \<Rightarrow> go pause_id t
                               | None \<Rightarrow> if saved = [] then (e, Inl Interrupted) else go pause_id saved))))"

subsection \<open>Exhaustion, retries and review loops\<close>

definition advance :: "workflow_state \<Rightarrow> workflow_state" where
  "advance ws = ws\<lparr>ws_current_step_index := ws_current_step_index ws + 1\<rparr>"

definition clear_feedback :: "workflow_state \<Rightarrow> workflow_state" where
  "clear_feedback ws = ws\<lparr>ws_last_evaluation_feedback := None, ws_last_retry_reason := None,
     ws_last_revision_context := None\<rparr>"

definition persisting :: "job \<Rightarrow> world \<Rightarrow> 'a \<Rightarrow> 'a act" where
  "persisting j wd x = act_bind (persist_workflow_state j wd False) (\<lambda>_. give x)"

text \<open>A jump to a step, which gets fresh attempts.\<close>

definition jump_to :: "int \<Rightarrow> string \<Rightarrow> workflow_state \<Rightarrow> workflow_state" where
  "jump_to i name ws = pop_counter (''attempts:'' @ name) (ws\<lparr>ws_current_step_index := i\<rparr>)"

definition handle_exhausted :: "job \<Rightarrow> world \<Rightarrow> step_definition \<Rightarrow> exhausted \<Rightarrow> string option \<Rightarrow> bool act" where
  "handle_exhausted j wd st action last_error e =
     (case action of
        On_Continue \<Rightarrow>
          persisting j wd True (modify (\<lambda>ws. advance (ws\<lparr>
            ws_step_outputs := (case wo_rejected wd of
               None \<Rightarrow> ws_step_outputs ws | Some raw \<Rightarrow> dict_put (st_name st) raw (ws_step_outputs ws)),
            ws_skipped_steps := ws_skipped_steps ws @ [st_name st],
            ws_last_operator_instruction := None\<rparr>)) e)
      | On_Gate \<Rightarrow>
          if jb_mode j = ''none'' then (e, Inr False)
          else act_bind (handle_gate_step j wd (st_name st @ ''_exhausted'') (Some (build_exhaustion_gate st last_error)))
            (\<lambda>result e1.
              if result = ''continue'' then persisting j wd True (modify (\<lambda>ws. advance (clear_feedback ws)) e1)
              else if result = ''cancel''
              then persisting j wd True (modify (\<lambda>ws. ws\<lparr>ws_status := ''cancelled'', ws_last_operator_instruction := None,
                     ws_current_step_index := int (length (wf_steps (jb_workflow j)))\<rparr>) e1)
              else if result = ''fail'' then (e1, Inr False)
              else case parse_revise_action result of
                  None \<Rightarrow> (e1, Inr False)
                | Some target \<Rightarrow>
                    (case find_step_index (jb_workflow j) target of
                       None \<Rightarrow> (e1, Inr False)
                     | Some i \<Rightarrow> persisting j wd True (modify (jump_to i target) e1))) e
      | On_Fail \<Rightarrow> (e, Inr False))"

definition review_key :: "step_definition \<Rightarrow> on_reject_config \<Rightarrow> string" where
  "review_key st rj = rj_target rj @ ''->'' @ st_name st"

definition handle_review_loop :: "job \<Rightarrow> world \<Rightarrow> step_definition \<Rightarrow> bool act" where
  "handle_review_loop j wd st e =
     (case st_on_reject st of
        None \<Rightarrow> (e, Inr False)
      | Some rj \<Rightarrow>
          (let n = counter (en_state e) (review_key st rj) 0 in
           if n \<ge> rj_max_loop_iterations rj
           then handle_exhausted j wd st (rj_on_exhausted rj) (ws_last_evaluation_feedback (en_state e)) e
           else (let e1 = modify (set_counter (review_key st rj) (n + 1)) e in
             case find_step_index (jb_workflow j) (rj_target rj) of
               None \<Rightarrow> (e1, Inr False)
             | Some i \<Rightarrow> persisting j wd True (modify (jump_to i (rj_target rj)) e1))))"

definition SESSION_TRANSIENT_MAX_ATTEMPTS :: int where
  "SESSION_TRANSIENT_MAX_ATTEMPTS = 120"

definition recovery_key :: "step_definition \<Rightarrow> string" where
  "recovery_key st = ''recovery:'' @ st_name st"

text \<open>
  Seconds to wait before the next try: the delay the provider asked for, if it is a positive
  number, and otherwise a doubling delay of at most a minute.
\<close>

definition recovery_delay :: "step_output \<Rightarrow> int \<Rightarrow> rat" where
  "recovery_delay failure n =
     (let asked = (case dict_get (so_metadata failure) ''model_error'' of
            VDict d \<Rightarrow>
              (case dict_get d ''retry_after_seconds'' of
                 VInt i \<Rightarrow> num_val (VInt i) | VFloat m ex \<Rightarrow> num_val (VFloat m ex) | _ \<Rightarrow> None)
          | _ \<Rightarrow> None);
          backoff = min 60 (2 ^ nat (min n 6))
      in case asked of Some q \<Rightarrow> if q > 0 then q else backoff | None \<Rightarrow> backoff)"

definition defer_step_recovery :: "job \<Rightarrow> world \<Rightarrow> step_definition \<Rightarrow> step_output \<Rightarrow> bool act" where
  "defer_step_recovery j wd st failure e =
     (let n = counter (en_state e) (recovery_key st) 0 + 1;
          e1 = modify (\<lambda>ws. (set_counter (recovery_key st) n ws)\<lparr>ws_last_retry_reason := Some ''execution_failed'',
            ws_last_evaluation_feedback := so_error failure\<rparr>) e in
      if n \<ge> SESSION_TRANSIENT_MAX_ATTEMPTS
      then handle_exhausted j wd st On_Gate (so_error failure) (modify (pop_counter (recovery_key st)) e1)
      else (let due = wo_after wd (recovery_delay failure n);
                summary = (if truthy_str (so_error failure) then the (so_error failure) else so_summary failure);
                e2 = (modify (\<lambda>ws. ws\<lparr>ws_current_step_status := None\<rparr>) e1)
                  \<lparr>en_status := Ready, en_scheduled_for := Some due, en_summary := Some summary,
                   en_db := wo_other wd (en_db e)\<rparr> in
        if \<not> wo_owner wd then (e2, Inl Stale_Writer)
        else case defer_running_task (jb_task_id j) due (Some (en_state e2)) (Some summary) (en_db e2) of
               (db, False) \<Rightarrow> (e2, Inl Stale_Writer)
             | (db, True) \<Rightarrow> (e2\<lparr>en_db := db\<rparr>, Inr True)))"

definition attempts_key :: "step_definition \<Rightarrow> string" where
  "attempts_key st = ''attempts:'' @ st_name st"

definition max_attempts_of :: "step_definition \<Rightarrow> workflow \<Rightarrow> int" where
  "max_attempts_of st w = (case resolve_completion st w of Some c \<Rightarrow> cc_max_attempts c | None \<Rightarrow> 3)"

definition feedback_text :: "evaluation \<Rightarrow> string" where
  "feedback_text ev = (if truthy_str (ev_feedback ev) then the (ev_feedback ev) else ev_reasoning ev)"

text \<open>The feedback stays in the state only when it could not be recorded in the session.\<close>

definition record_evaluation_feedback :: "world \<Rightarrow> evaluation \<Rightarrow> workflow_state \<Rightarrow> workflow_state" where
  "record_evaluation_feedback wd ev ws =
     ws\<lparr>ws_last_evaluation_feedback := (if wo_feedback_kept wd then Some (feedback_text ev) else None)\<rparr>"

text \<open>The counting part of \<open>_handle_step_retry\<close>, for both reasons.\<close>

definition retry_step :: "job \<Rightarrow> world \<Rightarrow> step_definition \<Rightarrow> evaluation option \<Rightarrow> bool act" where
  "retry_step j wd st evaluation e =
     (let n = counter (en_state e) (attempts_key st) 1 in
      if n \<ge> max_attempts_of st (jb_workflow j)
      then handle_exhausted j wd st (get_on_exhausted st (jb_workflow j))
             (case evaluation of
                Some ev \<Rightarrow> Some (feedback_text ev)
              | None \<Rightarrow> if truthy_str (ws_last_evaluation_feedback (en_state e))
                        then ws_last_evaluation_feedback (en_state e) else None) e
      else persisting j wd True (modify (\<lambda>ws.
             set_counter (attempts_key st) (n + 1)
               ((case evaluation of None \<Rightarrow> ws | Some ev \<Rightarrow> record_evaluation_feedback wd ev ws)
                  \<lparr>ws_last_retry_reason :=
                     Some (if evaluation = None then ''execution_failed'' else ''evaluation_rejected'')\<rparr>)) e))"

definition handle_step_retry ::
  "job \<Rightarrow> world \<Rightarrow> step_definition \<Rightarrow> evaluation option \<Rightarrow> step_output option \<Rightarrow> bool act" where
  "handle_step_retry j wd st evaluation failure e =
     (case failure of
        None \<Rightarrow> retry_step j wd st evaluation e
      | Some f \<Rightarrow>
          (let e1 = modify (\<lambda>ws. ws\<lparr>ws_last_retry_reason := Some ''execution_failed'',
                 ws_last_evaluation_feedback := so_error f\<rparr>) e in
           if wo_transient wd then defer_step_recovery j wd st f e1
           else if is_dict (dict_get (so_metadata f) ''model_error'')
           then handle_exhausted j wd st On_Gate (so_error f) e1
           else retry_step j wd st evaluation e1))"

subsection \<open>Outcomes\<close>

datatype routed = R_Continue | R_Failed | R_Cancelled | R_Routed

definition outcome_key :: "step_definition \<Rightarrow> string \<Rightarrow> string" where
  "outcome_key st action = ''outcome:'' @ st_name st @ '':'' @ action"

definition handle_outcome_review_loop ::
  "job \<Rightarrow> world \<Rightarrow> step_definition \<Rightarrow> outcome_route \<Rightarrow> string option \<Rightarrow> routed option act" where
  "handle_outcome_review_loop j wd st route feedback e =
     (case rt_max_loop_iterations route of
        None \<Rightarrow> (e, Inr None)
      | Some limit \<Rightarrow>
          (let key = outcome_key st (rt_action route); n = counter (en_state e) key 0 in
           if n \<ge> limit
           then act_bind (handle_exhausted j wd st (rt_on_exhausted route) feedback)
                  (\<lambda>handled. give (Some (if handled then R_Routed else R_Failed))) e
           else (modify (set_counter key (n + 1)) e, Inr None)))"

text \<open>The jump to a step under revision, with the reason and the reviewer's output as context.\<close>

definition revise_step :: "job \<Rightarrow> world \<Rightarrow> step_definition \<Rightarrow> step_output \<Rightarrow> string \<Rightarrow> routed act" where
  "revise_step j wd st out target e =
     (case find_step_index (jb_workflow j) target of
        None \<Rightarrow> (e, Inr R_Failed)
      | Some i \<Rightarrow>
          persisting j wd R_Routed (modify (\<lambda>ws. (jump_to i target ws)\<lparr>
            ws_last_evaluation_feedback := (case so_outcome out of None \<Rightarrow> None | Some oc \<Rightarrow> oc_reason oc),
            ws_last_revision_context := Some (build_revision_context st out)\<rparr>) e))"

definition reported_status :: "step_output \<Rightarrow> outcome_status" where
  "reported_status out = (case so_outcome out of None \<Rightarrow> Outcome_Success | Some oc \<Rightarrow> oc_status oc)"

definition handle_step_outcome :: "job \<Rightarrow> world \<Rightarrow> step_definition \<Rightarrow> step_output \<Rightarrow> routed act" where
  "handle_step_outcome j wd st out e =
     (let status = reported_status out;
          reason = (case so_outcome out of None \<Rightarrow> None | Some oc \<Rightarrow> oc_reason oc);
          onward = (\<lambda>ws. (clear_feedback ws)\<lparr>ws_last_operator_instruction := None\<rparr>) in
      case resolve_outcome_route st status of
        None \<Rightarrow> (modify onward e, Inr R_Continue)
      | Some route \<Rightarrow>
          (let action = rt_action route in
           if action = ''continue'' then (modify onward e, Inr R_Continue)
           else if action = ''fail'' then (e, Inr R_Failed)
           else if action = ''cancel'' then (e, Inr R_Cancelled)
           else if action = ''gate''
           then (if ws_pending_pause_type (en_state e) \<noteq> Some ''gate'' \<and> jb_mode j = ''none'' then (e, Inr R_Failed)
                 else act_bind (handle_gate_step j wd (st_name st @ ''_outcome_gate'') (Some (build_outcome_gate st reason)))
                   (\<lambda>result e1.
                     if result = ''continue'' then persisting j wd R_Routed (modify (\<lambda>ws. advance (clear_feedback ws)) e1)
                     else if result = ''cancel'' then (e1, Inr R_Cancelled)
                     else if result = ''fail'' then (e1, Inr R_Failed)
                     else case parse_revise_action result of
                         None \<Rightarrow> (e1, Inr R_Failed)
                       | Some target \<Rightarrow> revise_step j wd st out target e1) e)
           else case parse_revise_action action of
               None \<Rightarrow> (e, Inr R_Failed)
             | Some target \<Rightarrow>
                 act_bind (handle_outcome_review_loop j wd st route reason)
                   (\<lambda>loop. case loop of Some r \<Rightarrow> give r | None \<Rightarrow> revise_step j wd st out target) e))"

subsection \<open>Errors of deterministic steps and saved gates\<close>

definition pause_for_deterministic_error :: "job \<Rightarrow> world \<Rightarrow> step_definition \<Rightarrow> string \<Rightarrow> string act" where
  "pause_for_deterministic_error j wd st error e =
     (if ws_pending_pause_type (en_state e) \<noteq> Some ''gate'' \<and> jb_mode j = ''none'' then (e, Inr ''fail'')
      else act_bind (handle_gate_step j wd (st_name st @ '':error'') (Some (build_error_gate st error)))
        (\<lambda>result. give (if result \<in> {''continue'', ''cancel'', ''fail''} then result else ''paused'')) e)"

text \<open>\<open>resume_derived_gate\<close>: whether the saved gate was understood and its decision applied.\<close>

definition resume_derived_gate :: "job \<Rightarrow> world \<Rightarrow> step_definition \<Rightarrow> bool act" where
  "resume_derived_gate j wd st e =
     (let ws = en_state e; payload = payload_of ws; name = dict_get payload ''step_name'';
          set_status = (\<lambda>s. modify (\<lambda>ws. ws\<lparr>ws_status := s\<rparr>)) in
      if \<not> py_eq (dict_get_or payload ''task_attempt'' (VInt (jb_attempt j))) (VInt (jb_attempt j)) \<or>
         \<not> py_eq (dict_get_or payload ''origin_step'' (VStr (st_name st))) (VStr (st_name st)) \<or>
         \<not> py_eq (dict_get_or payload ''origin_step_index'' (VInt (ws_current_step_index ws))) (VInt (ws_current_step_index ws))
      then (e, Inr False)
      else if name = VStr (st_name st @ ''_outcome_gate'')
      then (case map_of (ws_step_outputs ws) (st_name st) of
              None \<Rightarrow> (e, Inr False)
            | Some raw \<Rightarrow>
                if raw = [] then (e, Inr False)
                else (case lb_load (wo_lib wd) raw of
                   Inl m \<Rightarrow> (e, Inl (Failed_With m))
                 | Inr out \<Rightarrow>
                     (case resolve_outcome_route st (reported_status out) of
                        None \<Rightarrow> (e, Inr False)
                      | Some route \<Rightarrow>
                          if rt_action route \<noteq> ''gate'' then (e, Inr False)
                          else act_bind (handle_step_outcome j wd st out)
                            (\<lambda>r e1. ((if r = R_Failed then set_status ''failed'' e1
                                      else if r = R_Cancelled then set_status ''cancelled'' e1 else e1), Inr True)) e)))
      else if name = VStr (st_name st @ ''_exhausted'')
      then act_bind (handle_exhausted j wd st On_Gate (ws_last_evaluation_feedback ws))
             (\<lambda>handled e1. ((if handled then e1 else set_status ''failed'' e1), Inr True)) e
      else if name = VStr (st_name st @ '':error'')
      then act_bind (pause_for_deterministic_error j wd st
               (or_blank (case map_of (ws_step_outputs ws) (st_name st) of None \<Rightarrow> VNone | Some raw \<Rightarrow> dict_get raw ''error'')))
             (\<lambda>result e1.
               if result = ''paused'' then (e1, Inr False)
               else if result = ''cancel'' then (set_status ''cancelled'' e1, Inr True)
               else if result = ''fail'' then (set_status ''failed'' e1, Inr True)
               else case (case as_int (dict_get payload ''next_step_index'') of
                       Some t \<Rightarrow> Some t
                     | None \<Rightarrow> if truthy_str (st_next st) then find_step_index (jb_workflow j) (the (st_next st))
                               else Some (ws_current_step_index (en_state e1) + 1)) of
                   None \<Rightarrow> (set_status ''failed'' e1, Inr True)
                 | Some t \<Rightarrow>
                     act_bind (persist_workflow_state j wd True) (\<lambda>_. give True)
                       (modify (\<lambda>ws. ws\<lparr>ws_current_step_index := t\<rparr>) e1)) e
      else (e, Inr False))"

definition transient_key :: "step_definition \<Rightarrow> string" where
  "transient_key st = ''transient_executor_unavailable:'' @ st_name st"

definition EXECUTOR_WAIT :: string where
  "EXECUTOR_WAIT = ''Workflow is waiting for the selected executor to become ready.''"

definition handle_transient_executor_unavailable :: "job \<Rightarrow> world \<Rightarrow> step_definition \<Rightarrow> int \<Rightarrow> bool act" where
  "handle_transient_executor_unavailable j wd st retry_after e =
     (let due = wo_after wd (of_int (max 1 retry_after));
          e1 = (modify (\<lambda>ws. (set_counter (transient_key st) (counter ws (transient_key st) 0 + 1) ws)
              \<lparr>ws_current_step_status := None, ws_last_retry_reason := None, ws_last_evaluation_feedback := None,
               ws_status := ''running'', ws_pending_pause_type := None, ws_pending_pause_payload := None,
               ws_version := ws_version ws + 1\<rparr>) e)
            \<lparr>en_status := Ready, en_scheduled_for := Some due, en_summary := Some EXECUTOR_WAIT,
             en_db := wo_other wd (en_db e)\<rparr> in
      if \<not> wo_owner wd then (e1, Inl Stale_Writer)
      else case defer_running_task (jb_task_id j) due (Some (en_state e1)) (Some EXECUTOR_WAIT) (en_db e1) of
             (db, False) \<Rightarrow> (e1, Inl Interrupted)
           | (db, True) \<Rightarrow> (e1\<lparr>en_db := db\<rparr>, Inr True))"

subsection \<open>One turn of the loop\<close>

datatype flow = Go_On | Stop_Loop | Return_Task

definition set_status :: "string \<Rightarrow> eng \<Rightarrow> eng" where
  "set_status s e = modify (\<lambda>ws. ws\<lparr>ws_status := s\<rparr>) e"

definition pause_and_return :: "job \<Rightarrow> world \<Rightarrow> flow act" where
  "pause_and_return j wd e =
     act_bind (persist_workflow_state j wd True) (\<lambda>_. give Return_Task) ((set_status ''paused'' e)\<lparr>en_status := Paused\<rparr>)"

definition executor_unavailable :: "job \<Rightarrow> world \<Rightarrow> step_definition \<Rightarrow> int \<Rightarrow> flow act" where
  "executor_unavailable j wd st retry_after =
     act_bind (handle_transient_executor_unavailable j wd st retry_after)
       (\<lambda>deferred. if deferred then give Return_Task else pause_and_return j wd)"

definition clear_pause :: "workflow_state \<Rightarrow> workflow_state" where
  "clear_pause ws = ws\<lparr>ws_current_step_status := None, ws_pending_pause_type := None, ws_pending_pause_payload := None\<rparr>"

text \<open>The move after a deterministic step that did not end the workflow.\<close>

definition follow_route :: "job \<Rightarrow> world \<Rightarrow> step_definition \<Rightarrow> det_result \<Rightarrow> flow act" where
  "follow_route j wd st r e =
     (let ws0 = en_state e;
          target = (case dr_next_step_index r of None \<Rightarrow> ws_current_step_index ws0 + 1 | Some i \<Rightarrow> i);
          ws1 = (case (dr_route_loop_key r, dr_route_loop_iterations r) of
             (Some k, Some n) \<Rightarrow> set_counter k n ws0 | _ \<Rightarrow> ws0);
          ws2 = (case dr_revision_context r of None \<Rightarrow> ws1 | Some c \<Rightarrow> ws1\<lparr>ws_last_revision_context := Some c\<rparr>)
      in case apply_deterministic_route (jb_workflow j) (ws_current_step_index ws0) target
             (deterministic_route_reason st (dr_output r)) ws2 of
           (ws3, Inl m) \<Rightarrow> (e\<lparr>en_state := ws3\<rparr>, Inl (Failed_With m))
         | (ws3, Inr _) \<Rightarrow>
             persisting j wd Go_On (e\<lparr>en_state := (clear_pause ws3)\<lparr>ws_current_step_index := target\<rparr>\<rparr>))"

definition after_deterministic :: "job \<Rightarrow> world \<Rightarrow> step_definition \<Rightarrow> det_result \<Rightarrow> flow act" where
  "after_deterministic j wd st r e0 =
     (let e1 = modify (\<lambda>ws. ws\<lparr>ws_step_outputs := dict_put (st_name st) (lb_dump (wo_lib wd) (dr_output r)) (ws_step_outputs ws)\<rparr>) e0;
          e = (case dr_delivery_mode_override r of None \<Rightarrow> e1 | Some m \<Rightarrow> e1\<lparr>en_delivery := m\<rparr>);
          action = (if truthy_str (dr_error_action r) then the (dr_error_action r) else ''fail'') in
      case dr_workflow_status r of
        Some s \<Rightarrow> persisting j wd Stop_Loop (modify (\<lambda>ws. ws\<lparr>ws_status := s,
                    ws_current_step_index := int (length (wf_steps (jb_workflow j)))\<rparr>) e)
      | None \<Rightarrow>
          if dr_status r = ''paused''
          then pause_and_return j wd (modify (\<lambda>ws. ws\<lparr>ws_current_step_status := Some ''paused''\<rparr>) e)
          else if dr_status r = ''failed'' \<and> action = ''fail'' then persisting j wd Stop_Loop (set_status ''failed'' e)
          else if dr_status r = ''failed'' \<and> action = ''gate''
          then act_bind (pause_for_deterministic_error j wd st
                   (if truthy_str (so_error (dr_output r)) then the (so_error (dr_output r)) else so_summary (dr_output r)))
                 (\<lambda>result e2.
                   if result = ''paused'' then (e2, Inr Return_Task)
                   else if result = ''cancel'' then (set_status ''cancelled'' e2, Inr Stop_Loop)
                   else if result = ''fail'' then (set_status ''failed'' e2, Inr Stop_Loop)
                   else follow_route j wd st r e2) e
          else follow_route j wd st r e)"

definition deterministic_turn :: "job \<Rightarrow> world \<Rightarrow> step_definition \<Rightarrow> flow act" where
  "deterministic_turn j wd st e =
     (case wo_det_halt wd of
        Some (Executor_Unavailable t) \<Rightarrow> executor_unavailable j wd st t e
      | Some (Run_Halted h) \<Rightarrow> (e, Inl h)
      | _ \<Rightarrow> after_deterministic j wd st
               (fst (execute_deterministic_step (wo_lib wd) (jb_workflow j) st (en_state e) (wo_tool wd) (wo_latest wd))) e)"

definition gate_turn :: "job \<Rightarrow> world \<Rightarrow> step_definition \<Rightarrow> flow act" where
  "gate_turn j wd st =
     act_bind (handle_gate_step j wd (st_name st) (st_gate st)) (\<lambda>result e.
       let ended = (\<lambda>s. (modify (\<lambda>ws. ws\<lparr>ws_status := s, ws_last_operator_instruction := None\<rparr>) e, Inr Stop_Loop)) in
       if result = ''cancel'' then ended ''cancelled''
       else if result = ''fail'' then ended ''failed''
       else case parse_revise_action result of
           None \<Rightarrow> persisting j wd Go_On (modify advance e)
         | Some target \<Rightarrow>
             (case find_step_index (jb_workflow j) target of
                None \<Rightarrow> (set_status ''failed'' e, Inr Stop_Loop)
              | Some i \<Rightarrow>
                  persisting j wd Go_On (modify (\<lambda>ws. jump_to i target
                    (if truthy_str (ws_last_revision_context ws) then ws
                     else ws\<lparr>ws_last_revision_context := Some (gate_revision_context (st_name st) target
                       (py_strip (or_blank (dict_get (payload_of ws) ''message'')))
                       (py_strip (or_blank (dict_get (payload_of ws) ''context''))) [])\<rparr>)) e)))"

definition EVALUATOR_MALFUNCTION_REASON_PREFIX :: string where
  "EVALUATOR_MALFUNCTION_REASON_PREFIX = ''Evaluator malfunction:''"

definition is_evaluator_malfunction :: "evaluation \<Rightarrow> bool" where
  "is_evaluator_malfunction ev = py_startswith (ev_reasoning ev) EVALUATOR_MALFUNCTION_REASON_PREFIX"

text \<open>The output was approved, or needs no approval: commit it, then route by its outcome.\<close>

definition approve_step :: "job \<Rightarrow> world \<Rightarrow> step_definition \<Rightarrow> step_output \<Rightarrow> flow act" where
  "approve_step j wd st out e =
     act_bind (handle_step_outcome j wd st out) (\<lambda>r e1.
       case r of
         R_Failed \<Rightarrow> (set_status ''failed'' e1, Inr Stop_Loop)
       | R_Cancelled \<Rightarrow> (set_status ''cancelled'' e1, Inr Stop_Loop)
       | R_Routed \<Rightarrow> (e1, Inr Go_On)
       | R_Continue \<Rightarrow>
           persisting j wd Go_On (modify (\<lambda>ws.
             advance ((clear_feedback (clear_pause ws))\<lparr>ws_last_operator_instruction := None\<rparr>)) e1))
       (modify (\<lambda>ws. ws\<lparr>ws_step_outputs := dict_put (st_name st) (lb_dump (wo_lib wd) out) (ws_step_outputs ws)\<rparr>) e)"

definition after_retry :: "flow act \<Rightarrow> bool \<Rightarrow> flow act" where
  "after_retry onward handled = (if handled then onward else (\<lambda>e. (set_status ''failed'' e, Inr Stop_Loop)))"

definition judge_step :: "job \<Rightarrow> world \<Rightarrow> step_definition \<Rightarrow> step_output \<Rightarrow> evaluation \<Rightarrow> flow act" where
  "judge_step j wd st out ev e =
     (case ev_decision ev of
        Approved \<Rightarrow> approve_step j wd st out e
      | Revise \<Rightarrow>
          act_bind (handle_review_loop j wd st) (\<lambda>looped.
            if looped then give Go_On
            else act_bind (handle_step_retry j wd st (Some ev) None) (after_retry (give Go_On)))
            (modify (\<lambda>ws. ws\<lparr>ws_last_evaluation_feedback := Some (feedback_text ev)\<rparr>) e)
      | Verdict_Failed \<Rightarrow>
          if is_evaluator_malfunction ev then (set_status ''failed'' e, Inr Stop_Loop)
          else act_bind (handle_exhausted j wd st (get_on_exhausted st (jb_workflow j)) None) (after_retry (give Go_On)) e)"

definition finished_step :: "job \<Rightarrow> world \<Rightarrow> step_definition \<Rightarrow> step_output \<Rightarrow> flow act" where
  "finished_step j wd st out e0 =
     (let e = modify (\<lambda>ws. (pop_counter (recovery_key st) ws)\<lparr>ws_resume_failed_step := False\<rparr>) e0;
          evaluated = (case resolve_completion st (jb_workflow j) of None \<Rightarrow> False | Some c \<Rightarrow> cc_evaluate c) in
      if \<not> evaluated
      then (if so_deliverable_id out \<noteq> None \<and> \<not> wo_owner wd then (e, Inl Stale_Writer) else approve_step j wd st out e)
      else case wo_evaluation wd of
             Inl h \<Rightarrow> (e, Inl h)
           | Inr ev \<Rightarrow> if wo_owner wd then judge_step j wd st out ev e else (e, Inl Stale_Writer))"

definition run_turn :: "job \<Rightarrow> world \<Rightarrow> step_definition \<Rightarrow> flow act" where
  "run_turn j wd st e =
     (let retry = (\<lambda>failure. act_bind (handle_step_retry j wd st None failure)
            (after_retry (\<lambda>e1. (e1, Inr (if en_status e1 = Ready then Return_Task else Go_On)))) e) in
      case wo_run wd of
        Run_Halted h \<Rightarrow> (e, Inl h)
      | Executor_Unavailable t \<Rightarrow> executor_unavailable j wd st t e
      | No_Output \<Rightarrow> retry None
      | Ran out \<Rightarrow> if so_error out \<noteq> None then retry (Some out) else finished_step j wd st out e)"

text \<open>Sources of this step that were skipped; running without them would produce garbage.\<close>

definition missing_sources :: "job \<Rightarrow> step_definition \<Rightarrow> workflow_state \<Rightarrow> (string, string list) result" where
  "missing_sources j st ws =
     (if ws_skipped_steps ws = [] then Inr []
      else res_bind (resolve_source_names st (nat (ws_current_step_index ws)) (wf_steps (jb_workflow j)))
        (\<lambda>names. Inr (filter (\<lambda>n. n \<in> set (ws_skipped_steps ws)) names)))"

definition engine_step :: "job \<Rightarrow> world \<Rightarrow> flow act" where
  "engine_step j wd e =
     (if wo_over_time wd then (set_status ''failed'' e, Inr Stop_Loop)
      else case py_index (wf_steps (jb_workflow j)) (ws_current_step_index (en_state e)) of
        None \<Rightarrow> (e, Inl (Failed_With INDEX_ERROR))
      | Some st \<Rightarrow>
          if ws_pending_pause_type (en_state e) = Some ''gate'' \<and> st_type st \<noteq> Gate
          then act_bind (resume_derived_gate j wd st) (\<lambda>understood e1.
                 if \<not> understood then pause_and_return j wd e1
                 else (e1, Inr (if ws_status (en_state e1) \<in> {''failed'', ''cancelled''} then Stop_Loop else Go_On))) e
          else
            (let e1 = modify (\<lambda>ws. ws\<lparr>ws_current_step_status := Some ''running'',
                   ws_routing_skips := dict_del (st_name st) (ws_routing_skips ws)\<rparr>) e in
             if deterministic st then deterministic_turn j wd st e1
             else if st_type st = Gate then gate_turn j wd st e1
             else case missing_sources j st (en_state e1) of
                 Inl m \<Rightarrow> (e1, Inl (Failed_With m))
               | Inr missing \<Rightarrow>
                   if missing \<noteq> []
                   then persisting j wd Go_On (modify (\<lambda>ws. advance (ws\<lparr>ws_skipped_steps := ws_skipped_steps ws @ [st_name st]\<rparr>)) e1)
                   else run_turn j wd st e1))"

subsection \<open>The loop and the end of a workflow\<close>

definition steps_left :: "job \<Rightarrow> eng \<Rightarrow> bool" where
  "steps_left j e \<longleftrightarrow> ws_current_step_index (en_state e) < int (length (wf_steps (jb_workflow j)))"

text \<open>One world per turn; \<open>None\<close> when the loop wants more turns than there are worlds.\<close>

fun run_loop :: "job \<Rightarrow> world list \<Rightarrow> eng \<Rightarrow> (eng \<times> (halt, flow) result) option" where
  "run_loop j worlds e =
     (if \<not> steps_left j e then Some (e, Inr Stop_Loop)
      else case worlds of
        [] \<Rightarrow> None
      | wd # rest \<Rightarrow>
          (case engine_step j wd e of
             (e', Inr Go_On) \<Rightarrow> run_loop j rest e'
           | (e', r) \<Rightarrow> Some (e', r)))"

declare run_loop.simps [simp del]

lemma run_loop_simps [simp]:
  "run_loop j [] e = (if steps_left j e then None else Some (e, Inr Stop_Loop))"
  "run_loop j (wd # rest) e =
     (if \<not> steps_left j e then Some (e, Inr Stop_Loop)
      else case engine_step j wd e of
             (e', Inr Go_On) \<Rightarrow> run_loop j rest e'
           | (e', r) \<Rightarrow> Some (e', r))"
  by (subst run_loop.simps, simp)+

definition conclude :: "job \<Rightarrow> world \<Rightarrow> eng \<Rightarrow> eng" where
  "conclude j wd e0 =
     (let e1 = modify clear_pause e0; w = jb_workflow j;
          e2 = (case deterministic_completion_delivery_override (wo_lib wd) (en_state e1) of
             None \<Rightarrow> e1 | Some m \<Rightarrow> e1\<lparr>en_delivery := m\<rparr>);
          ws = en_state e2;
          e3 = (if ws_status ws = ''cancelled''
             then e2\<lparr>en_status := Cancelled, en_summary := Some (let s = build_result_summary ws w in
                    if s \<noteq> [] then s else ''Workflow cancelled'')\<rparr>
             else if ws_status ws = ''failed'' \<or> ws_skipped_steps ws \<noteq> []
             then (set_status ''failed'' e2)\<lparr>en_status := Failed, en_summary := Some
                    (if ws_skipped_steps ws \<noteq> []
                     then ''Workflow failed: steps skipped after exhausting retries ('' @
                       join_with '', '' (ws_skipped_steps ws) @ '')''
                     else (let s = build_failure_result_summary (ws\<lparr>ws_status := ''failed''\<rparr>) w in
                       if s \<noteq> [] then s else ''Workflow failed''))\<rparr>
             else (set_status ''completed'' e2)\<lparr>en_status := Completed, en_summary := Some (build_result_summary ws w)\<rparr>)
      in e3\<lparr>en_completed_at := Some (wo_now wd), en_data := Some (wo_data wd),
            en_completion := resolve_applied_completion (wo_lib wd) (en_status e3) (jb_policy j) (Some (wo_data wd)) (en_state e3)\<rparr>)"

text \<open>The exception handlers of \<open>execute_workflow\<close>; \<open>Inl\<close> is an exception that leaves it.\<close>

definition fail_task :: "job \<Rightarrow> world \<Rightarrow> eng \<Rightarrow> eng \<times> (halt, unit) result" where
  "fail_task j wd e =
     (let e1 = e\<lparr>en_status := Failed, en_completed_at := Some (wo_now wd)\<rparr> in
      if \<not> wo_owner wd then (e1, Inl Stale_Writer)
      else persist_task_final j wd
        (e1\<lparr>en_db := fail_running_step_runs_for_task (jb_task_id j) Run_Failed (wo_other wd (en_db e))\<rparr>))"

definition handle_halt :: "job \<Rightarrow> world \<Rightarrow> halt \<Rightarrow> eng \<Rightarrow> eng \<times> (halt, unit) result" where
  "handle_halt j wd h e =
     (case h of
        Interrupted \<Rightarrow>
          if read_task_status j (en_db e) = Cancelled
          then ((modify clear_pause (set_status ''cancelled'' e))\<lparr>en_status := Cancelled, en_completed_at := Some (wo_now wd)\<rparr>, Inr ())
          else persist_workflow_state j wd False ((set_status ''paused'' e)\<lparr>en_status := Paused\<rparr>)
      | Timed_Out \<Rightarrow>
          fail_task j wd ((modify clear_pause (set_status ''failed'' e))\<lparr>en_summary := Some
             (''Workflow timed out after '' @ show_int (wo_elapsed wd) @ ''s of active execution'')\<rparr>)
      | Stale_Writer \<Rightarrow> (e, Inl Stale_Writer)
      | Recovery_Timeout m detail \<Rightarrow>
          fail_task j wd ((set_status ''failed'' e)\<lparr>en_summary := Some m, en_data := Some detail\<rparr>)
      | Failed_With m \<Rightarrow> fail_task j wd (set_status ''failed'' e))"

definition execute_workflow :: "job \<Rightarrow> world list \<Rightarrow> world \<Rightarrow> eng \<Rightarrow> (eng \<times> (halt, unit) result) option" where
  "execute_workflow j worlds last_world e =
     (case run_loop j worlds e of
        None \<Rightarrow> None
      | Some (e1, Inl h) \<Rightarrow> Some (handle_halt j last_world h e1)
      | Some (e1, Inr Stop_Loop) \<Rightarrow>
          (let e2 = conclude j last_world e1 in
           case persist_task_final j last_world e2 of
             (e3, Inr _) \<Rightarrow> Some (e3, Inr ())
           | (e3, Inl h) \<Rightarrow> Some (handle_halt j last_world h e3))
      | Some (e1, Inr _) \<Rightarrow> Some (e1, Inr ()))"

subsection \<open>What a handler leaves of the state\<close>

lemma act_bind_InrE:
  assumes "act_bind m f e = (e', Inr y)"
  obtains e1 x where "m e = (e1, Inr x)" "f x e1 = (e', Inr y)"
  using assms by (auto simp: act_bind_def split: prod.splits sum.splits)

definition bumped :: "workflow_state \<Rightarrow> workflow_state" where
  "bumped ws = ws\<lparr>ws_version := ws_version ws + 1\<rparr>"

lemma persist_state:
  "persist_workflow_state j wd sync e = (e', Inr u) \<Longrightarrow> en_state e' = bumped (en_state e) \<and> en_status e' = en_status e"
  by (auto simp: persist_workflow_state_def bumped_def Let_def split: if_splits prod.splits bool.splits)

lemma persisting_state:
  "persisting j wd x e = (e', Inr y) \<Longrightarrow> y = x \<and> en_state e' = bumped (en_state e) \<and> en_status e' = en_status e"
  unfolding persisting_def by (elim act_bind_InrE) (auto simp: give_def dest: persist_state)

lemma modify_state [simp]: "en_state (modify f e) = f (en_state e)" "en_status (modify f e) = en_status e"
  "en_db (modify f e) = en_db e"
  by (simp_all add: modify_def)

definition pending_gate :: "workflow_state \<Rightarrow> bool" where
  "pending_gate ws \<longleftrightarrow> ws_pending_pause_type ws = Some ''gate''"

text \<open>
  Counters that never go down: all but those of attempts, of recovery and of conditions. Where two
  states have the same loops, only other fields differ.
\<close>

definition protected :: "string \<Rightarrow> bool" where
  "protected k \<longleftrightarrow> \<not> py_startswith k ''attempts:'' \<and> \<not> py_startswith k ''recovery:'' \<and> \<not> py_startswith k ''condition:''"

definition grows :: "workflow_state \<Rightarrow> workflow_state \<Rightarrow> bool" where
  "grows ws ws' \<longleftrightarrow> (\<forall>k. protected k \<longrightarrow> counter ws k 0 \<le> counter ws' k 0)"

lemma grows_refl [simp]: "grows ws ws"
  by (simp add: grows_def)

lemma grows_trans [trans]: "grows a b \<Longrightarrow> grows b c \<Longrightarrow> grows a c"
  by (auto simp: grows_def intro: order_trans)

lemma grows_same: "ws_loop_iterations ws = ws_loop_iterations ws' \<Longrightarrow> grows ws ws'"
  by (simp add: grows_def counter_def)

lemma counter_set [simp]: "counter (set_counter k n ws) k' d = (if k' = k then n else counter ws k' d)"
  by (simp add: counter_def set_counter_def)

lemma counter_pop [simp]: "counter (pop_counter k ws) k' d = (if k' = k then d else counter ws k' d)"
  by (simp add: counter_def pop_counter_def)

lemma counter_same: "ws_loop_iterations ws = ws_loop_iterations ws' \<Longrightarrow> counter ws = counter ws'"
  by (simp add: counter_def fun_eq_iff)

lemma grows_set: "\<not> protected k \<or> counter ws k 0 \<le> n \<Longrightarrow> grows ws (set_counter k n ws)"
  by (auto simp: grows_def)

lemma grows_pop: "\<not> protected k \<Longrightarrow> grows ws (pop_counter k ws)"
  by (auto simp: grows_def)

lemma not_protected_keys [simp]: "\<not> protected (attempts_key st)" "\<not> protected (recovery_key st)"
  by (simp_all add: attempts_key_def recovery_key_def protected_def)

subsection \<open>An instance\<close>

definition demo_output :: step_output where
  "demo_output = \<lparr>so_summary = ''done'', so_content = [], so_outputs = [], so_metadata = [], so_claims = [],
     so_outcome = None, so_notification = None, so_deliverable_id = None, so_error = None, so_session_id = None\<rparr>"

definition demo_job :: "step_definition list \<Rightarrow> job" where
  "demo_job steps = \<lparr>jb_task_id = ''a'', jb_attempt = 1, jb_mode = ''none'', jb_workflow = demo_workflow steps, jb_policy = None\<rparr>"

definition demo_world :: "run_result \<Rightarrow> verdict \<Rightarrow> world" where
  "demo_world run verdict =
     \<lparr>wo_lib = demo_library, wo_parse = (\<lambda>_. None), wo_load_gate = (\<lambda>_. Inl ''bad''), wo_dump_gate = (\<lambda>_. VNone),
      wo_deadline = show_int, wo_normal_time = Inr, wo_other = (\<lambda>db. db), wo_between = (\<lambda>db. db), wo_owner = True, wo_now = 7,
      wo_after = (\<lambda>d. 7 + nat \<lceil>d\<rceil>), wo_elapsed = 1, wo_over_time = False, wo_run = run, wo_transient = False,
      wo_evaluation = Inr \<lparr>ev_decision = verdict, ev_reasoning = ''because'', ev_feedback = None\<rparr>,
      wo_feedback_kept = True, wo_rejected = None, wo_uuid = ''u'', wo_notification = None, wo_answer = None,
      wo_det_halt = None, wo_tool = (\<lambda>ri. Inl (''no tool'', ri)), wo_latest = None, wo_data = VNone\<rparr>"

definition demo_eng :: "task_status \<Rightarrow> eng" where
  "demo_eng s = \<lparr>en_db = xd_tasks (demo_db s Queued []), en_status = Running, en_state = initial_workflow_state,
     en_delivery = ''summary'', en_summary = None, en_data = None, en_completed_at = None, en_scheduled_for = None,
     en_completion = ('''', None)\<rparr>"

end
