(* ===== verification/Workflow_Progress.thy ===== *)
theory Workflow_Progress
  imports Workflow_Engine
begin

section \<open>Autonomous workflows end\<close>

text \<open>
  A workflow of interaction mode \<open>none\<close> has nobody to ask: every turn of the loop of
  \<open>execute_workflow\<close> that goes on makes a measure of the workflow state smaller. The measure is
  lexicographic: a gate still open from before, what is left of the counted loops (reviews,
  outcome routes and deterministic jumps), the distance to the last step, and the attempts of the
  current step. So the loop ends whatever the agents, the evaluator and the tools answer.
\<close>

subsection \<open>The measure of an autonomous run\<close>

definition review_left :: "workflow \<Rightarrow> workflow_state \<Rightarrow> step_definition \<Rightarrow> nat" where
  "review_left w ws st =
     (case st_on_reject st of
        None \<Rightarrow> 0
      | Some rj \<Rightarrow> if find_step_index w (rj_target rj) = None then 0
                   else nat (rj_max_loop_iterations rj - counter ws (review_key st rj) 0))"

definition outcomes_left :: "workflow_state \<Rightarrow> step_definition \<Rightarrow> nat" where
  "outcomes_left ws st = (\<Sum>r\<leftarrow>st_outcome_routes st.
     case rt_max_loop_iterations r of
       None \<Rightarrow> 0 | Some m \<Rightarrow> nat (m - counter ws (outcome_key st (rt_action r)) 0))"

definition jumps_left :: "workflow_state \<Rightarrow> nat" where
  "jumps_left ws = nat (MAX_DETERMINISTIC_JUMPS + 1 - counter ws ''deterministic_jumps'' 0)"

definition budget :: "workflow \<Rightarrow> workflow_state \<Rightarrow> nat" where
  "budget w ws = (\<Sum>st\<leftarrow>wf_steps w. review_left w ws st) + (\<Sum>st\<leftarrow>wf_steps w. outcomes_left ws st) + jumps_left ws"

definition distance :: "workflow \<Rightarrow> workflow_state \<Rightarrow> nat" where
  "distance w ws = nat (int (length (wf_steps w)) - ws_current_step_index ws)"

definition attempts_left :: "workflow \<Rightarrow> workflow_state \<Rightarrow> nat" where
  "attempts_left w ws =
     (case py_index (wf_steps w) (ws_current_step_index ws) of
        None \<Rightarrow> 0 | Some st \<Rightarrow> nat (max_attempts_of st w - counter ws (attempts_key st) 1))"

definition measure_of :: "workflow \<Rightarrow> workflow_state \<Rightarrow> nat \<times> nat \<times> nat \<times> nat" where
  "measure_of w ws = (of_bool (pending_gate ws), budget w ws, distance w ws, attempts_left w ws)"

definition closer :: "workflow \<Rightarrow> workflow_state \<Rightarrow> workflow_state \<Rightarrow> bool" where
  "closer w ws' ws \<longleftrightarrow> (measure_of w ws', measure_of w ws) \<in> less_than <*lex*> less_than <*lex*> less_than <*lex*> less_than"

definition colon_free :: "workflow \<Rightarrow> bool" where
  "colon_free w \<longleftrightarrow> list_all (\<lambda>st. CHR '':'' \<notin> set (st_name st)) (wf_steps w)"

definition bounded_routes :: "workflow \<Rightarrow> bool" where
  "bounded_routes w \<longleftrightarrow> list_all (\<lambda>st. list_all (\<lambda>r. parse_revise_action (rt_action r) \<noteq> None \<longrightarrow>
     rt_max_loop_iterations r \<noteq> None) (st_outcome_routes st)) (wf_steps w)"

lemma find_step_index_mem:
  assumes "find_step_index w n = Some i"
  shows "n \<in> st_name ` set (wf_steps w)"
proof -
  let ?i = "length (takeWhile (\<lambda>st. st_name st \<noteq> n) (wf_steps w))"
  from assms have "?i < length (wf_steps w)" by (auto simp: find_step_index_def Let_def split: if_splits)
  then have "st_name (wf_steps w ! ?i) = n" "wf_steps w ! ?i \<in> set (wf_steps w)"
    using nth_length_takeWhile [of "\<lambda>st. st_name st \<noteq> n" "wf_steps w"] by auto
  then show ?thesis by force
qed

lemma colon_prefix: "CHR '':'' \<notin> set k \<Longrightarrow> CHR '':'' \<in> set p \<Longrightarrow> \<not> py_startswith k p"
  by (auto simp: py_startswith_iff)

lemma review_key_protected:
  assumes "colon_free w" and "st \<in> set (wf_steps w)" and "find_step_index w (rj_target rj) \<noteq> None"
  shows "protected (review_key st rj)"
proof -
  from assms(3) have "rj_target rj \<in> st_name ` set (wf_steps w)" by (auto dest: find_step_index_mem)
  with assms(1,2) have "CHR '':'' \<notin> set (review_key st rj)"
    by (auto simp: colon_free_def list_all_iff review_key_def)
  then show ?thesis by (simp add: protected_def colon_prefix)
qed

lemma outcome_key_protected [simp]: "protected (outcome_key st a)"
  by (simp add: protected_def outcome_key_def)

lemma jumps_protected [simp]: "protected ''deterministic_jumps''"
  by (simp add: protected_def)

lemma review_left_mono:
  assumes "colon_free w" and "st \<in> set (wf_steps w)" and "grows ws ws'"
  shows "review_left w ws' st \<le> review_left w ws st"
  using assms review_key_protected [OF assms(1,2)]
  by (auto simp: review_left_def grows_def split: option.split intro!: nat_mono)

lemma outcomes_left_mono: "grows ws ws' \<Longrightarrow> outcomes_left ws' st \<le> outcomes_left ws st"
  unfolding outcomes_left_def by (rule sum_list_mono) (auto simp: grows_def split: option.split intro!: nat_mono)

lemma jumps_left_mono: "grows ws ws' \<Longrightarrow> jumps_left ws' \<le> jumps_left ws"
  unfolding jumps_left_def by (rule nat_mono) (simp add: grows_def)

lemma budget_mono: "colon_free w \<Longrightarrow> grows ws ws' \<Longrightarrow> budget w ws' \<le> budget w ws"
  unfolding budget_def by (intro add_mono sum_list_mono review_left_mono outcomes_left_mono jumps_left_mono) auto

lemma sum_list_strict:
  fixes f g :: "'a \<Rightarrow> nat"
  assumes "\<And>x. x \<in> set xs \<Longrightarrow> f x \<le> g x" and "y \<in> set xs" and "f y < g y"
  shows "(\<Sum>x\<leftarrow>xs. f x) < (\<Sum>x\<leftarrow>xs. g x)"
  using assms
proof (induction xs)
  case (Cons x xs)
  have "(\<Sum>x\<leftarrow>xs. f x) \<le> (\<Sum>x\<leftarrow>xs. g x)" using Cons.prems(1) by (intro sum_list_mono) simp
  then show ?case using Cons by (cases "y = x") (auto intro: add_less_le_mono add_le_less_mono)
qed simp

lemma budget_review:
  assumes "colon_free w" and "grows ws ws'" and "st \<in> set (wf_steps w)" and "review_left w ws' st < review_left w ws st"
  shows "budget w ws' < budget w ws"
proof -
  have "(\<Sum>st\<leftarrow>wf_steps w. review_left w ws' st) < (\<Sum>st\<leftarrow>wf_steps w. review_left w ws st)"
    using assms by (intro sum_list_strict) (auto intro: review_left_mono)
  moreover have "(\<Sum>st\<leftarrow>wf_steps w. outcomes_left ws' st) \<le> (\<Sum>st\<leftarrow>wf_steps w. outcomes_left ws st)"
    using assms(2) by (intro sum_list_mono outcomes_left_mono)
  moreover note jumps_left_mono [OF assms(2)]
  ultimately show ?thesis unfolding budget_def by linarith
qed

lemma budget_outcome:
  assumes "colon_free w" and "grows ws ws'" and "st \<in> set (wf_steps w)" and "outcomes_left ws' st < outcomes_left ws st"
  shows "budget w ws' < budget w ws"
proof -
  have "(\<Sum>st\<leftarrow>wf_steps w. outcomes_left ws' st) < (\<Sum>st\<leftarrow>wf_steps w. outcomes_left ws st)"
    using assms by (intro sum_list_strict) (auto intro: outcomes_left_mono)
  moreover have "(\<Sum>st\<leftarrow>wf_steps w. review_left w ws' st) \<le> (\<Sum>st\<leftarrow>wf_steps w. review_left w ws st)"
    using assms(1,2) by (intro sum_list_mono review_left_mono)
  moreover note jumps_left_mono [OF assms(2)]
  ultimately show ?thesis unfolding budget_def by linarith
qed

lemma budget_jump:
  assumes "colon_free w" and "grows ws ws'" and "jumps_left ws' < jumps_left ws"
  shows "budget w ws' < budget w ws"
proof -
  have "(\<Sum>st\<leftarrow>wf_steps w. outcomes_left ws' st) \<le> (\<Sum>st\<leftarrow>wf_steps w. outcomes_left ws st)"
    using assms(2) by (intro sum_list_mono outcomes_left_mono)
  moreover have "(\<Sum>st\<leftarrow>wf_steps w. review_left w ws' st) \<le> (\<Sum>st\<leftarrow>wf_steps w. review_left w ws st)"
    using assms(1,2) by (intro sum_list_mono review_left_mono)
  ultimately show ?thesis using assms(3) unfolding budget_def by linarith
qed

lemma closer_pending: "pending_gate ws \<Longrightarrow> \<not> pending_gate ws' \<Longrightarrow> closer w ws' ws"
  by (simp add: closer_def measure_of_def)

lemma closer_budget: "(pending_gate ws' \<Longrightarrow> pending_gate ws) \<Longrightarrow> budget w ws' < budget w ws \<Longrightarrow> closer w ws' ws"
  by (auto simp: closer_def measure_of_def)

lemma closer_distance:
  assumes "pending_gate ws' \<Longrightarrow> pending_gate ws" and "colon_free w" and "grows ws ws'"
    and "ws_current_step_index ws' = ws_current_step_index ws + 1"
    and "ws_current_step_index ws < int (length (wf_steps w))"
  shows "closer w ws' ws"
proof -
  have "distance w ws' < distance w ws" using assms(4,5) by (simp add: distance_def)
  with assms(1) budget_mono [OF assms(2,3)] show ?thesis
    by (auto simp: closer_def measure_of_def)
qed

lemma closer_attempts:
  assumes "pending_gate ws' \<Longrightarrow> pending_gate ws" and "colon_free w" and "grows ws ws'"
    and "ws_current_step_index ws' = ws_current_step_index ws" and "attempts_left w ws' < attempts_left w ws"
  shows "closer w ws' ws"
  using assms(1,4,5) budget_mono [OF assms(2,3)]
  by (auto simp: closer_def measure_of_def distance_def)

lemma wf_closer: "wfP (closer w)"
proof -
  have "{(ws', ws). closer w ws' ws} = inv_image (less_than <*lex*> less_than <*lex*> less_than <*lex*> less_than) (measure_of w)"
    by (auto simp: closer_def inv_image_def)
  then show ?thesis unfolding wfp_def by (simp add: wf_inv_image wf_lex_prod)
qed

subsection \<open>Handlers of an autonomous run\<close>

text \<open>What an exhausted step may do without anyone to ask: skip, or fail.\<close>

definition same_loops :: "workflow_state \<Rightarrow> workflow_state \<Rightarrow> bool" where
  "same_loops ws ws' \<longleftrightarrow> ws_loop_iterations ws' = ws_loop_iterations ws \<and>
     ws_pending_pause_type ws' = ws_pending_pause_type ws"

definition stepped :: "workflow_state \<Rightarrow> workflow_state \<Rightarrow> bool" where
  "stepped ws ws' \<longleftrightarrow> same_loops ws ws' \<and> ws_current_step_index ws' = ws_current_step_index ws + 1"

lemma handle_exhausted_autonomous:
  assumes "jb_mode j = ''none''" and "handle_exhausted j wd st action err e = (e', Inr b)"
  shows "if b then stepped (en_state e) (en_state e') else e' = e"
  using assms by (cases action)
    (auto simp: handle_exhausted_def stepped_def same_loops_def bumped_def advance_def dest!: persisting_state)

lemma closer_stepped:
  assumes "colon_free w" and "stepped ws ws'" and "ws_current_step_index ws < int (length (wf_steps w))"
  shows "closer w ws' ws"
  using assms by (intro closer_distance) (auto simp: stepped_def same_loops_def pending_gate_def intro: grows_same)

lemma review_key_neq [simp]: "review_key st rj \<noteq> attempts_key st" "attempts_key st \<noteq> review_key st rj"
proof -
  have "last (rj_target rj @ ''->'') \<noteq> last ''attempts:''" by simp
  then show "review_key st rj \<noteq> attempts_key st" unfolding review_key_def attempts_key_def
    by (metis append_assoc append_same_eq)
  then show "attempts_key st \<noteq> review_key st rj" by simp
qed

lemma attempts_left_at:
  "py_index (wf_steps w) (ws_current_step_index ws) = Some st \<Longrightarrow>
   attempts_left w ws = nat (max_attempts_of st w - counter ws (attempts_key st) 1)"
  by (simp add: attempts_left_def)

lemma retry_step_autonomous:
  assumes mode: "jb_mode j = ''none''" and cf: "colon_free (jb_workflow j)" and left: "steps_left j e"
    and st: "py_index (wf_steps (jb_workflow j)) (ws_current_step_index (en_state e)) = Some st"
    and retry: "retry_step j wd st ev e = (e', Inr True)"
  shows "closer (jb_workflow j) (en_state e') (en_state e)"
proof (cases "counter (en_state e) (attempts_key st) 1 \<ge> max_attempts_of st (jb_workflow j)")
  case True
  with retry handle_exhausted_autonomous [OF mode] have "stepped (en_state e) (en_state e')"
    by (auto simp: retry_step_def Let_def split: if_splits)
  with cf left show ?thesis by (intro closer_stepped) (simp_all add: steps_left_def)
next
  case False
  with retry have s: "en_state e' = bumped (set_counter (attempts_key st) (counter (en_state e) (attempts_key st) 1 + 1)
      ((case ev of None \<Rightarrow> en_state e | Some v \<Rightarrow> record_evaluation_feedback wd v (en_state e))
        \<lparr>ws_last_retry_reason := Some (if ev = None then ''execution_failed'' else ''evaluation_rejected'')\<rparr>))"
    by (auto simp: retry_step_def Let_def dest!: persisting_state)
  let ?ws = "en_state e" and ?ws' = "en_state e'"
  have idx: "ws_current_step_index ?ws' = ws_current_step_index ?ws" "ws_pending_pause_type ?ws' = ws_pending_pause_type ?ws"
    by (cases ev; simp add: s bumped_def set_counter_def record_evaluation_feedback_def)+
  have loops: "counter ?ws' k d = (if k = attempts_key st then counter ?ws (attempts_key st) 1 + 1 else counter ?ws k d)" for k d
    by (cases ev; simp add: s bumped_def set_counter_def record_evaluation_feedback_def counter_def)
  show ?thesis
  proof (rule closer_attempts [OF _ cf _ idx(1)])
    show "grows ?ws ?ws'" by (auto simp: grows_def loops)
    show "attempts_left (jb_workflow j) ?ws' < attempts_left (jb_workflow j) ?ws"
      using st False by (simp add: attempts_left_at idx(1) loops)
  qed (simp add: pending_gate_def idx)
qed

subsection \<open>Gates and handlers of one turn\<close>

definition kept :: "workflow \<Rightarrow> workflow_state \<Rightarrow> workflow_state \<Rightarrow> bool" where
  "kept w ws ws' \<longleftrightarrow> grows ws ws' \<and> ws_current_step_index ws' = ws_current_step_index ws \<and>
     ws_pending_pause_type ws' = ws_pending_pause_type ws \<and> attempts_left w ws' = attempts_left w ws"

lemma kept_same:
  "ws_loop_iterations ws' = ws_loop_iterations ws \<Longrightarrow> ws_current_step_index ws' = ws_current_step_index ws \<Longrightarrow>
   ws_pending_pause_type ws' = ws_pending_pause_type ws \<Longrightarrow> kept w ws ws'"
  by (auto simp: kept_def attempts_left_def counter_def grows_def split: option.split)

lemma counter_fields [simp]:
  "ws_current_step_index (set_counter k n ws) = ws_current_step_index ws"
  "ws_pending_pause_type (set_counter k n ws) = ws_pending_pause_type ws"
  "ws_current_step_index (pop_counter k ws) = ws_current_step_index ws"
  "ws_pending_pause_type (pop_counter k ws) = ws_pending_pause_type ws"
  by (simp_all add: set_counter_def pop_counter_def)

lemma closer_kept: "colon_free w \<Longrightarrow> kept w ws ws' \<Longrightarrow> closer w ws'' ws' \<Longrightarrow> closer w ws'' ws"
  using budget_mono [of w ws ws'] by (auto simp: kept_def closer_def measure_of_def pending_gate_def distance_def)

lemma kept_left: "kept w (en_state e) (en_state e') \<Longrightarrow> jb_workflow j = w \<Longrightarrow> steps_left j e' = steps_left j e"
  by (simp add: kept_def steps_left_def)

lemma await_gate_decides: "await_gate j wd name g pid t e = (e', Inr a) \<Longrightarrow> \<not> pending_gate (en_state e')"
  unfolding await_gate_def Let_def
  by (auto simp: decided_def pending_gate_def split: option.splits prod.splits elim!: act_bind_InrE)

lemma open_gate_decides: "open_gate j wd name g pid t e = (e', Inr a) \<Longrightarrow> \<not> pending_gate (en_state e')"
  by (auto simp: open_gate_def await_gate_decides split: sum.splits)

lemma gate_to_open_Some: "gate_to_open wd reuse payload (Some g) \<noteq> Inr None"
  by (auto simp: gate_to_open_def res_bind_def split: pyval.split sum.split)

lemma handle_gate_result:
  assumes "handle_gate_step j wd name gate e = (e', Inr a)"
  shows "e' = e \<and> a = ''continue'' \<and> (pending_gate (en_state e) \<longrightarrow> gate = None) \<or>
         pending_gate (en_state e) \<and> \<not> pending_gate (en_state e') \<or>
         \<not> pending_gate (en_state e) \<and> jb_mode j \<noteq> ''none'' \<and> \<not> pending_gate (en_state e')"
  using assms open_gate_decides [of j wd name _ _ _ e e' a] gate_to_open_Some [of wd _ "payload_of (en_state e)"]
  unfolding handle_gate_step_def Let_def
  by (cases gate) (auto simp: decided_def pending_gate_def split: if_splits option.splits sum.splits)

lemma closer_review:
  assumes cf: "colon_free w" and st: "st \<in> set (wf_steps w)" and rj: "st_on_reject st = Some rj"
    and n: "counter ws (review_key st rj) 0 < rj_max_loop_iterations rj"
    and i: "find_step_index w (rj_target rj) = Some i"
    and ws': "ws' = bumped (jump_to i (rj_target rj) (set_counter (review_key st rj) (counter ws (review_key st rj) 0 + 1) ws))"
  shows "closer w ws' ws"
proof (rule closer_budget)
  let ?key = "review_key st rj"
  have key: "protected ?key" using review_key_protected [OF cf st] i by auto
  have count: "counter ws' k d = (if k = ''attempts:'' @ rj_target rj then d else if k = ?key then counter ws ?key 0 + 1 else counter ws k d)" for k d
    by (simp add: ws' bumped_def jump_to_def counter_def pop_counter_def set_counter_def)
  have other: "?key \<noteq> ''attempts:'' @ rj_target rj" using key by (auto simp: protected_def)
  have "grows ws ws'" by (auto simp: grows_def count protected_def)
  moreover have "review_left w ws' st < review_left w ws st"
    using n i rj other by (simp add: review_left_def count)
  ultimately show "budget w ws' < budget w ws" using cf st by (intro budget_review)
qed (simp add: ws' bumped_def jump_to_def pop_counter_def set_counter_def pending_gate_def)

lemma handle_review_loop_autonomous:
  assumes mode: "jb_mode j = ''none''" and cf: "colon_free (jb_workflow j)" and left: "steps_left j e"
    and st: "py_index (wf_steps (jb_workflow j)) (ws_current_step_index (en_state e)) = Some st"
    and loop: "handle_review_loop j wd st e = (e', Inr b)"
  shows "if b then closer (jb_workflow j) (en_state e') (en_state e) else kept (jb_workflow j) (en_state e) (en_state e')"
proof (cases "st_on_reject st")
  case None
  then show ?thesis using loop by (auto simp: handle_review_loop_def intro: kept_same)
next
  case (Some rj)
  let ?n = "counter (en_state e) (review_key st rj) 0" and ?e1 = "modify (set_counter (review_key st rj) (counter (en_state e) (review_key st rj) 0 + 1)) e"
  have mem: "st \<in> set (wf_steps (jb_workflow j))" using st by (auto simp: py_index_def split: if_splits)
  have kept1: "kept (jb_workflow j) (en_state e) (en_state ?e1)"
    using st by (simp add: kept_def grows_def attempts_left_at)
  consider (over) "?n \<ge> rj_max_loop_iterations rj" | (lost) "?n < rj_max_loop_iterations rj" "find_step_index (jb_workflow j) (rj_target rj) = None"
    | (again) i where "?n < rj_max_loop_iterations rj" "find_step_index (jb_workflow j) (rj_target rj) = Some i"
    by (meson not_le option.exhaust)
  then show ?thesis
  proof cases
    case over
    with loop Some have "handle_exhausted j wd st (rj_on_exhausted rj) (ws_last_evaluation_feedback (en_state e)) e = (e', Inr b)"
      by (simp add: handle_review_loop_def Let_def)
    from handle_exhausted_autonomous [OF mode this] show ?thesis
      using cf left by (auto intro: kept_same closer_stepped simp: steps_left_def split: if_splits)
  next
    case lost
    with loop Some kept1 show ?thesis by (auto simp: handle_review_loop_def Let_def)
  next
    case again
    with loop Some have "b" "en_state e' = bumped (jump_to i (rj_target rj) (en_state ?e1))"
      by (auto simp: handle_review_loop_def Let_def dest!: persisting_state)
    with closer_review [OF cf mem Some again] show ?thesis by simp
  qed
qed

lemma handle_step_retry_autonomous:
  assumes mode: "jb_mode j = ''none''" and cf: "colon_free (jb_workflow j)" and left: "steps_left j e"
    and st: "py_index (wf_steps (jb_workflow j)) (ws_current_step_index (en_state e)) = Some st"
    and retry: "handle_step_retry j wd st ev failure e = (e', Inr True)"
  shows "closer (jb_workflow j) (en_state e') (en_state e) \<or> en_status e' = Ready"
proof (cases failure)
  case None
  with assms retry_step_autonomous show ?thesis by (auto simp: handle_step_retry_def)
next
  case (Some f)
  let ?e1 = "modify (\<lambda>ws. ws\<lparr>ws_last_retry_reason := Some ''execution_failed'', ws_last_evaluation_feedback := so_error f\<rparr>) e"
  have no: "handle_exhausted j wd st On_Gate err x \<noteq> (y, Inr True)" for err x y
    using mode by (simp add: handle_exhausted_def)
  have kept1: "kept (jb_workflow j) (en_state e) (en_state ?e1)" by (rule kept_same) simp_all
  consider (later) "defer_step_recovery j wd st f ?e1 = (e', Inr True)" | (again) "retry_step j wd st ev ?e1 = (e', Inr True)"
    using retry no Some by (auto simp: handle_step_retry_def Let_def split: if_splits)
  then show ?thesis
  proof cases
    case later
    then show ?thesis using no
      by (auto simp: defer_step_recovery_def Let_def split: if_splits prod.splits bool.splits)
  next
    case again
    have "closer (jb_workflow j) (en_state e') (en_state ?e1)"
      using retry_step_autonomous [OF mode cf _ _ again] left st by (simp add: steps_left_def)
    with closer_kept [OF cf kept1] show ?thesis by blast
  qed
qed

subsection \<open>Outcome routes and deterministic routes\<close>

lemma resolve_outcome_route_mem: "resolve_outcome_route st s = Some r \<Longrightarrow> r \<in> set (st_outcome_routes st) \<or> r = fail_route s"
  by (auto simp: resolve_outcome_route_def split: option.splits if_splits dest: find_first_SomeD)

lemma closer_outcome:
  assumes cf: "colon_free w" and st: "st \<in> set (wf_steps w)" and r: "r \<in> set (st_outcome_routes st)"
    and m: "rt_max_loop_iterations r = Some m" and n: "counter ws (outcome_key st (rt_action r)) 0 < m"
    and count: "\<And>k. protected k \<Longrightarrow> counter ws' k 0 =
      (if k = outcome_key st (rt_action r) then counter ws (outcome_key st (rt_action r)) 0 + 1 else counter ws k 0)"
    and pending: "pending_gate ws' \<Longrightarrow> pending_gate ws"
  shows "closer w ws' ws"
proof (rule closer_budget [OF pending])
  have "grows ws ws'" by (auto simp: grows_def count)
  moreover have "outcomes_left ws' st < outcomes_left ws st"
    unfolding outcomes_left_def
    by (rule sum_list_strict [OF _ r]) (use m n in \<open>auto simp: count split: option.split intro!: nat_mono\<close>)
  ultimately show "budget w ws' < budget w ws" using cf st by (intro budget_outcome)
qed

lemma revise_step_state:
  assumes "revise_step j wd st out target e = (e', Inr R_Routed)"
  shows "\<And>k. protected k \<Longrightarrow> counter (en_state e') k 0 = counter (en_state e) k 0"
    and "ws_pending_pause_type (en_state e') = ws_pending_pause_type (en_state e)"
proof -
  from assms obtain i where s: "en_state e' = bumped ((jump_to i target (en_state e))\<lparr>
      ws_last_evaluation_feedback := (case so_outcome out of None \<Rightarrow> None | Some oc \<Rightarrow> oc_reason oc),
      ws_last_revision_context := Some (build_revision_context st out)\<rparr>)"
    by (auto simp: revise_step_def split: option.splits dest!: persisting_state)
  have "counter (en_state e') = counter (pop_counter (''attempts:'' @ target) (en_state e))"
    by (rule counter_same) (simp add: s bumped_def jump_to_def pop_counter_def)
  then show "counter (en_state e') k 0 = counter (en_state e) k 0" if "protected k" for k
    using that by (auto simp: protected_def)
  show "ws_pending_pause_type (en_state e') = ws_pending_pause_type (en_state e)"
    by (simp add: s bumped_def jump_to_def)
qed

lemma handle_step_outcome_autonomous:
  assumes mode: "jb_mode j = ''none''" and cf: "colon_free (jb_workflow j)" and br: "bounded_routes (jb_workflow j)"
    and left: "steps_left j e" and st: "st \<in> set (wf_steps (jb_workflow j))" and "\<not> pending_gate (en_state e)"
    and "handle_step_outcome j wd st out e = (e', Inr R_Routed)"
  shows "closer (jb_workflow j) (en_state e') (en_state e)"
proof -
  let ?w = "jb_workflow j"
  from assms(6,7) mode obtain r target reason where r: "resolve_outcome_route st
        (reported_status out) = Some r"
    and rev: "parse_revise_action (rt_action r) = Some target" "rt_action r \<noteq> ''fail''"
    and bind: "act_bind (handle_outcome_review_loop j wd st r reason)
       (\<lambda>loop. case loop of Some r \<Rightarrow> give r | None \<Rightarrow> revise_step j wd st out target) e = (e', Inr R_Routed)"
    by (auto simp: handle_step_outcome_def pending_gate_def Let_def split: option.splits if_splits)
  have mem: "r \<in> set (st_outcome_routes st)" using resolve_outcome_route_mem [OF r] rev by (auto simp: fail_route_def)
  with br st rev obtain m where m: "rt_max_loop_iterations r = Some m"
    by (fastforce simp: bounded_routes_def list_all_iff)
  let ?key = "outcome_key st (rt_action r)"
  show ?thesis
  proof (cases "counter (en_state e) ?key 0 \<ge> m")
    case True
    with bind m have "handle_exhausted j wd st (rt_on_exhausted r) reason e = (e', Inr True)"
      by (auto simp: handle_outcome_review_loop_def give_def elim!: act_bind_InrE split: if_splits)
    from handle_exhausted_autonomous [OF mode this] show ?thesis
      using cf left by (intro closer_stepped) (simp_all add: steps_left_def)
  next
    case False
    with bind m have "revise_step j wd st out target
        (modify (set_counter ?key (counter (en_state e) ?key 0 + 1)) e) = (e', Inr R_Routed)"
      by (auto simp: handle_outcome_review_loop_def act_bind_def Let_def)
    from revise_step_state [OF this] show ?thesis
      using False by (intro closer_outcome [OF cf st mem m]) (auto simp: pending_gate_def)
  qed
qed

lemma skip_loops: "ws_loop_iterations (fold (skip_step reason) sts ws) = ws_loop_iterations ws"
  by (induction sts arbitrary: ws) (simp_all add: skip_step_def)

lemma reenter_grows: "grows ws (fold reenter_step names ws)"
proof (induction names arbitrary: ws)
  case (Cons n names)
  have "grows ws (reenter_step n ws)" by (auto simp: grows_def reenter_step_def Let_def) (simp add: counter_def)
  with Cons [of "reenter_step n ws"] show ?case by (auto intro: grows_trans)
qed simp

lemma route_grows:
  assumes "apply_deterministic_route w source target reason ws = (ws', Inr u)"
  shows "grows ws ws'" and "target \<noteq> source + 1 \<Longrightarrow> jumps_left ws' < jumps_left ws"
proof -
  let ?ws1 = "set_counter ''deterministic_jumps'' (counter ws ''deterministic_jumps'' 0 + 1) ws"
  have up: "grows ws ?ws1" by (rule grows_set) simp
  have retried: "grows ?ws1 (fold reenter_step names (set_counter (''attempts:'' @ t) n (?ws1\<lparr>ws_last_retry_reason := x\<rparr>)))" for names t n x
    by (rule grows_trans [OF grows_trans [OF grows_same grows_set] reenter_grows]) (simp_all add: protected_def)
  have passed: "grows ?ws1 (fold (skip_step reason) sts ?ws1)" for sts by (rule grows_same) (simp add: skip_loops)
  have jump: "target \<noteq> source + 1 \<Longrightarrow> grows ?ws1 ws' \<and> counter ws ''deterministic_jumps'' 0 < MAX_DETERMINISTIC_JUMPS"
    using assms retried passed by (auto simp: apply_deterministic_route_def Let_def split: if_splits option.splits)
  show "grows ws ws'"
    using assms jump grows_trans [OF up] by (cases "target = source + 1") (auto simp: apply_deterministic_route_def)
  show "jumps_left ws' < jumps_left ws" if "target \<noteq> source + 1"
  proof -
    from jump [OF that] have "counter ws ''deterministic_jumps'' 0 + 1 \<le> counter ws' ''deterministic_jumps'' 0"
      unfolding grows_def by (metis counter_set jumps_protected)
    with jump [OF that] show ?thesis by (simp add: jumps_left_def)
  qed
qed

lemma follow_route_autonomous:
  assumes cf: "colon_free (jb_workflow j)" and left: "steps_left j e" and key: "condition_key (dr_route_loop_key r)"
    and follow: "follow_route j wd st r e = (e', Inr f)"
  shows "closer (jb_workflow j) (en_state e') (en_state e)"
proof -
  define ws0 where "ws0 = en_state e"
  define target where "target = (case dr_next_step_index r of None \<Rightarrow> ws_current_step_index ws0 + 1 | Some i \<Rightarrow> i)"
  define ws1 where "ws1 = (case (dr_route_loop_key r, dr_route_loop_iterations r) of
      (Some k, Some n) \<Rightarrow> set_counter k n ws0 | _ \<Rightarrow> ws0)"
  define ws2 where "ws2 = (case dr_revision_context r of None \<Rightarrow> ws1 | Some c \<Rightarrow> ws1\<lparr>ws_last_revision_context := Some c\<rparr>)"
  from follow obtain ws3 u where
    route: "apply_deterministic_route (jb_workflow j) (ws_current_step_index ws0) target
        (deterministic_route_reason st (dr_output r)) ws2 = (ws3, Inr u)"
    and s: "en_state e' = bumped ((clear_pause ws3)\<lparr>ws_current_step_index := target\<rparr>)"
    unfolding follow_route_def Let_def ws2_def ws1_def target_def ws0_def
    by (auto split: prod.splits sum.splits dest!: persisting_state)
  have same: "ws_loop_iterations ws2 = ws_loop_iterations ws1" "ws_loop_iterations (en_state e') = ws_loop_iterations ws3"
    by (simp_all add: ws2_def s bumped_def clear_pause_def split: option.split)
  have "\<not> protected k" if "dr_route_loop_key r = Some k" for k
    using key that by (simp add: condition_key_def protected_def)
  then have "grows ws0 ws1" "jumps_left ws1 = jumps_left ws0"
    by (auto simp: ws1_def jumps_left_def intro!: grows_set split: option.split)
  moreover have "grows ws1 ws2" "jumps_left ws2 = jumps_left ws1" "grows ws3 (en_state e')" "jumps_left (en_state e') = jumps_left ws3"
    using same by (simp_all add: grows_same jumps_left_def counter_same [OF same(1)] counter_same [OF same(2)])
  ultimately have all: "grows ws0 (en_state e')" "target \<noteq> ws_current_step_index ws0 + 1 \<Longrightarrow> jumps_left (en_state e') < jumps_left ws0"
    using route_grows [OF route] by (auto intro: grows_trans)
  have np: "\<not> pending_gate (en_state e')" by (simp add: s bumped_def clear_pause_def pending_gate_def)
  show ?thesis
  proof (cases "target = ws_current_step_index ws0 + 1")
    case True
    with all(1) np cf left show ?thesis
      by (intro closer_distance) (simp_all add: ws0_def s bumped_def steps_left_def)
  next
    case False
    with all np show ?thesis unfolding ws0_def by (intro closer_budget budget_jump [OF cf]) simp_all
  qed
qed

subsection \<open>Every turn makes progress\<close>

text \<open>
  The loop keys of conditions are the keys the engine itself writes; a tool result or a saved step
  run that has one has one of these.
\<close>

definition trusted :: "world \<Rightarrow> bool" where
  "trusted wd \<longleftrightarrow> (\<forall>ri. keyed ri \<longrightarrow> route_keyed (wo_tool wd ri)) \<and>
     (case wo_latest wd of None \<Rightarrow> True | Some sr \<Rightarrow> keyed (plain_dict (sr_runtime_info sr)))"

lemma py_index_mem: "py_index xs i = Some x \<Longrightarrow> x \<in> set xs"
  by (auto simp: py_index_def split: if_splits)

lemma outcome_continues:
  "handle_step_outcome j wd st out e = (e', Inr R_Continue) \<Longrightarrow>
   en_state e' = (clear_feedback (en_state e))\<lparr>ws_last_operator_instruction := None\<rparr>"
  by (auto simp: handle_step_outcome_def Let_def handle_outcome_review_loop_def revise_step_def give_def
      elim!: act_bind_InrE split: option.splits if_splits dest!: persisting_state)

lemma approve_step_autonomous:
  assumes mode: "jb_mode j = ''none''" and cf: "colon_free (jb_workflow j)" and br: "bounded_routes (jb_workflow j)"
    and left: "steps_left j e" and st: "st \<in> set (wf_steps (jb_workflow j))" and np: "\<not> pending_gate (en_state e)"
    and approve: "approve_step j wd st out e = (e', Inr Go_On)"
  shows "closer (jb_workflow j) (en_state e') (en_state e)"
proof -
  let ?e1 = "modify (\<lambda>ws. ws\<lparr>ws_step_outputs := dict_put (st_name st) (lb_dump (wo_lib wd) out) (ws_step_outputs ws)\<rparr>) e"
  have kept1: "kept (jb_workflow j) (en_state e) (en_state ?e1)" by (rule kept_same) simp_all
  from approve obtain e2 r where out: "handle_step_outcome j wd st out ?e1 = (e2, Inr r)"
    and r: "r = R_Routed \<and> e' = e2 \<or> r = R_Continue \<and> en_state e' =
      bumped (advance ((clear_feedback (clear_pause (en_state e2)))\<lparr>ws_last_operator_instruction := None\<rparr>))"
    unfolding approve_step_def by (auto elim!: act_bind_InrE split: routed.splits dest!: persisting_state)
  show ?thesis
  proof (cases "r = R_Continue")
    case True
    with r outcome_continues out have s: "ws_current_step_index (en_state e') = ws_current_step_index (en_state e) + 1"
        "ws_loop_iterations (en_state e') = ws_loop_iterations (en_state e)" "\<not> pending_gate (en_state e')"
      by (auto simp: bumped_def advance_def clear_feedback_def clear_pause_def pending_gate_def)
    with cf left show ?thesis by (intro closer_distance grows_same) (simp_all add: steps_left_def)
  next
    case False
    with r out have "handle_step_outcome j wd st out ?e1 = (e', Inr R_Routed)" by simp
    from handle_step_outcome_autonomous [OF mode cf br _ st _ this] left np
    show ?thesis by (intro closer_kept [OF cf kept1]) (simp add: steps_left_def pending_gate_def)
  qed
qed

lemma after_retry_Go_On:
  "after_retry onward b e = (e', Inr Go_On) \<Longrightarrow> b \<and> onward e = (e', Inr Go_On)"
  by (auto simp: after_retry_def split: if_splits)

lemma judge_step_autonomous:
  assumes mode: "jb_mode j = ''none''" and cf: "colon_free (jb_workflow j)" and br: "bounded_routes (jb_workflow j)"
    and left: "steps_left j e" and np: "\<not> pending_gate (en_state e)"
    and st: "py_index (wf_steps (jb_workflow j)) (ws_current_step_index (en_state e)) = Some st"
    and judge: "judge_step j wd st out ev e = (e', Inr Go_On)"
  shows "closer (jb_workflow j) (en_state e') (en_state e)"
proof (cases "ev_decision ev")
  case Approved
  with judge approve_step_autonomous [OF mode cf br left py_index_mem [OF st] np] show ?thesis by (simp add: judge_step_def)
next
  case Verdict_Failed
  with judge have "handle_exhausted j wd st (get_on_exhausted st (jb_workflow j)) None e = (e', Inr True)"
    by (auto simp: judge_step_def give_def elim!: act_bind_InrE dest!: after_retry_Go_On split: if_splits)
  from handle_exhausted_autonomous [OF mode this] cf left show ?thesis
    by (intro closer_stepped) (simp_all add: steps_left_def)
next
  case Revise
  let ?w = "jb_workflow j" and ?e1 = "modify (\<lambda>ws. ws\<lparr>ws_last_evaluation_feedback := Some (feedback_text ev)\<rparr>) e"
  have kept1: "kept ?w (en_state e) (en_state ?e1)" by (rule kept_same) simp_all
  from Revise judge obtain e2 b where loop: "handle_review_loop j wd st ?e1 = (e2, Inr b)"
    and after: "b \<and> e' = e2 \<or> \<not> b \<and> handle_step_retry j wd st (Some ev) None e2 = (e', Inr True)"
    by (auto simp: judge_step_def give_def elim!: act_bind_InrE dest!: after_retry_Go_On split: if_splits)
  have looped: "if b then closer ?w (en_state e2) (en_state ?e1) else kept ?w (en_state ?e1) (en_state e2)"
    using handle_review_loop_autonomous [OF mode cf _ _ loop] left st by (simp add: steps_left_def)
  show ?thesis
  proof (cases b)
    case True
    with looped after closer_kept [OF cf kept1] show ?thesis by simp
  next
    case False
    with looped have kept2: "kept ?w (en_state ?e1) (en_state e2)" by simp
    from False after have "retry_step j wd st (Some ev) e2 = (e', Inr True)" by (simp add: handle_step_retry_def)
    then have "closer ?w (en_state e') (en_state e2)"
      using kept2 left st by (intro retry_step_autonomous [OF mode cf]) (simp_all add: kept_def steps_left_def)
    then show ?thesis using closer_kept [OF cf] kept1 kept2 by blast
  qed
qed

lemma finished_step_autonomous:
  assumes mode: "jb_mode j = ''none''" and cf: "colon_free (jb_workflow j)" and br: "bounded_routes (jb_workflow j)"
    and left: "steps_left j e" and np: "\<not> pending_gate (en_state e)"
    and st: "py_index (wf_steps (jb_workflow j)) (ws_current_step_index (en_state e)) = Some st"
    and finish: "finished_step j wd st out e = (e', Inr Go_On)"
  shows "closer (jb_workflow j) (en_state e') (en_state e)"
proof -
  let ?e1 = "modify (\<lambda>ws. (pop_counter (recovery_key st) ws)\<lparr>ws_resume_failed_step := False\<rparr>) e"
  have "counter (en_state ?e1) = counter (pop_counter (recovery_key st) (en_state e))" by (rule counter_same) simp
  then have kept1: "kept (jb_workflow j) (en_state e) (en_state ?e1)"
    using st by (auto simp: kept_def grows_def attempts_left_at) (simp add: attempts_key_def recovery_key_def)
  have hyps: "steps_left j ?e1" "\<not> pending_gate (en_state ?e1)"
    "py_index (wf_steps (jb_workflow j)) (ws_current_step_index (en_state ?e1)) = Some st"
    using left np st by (simp_all add: steps_left_def pending_gate_def)
  consider "approve_step j wd st out ?e1 = (e', Inr Go_On)" | ev where "judge_step j wd st out ev ?e1 = (e', Inr Go_On)"
    using finish by (auto simp: finished_step_def Let_def split: if_splits sum.splits)
  then have "closer (jb_workflow j) (en_state e') (en_state ?e1)"
    using approve_step_autonomous [OF mode cf br hyps(1) py_index_mem [OF st] hyps(2)]
      judge_step_autonomous [OF mode cf br hyps] by cases blast+
  then show ?thesis by (rule closer_kept [OF cf kept1])
qed

lemma executor_unavailable_stops: "executor_unavailable j wd st t e \<noteq> (e', Inr Go_On)"
  by (auto simp: executor_unavailable_def pause_and_return_def give_def elim!: act_bind_InrE split: if_splits)

lemma run_turn_autonomous:
  assumes mode: "jb_mode j = ''none''" and cf: "colon_free (jb_workflow j)" and br: "bounded_routes (jb_workflow j)"
    and left: "steps_left j e" and np: "\<not> pending_gate (en_state e)"
    and st: "py_index (wf_steps (jb_workflow j)) (ws_current_step_index (en_state e)) = Some st"
    and turn: "run_turn j wd st e = (e', Inr Go_On)"
  shows "closer (jb_workflow j) (en_state e') (en_state e)"
proof -
  consider (retry) failure where "handle_step_retry j wd st None failure e = (e', Inr True)" "en_status e' \<noteq> Ready"
    | (finished) out where "finished_step j wd st out e = (e', Inr Go_On)"
    using turn executor_unavailable_stops
    by (auto simp: run_turn_def Let_def elim!: act_bind_InrE dest!: after_retry_Go_On split: run_result.splits if_splits)
  then show ?thesis
  proof cases
    case retry
    with handle_step_retry_autonomous [OF mode cf left st] show ?thesis by blast
  next
    case finished
    with finished_step_autonomous [OF mode cf br left np st] show ?thesis by blast
  qed
qed

lemma after_deterministic_follows:
  assumes "jb_mode j = ''none''" and "\<not> pending_gate (en_state e)" and "after_deterministic j wd st r e = (e', Inr Go_On)"
  shows "\<exists>e2. kept (jb_workflow j) (en_state e) (en_state e2) \<and> follow_route j wd st r e2 = (e', Inr Go_On)"
proof -
  define e1 where "e1 = modify (\<lambda>ws. ws\<lparr>ws_step_outputs := dict_put (st_name st) (lb_dump (wo_lib wd) (dr_output r)) (ws_step_outputs ws)\<rparr>) e"
  define e2 where "e2 = (case dr_delivery_mode_override r of None \<Rightarrow> e1 | Some m \<Rightarrow> e1\<lparr>en_delivery := m\<rparr>)"
  have s: "en_state e2 = en_state e1" by (simp add: e2_def split: option.split)
  have no: "pause_for_deterministic_error j wd st err e2 = (e2, Inr ''fail'')" for err
    using assms(1,2) by (simp add: pause_for_deterministic_error_def pending_gate_def s e1_def)
  have "follow_route j wd st r e2 = (e', Inr Go_On)"
    using assms(3) no unfolding after_deterministic_def Let_def e1_def [symmetric] e2_def [symmetric]
    by (auto simp: pause_and_return_def give_def act_bind_def split: option.splits if_splits prod.splits sum.splits
        dest!: persisting_state)
  moreover have "kept (jb_workflow j) (en_state e) (en_state e2)" by (rule kept_same) (simp_all add: s e1_def)
  ultimately show ?thesis by blast
qed

lemma deterministic_turn_autonomous:
  assumes mode: "jb_mode j = ''none''" and cf: "colon_free (jb_workflow j)" and left: "steps_left j e"
    and np: "\<not> pending_gate (en_state e)" and trusted: "trusted wd" and turn: "deterministic_turn j wd st e = (e', Inr Go_On)"
  shows "closer (jb_workflow j) (en_state e') (en_state e)"
proof -
  let ?r = "fst (execute_deterministic_step (wo_lib wd) (jb_workflow j) st (en_state e) (wo_tool wd) (wo_latest wd))"
  have key: "condition_key (dr_route_loop_key ?r)"
    using trusted by (intro executed_keyed) (auto simp: trusted_def)
  have "after_deterministic j wd st ?r e = (e', Inr Go_On)"
    using turn executor_unavailable_stops by (auto simp: deterministic_turn_def split: option.splits run_result.splits)
  from after_deterministic_follows [OF mode np this] obtain e2 where kept1: "kept (jb_workflow j) (en_state e) (en_state e2)"
    and follow: "follow_route j wd st ?r e2 = (e', Inr Go_On)" by blast
  from left kept1 have "steps_left j e2" by (simp add: steps_left_def kept_def)
  with follow_route_autonomous [OF cf _ key follow] show ?thesis by (intro closer_kept [OF cf kept1])
qed

lemma gate_turn_autonomous:
  assumes mode: "jb_mode j = ''none''" and cf: "colon_free (jb_workflow j)" and left: "steps_left j e"
    and turn: "gate_turn j wd st e = (e', Inr Go_On)"
  shows "closer (jb_workflow j) (en_state e') (en_state e)"
proof -
  from turn obtain e1 a where gate: "handle_gate_step j wd (st_name st) (st_gate st) e = (e1, Inr a)"
    and adv: "parse_revise_action a = None \<Longrightarrow> en_state e' = bumped (advance (en_state e1))"
    and pend: "pending_gate (en_state e') = pending_gate (en_state e1)"
    unfolding gate_turn_def
    by (auto simp: Let_def jump_to_def bumped_def advance_def pending_gate_def
        elim!: act_bind_InrE split: if_splits option.splits dest!: persisting_state)
  from handle_gate_result [OF gate] mode
  have "e1 = e \<and> a = ''continue'' \<or> pending_gate (en_state e) \<and> \<not> pending_gate (en_state e1)" by blast
  then show ?thesis
  proof
    assume "e1 = e \<and> a = ''continue''"
    moreover have "parse_revise_action ''continue'' = None" by (simp add: parse_revise_action_def)
    ultimately show ?thesis using adv cf left
      by (intro closer_distance grows_same) (simp_all add: bumped_def advance_def pending_gate_def steps_left_def)
  next
    assume "pending_gate (en_state e) \<and> \<not> pending_gate (en_state e1)"
    with pend show ?thesis by (intro closer_pending) simp_all
  qed
qed

lemma persisted_pending:
  "persisting j wd x e = (e', Inr y) \<Longrightarrow> pending_gate (en_state e') = pending_gate (en_state e)"
  by (auto simp: pending_gate_def bumped_def dest!: persisting_state)

lemma outcome_gate_decided:
  assumes "pending_gate (en_state e)" and "resolve_outcome_route st
      (reported_status out) = Some r" and "rt_action r = ''gate''"
    and "handle_step_outcome j wd st out e = (e', Inr x)"
  shows "\<not> pending_gate (en_state e')"
  using assms
  by (auto simp: handle_step_outcome_def Let_def revise_step_def jump_to_def advance_def clear_feedback_def pending_gate_def
      elim!: act_bind_InrE split: if_splits option.splits dest!: persisted_pending handle_gate_result)

lemma resume_derived_gate_autonomous:
  assumes mode: "jb_mode j = ''none''" and pending: "pending_gate (en_state e)"
    and resume: "resume_derived_gate j wd st e = (e', Inr True)" and "ws_status (en_state e') \<notin> {''failed'', ''cancelled''}"
  shows "\<not> pending_gate (en_state e')"
proof -
  let ?ws = "en_state e"
  have error: "\<not> pending_gate (en_state e1)" if "pause_for_deterministic_error j wd st err e = (e1, Inr a)" for err e1 a
    using that pending unfolding pause_for_deterministic_error_def
    by (auto simp: give_def pending_gate_def elim!: act_bind_InrE split: if_splits dest!: handle_gate_result)
  consider (outcome) out route e1 r where "resolve_outcome_route st
        (reported_status out) = Some route" "rt_action route = ''gate''"
      "handle_step_outcome j wd st out e = (e1, Inr r)" "pending_gate (en_state e') = pending_gate (en_state e1)"
    | (error) err e1 a where "pause_for_deterministic_error j wd st err e = (e1, Inr a)"
      "pending_gate (en_state e') = pending_gate (en_state e1)"
    using resume assms(4) mode unfolding resume_derived_gate_def Let_def
    by (auto simp: handle_exhausted_def give_def act_bind_def pending_gate_def bumped_def
        split: if_splits option.splits sum.splits prod.splits dest!: persist_state)
  then show ?thesis
    using outcome_gate_decided [OF pending] error by cases blast+
qed

lemma engine_step_autonomous:
  assumes mode: "jb_mode j = ''none''" and cf: "colon_free (jb_workflow j)" and br: "bounded_routes (jb_workflow j)"
    and trusted: "trusted wd" and left: "steps_left j e" and step: "engine_step j wd e = (e', Inr Go_On)"
  shows "closer (jb_workflow j) (en_state e') (en_state e)"
proof -
  let ?w = "jb_workflow j"
  from step obtain st where st: "py_index (wf_steps ?w) (ws_current_step_index (en_state e)) = Some st"
    by (auto simp: engine_step_def split: if_splits option.splits)
  let ?e1 = "modify (\<lambda>ws. ws\<lparr>ws_current_step_status := Some ''running'',
                   ws_routing_skips := dict_del (st_name st) (ws_routing_skips ws)\<rparr>) e"
  have kept1: "kept ?w (en_state e) (en_state ?e1)" by (rule kept_same) simp_all
  have hyps: "steps_left j ?e1" "py_index (wf_steps ?w) (ws_current_step_index (en_state ?e1)) = Some st"
    using left st by (simp_all add: steps_left_def)
  consider (resume) "pending_gate (en_state e)" "resume_derived_gate j wd st e = (e', Inr True)"
      "ws_status (en_state e') \<notin> {''failed'', ''cancelled''}"
    | (gate) "gate_turn j wd st ?e1 = (e', Inr Go_On)"
    | (det) "\<not> pending_gate (en_state ?e1)" "deterministic_turn j wd st ?e1 = (e', Inr Go_On)"
    | (skip) "\<not> pending_gate (en_state ?e1)" "persisting j wd Go_On
        (modify (\<lambda>ws. advance (ws\<lparr>ws_skipped_steps := ws_skipped_steps ws @ [st_name st]\<rparr>)) ?e1) = (e', Inr Go_On)"
    | (run) "\<not> pending_gate (en_state ?e1)" "run_turn j wd st ?e1 = (e', Inr Go_On)"
    using step st by (auto simp: engine_step_def Let_def pending_gate_def pause_and_return_def give_def deterministic_def
        elim!: act_bind_InrE split: if_splits sum.splits)
  then show ?thesis
  proof cases
    case resume
    then show ?thesis by (intro closer_pending resume_derived_gate_autonomous [OF mode])
  next
    case gate
    then show ?thesis by (intro closer_kept [OF cf kept1] gate_turn_autonomous [OF mode cf hyps(1)])
  next
    case det
    then show ?thesis by (intro closer_kept [OF cf kept1] deterministic_turn_autonomous [OF mode cf hyps(1) _ trusted])
  next
    case skip
    then have "stepped (en_state ?e1) (en_state e')"
      by (auto simp: stepped_def same_loops_def bumped_def advance_def dest!: persisting_state)
    then have "closer ?w (en_state e') (en_state ?e1)"
      using hyps(1) by (intro closer_stepped [OF cf]) (simp_all add: steps_left_def)
    then show ?thesis by (rule closer_kept [OF cf kept1])
  next
    case run
    then show ?thesis by (intro closer_kept [OF cf kept1] run_turn_autonomous [OF mode cf br hyps(1) _ hyps(2)])
  qed
qed

lemma run_loop_ends:
  assumes "jb_mode j = ''none''" and "colon_free (jb_workflow j)" and "bounded_routes (jb_workflow j)"
    and "\<And>i. trusted (f i)"
  shows "\<exists>n r. run_loop j (map f [0..<n]) e = Some r"
  using assms(4)
proof (induction "en_state e" arbitrary: e f rule: wfp_induct_rule [OF wf_closer [of "jb_workflow j"]])
  case (1 e)
  show ?case
  proof (cases "steps_left j e")
    case False
    then have "run_loop j (map f [0..<0]) e = Some (e, Inr Stop_Loop)" by simp
    then show ?thesis by blast
  next
    case left: True
    obtain e' r where step: "engine_step j (f 0) e = (e', r)" by fastforce
    have worlds: "map f [0..<Suc n] = f 0 # map (\<lambda>i. f (Suc i)) [0..<n]" for n by (rule map_upt_Suc)
    show ?thesis
    proof (cases "r = Inr Go_On")
      case True
      with step have "closer (jb_workflow j) (en_state e') (en_state e)"
        using engine_step_autonomous [OF assms(1-3) 1(2) left] by simp
      with 1(1) [of e' "\<lambda>i. f (Suc i)"] 1(2) obtain n x where "run_loop j (map (\<lambda>i. f (Suc i)) [0..<n]) e' = Some x" by blast
      with left step True have "run_loop j (map f [0..<Suc n]) e = Some x" by (subst worlds) simp
      then show ?thesis by blast
    next
      case False
      with left step have "run_loop j (map f [0..<Suc 0]) e = Some (e', r)"
        by (subst worlds) (auto split: sum.splits flow.splits)
      then show ?thesis by blast
    qed
  qed
qed

text \<open>
  C1. A workflow of interaction mode \<open>none\<close> ends: whatever agents, evaluator, tools and other writers
  do in each turn, there is a number of turns after which \<open>execute_workflow\<close> has returned or raised.
  The workflow's step names have no colon and its outcome routes to an earlier step have a limit; the
  loop keys a tool returns are keys of conditions, as those the engine writes.
\<close>

theorem autonomous_workflow_ends:
  assumes "jb_mode j = ''none''" and "colon_free (jb_workflow j)" and "bounded_routes (jb_workflow j)"
    and "\<And>i. trusted (f i)"
  shows "\<exists>n r. execute_workflow j (map f [0..<n]) last_world e = Some r"
proof -
  from run_loop_ends [OF assms(1-3), of f e] assms(4) obtain n r where "run_loop j (map f [0..<n]) e = Some r" by blast
  then have "execute_workflow j (map f [0..<n]) last_world e \<noteq> None"
    by (auto simp: execute_workflow_def Let_def split: prod.split sum.split flow.split)
  then show ?thesis by blast
qed

text \<open>A reviewer that never approves and sends the work back, and a condition that jumps back.\<close>

theorem autonomous_workflow_ends_witness:
  defines "review \<equiv> (demo_step ''review'')\<lparr>st_on_reject := Some
      \<lparr>rj_target = ''work'', rj_max_loop_iterations = 3, rj_on_exhausted = On_Fail\<rparr>\<rparr>"
  shows "\<exists>n r. execute_workflow (demo_job [demo_step ''work'', review, demo_condition])
    (map (\<lambda>_. demo_world (Ran demo_output) Revise) [0..<n]) (demo_world No_Output Revise) (demo_eng Running) = Some r"
  by (rule autonomous_workflow_ends)
    (simp_all add: demo_job_def demo_workflow_def colon_free_def bounded_routes_def review_def demo_step_def
      demo_condition_def trusted_def demo_world_def route_keyed_def)

end
