(* ===== verification/Workflow_Safety.thy ===== *)
theory Workflow_Safety
  imports Workflow_Engine
begin

section \<open>What the workflow engine writes\<close>

text \<open>
  The engine changes the database only through a few operations. A property of the database that
  these operations and the other writers keep is kept by every handler and by the whole of
  \<open>execute_workflow\<close>. The locale states that once; its instances say that a cancelled task is
  never written again, that other tasks are not touched, and that a worker without its lease
  writes nothing.
\<close>

subsection \<open>Invariants of the database\<close>

definition live :: "eng \<Rightarrow> bool" where
  "live e \<longleftrightarrow> en_status e \<notin> {Cancelled, Failed, Completed}"

definition leaves :: "(task_db \<Rightarrow> bool) \<Rightarrow> eng \<times> (halt, 'a) result \<Rightarrow> bool" where
  "leaves P x \<longleftrightarrow> P (en_db (fst x)) \<and> (isl (snd x) \<or> live (fst x))"

locale engine_invariant =
  fixes j :: job and good :: "world \<Rightarrow> bool" and P :: "task_db \<Rightarrow> bool"
  assumes other_law: "good wd \<Longrightarrow> P db \<Longrightarrow> P (wo_other wd db)"
    and persist_law: "good wd \<Longrightarrow> P (en_db e) \<Longrightarrow> live e \<Longrightarrow> P (en_db (fst (persist_workflow_state j wd sync e)))"
    and defer_law: "good wd \<Longrightarrow> wo_owner wd \<Longrightarrow> P db \<Longrightarrow> P (fst (defer_running_task (jb_task_id j) due ws sm db))"
    and runs_law: "good wd \<Longrightarrow> wo_owner wd \<Longrightarrow> P db \<Longrightarrow> P (fail_running_step_runs_for_task (jb_task_id j) s db)"
    and final_law: "good wd \<Longrightarrow> P (en_db e) \<Longrightarrow> P (en_db (fst (persist_task_final j wd e)))"
begin

definition inv :: "eng \<Rightarrow> bool" where
  "inv e \<longleftrightarrow> P (en_db e) \<and> live e"

lemma inv_inner: "inv e \<Longrightarrow> en_db e' = en_db e \<Longrightarrow> en_status e' \<in> {en_status e, Running, Paused, Ready} \<Longrightarrow> inv e'"
  by (auto simp: inv_def live_def)

lemma inv_modify [simp]: "inv (modify f e) = inv e"
  by (simp add: inv_def live_def)

lemma inv_running: "inv e \<Longrightarrow> inv ((modify f e)\<lparr>en_status := Running\<rparr>)"
  by (simp add: inv_def live_def)

lemma leaves_Inr: "inv e \<Longrightarrow> leaves P (e, Inr x)"
  by (simp add: leaves_def inv_def)

lemma leaves_Inl: "inv e \<Longrightarrow> leaves P (e, Inl h)"
  by (simp add: leaves_def inv_def)

lemma leaves_if: "(c \<Longrightarrow> leaves P x) \<Longrightarrow> (\<not> c \<Longrightarrow> leaves P y) \<Longrightarrow> leaves P (if c then x else y)"
  by simp

lemma leaves_give: "inv e \<Longrightarrow> leaves P (give x e)"
  by (simp add: give_def leaves_Inr)

lemma leaves_bind:
  assumes "leaves P (m e)" and "\<And>x e1. inv e1 \<Longrightarrow> leaves P (f x e1)"
  shows "leaves P (act_bind m f e)"
proof (cases "m e")
  case (Pair e1 r)
  with assms show ?thesis by (cases r) (auto simp: act_bind_def leaves_def inv_def)
qed

lemma leaves_persist: "good wd \<Longrightarrow> inv e \<Longrightarrow> leaves P (persist_workflow_state j wd sync e)"
  using persist_law [of wd e sync] persist_state [of j wd sync e]
  by (cases "persist_workflow_state j wd sync e"; cases "snd (persist_workflow_state j wd sync e)")
    (auto simp: leaves_def inv_def live_def)

lemma leaves_persisting: "good wd \<Longrightarrow> inv e \<Longrightarrow> leaves P (persisting j wd x e)"
  unfolding persisting_def by (intro leaves_bind leaves_persist leaves_give)

lemmas leaves_rules = leaves_Inr leaves_Inl leaves_give leaves_bind leaves_persist leaves_persisting

lemma leaves_await_gate: "good wd \<Longrightarrow> inv e \<Longrightarrow> leaves P (await_gate j wd name g pid t e)"
  unfolding await_gate_def Let_def
  by (auto intro!: leaves_rules split: option.split) (auto simp: inv_def live_def)

lemma leaves_open_gate: "good wd \<Longrightarrow> inv e \<Longrightarrow> leaves P (open_gate j wd name g pid t e)"
  unfolding open_gate_def by (auto intro!: leaves_Inl leaves_await_gate split: sum.split)

lemma leaves_gate_step: "good wd \<Longrightarrow> inv e \<Longrightarrow> leaves P (handle_gate_step j wd name gate e)"
  unfolding handle_gate_step_def Let_def
  by (simp add: leaves_Inr leaves_Inl leaves_open_gate inv_running split: option.split sum.split)

lemma leaves_exhausted: "good wd \<Longrightarrow> inv e \<Longrightarrow> leaves P (handle_exhausted j wd st action err e)"
  unfolding handle_exhausted_def
  by (auto intro!: leaves_rules leaves_gate_step split: exhausted.split option.split)

lemma leaves_review: "good wd \<Longrightarrow> inv e \<Longrightarrow> leaves P (handle_review_loop j wd st e)"
  unfolding handle_review_loop_def Let_def
  by (auto intro!: leaves_rules leaves_exhausted split: option.split)

lemma leaves_defer:
  assumes "good wd" and "inv e" and "en_status e' = Ready" and "en_db e' = wo_other wd (en_db e)"
  shows "leaves P (if \<not> wo_owner wd then (e', Inl h)
        else case defer_running_task (jb_task_id j) due ws sm (en_db e') of
               (db, False) \<Rightarrow> (e', Inl h') | (db, True) \<Rightarrow> (e'\<lparr>en_db := db\<rparr>, Inr True))"
proof -
  have "P (en_db e')" using assms other_law by (simp add: inv_def)
  then have "inv e'" "wo_owner wd \<Longrightarrow> P (fst (defer_running_task (jb_task_id j) due ws sm (en_db e')))"
    using assms defer_law by (auto simp: inv_def live_def)
  then show ?thesis using assms(3) by (auto simp: leaves_def inv_def live_def split: prod.split bool.split)
qed

lemma leaves_recovery: "good wd \<Longrightarrow> inv e \<Longrightarrow> leaves P (defer_step_recovery j wd st failure e)"
  unfolding defer_step_recovery_def Let_def
  by (rule leaves_if [OF leaves_exhausted leaves_defer]) simp_all

lemma leaves_retry_step: "good wd \<Longrightarrow> inv e \<Longrightarrow> leaves P (retry_step j wd st ev e)"
  unfolding retry_step_def Let_def by (simp add: leaves_exhausted leaves_persisting)

lemma leaves_retry: "good wd \<Longrightarrow> inv e \<Longrightarrow> leaves P (handle_step_retry j wd st ev failure e)"
  unfolding handle_step_retry_def Let_def
  by (simp add: leaves_retry_step leaves_recovery leaves_exhausted split: option.split)

lemma leaves_revise: "good wd \<Longrightarrow> inv e \<Longrightarrow> leaves P (revise_step j wd st out target e)"
  unfolding revise_step_def by (simp add: leaves_persisting leaves_Inr split: option.split)

lemma leaves_outcome_loop: "good wd \<Longrightarrow> inv e \<Longrightarrow> leaves P (handle_outcome_review_loop j wd st route fb e)"
  unfolding handle_outcome_review_loop_def Let_def
  by (auto intro!: leaves_Inr leaves_bind leaves_exhausted leaves_give split: option.split)

lemma leaves_outcome:
  assumes "good wd" and "inv e"
  shows "leaves P (handle_step_outcome j wd st out e)"
proof -
  have gate: "leaves P (act_bind (handle_gate_step j wd name g) (\<lambda>result e1.
      if result = ''continue'' then persisting j wd R_Routed (modify (\<lambda>ws. advance (clear_feedback ws)) e1)
      else if result = ''cancel'' then (e1, Inr R_Cancelled)
      else if result = ''fail'' then (e1, Inr R_Failed)
      else case parse_revise_action result of
          None \<Rightarrow> (e1, Inr R_Failed)
        | Some target \<Rightarrow> revise_step j wd st out target e1) e)" for name g
    using assms by (intro leaves_bind leaves_gate_step)
      (simp_all add: leaves_persisting leaves_Inr leaves_revise split: option.split)
  have loop: "leaves P (act_bind (handle_outcome_review_loop j wd st route reason)
      (\<lambda>loop. case loop of Some r \<Rightarrow> give r | None \<Rightarrow> revise_step j wd st out target) e)" for route reason target
    using assms by (intro leaves_bind leaves_outcome_loop)
      (auto intro: leaves_give leaves_revise split: option.split)
  show ?thesis unfolding handle_step_outcome_def Let_def
    using assms by (simp add: gate loop leaves_Inr split: option.split)
qed

lemma leaves_error_gate: "good wd \<Longrightarrow> inv e \<Longrightarrow> leaves P (pause_for_deterministic_error j wd st err e)"
  unfolding pause_for_deterministic_error_def
  by (auto intro!: leaves_Inr leaves_bind leaves_gate_step leaves_give)

lemma leaves_resume:
  assumes "good wd" and "inv e"
  shows "leaves P (resume_derived_gate j wd st e)"
proof -
  have out: "leaves P (act_bind (handle_step_outcome j wd st out)
      (\<lambda>r e1. ((if r = R_Failed then modify f e1 else if r = R_Cancelled then modify g e1 else e1), Inr True)) e)" for out f g
    using assms by (intro leaves_bind leaves_outcome) (simp_all add: leaves_Inr)
  have over: "leaves P (act_bind (handle_exhausted j wd st On_Gate err)
      (\<lambda>handled e1. ((if handled then e1 else modify f e1), Inr True)) e)" for err f
    using assms by (intro leaves_bind leaves_exhausted) (simp_all add: leaves_Inr)
  have error: "leaves P (act_bind (pause_for_deterministic_error j wd st err)
      (\<lambda>result e1.
         if result = ''paused'' then (e1, Inr False)
         else if result = ''cancel'' then (modify f e1, Inr True)
         else if result = ''fail'' then (modify g e1, Inr True)
         else case t e1 of
             None \<Rightarrow> (modify g e1, Inr True)
           | Some t \<Rightarrow> act_bind (persist_workflow_state j wd True) (\<lambda>_. give True)
                 (modify (\<lambda>ws. ws\<lparr>ws_current_step_index := t\<rparr>) e1)) e)" for err f g t
    using assms by (intro leaves_bind leaves_error_gate)
      (auto simp: leaves_Inr intro!: leaves_bind leaves_persist leaves_give split: option.split)
  show ?thesis unfolding resume_derived_gate_def Let_def
    using assms by (simp add: out over error leaves_Inr leaves_Inl split: option.split sum.split)
qed

lemma leaves_executor: "good wd \<Longrightarrow> inv e \<Longrightarrow> leaves P (handle_transient_executor_unavailable j wd st t e)"
  unfolding handle_transient_executor_unavailable_def Let_def by (rule leaves_defer) simp_all

lemma leaves_pause: "good wd \<Longrightarrow> inv e \<Longrightarrow> leaves P (pause_and_return j wd e)"
  unfolding pause_and_return_def set_status_def
  by (intro leaves_bind leaves_persist leaves_give) (auto simp: inv_def live_def)

lemma leaves_unavailable: "good wd \<Longrightarrow> inv e \<Longrightarrow> leaves P (executor_unavailable j wd st t e)"
  unfolding executor_unavailable_def
  by (intro leaves_bind leaves_executor) (auto intro: leaves_give leaves_pause)

lemma leaves_follow: "good wd \<Longrightarrow> inv e \<Longrightarrow> leaves P (follow_route j wd st r e)"
  unfolding follow_route_def Let_def
  by (auto split: prod.split sum.split intro!: leaves_Inl leaves_persisting) (auto simp: inv_def live_def)

lemma leaves_after_deterministic:
  assumes "good wd" and "inv e"
  shows "leaves P (after_deterministic j wd st r e)"
proof -
  have gate: "leaves P (act_bind (pause_for_deterministic_error j wd st err)
      (\<lambda>result e2.
        if result = ''paused'' then (e2, Inr Return_Task)
        else if result = ''cancel'' then (set_status ''cancelled'' e2, Inr Stop_Loop)
        else if result = ''fail'' then (set_status ''failed'' e2, Inr Stop_Loop)
        else follow_route j wd st r e2) e')" if "inv e'" for err e'
    using assms that by (intro leaves_bind leaves_error_gate) (simp_all add: leaves_Inr leaves_follow set_status_def)
  define e2 where "e2 = (let e1 = modify (\<lambda>ws. ws\<lparr>ws_step_outputs :=
      dict_put (st_name st) (lb_dump (wo_lib wd) (dr_output r)) (ws_step_outputs ws)\<rparr>) e
    in case dr_delivery_mode_override r of None \<Rightarrow> e1 | Some m \<Rightarrow> e1\<lparr>en_delivery := m\<rparr>)"
  have "inv e2" using assms(2) by (auto simp: e2_def inv_def live_def Let_def split: option.split)
  with assms(1) show ?thesis unfolding after_deterministic_def Let_def e2_def [unfolded Let_def, symmetric]
    by (simp add: gate leaves_persisting leaves_pause leaves_follow set_status_def split: option.split)
qed

lemma leaves_deterministic: "good wd \<Longrightarrow> inv e \<Longrightarrow> leaves P (deterministic_turn j wd st e)"
  unfolding deterministic_turn_def
  by (simp add: leaves_unavailable leaves_Inl leaves_after_deterministic split: option.split run_result.split)

lemma leaves_gate_turn: "good wd \<Longrightarrow> inv e \<Longrightarrow> leaves P (gate_turn j wd st e)"
  unfolding gate_turn_def Let_def
  by (intro leaves_bind leaves_gate_step) (simp_all add: leaves_Inr leaves_persisting set_status_def split: option.split)

lemma leaves_approve: "good wd \<Longrightarrow> inv e \<Longrightarrow> leaves P (approve_step j wd st out e)"
  unfolding approve_step_def
  by (intro leaves_bind leaves_outcome) (simp_all add: leaves_Inr leaves_persisting set_status_def split: routed.split)

lemma leaves_after_retry: "inv e \<Longrightarrow> leaves P (onward e) \<Longrightarrow> leaves P (after_retry onward b e)"
  by (simp add: after_retry_def leaves_Inr set_status_def)

lemma leaves_judge: "good wd \<Longrightarrow> inv e \<Longrightarrow> leaves P (judge_step j wd st out ev e)"
  unfolding judge_step_def
  by (auto intro!: leaves_approve leaves_bind leaves_review leaves_give leaves_retry leaves_after_retry leaves_exhausted
      simp: leaves_Inr set_status_def split: verdict.split)

lemma leaves_finished: "good wd \<Longrightarrow> inv e \<Longrightarrow> leaves P (finished_step j wd st out e)"
  unfolding finished_step_def Let_def by (simp add: leaves_Inl leaves_approve leaves_judge split: sum.split option.split)

lemma leaves_run: "good wd \<Longrightarrow> inv e \<Longrightarrow> leaves P (run_turn j wd st e)"
  unfolding run_turn_def Let_def
  by (auto intro!: leaves_Inl leaves_unavailable leaves_finished leaves_bind leaves_retry leaves_after_retry leaves_Inr
      split: run_result.split)

lemma leaves_step:
  assumes "good wd" and "inv e"
  shows "leaves P (engine_step j wd e)"
proof -
  have resume: "leaves P (act_bind (resume_derived_gate j wd st) (\<lambda>understood e1.
      if \<not> understood then pause_and_return j wd e1
      else (e1, Inr (if ws_status (en_state e1) \<in> {''failed'', ''cancelled''} then Stop_Loop else Go_On))) e)" for st
    using assms by (intro leaves_bind leaves_resume) (simp_all add: leaves_pause leaves_Inr)
  show ?thesis unfolding engine_step_def Let_def
    using assms by (simp add: resume leaves_Inl leaves_Inr leaves_deterministic leaves_gate_turn leaves_persisting leaves_run
        set_status_def split: option.split sum.split)
qed

lemma run_loop_leaves:
  assumes "list_all good worlds" and "inv e" and "run_loop j worlds e = Some x"
  shows "leaves P x"
  using assms
proof (induction worlds arbitrary: e)
  case Nil
  then show ?case by (auto simp: leaves_Inr split: if_splits)
next
  case (Cons wd worlds)
  obtain e' r where step: "engine_step j wd e = (e', r)" by fastforce
  with Cons.prems leaves_step [of wd e] have left: "leaves P (e', r)" by simp
  show ?case
  proof (cases "steps_left j e \<and> r = Inr Go_On")
    case True
    with left have "inv e'" by (simp add: leaves_def inv_def)
    with Cons True step show ?thesis by simp
  next
    case False
    with Cons.prems step left show ?thesis
      by (auto simp: leaves_Inr split: if_splits sum.splits flow.splits)
  qed
qed

lemma halt_leaves: "good wd \<Longrightarrow> P (en_db e) \<Longrightarrow> P (en_db (fst (handle_halt j wd h e)))"
  unfolding handle_halt_def fail_task_def Let_def
  by (cases h) (auto simp: set_status_def live_def intro!: persist_law final_law runs_law other_law)

theorem workflow_keeps:
  assumes "list_all good worlds" and "good last_world" and "P (en_db e)" and "live e"
    and "execute_workflow j worlds last_world e = Some (e', r)"
  shows "P (en_db e')"
proof -
  from assms(5) obtain e1 x where loop: "run_loop j worlds e = Some (e1, x)"
    by (auto simp: execute_workflow_def split: option.splits)
  with run_loop_leaves [OF assms(1) _ loop] assms(3,4) have e1: "P (en_db e1)" by (simp add: inv_def leaves_def)
  have "en_db (conclude j last_world e1) = en_db e1"
    by (simp add: conclude_def Let_def set_status_def split: option.split)
  with e1 final_law [OF assms(2), of "conclude j last_world e1"]
  have "P (en_db (fst (persist_task_final j last_world (conclude j last_world e1))))" by simp
  with assms(2,5) e1 loop halt_leaves show ?thesis
    by (auto simp: execute_workflow_def Let_def split: sum.splits flow.splits prod.splits dest: fstI)
qed

end

subsection \<open>Instances\<close>

definition others_keep :: "(task_db \<Rightarrow> bool) \<Rightarrow> world \<Rightarrow> bool" where
  "others_keep P wd \<longleftrightarrow> (\<forall>db. P db \<longrightarrow> P (wo_other wd db) \<and> P (wo_between wd db))"

definition cancelled_row :: "job \<Rightarrow> task_row \<Rightarrow> task_db \<Rightarrow> bool" where
  "cancelled_row j r db \<longleftrightarrow> get_task (jb_task_id j) db = Some r \<and> tk_status r = Cancelled"

lemma cancelled_refuses:
  assumes "cancelled_row j r db"
  shows "update_task_status (jb_task_id j) s v db = (db, False)" and "defer_running_task (jb_task_id j) due ws sm db = (db, False)"
  using assms by (auto simp: cancelled_row_def update_task_status_def defer_running_task_def update_where_def)

interpretation cancelled: engine_invariant j "others_keep (cancelled_row j r)" "cancelled_row j r" for j r
proof
  fix wd db assume "others_keep (cancelled_row j r) wd" "cancelled_row j r db"
  then show "cancelled_row j r (wo_other wd db)" by (simp add: others_keep_def)
next
  fix wd sync and e :: eng assume a: "others_keep (cancelled_row j r) wd" "cancelled_row j r (en_db e)" "live e"
  then have "cancelled_row j r (wo_other wd (en_db e))" by (simp add: others_keep_def)
  moreover from this have "read_task_status j (wo_other wd (en_db e)) = Cancelled"
    by (simp add: cancelled_row_def read_task_status_def)
  ultimately show "cancelled_row j r (en_db (fst (persist_workflow_state j wd sync e)))"
    using a(3) by (simp add: persist_workflow_state_def Let_def live_def)
next
  fix wd db due ws sm assume "cancelled_row j r db"
  then show "cancelled_row j r (fst (defer_running_task (jb_task_id j) due ws sm db))" by (simp add: cancelled_refuses)
next
  fix wd db s assume "cancelled_row j r db"
  then show "cancelled_row j r (fail_running_step_runs_for_task (jb_task_id j) s db)"
    by (simp add: cancelled_row_def fail_running_step_runs_for_task_def set_runs_def)
next
  fix wd and e :: eng assume a: "others_keep (cancelled_row j r) wd" "cancelled_row j r (en_db e)"
  then have "cancelled_row j r (wo_other wd (en_db e))" by (simp add: others_keep_def)
  then show "cancelled_row j r (en_db (fst (persist_task_final j wd e)))"
    by (simp add: persist_task_final_def Let_def cancelled_refuses)
qed

definition lifecycle_from :: "task_db \<Rightarrow> task_db \<Rightarrow> bool" where
  "lifecycle_from db0 db \<longleftrightarrow> keeps_lifecycle db0 db"

lemma lifecycle_status: "lifecycle_from db0 db \<Longrightarrow> lifecycle_from db0 (fst (update_task_status tid s v db))"
  unfolding lifecycle_from_def by (rule keeps_trans [OF _ keeps_status])

lemma lifecycle_state: "lifecycle_from db0 db \<Longrightarrow> lifecycle_from db0 (fst (update_task_workflow_state tid ws v db))"
  unfolding lifecycle_from_def by (erule keeps_trans) (rule keeps_columns)

interpretation engine_life: engine_invariant j "others_keep (lifecycle_from db0)" "lifecycle_from db0" for j db0
proof
  fix wd db assume "others_keep (lifecycle_from db0) wd" "lifecycle_from db0 db"
  then show "lifecycle_from db0 (wo_other wd db)" by (simp add: others_keep_def)
next
  fix wd sync and e :: eng assume a: "others_keep (lifecycle_from db0) wd" "lifecycle_from db0 (en_db e)" "live e"
  then have "lifecycle_from db0 (wo_other wd (en_db e))" "lifecycle_from db0 (wo_between wd (wo_other wd (en_db e)))"
    by (simp_all add: others_keep_def)
  then show "lifecycle_from db0 (en_db (fst (persist_workflow_state j wd sync e)))"
    using lifecycle_status lifecycle_state
    by (auto simp: persist_workflow_state_def Let_def split: prod.split bool.split) (metis fst_conv)+
next
  fix wd db due ws sm assume "lifecycle_from db0 db"
  then show "lifecycle_from db0 (fst (defer_running_task (jb_task_id j) due ws sm db))"
    unfolding lifecycle_from_def by (rule keeps_trans [OF _ keeps_defer])
next
  fix wd db s assume "lifecycle_from db0 db"
  then show "lifecycle_from db0 (fail_running_step_runs_for_task (jb_task_id j) s db)"
    unfolding lifecycle_from_def by (rule keeps_set_runs)
next
  fix wd and e :: eng assume a: "others_keep (lifecycle_from db0) wd" "lifecycle_from db0 (en_db e)"
  then have "lifecycle_from db0 (wo_other wd (en_db e))" by (simp add: others_keep_def)
  then show "lifecycle_from db0 (en_db (fst (persist_task_final j wd e)))"
    using lifecycle_status lifecycle_state
    by (auto simp: persist_task_final_def Let_def split: prod.split bool.split) (metis fst_conv)+
qed

definition unchanged :: "task_db \<Rightarrow> task_db \<Rightarrow> bool" where
  "unchanged db0 db \<longleftrightarrow> db = db0"

definition lease_lost :: "task_db \<Rightarrow> world \<Rightarrow> bool" where
  "lease_lost db0 wd \<longleftrightarrow> \<not> wo_owner wd \<and> wo_other wd db0 = db0 \<and> wo_between wd db0 = db0"

interpretation lost: engine_invariant j "lease_lost db0" "unchanged db0" for j db0
  by unfold_locales (auto simp: lease_lost_def unchanged_def persist_workflow_state_def persist_task_final_def Let_def)

interpretation any_run: engine_invariant j "\<lambda>_. True" "\<lambda>_. True" for j
  by unfold_locales simp_all

text \<open>
  C2. Once a task is cancelled in the database, a run of its workflow that has not noticed yet never
  changes the row again, whatever it still does: every status write and every write of the workflow
  state is refused or not attempted.
\<close>

theorem cancelled_task_never_written:
  assumes "get_task (jb_task_id j) (en_db e) = Some r" and "tk_status r = Cancelled" and "live e"
    and "list_all (others_keep (cancelled_row j r)) (last_world # worlds)"
    and "execute_workflow j worlds last_world e = Some (e', x)"
  shows "get_task (jb_task_id j) (en_db e') = Some r"
  using cancelled.workflow_keeps [of j r worlds last_world e e' x] assms by (simp add: cancelled_row_def)

text \<open>
  C3. The workflow engine refines the lifecycle of tasks: as long as the other writers keep to it, a
  whole run of a workflow moves every task of the database only along the transitions of \<open>life\<close>.
\<close>

theorem engine_refines_lifecycle:
  assumes "live e" and "list_all (others_keep (lifecycle_from (en_db e))) (last_world # worlds)"
    and "execute_workflow j worlds last_world e = Some (e', x)"
  shows "keeps_lifecycle (en_db e) (en_db e')"
  using engine_life.workflow_keeps [of "en_db e" worlds last_world e j e' x] assms keeps_refl
  by (simp add: lifecycle_from_def)

text \<open>
  A worker that has lost its lease writes nothing: if the fence fails in every turn and nobody
  else writes, the database at the end of its run is the database it started with.
\<close>

theorem lost_lease_writes_nothing:
  assumes "live e" and "list_all (lease_lost (en_db e)) (last_world # worlds)"
    and "execute_workflow j worlds last_world e = Some (e', x)"
  shows "en_db e' = en_db e"
  using lost.workflow_keeps [of "en_db e" worlds last_world e j e' x] assms by (simp add: unchanged_def)

subsection \<open>Writers of the workflow state\<close>

lemma status_ok_row:
  assumes "update_task_status tid s v db = (db', True)"
  obtains r where "get_task tid db = Some r" "s \<in> set (valid_transitions (tk_status r))"
    "get_task tid db' = Some (r\<lparr>tk_status := s,
        tk_started_at := or_else (v_started_at v) (tk_started_at r),
        tk_completed_at := or_else (v_completed_at v) (tk_completed_at r),
        tk_result_summary := or_else (v_result_summary v) (tk_result_summary r),
        tk_result_data := or_else (v_result_data v) (tk_result_data r),
        tk_applied_completion_mode := or_else (v_applied_completion_mode v) (tk_applied_completion_mode r),
        tk_applied_completion_reason := or_else (v_applied_completion_reason v) (tk_applied_completion_reason r),
        tk_delivery_mode := (case v_delivery_mode v of None \<Rightarrow> tk_delivery_mode r | Some m \<Rightarrow> m)\<rparr>)"
    "\<And>p. v_expected_pause_id v = Some p \<Longrightarrow> pause_id_of r = Some p"
    "\<And>n. v_expected_attempt v = Some n \<Longrightarrow> tk_attempt_number r = n"
    "\<And>x. v_expected_status v = Some x \<Longrightarrow> tk_status r = x"
  using assms unfolding update_task_status_def by (elim update_whereE) (auto simp: get_task_def split: option.splits)

lemma state_ok_row:
  assumes "update_task_workflow_state tid ws ex db = (db', True)"
  obtains r where "get_task tid db = Some r" "get_task tid db' = Some (r\<lparr>tk_workflow_state := Some ws\<rparr>)"
    "\<And>v. ex = Some v \<Longrightarrow> state_version r = v - 1"
  using assms unfolding update_task_workflow_state_def by (elim update_whereE) (auto simp: get_task_def split: option.splits)

lemma status_version:
  "map_option state_version (get_task tid (fst (update_task_status tid s v db))) = map_option state_version (get_task tid db)"
  by (simp add: update_task_status_def update_where_def get_task_def state_version_def split: option.split)

lemma persist_writes:
  assumes "persist_workflow_state j wd sync e = (e', Inr u)"
  shows "map_option state_version (get_task (jb_task_id j) (wo_between wd (wo_other wd (en_db e)))) = Some (ws_version (en_state e))"
    and "map_option state_version (get_task (jb_task_id j) (en_db e')) = Some (ws_version (en_state e) + 1)"
proof -
  let ?tid = "jb_task_id j" and ?db0 = "wo_between wd (wo_other wd (en_db e))" and ?ws = "bumped (en_state e)"
  let ?c = "consumes_gate (read_task_status j (wo_other wd (en_db e))) e"
  obtain db1 ok where first: "(if ?c then update_task_status ?tid Running (consume_values j ?ws) ?db0 else (?db0, True)) = (db1, ok)"
    by fastforce
  from assms obtain db2 where
    second: "update_task_workflow_state ?tid ?ws (Some (ws_version ?ws)) db1 = (db2, True)"
    and db: "en_db e' = (if sync then fst (update_task_status ?tid (en_status e) no_values db2) else db2)"
    unfolding persist_workflow_state_def Let_def bumped_def [symmetric] first
    by (auto split: if_splits prod.splits bool.splits)
  have "map_option state_version (get_task ?tid db1) = map_option state_version (get_task ?tid ?db0)"
    using first status_version [of ?tid Running "consume_values j ?ws" ?db0] by (auto split: if_splits)
  with second show "map_option state_version (get_task ?tid ?db0) = Some (ws_version (en_state e))"
    by (elim state_ok_row) (simp add: bumped_def)
  have "map_option state_version (get_task ?tid (en_db e')) = map_option state_version (get_task ?tid db2)"
    by (simp only: db status_version if_True if_False split: if_split) simp
  with second show "map_option state_version (get_task ?tid (en_db e')) = Some (ws_version (en_state e) + 1)"
    by (elim state_ok_row) (simp add: state_version_def bumped_def)
qed


text \<open>
  C6. A gate's decision is taken once and only by the attempt it was asked of: a write that takes a
  task from paused to running with a decision finds the row of this attempt still paused on that
  very gate, and leaves it running with no gate to decide.
\<close>

theorem gate_decision_consumed_once:
  assumes "persist_workflow_state j wd sync e = (e', Inr u)"
    and "read_task_status j (wo_other wd (en_db e)) = Paused"
    and "en_status e = Running" and "ws_pending_pause_type (en_state e) = None"
    and "ws_pending_pause_payload (en_state e) = None" and "ws_last_consumed_gate_id (en_state e) = Some g"
  shows "(\<exists>r. get_task (jb_task_id j) (wo_between wd (wo_other wd (en_db e))) = Some r \<and> tk_status r = Paused \<and>
       pause_id_of r = Some g \<and> tk_attempt_number r = jb_attempt j) \<and>
    (\<exists>r'. get_task (jb_task_id j) (en_db e') = Some r' \<and> tk_status r' = Running \<and> pause_id_of r' = None \<and>
       tk_workflow_state r' = Some (en_state e'))"
proof -
  let ?tid = "jb_task_id j" and ?db0 = "wo_between wd (wo_other wd (en_db e))" and ?ws = "bumped (en_state e)"
  from assms obtain db1 db2 where first: "update_task_status ?tid Running (consume_values j ?ws) ?db0 = (db1, True)"
    and second: "update_task_workflow_state ?tid ?ws (Some (ws_version ?ws)) db1 = (db2, True)"
    and db: "en_db e' = (if sync then fst (update_task_status ?tid Running no_values db2) else db2)"
    and ws: "en_state e' = ?ws"
    by (auto simp: persist_workflow_state_def consumes_gate_def bumped_def Let_def split: if_splits prod.splits bool.splits)
  from first obtain r r1 where r: "get_task ?tid ?db0 = Some r" "tk_status r = Paused" "pause_id_of r = Some g"
      "tk_attempt_number r = jb_attempt j" and r1: "get_task ?tid db1 = Some r1" "tk_status r1 = Running"
    using assms(6) by (elim status_ok_row) (auto simp: consume_values_def no_values_def bumped_def)
  from second r1(1) have r2: "get_task ?tid db2 = Some (r1\<lparr>tk_workflow_state := Some ?ws\<rparr>)" by (elim state_ok_row) simp
  have "update_task_status ?tid Running no_values db2 = (db2, False)" by (rule status_refused [OF r2]) (simp add: r1(2))
  with db have "en_db e' = db2" by simp
  with r r1 r2 ws assms(5) show ?thesis by (simp add: pause_id_of_def bumped_def)
qed

subsection \<open>The end of a run\<close>

lemma persist_task_final_row:
  assumes "persist_task_final j wd e = (e', Inr u)"
  shows "\<exists>r. get_task (jb_task_id j) (en_db e') = Some r \<and> tk_status r = en_status e \<and> tk_attempt_number r = jb_attempt j \<and>
     tk_workflow_state r = Some (final_state (en_status e) (en_state e)) \<and> en_state e' = final_state (en_status e) (en_state e) \<and>
     tk_result_summary r = or_else (en_summary e) (tk_result_summary r) \<and> en_status e' = en_status e"
proof -
  let ?tid = "jb_task_id j" and ?ws = "final_state (en_status e) (en_state e)"
  let ?v = "no_values\<lparr>v_completed_at := en_completed_at e, v_result_summary := en_summary e,
      v_result_data := en_data e, v_applied_completion_mode := Some (fst (en_completion e)),
      v_applied_completion_reason := snd (en_completion e), v_delivery_mode := Some (en_delivery e),
      v_expected_attempt := Some (jb_attempt j)\<rparr>"
  from assms obtain db1 db2 where st: "update_task_status ?tid (en_status e) ?v db1 = (db2, True)"
    and e': "e' = e\<lparr>en_db := fst (update_task_workflow_state ?tid ?ws None db2), en_state := ?ws\<rparr>"
    unfolding persist_task_final_def Let_def by (auto split: if_splits prod.splits bool.splits)
  from st obtain r where r: "get_task ?tid db2 = Some r" "tk_status r = en_status e" "tk_attempt_number r = jb_attempt j"
      "tk_result_summary r = or_else (en_summary e) (tk_result_summary r)"
    by (elim status_ok_row) (auto simp: or_else_def no_values_def split: option.split)
  then have "get_task ?tid (fst (update_task_workflow_state ?tid ?ws None db2)) = Some (r\<lparr>tk_workflow_state := Some ?ws\<rparr>)"
    by (simp add: update_task_workflow_state_def update_where_def get_task_def)
  with r show ?thesis by (simp add: e')
qed

lemma loop_status: "live e \<Longrightarrow> run_loop j worlds e = Some (e', Inr f) \<Longrightarrow> en_status e' \<noteq> Completed"
  using any_run.run_loop_leaves [of worlds e j "(e', Inr f)"] by (auto simp: any_run.inv_def leaves_def live_def list_all_iff)

lemma halt_status: "handle_halt j wd h e = (e', Inr u) \<Longrightarrow> en_status e' \<noteq> Completed"
  unfolding handle_halt_def fail_task_def Let_def
  by (cases h) (auto simp: set_status_def split: if_splits dest!: persist_state persist_task_final_row)

text \<open>
  C7. A workflow that reports completion is completed in the database: the row of this attempt has
  that status and the final workflow state, no step was skipped and no gate is left open.
\<close>

theorem completed_run_is_recorded:
  assumes "live e" and "execute_workflow j worlds last_world e = Some (e', Inr ())" and "en_status e' = Completed"
  shows "\<exists>r. get_task (jb_task_id j) (en_db e') = Some r \<and> tk_status r = Completed \<and> tk_attempt_number r = jb_attempt j \<and>
    tk_workflow_state r = Some (en_state e') \<and> ws_status (en_state e') = ''completed'' \<and> ws_skipped_steps (en_state e') = [] \<and>
    ws_pending_pause_type (en_state e') = None \<and> ws_pending_pause_payload (en_state e') = None"
proof -
  from assms obtain e1 where final: "persist_task_final j last_world (conclude j last_world e1) = (e', Inr ())"
    by (auto simp: execute_workflow_def Let_def split: option.splits sum.splits flow.splits prod.splits
        dest: loop_status halt_status)
  let ?c = "conclude j last_world e1"
  from persist_task_final_row [OF final] assms(3) have compl: "en_status ?c = Completed"
    and row: "\<exists>r. get_task (jb_task_id j) (en_db e') = Some r \<and> tk_status r = Completed \<and> tk_attempt_number r = jb_attempt j \<and>
      tk_workflow_state r = Some (en_state e')" and state: "en_state e' = final_state Completed (en_state ?c)" by auto
  from compl have "ws_skipped_steps (en_state ?c) = []"
    by (auto simp: conclude_def Let_def set_status_def clear_pause_def split: option.splits if_splits)
  with row state show ?thesis by (auto simp: final_state_def)
qed

subsection \<open>Instances evaluated\<close>

abbreviation demo_run_of :: "bool \<Rightarrow> task_status \<Rightarrow> (eng \<times> (halt, unit) result) option" where
  "demo_run_of owner s \<equiv> execute_workflow (demo_job [demo_step ''work''])
     [(demo_world (Ran demo_output) Approved)\<lparr>wo_owner := owner\<rparr>] ((demo_world No_Output Approved)\<lparr>wo_owner := owner\<rparr>) (demo_eng s)"

lemma demo_live [simp]: "live (demo_eng s)" and demo_other [simp]: "wo_other (demo_world r v) = (\<lambda>db. db)"
  "wo_between (demo_world r v) = (\<lambda>db. db)"
  by (simp_all add: live_def demo_eng_def demo_world_def)

lemma demo_others [simp]: "others_keep P ((demo_world r v)\<lparr>wo_owner := b\<rparr>)"
  by (simp add: others_keep_def demo_world_def)

theorem cancelled_task_never_written_witness:
  "\<exists>e' x. demo_run_of True Cancelled = Some (e', x) \<and>
     get_task ''a'' (en_db e') = Some ((demo_task ''x'' 0)\<lparr>tk_status := Cancelled, tk_workflow_id := Some ''w''\<rparr>)"
proof -
  have "demo_run_of True Cancelled \<noteq> None" by code_simp
  then obtain e' x where run: "demo_run_of True Cancelled = Some (e', x)" by fastforce
  have "get_task (jb_task_id (demo_job [demo_step ''work''])) (en_db e') =
      Some ((demo_task ''x'' 0)\<lparr>tk_status := Cancelled, tk_workflow_id := Some ''w''\<rparr>)"
    by (rule cancelled_task_never_written [OF _ _ _ _ run])
      (simp_all add: demo_job_def demo_eng_def demo_db_def get_task_def live_def)
  with run show ?thesis by (auto simp: demo_job_def)
qed

theorem engine_refines_lifecycle_witness:
  "\<exists>e' x. demo_run_of True Running = Some (e', x) \<and> keeps_lifecycle (en_db (demo_eng Running)) (en_db e')"
proof -
  have "demo_run_of True Running \<noteq> None" by code_simp
  then obtain e' x where run: "demo_run_of True Running = Some (e', x)" by fastforce
  from engine_refines_lifecycle [OF _ _ run] run show ?thesis by simp
qed

theorem lost_lease_writes_nothing_witness:
  "\<exists>e' x. demo_run_of False Running = Some (e', x) \<and> en_db e' = en_db (demo_eng Running)"
proof -
  have "demo_run_of False Running \<noteq> None" by code_simp
  then obtain e' x where run: "demo_run_of False Running = Some (e', x)" by fastforce
  from lost_lease_writes_nothing [OF _ _ run] run show ?thesis by (simp add: lease_lost_def demo_world_def)
qed

theorem completed_run_is_recorded_witness:
  "\<exists>e' r. demo_run_of True Running = Some (e', Inr ()) \<and> get_task ''a'' (en_db e') = Some r \<and> tk_status r = Completed"
proof -
  have "case demo_run_of True Running of Some (e', Inr ()) \<Rightarrow> en_status e' = Completed | _ \<Rightarrow> False" by code_simp
  then obtain e' where run: "demo_run_of True Running = Some (e', Inr ())" and "en_status e' = Completed"
    by (auto split: option.splits prod.splits sum.splits unit.splits)
  from completed_run_is_recorded [OF demo_live this] run show ?thesis by (auto simp: demo_job_def)
qed


definition demo_waiting :: eng where
  "demo_waiting = (demo_eng Running)\<lparr>
     en_db := \<lparr>task_rows = [(''a'', (demo_task ''x'' 0)\<lparr>tk_status := Paused, tk_workflow_state := Some (initial_workflow_state
         \<lparr>ws_pending_pause_type := Some ''gate'', ws_pending_pause_payload := Some [(''pause_id'', VStr ''g'')]\<rparr>)\<rparr>)],
       run_rows = [], dep_rows = []\<rparr>,
     en_state := initial_workflow_state\<lparr>ws_last_consumed_gate_id := Some ''g''\<rparr>\<rparr>"

theorem gate_decision_consumed_once_witness:
  "\<exists>e' r'. persist_workflow_state (demo_job []) (demo_world No_Output Approved) False demo_waiting = (e', Inr ()) \<and>
     get_task ''a'' (en_db e') = Some r' \<and> tk_status r' = Running \<and> pause_id_of r' = None"
proof -
  have "snd (persist_workflow_state (demo_job []) (demo_world No_Output Approved) False demo_waiting) = Inr ()" by code_simp
  then obtain e' where one: "persist_workflow_state (demo_job []) (demo_world No_Output Approved) False demo_waiting = (e', Inr ())"
    by (metis prod.collapse)
  from gate_decision_consumed_once [OF one, of "''g''"] one show ?thesis
    by (auto simp: demo_waiting_def demo_eng_def demo_job_def get_task_def initial_workflow_state_def read_task_status_def demo_task_def)
qed

end
