(* ===== verification/Tool_Dispatch.thy ===== *)
theory Tool_Dispatch
  imports Python_Values
begin

section \<open>Tool batches in flight\<close>

text \<open>
  \<open>cognis/store/direct_turns.py\<close>, lines 84 to 270: how the outcome of a direct turn records the tool
  calls its sessions have dispatched. A group is one session's batch; several sessions share one
  turn, and a group that is lost is a call that nobody settles after a crash.

  An outcome is a JSON object, an association list here. \<open>Inl ()\<close> is the \<open>TypeError\<close> or
  \<open>ValueError\<close> that \<open>dict(descriptor)\<close> raises on a descriptor that is no object.
\<close>

named_theorems dispatch_simps \<open>reading and writing dispatch groups\<close>

subsection \<open>Building a dictionary\<close>

text \<open>
  \<open>dict(x)\<close>: a copy of a dictionary, or the dictionary of an iterable of pairs. Iterating a string
  gives its characters, iterating a dictionary its keys; a pair is any iterable of two items. The
  keys are in the form the JSON column stores them in.
\<close>

fun json_key :: "pyval \<Rightarrow> string checked" where
  "json_key (VStr s) = Inr s"
| "json_key (VBool b) = Inr (if b then ''true'' else ''false'')"
| "json_key VNone = Inr ''null''"
| "json_key (VInt i) = Inr (show_int i)"
| "json_key (VFloat m e) = Inr (show_float m e)"
| "json_key _ = Inl ()"

fun iterate :: "pyval \<Rightarrow> pyval list checked" where
  "iterate (VStr s) = Inr (map (\<lambda>c. VStr [c]) s)"
| "iterate (VList vs) = Inr vs"
| "iterate (VDict d) = Inr (map (VStr \<circ> fst) d)"
| "iterate _ = Inl ()"

definition pair_of :: "pyval \<Rightarrow> (string \<times> pyval) checked" where
  "pair_of x = res_bind (iterate x) (\<lambda>vs.
     case vs of [k, v] \<Rightarrow> res_bind (json_key k) (\<lambda>s. Inr (s, v)) | _ \<Rightarrow> Inl ())"

definition py_dict :: "pyval \<Rightarrow> (string \<times> pyval) list checked" where
  "py_dict x =
     (case x of
        VDict d \<Rightarrow> Inr d
      | _ \<Rightarrow> res_bind (iterate x) (\<lambda>vs.
               res_bind (res_map pair_of vs) (\<lambda>kvs. Inr (fold (\<lambda>(k, v) d. dict_put k v d) kvs []))))"

lemma py_dict_VDict [simp]: "py_dict (VDict d) = Inr d"
  by (simp add: py_dict_def)

subsection \<open>Groups\<close>

record dispatch_group =
  dg_session_id :: string
  dg_turn_id :: string
  dg_tool_calls :: "pyval list"

definition group_key :: "dispatch_group \<Rightarrow> string \<times> string" where
  "group_key g = (dg_session_id g, dg_turn_id g)"

definition as_json :: "dispatch_group \<Rightarrow> pyval checked" where
  "as_json g = res_bind (res_map py_dict (dg_tool_calls g)) (\<lambda>ds.
     Inr (VDict [(''session_id'', VStr (dg_session_id g)), (''turn_id'', VStr (dg_turn_id g)),
                 (''tool_calls'', VList (map VDict ds))]))"

fun coerce_dispatch_group :: "pyval \<Rightarrow> dispatch_group option" where
  "coerce_dispatch_group (VDict d) =
     (case (dict_get d ''session_id'', dict_get d ''turn_id'', dict_get d ''tool_calls'') of
        (VStr s, VStr t, VList ds) \<Rightarrow>
          if s = [] \<or> t = [] \<or> ds = [] then None
          else Some \<lparr>dg_session_id = s, dg_turn_id = t, dg_tool_calls = ds\<rparr>
      | _ \<Rightarrow> None)"
| "coerce_dispatch_group _ = None"

definition opt_str :: "string option \<Rightarrow> pyval" where
  "opt_str x = (case x of None \<Rightarrow> VNone | Some s \<Rightarrow> VStr s)"

definition py_or :: "pyval \<Rightarrow> pyval \<Rightarrow> pyval" where
  "py_or v w = (if truthy v then v else w)"

fun readable_groups :: "pyval list \<Rightarrow> dispatch_group list" where
  "readable_groups [] = []"
| "readable_groups (raw # raws) =
     (case coerce_dispatch_group raw of None \<Rightarrow> readable_groups raws
      | Some g \<Rightarrow> g # readable_groups raws)"

definition legacy_group ::
  "(string \<times> pyval) list \<Rightarrow> string option \<Rightarrow> string option \<Rightarrow> dispatch_group list" where
  "legacy_group d fs ft =
     (case dict_get d ''tool_calls'' of
        VList ds \<Rightarrow>
          if ds = [] then []
          else (case coerce_dispatch_group
                  (VDict [(''session_id'', py_or (dict_get d ''session_id'') (opt_str fs)),
                          (''turn_id'', py_or (dict_get d ''turn_id'') (opt_str ft)),
                          (''tool_calls'', VList ds)]) of
                  None \<Rightarrow> [] | Some g \<Rightarrow> [g])
      | _ \<Rightarrow> [])"

definition read_tool_dispatch_groups ::
  "pyval \<Rightarrow> string option \<Rightarrow> string option \<Rightarrow> dispatch_group list" where
  "read_tool_dispatch_groups outcome fs ft =
     (case outcome of
        VDict d \<Rightarrow>
          (case dict_get d ''tool_dispatch_groups'' of
             VList raws \<Rightarrow> readable_groups raws
           | _ \<Rightarrow> legacy_group d fs ft)
      | _ \<Rightarrow> [])"

definition unreadable_tool_dispatch_groups :: "pyval \<Rightarrow> pyval list" where
  "unreadable_tool_dispatch_groups outcome =
     (case outcome of
        VDict d \<Rightarrow>
          (case dict_get d ''tool_dispatch_groups'' of
             VList raws \<Rightarrow> filter (\<lambda>raw. coerce_dispatch_group raw = None) raws
           | _ \<Rightarrow> [])
      | _ \<Rightarrow> [])"

definition drop_keys :: "string list \<Rightarrow> (string \<times> pyval) list \<Rightarrow> (string \<times> pyval) list" where
  "drop_keys ks d = filter (\<lambda>(k, v). k \<notin> set ks) d"

definition write_tool_dispatch_groups ::
  "(string \<times> pyval) list \<Rightarrow> dispatch_group list \<Rightarrow> pyval list \<Rightarrow> (string \<times> pyval) list checked" where
  "write_tool_dispatch_groups outcome groups preserved =
     (let updated = drop_keys [''tool_dispatch_groups'', ''tool_calls''] outcome
      in res_bind (res_map as_json groups) (\<lambda>js.
           let recorded = js @ preserved
           in Inr (if recorded \<noteq> [] then dict_put ''tool_dispatch_groups'' (VList recorded) updated
                   else updated)))"

definition replace_dispatch_group ::
  "dispatch_group list \<Rightarrow> dispatch_group \<Rightarrow> dispatch_group list" where
  "replace_dispatch_group groups g = filter (\<lambda>x. group_key x \<noteq> group_key g) groups @ [g]"

definition resolve_dispatch_turn_id :: "string option \<Rightarrow> string \<Rightarrow> string" where
  "resolve_dispatch_turn_id turn_id request_turn_id =
     (case turn_id of
        Some t \<Rightarrow> if t \<noteq> [] then t else request_turn_id
      | None \<Rightarrow> request_turn_id)"

subsection \<open>Reading back what was written\<close>

text \<open>A group that can be recorded: it has an identity, and its descriptors are objects.\<close>

definition group_ok :: "dispatch_group \<Rightarrow> bool" where
  "group_ok g \<longleftrightarrow> dg_session_id g \<noteq> [] \<and> dg_turn_id g \<noteq> [] \<and> dg_tool_calls g \<noteq> [] \<and>
     list_all is_dict (dg_tool_calls g)"

lemma res_map_py_dict:
  "list_all is_dict vs \<Longrightarrow> \<exists>ds. res_map py_dict vs = Inr ds \<and> map VDict ds = vs"
proof (induction vs)
  case (Cons v vs)
  then show ?case by (cases v) auto
qed simp

text \<open>Exactly the descriptors that are objects keep their form: a group of them is encoded and
  decoded without loss.\<close>

lemma as_json_group_ok:
  assumes "group_ok g"
  shows "\<exists>j. as_json g = Inr j \<and> coerce_dispatch_group j = Some g"
proof -
  from assms obtain ds where "res_map py_dict (dg_tool_calls g) = Inr ds"
    and "map VDict ds = dg_tool_calls g"
    using res_map_py_dict by (auto simp: group_ok_def)
  with assms show ?thesis
    by (auto simp: as_json_def group_ok_def dict_get_def)
qed

lemma encode_groups:
  assumes "list_all group_ok gs"
  shows "\<exists>js. res_map as_json gs = Inr js \<and> readable_groups js = gs \<and>
    filter (\<lambda>raw. coerce_dispatch_group raw = None) js = []"
  using assms
proof (induction gs)
  case (Cons g gs)
  then obtain j js where "as_json g = Inr j" "coerce_dispatch_group j = Some g"
    "res_map as_json gs = Inr js" "readable_groups js = gs"
    "filter (\<lambda>raw. coerce_dispatch_group raw = None) js = []"
    using as_json_group_ok [of g] by auto
  then show ?case by simp
qed simp

lemma readable_groups_append [simp]:
  "readable_groups (xs @ ys) = readable_groups xs @ readable_groups ys"
  by (induction xs) (auto split: option.splits)

lemma readable_groups_unreadable:
  "list_all (\<lambda>raw. coerce_dispatch_group raw = None) raws \<Longrightarrow> readable_groups raws = []"
  by (induction raws) auto

lemma unreadable_all:
  "list_all (\<lambda>raw. coerce_dispatch_group raw = None) (unreadable_tool_dispatch_groups v)"
  by (auto simp: unreadable_tool_dispatch_groups_def list_all_iff split: pyval.splits)

lemma map_of_drop_keys [simp]: "map_of (drop_keys ks d) k = (if k \<in> set ks then None else map_of d k)"
  unfolding drop_keys_def by (induction d) auto

text \<open>Writing keeps every other entry of the outcome.\<close>

lemma write_keeps_other:
  assumes "write_tool_dispatch_groups d gs pres = Inr d'"
    and "k \<notin> set [''tool_dispatch_groups'', ''tool_calls'']"
  shows "map_of d' k = map_of d k"
  using assms
  by (auto simp: write_tool_dispatch_groups_def Let_def split: if_splits)

lemma write_groups_total:
  "list_all group_ok gs \<Longrightarrow> \<exists>d'. write_tool_dispatch_groups d gs pres = Inr d'"
  using encode_groups [of gs] by (auto simp: write_tool_dispatch_groups_def Let_def)

lemma read_write_groups:
  assumes "list_all group_ok gs"
    and "list_all (\<lambda>raw. coerce_dispatch_group raw = None) pres"
    and "write_tool_dispatch_groups d gs pres = Inr d'"
  shows "read_tool_dispatch_groups (VDict d') fs ft = gs \<and>
    unreadable_tool_dispatch_groups (VDict d') = pres"
proof -
  from encode_groups [OF assms(1)] obtain js where js: "res_map as_json gs = Inr js"
    "readable_groups js = gs" "filter (\<lambda>raw. coerce_dispatch_group raw = None) js = []"
    by blast
  let ?u = "drop_keys [''tool_dispatch_groups'', ''tool_calls''] d"
  have pres: "readable_groups pres = []" "filter (\<lambda>raw. coerce_dispatch_group raw = None) pres = pres"
    using assms(2) by (simp_all add: readable_groups_unreadable list_all_iff)
  from assms(3) js(1) have d': "d' = (if js @ pres \<noteq> [] then dict_put ''tool_dispatch_groups'' (VList (js @ pres)) ?u else ?u)"
    by (auto simp: write_tool_dispatch_groups_def Let_def)
  show ?thesis
  proof (cases "js @ pres = []")
    case True
    with d' have "d' = ?u" by simp
    with True js show ?thesis
      by (auto simp: read_tool_dispatch_groups_def unreadable_tool_dispatch_groups_def legacy_group_def dict_get_def)
  next
    case False
    with d' have "dict_get d' ''tool_dispatch_groups'' = VList (js @ pres)"
      by (simp add: dict_get_def)
    with js pres show ?thesis
      by (simp add: read_tool_dispatch_groups_def unreadable_tool_dispatch_groups_def)
  qed
qed

end
