(* ===== verification/Direct_Turns.thy ===== *)
theory Direct_Turns
  imports Leases Tool_Dispatch
begin

section \<open>The durable store of direct turns\<close>

text \<open>
  \<open>cognis/store/direct_turns.py\<close>: the table \<open>direct_turn_requests\<close>, in which every message a user sends
  is admitted, claimed by a controller under the lease of its conversation, run, and settled. One
  definition per method of \<open>DirectTurnStore\<close>, as a function on the tables it reads and writes; a
  raised exception is \<open>Inl\<close>, and a transaction that raises or rolls back leaves the tables as they were.

  A transaction reads the clock of the database, reads rows and writes rows. Where a method reads a
  row without locking it, others may commit before its \<open>UPDATE\<close>; the record \<open>txn\<close> says what the
  transaction sees: \<open>tx_now\<close> is the value of \<open>database_now\<close>, \<open>tx_at\<close> the clock the conditions of the
  \<open>UPDATE\<close> read, \<open>tx_seen\<close> the rows the unlocked \<open>SELECT\<close> returned. Rows a method locks are those the
  \<open>UPDATE\<close> finds.

  Pydantic's models (the payload, the evidence records) and the hash functions are parameters.
\<close>

named_theorems turn_defs \<open>definitions of the methods of the turn store\<close>
named_theorems turn_status_simps \<open>membership in the sets of statuses\<close>

subsection \<open>Statuses\<close>

datatype turn_status =
    Turn_Queued | Turn_Claimed | Turn_Running | Turn_Absorbing | Turn_Recoverable
  | Turn_Completed | Turn_Failed | Turn_Cancelled | Turn_Absorbed | Turn_Ambiguous

fun turn_status_value :: "turn_status \<Rightarrow> string" where
  "turn_status_value Turn_Queued = ''queued''"
| "turn_status_value Turn_Claimed = ''claimed''"
| "turn_status_value Turn_Running = ''running''"
| "turn_status_value Turn_Absorbing = ''absorbing''"
| "turn_status_value Turn_Recoverable = ''recoverable''"
| "turn_status_value Turn_Completed = ''completed''"
| "turn_status_value Turn_Failed = ''failed''"
| "turn_status_value Turn_Cancelled = ''cancelled''"
| "turn_status_value Turn_Absorbed = ''absorbed''"
| "turn_status_value Turn_Ambiguous = ''ambiguous''"

definition CLAIMABLE_STATUSES :: "turn_status list" where
  "CLAIMABLE_STATUSES = [Turn_Queued, Turn_Recoverable]"

definition ACTIVE_STATUSES :: "turn_status list" where
  "ACTIVE_STATUSES = [Turn_Claimed, Turn_Running, Turn_Absorbing]"

definition TERMINAL_STATUSES :: "turn_status list" where
  "TERMINAL_STATUSES = [Turn_Completed, Turn_Failed, Turn_Cancelled, Turn_Absorbed, Turn_Ambiguous]"

definition NONTERMINAL_STATUSES :: "turn_status list" where
  "NONTERMINAL_STATUSES = CLAIMABLE_STATUSES @ ACTIVE_STATUSES"

subsection \<open>Rows\<close>

record turn_row =
  dt_admission_order :: int
  dt_request_id :: string
  dt_turn_id :: string
  dt_conversation_id :: string
  dt_session_id :: "string option"
  dt_agent_id :: string
  dt_user_id :: string
  dt_idempotency_scope :: string
  dt_idempotency_key :: string
  dt_admission_hash :: string
  dt_payload_hash :: string
  dt_payload_version :: int
  dt_payload :: "(string \<times> pyval) list"
  dt_status :: turn_status
  dt_owner_controller_id :: "string option"
  dt_owner_incarnation_id :: "string option"
  dt_fencing_token :: "int option"
  dt_attempt_count :: int
  dt_next_attempt_at :: "time option"
  dt_cancel_requested_at :: "time option"
  dt_absorbed_by_turn_id :: "string option"
  dt_outcome :: pyval
  dt_created_at :: time
  dt_updated_at :: time
  dt_claimed_at :: "time option"
  dt_started_at :: "time option"
  dt_terminal_at :: "time option"

text \<open>The columns of the other tables that the store reads or writes.\<close>

record conv_row =
  cv_lineage_task_id :: "string option"
  cv_active_executor_unavailable_since :: "time option"

record link_row =
  ln_target_conversation_id :: string
  ln_active_turn_id :: "string option"
  ln_turn_state :: string
  ln_notify_on_completion :: bool
  ln_last_error :: "string option"
  ln_last_result_turn_id :: "string option"
  ln_handoff_state :: "string option"
  ln_handoff_target_turn_id :: "string option"
  ln_handoff_controller_session_id :: "string option"
  ln_handoff_controller_turn_id :: "string option"
  ln_handoff_tool_call_id :: "string option"
  ln_completed_at :: "time option"
  ln_updated_at :: time

record audit_row =
  au_log_id :: string
  au_event_type :: string
  au_user_email :: string
  au_details :: pyval

record outbox_row =
  ob_delivery_id :: string
  ob_user_email :: string
  ob_conversation_id :: string
  ob_session_id :: "string option"
  ob_source_type :: string
  ob_source_id :: string
  ob_channel_type :: string
  ob_account_id :: string
  ob_chat_id :: string
  ob_thread_id :: pyval
  ob_reply_to_id :: pyval
  ob_direct_turn_request_id :: string
  ob_direct_turn_fencing_token :: "int option"
  ob_status :: string
  ob_fallback_text :: string
  ob_attachments_json :: pyval
  ob_next_attempt_at :: time

text \<open>
  The tables. The rows of \<open>direct_turn_requests\<close> stand in the order they were inserted in;
  \<open>td_next\<close> is the next value of its autoincremented key. A sequence may also skip values when an
  insert conflicts, which nothing depends on.
\<close>

record turn_db =
  td_rows :: "turn_row list"
  td_next :: int
  td_leases :: lease_db
  td_conversations :: "string \<rightharpoonup> conv_row"
  td_links :: "link_row list"
  td_audit :: "audit_row list"
  td_outbox :: "outbox_row list"

record txn =
  tx_now :: time
  tx_at :: time
  tx_seen :: "turn_row list"

datatype turn_error =
    Turn_Value_Error string
  | Turn_Conflict string
  | Admission_Rejected string
  | Recovery_Conflict string string
  | Key_Error string
  | Type_Error
  | Turn_Database_Error
  | Turn_Retries_Exhausted

subsection \<open>Times as text\<close>

text \<open>\<open>isoformat\<close> of a UTC time given in microseconds since 1970.\<close>

definition pad_int :: "nat \<Rightarrow> int \<Rightarrow> string" where
  "pad_int w i = (let s = show_nat (nat i) in replicate (w - length s) (CHR ''0'') @ s)"

definition civil_date :: "int \<Rightarrow> int \<times> int \<times> int" where
  "civil_date days =
     (let z = days + 719468; era = z div 146097; doe = z mod 146097;
          yoe = (doe - doe div 1460 + doe div 36524 - doe div 146096) div 365;
          doy = doe - (365 * yoe + yoe div 4 - yoe div 100);
          mp = (5 * doy + 2) div 153;
          d = doy - (153 * mp + 2) div 5 + 1;
          m = (if mp < 10 then mp + 3 else mp - 9);
          y = yoe + era * 400
      in (if m \<le> 2 then y + 1 else y, m, d))"

definition isoformat :: "time \<Rightarrow> string" where
  "isoformat t =
     (let (y, m, d) = civil_date (t div 86400000000);
          us = t mod 86400000000; sec = us div 1000000; frac = us mod 1000000
      in pad_int 4 y @ ''-'' @ pad_int 2 m @ ''-'' @ pad_int 2 d @ ''T''
         @ pad_int 2 (sec div 3600) @ '':'' @ pad_int 2 (sec div 60 mod 60) @ '':'' @ pad_int 2 (sec mod 60)
         @ (if frac = 0 then '''' else ''.'' @ pad_int 6 frac) @ ''+00:00'')"

subsection \<open>Statements\<close>

definition conversation_lease_key :: "string \<Rightarrow> string" where
  "conversation_lease_key conversation_id = ''direct-turn:conversation:'' @ conversation_id"

definition turn_owner_id :: "string \<Rightarrow> string \<Rightarrow> string" where
  "turn_owner_id controller_id incarnation_id = controller_id @ '':'' @ incarnation_id"

text \<open>The owner id that a row's two owner columns give; \<open>NULL\<close> when one of them is.\<close>

definition row_owner :: "turn_row \<Rightarrow> string option" where
  "row_owner r =
     (case (dt_owner_controller_id r, dt_owner_incarnation_id r) of
        (Some c, Some i) \<Rightarrow> Some (turn_owner_id c i)
      | _ \<Rightarrow> None)"

definition find_turn :: "string \<Rightarrow> turn_row list \<Rightarrow> turn_row option" where
  "find_turn rid rows = find_first (\<lambda>r. dt_request_id r = rid) rows"

text \<open>\<open>UPDATE ... WHERE request_id = rid AND p RETURNING\<close>.\<close>

definition update_turn ::
  "string \<Rightarrow> (turn_row \<Rightarrow> bool) \<Rightarrow> (turn_row \<Rightarrow> turn_row) \<Rightarrow> turn_db \<Rightarrow> turn_db \<times> turn_row option" where
  "update_turn rid p f db =
     (case find_first (\<lambda>r. dt_request_id r = rid \<and> p r) (td_rows db) of
        None \<Rightarrow> (db, None)
      | Some r \<Rightarrow>
          (db\<lparr>td_rows := map (\<lambda>r. if dt_request_id r = rid \<and> p r then f r else r) (td_rows db)\<rparr>,
           Some (f r)))"

definition lease_predicate :: "txn \<Rightarrow> lease \<Rightarrow> turn_db \<Rightarrow> bool" where
  "lease_predicate tx l db = is_current (tx_at tx) l (td_leases db)"

definition has_predecessor :: "turn_row \<Rightarrow> turn_row list \<Rightarrow> bool" where
  "has_predecessor r rows =
     list_ex (\<lambda>e. dt_conversation_id e = dt_conversation_id r \<and>
                  dt_admission_order e < dt_admission_order r \<and>
                  dt_status e \<in> set NONTERMINAL_STATUSES) rows"

definition fenced_update ::
  "txn \<Rightarrow> string \<Rightarrow> lease \<Rightarrow> turn_status list \<Rightarrow> (turn_row \<Rightarrow> turn_row) \<Rightarrow> bool \<Rightarrow> turn_db
     \<Rightarrow> turn_db \<times> turn_row option" where
  "fenced_update tx rid l statuses vals enforce_fifo db =
     (case find_turn rid (tx_seen tx) of
        None \<Rightarrow> (db, None)
      | Some request \<Rightarrow>
          if resource_key l \<noteq> conversation_lease_key (dt_conversation_id request) then (db, None)
          else update_turn rid
                 (\<lambda>r. dt_status r \<in> set statuses \<and> lease_predicate tx l db \<and>
                      (enforce_fifo \<longrightarrow> \<not> has_predecessor r (td_rows db)))
                 vals db)"

definition owned_fenced_update ::
  "txn \<Rightarrow> string \<Rightarrow> lease \<Rightarrow> turn_status list \<Rightarrow> (turn_row \<Rightarrow> bool) \<Rightarrow> (turn_row \<Rightarrow> turn_row) \<Rightarrow> turn_db
     \<Rightarrow> turn_db \<times> turn_row option" where
  "owned_fenced_update tx rid l statuses predicates vals db =
     (case find_turn rid (tx_seen tx) of
        None \<Rightarrow> (db, None)
      | Some request \<Rightarrow>
          if resource_key l \<noteq> conversation_lease_key (dt_conversation_id request) then (db, None)
          else if row_owner request \<noteq> Some (owner_id l) then (db, None)
          else update_turn rid
                 (\<lambda>r. dt_status r \<in> set statuses \<and>
                      dt_owner_controller_id r = dt_owner_controller_id request \<and>
                      dt_owner_incarnation_id r = dt_owner_incarnation_id request \<and>
                      dt_fencing_token r = Some (fencing_token l) \<and>
                      lease_predicate tx l db \<and> predicates r)
                 vals db)"

definition owns_live_fence :: "turn_row \<Rightarrow> lease \<Rightarrow> bool" where
  "owns_live_fence r l \<longleftrightarrow>
     dt_status r \<in> set ACTIVE_STATUSES \<and> row_owner r = Some (owner_id l) \<and>
     dt_fencing_token r = Some (fencing_token l) \<and>
     resource_key l = conversation_lease_key (dt_conversation_id r)"

definition outcome_dict :: "turn_row \<Rightarrow> (string \<times> pyval) list" where
  "outcome_dict r = (case dt_outcome r of VDict d \<Rightarrow> d | _ \<Rightarrow> [])"

text \<open>\<open>{**d, **e}\<close>.\<close>

definition dict_merge :: "(string \<times> pyval) list \<Rightarrow> (string \<times> pyval) list \<Rightarrow> (string \<times> pyval) list" where
  "dict_merge d e = fold (\<lambda>(k, v) acc. dict_put k v acc) e d"

subsection \<open>Admission\<close>

record payload_lib =
  pl_model :: "(string \<times> pyval) list \<Rightarrow> (string, (string \<times> pyval) list) result"
  pl_origin :: "pyval \<Rightarrow> pyval option"
  pl_admission :: "pyval \<Rightarrow> (bool \<times> pyval) option"
  pl_hash :: "pyval \<Rightarrow> string"

definition TRUSTED_EVIDENCE_ADMISSION_KEY :: string where
  "TRUSTED_EVIDENCE_ADMISSION_KEY = ''trusted_evidence_admission''"

definition metadata_of :: "(string \<times> pyval) list \<Rightarrow> (string \<times> pyval) list" where
  "metadata_of payload = (case dict_get payload ''metadata'' of VDict m \<Rightarrow> m | _ \<Rightarrow> [])"

definition validated_payload ::
  "payload_lib \<Rightarrow> (string \<times> pyval) list \<Rightarrow> int \<Rightarrow> (turn_error, (string \<times> pyval) list) result" where
  "validated_payload lib payload version =
     (if version \<noteq> 1 then Inl (Turn_Value_Error (''unsupported direct-turn payload version: '' @ show_int version))
      else if \<not> py_eq (dict_get payload ''schema_version'') (VInt version)
      then Inl (Turn_Value_Error ''payload schema_version does not match payload_version'')
      else case pl_model lib payload of
        Inl e \<Rightarrow> Inl (Turn_Value_Error e)
      | Inr normalized \<Rightarrow>
     (let meta = metadata_of normalized; raw_origin = dict_get meta ''evidence_origin'' in
      case (if raw_origin = VNone then Some meta
            else map_option (\<lambda>v. dict_put ''evidence_origin'' v meta) (pl_origin lib raw_origin)) of
        None \<Rightarrow> Inl (Turn_Value_Error ''metadata.evidence_origin is invalid'')
      | Some meta1 \<Rightarrow>
     (let raw = dict_get meta1 TRUSTED_EVIDENCE_ADMISSION_KEY in
      case (if raw = VNone then Some meta1
            else map_option (\<lambda>(adm, v). dict_put TRUSTED_EVIDENCE_ADMISSION_KEY v meta1) (pl_admission lib raw)) of
        None \<Rightarrow> Inl (Turn_Value_Error (''metadata.'' @ TRUSTED_EVIDENCE_ADMISSION_KEY @ '' is invalid''))
      | Some meta2 \<Rightarrow>
          let full = dict_put ''metadata'' (VDict meta2) normalized
          in Inr (if map_of payload ''retry_reason'' = None then dict_del ''retry_reason'' full else full))))"

definition admission_descriptor_payload :: "(string \<times> pyval) list \<Rightarrow> bool \<Rightarrow> (string \<times> pyval) list" where
  "admission_descriptor_payload payload generated =
     (case dict_get payload ''metadata'' of
        VDict m \<Rightarrow>
          (let m1 = dict_del TRUSTED_EVIDENCE_ADMISSION_KEY m;
               m2 = (if generated
                     then case dict_get m ''user_message_metadata'' of
                            VDict env \<Rightarrow> dict_put ''user_message_metadata'' (VDict (dict_del ''ts'' env)) m1
                          | _ \<Rightarrow> m1
                     else m1)
           in dict_put ''metadata'' (VDict m2) payload)
      | _ \<Rightarrow> payload)"

record admission =
  ad_conversation_id :: string
  ad_session_id :: "string option"
  ad_agent_id :: string
  ad_user_id :: string
  ad_scope :: string
  ad_key :: string
  ad_request_id :: string
  ad_turn_id :: string
  ad_payload_version :: int
  ad_generated :: bool

definition legacy_descriptor :: "admission \<Rightarrow> (string \<times> pyval) list \<Rightarrow> bool \<Rightarrow> (string \<times> pyval) list" where
  "legacy_descriptor a payload generated =
     [(''conversation_id'', VStr (ad_conversation_id a)), (''agent_id'', VStr (ad_agent_id a)),
      (''user_id'', VStr (ad_user_id a)), (''payload_version'', VInt (ad_payload_version a)),
      (''payload'', VDict (admission_descriptor_payload payload generated))]"

definition admission_hashes :: "payload_lib \<Rightarrow> admission \<Rightarrow> (string \<times> pyval) list \<Rightarrow> string \<times> string" where
  "admission_hashes lib a payload =
     (pl_hash lib (VDict (legacy_descriptor a payload (ad_generated a)
        @ [(''generated_user_message_metadata'', VBool (ad_generated a))])),
      pl_hash lib (VDict (legacy_descriptor a payload False)))"

definition queued_row :: "payload_lib \<Rightarrow> admission \<Rightarrow> (string \<times> pyval) list \<Rightarrow> int \<Rightarrow> time \<Rightarrow> turn_row" where
  "queued_row lib a payload ord now =
     \<lparr>dt_admission_order = ord, dt_request_id = ad_request_id a, dt_turn_id = ad_turn_id a,
      dt_conversation_id = ad_conversation_id a, dt_session_id = ad_session_id a,
      dt_agent_id = ad_agent_id a, dt_user_id = ad_user_id a,
      dt_idempotency_scope = ad_scope a, dt_idempotency_key = ad_key a,
      dt_admission_hash = fst (admission_hashes lib a payload),
      dt_payload_hash = pl_hash lib (VDict payload), dt_payload_version = ad_payload_version a,
      dt_payload = payload, dt_status = Turn_Queued, dt_owner_controller_id = None,
      dt_owner_incarnation_id = None, dt_fencing_token = None, dt_attempt_count = 0,
      dt_next_attempt_at = None, dt_cancel_requested_at = None, dt_absorbed_by_turn_id = None,
      dt_outcome = VNone, dt_created_at = now, dt_updated_at = now, dt_claimed_at = None,
      dt_started_at = None, dt_terminal_at = None\<rparr>"

record admission_result =
  ar_request :: turn_row
  ar_created :: bool
  ar_queued_behind_predecessor :: bool

text \<open>The unique constraints of the table.\<close>

definition conflicting :: "turn_row \<Rightarrow> turn_row \<Rightarrow> bool" where
  "conflicting r e \<longleftrightarrow> dt_request_id e = dt_request_id r \<or> dt_turn_id e = dt_turn_id r \<or>
     (dt_idempotency_scope e = dt_idempotency_scope r \<and> dt_idempotency_key e = dt_idempotency_key r)"

type_synonym participant = "turn_row \<Rightarrow> bool \<Rightarrow> turn_db \<Rightarrow> (turn_error, turn_db) result"

definition finish_admission ::
  "participant option \<Rightarrow> turn_row \<Rightarrow> bool \<Rightarrow> turn_db \<Rightarrow> turn_db \<Rightarrow> turn_db \<times> (turn_error, admission_result) result" where
  "finish_admission part r created db0 db =
     (case (case part of None \<Rightarrow> Inr db | Some f \<Rightarrow> f r created db) of
        Inl e \<Rightarrow> (db0, Inl e)
      | Inr db' \<Rightarrow>
          (db', Inr \<lparr>ar_request = r, ar_created = created,
                     ar_queued_behind_predecessor = has_predecessor r (td_rows db')\<rparr>))"

definition admit_once ::
  "time \<Rightarrow> payload_lib \<Rightarrow> admission \<Rightarrow> (string \<times> pyval) list \<Rightarrow> (turn_db \<Rightarrow> bool) option \<Rightarrow> participant option
     \<Rightarrow> turn_db \<Rightarrow> turn_db \<times> (turn_error, admission_result) result" where
  "admit_once now lib a payload guard part db =
     (if (case guard of None \<Rightarrow> False | Some g \<Rightarrow> \<not> g db)
      then (db, Inl (Admission_Rejected ''durable admission fence changed''))
      else let new = queued_row lib a payload (td_next db) now in
        if \<not> list_ex (conflicting new) (td_rows db)
        then finish_admission part new True db (db\<lparr>td_rows := td_rows db @ [new], td_next := td_next db + 1\<rparr>)
        else case find_first (\<lambda>r. dt_idempotency_scope r = ad_scope a \<and> dt_idempotency_key r = ad_key a)
                    (td_rows db) of
               None \<Rightarrow> (db, Inl (Turn_Conflict ''request_id or turn_id already exists''))
             | Some r \<Rightarrow>
                 (case admission_hashes lib a payload of (h, legacy) \<Rightarrow>
                    if dt_admission_hash r \<notin> {h, legacy}
                    then (db, Inl (Turn_Conflict ''idempotency key was reused with a different request''))
                    else finish_admission part r False db db))"

text \<open>What the database does to each attempt, and what others commit between attempts.\<close>

record admit_env =
  ae_attempts :: "nat \<Rightarrow> attempt"
  ae_others :: "nat \<Rightarrow> turn_db \<Rightarrow> turn_db"

fun admit_loop ::
  "nat list \<Rightarrow> admit_env \<Rightarrow> payload_lib \<Rightarrow> admission \<Rightarrow> (string \<times> pyval) list \<Rightarrow> (turn_db \<Rightarrow> bool) option
     \<Rightarrow> participant option \<Rightarrow> turn_db \<Rightarrow> turn_db \<times> (turn_error, admission_result) result" where
  "admit_loop [] env lib a payload guard part db = (db, Inl Turn_Retries_Exhausted)"
| "admit_loop (n # ns) env lib a payload guard part db =
     (case ae_attempts env n of
        Commit_At now \<Rightarrow> admit_once now lib a payload guard part db
      | Operational_Error \<Rightarrow>
          if n = 2 then (db, Inl Turn_Database_Error)
          else admit_loop ns env lib a payload guard part (ae_others env n db))"

definition admit ::
  "admit_env \<Rightarrow> payload_lib \<Rightarrow> admission \<Rightarrow> (string \<times> pyval) list \<Rightarrow> (turn_db \<Rightarrow> bool) option
     \<Rightarrow> participant option \<Rightarrow> turn_db \<Rightarrow> turn_db \<times> (turn_error, admission_result) result" where
  "admit env lib a payload guard part db =
     (case validated_payload lib payload (ad_payload_version a) of
        Inl e \<Rightarrow> (db, Inl e)
      | Inr validated \<Rightarrow> admit_loop [0, 1, 2] env lib a validated guard part db)"

subsection \<open>Queries\<close>

definition by_admission :: "turn_row list \<Rightarrow> turn_row list" where
  "by_admission rows = sort_key dt_admission_order rows"

definition limited :: "int \<Rightarrow> turn_row list \<Rightarrow> turn_row list" where
  "limited limit rows = take (nat (max 1 limit)) rows"

definition get_cancel_state :: "string \<Rightarrow> turn_db \<Rightarrow> (turn_status \<times> time option) option" where
  "get_cancel_state rid db =
     map_option (\<lambda>r. (dt_status r, dt_cancel_requested_at r)) (find_turn rid (td_rows db))"

definition claimable_head :: "time \<Rightarrow> turn_row list \<Rightarrow> turn_row \<Rightarrow> bool" where
  "claimable_head now rows r \<longleftrightarrow>
     dt_status r \<in> set CLAIMABLE_STATUSES \<and>
     (case dt_next_attempt_at r of None \<Rightarrow> True | Some t \<Rightarrow> t \<le> now) \<and>
     \<not> has_predecessor r rows"

definition list_claimable_heads :: "time \<Rightarrow> int \<Rightarrow> turn_db \<Rightarrow> turn_row list" where
  "list_claimable_heads now limit db =
     limited limit (by_admission (filter (claimable_head now (td_rows db)) (td_rows db)))"

definition list_conversation_pending :: "string \<Rightarrow> turn_db \<Rightarrow> turn_row list" where
  "list_conversation_pending conv db =
     by_admission (filter (\<lambda>r. dt_conversation_id r = conv \<and> dt_status r \<in> set NONTERMINAL_STATUSES)
       (td_rows db))"

definition first_row :: "turn_row list \<Rightarrow> turn_row option" where
  "first_row rows = (case by_admission rows of [] \<Rightarrow> None | r # _ \<Rightarrow> Some r)"

definition reported_active :: "bool \<Rightarrow> turn_status list" where
  "reported_active include_recoverable =
     ACTIVE_STATUSES @ (if include_recoverable then [Turn_Recoverable] else [])"

definition get_conversation_active :: "string \<Rightarrow> bool \<Rightarrow> turn_db \<Rightarrow> turn_row option" where
  "get_conversation_active conv include_recoverable db =
     first_row (filter (\<lambda>r. dt_conversation_id r = conv \<and>
       dt_status r \<in> set (reported_active include_recoverable)) (td_rows db))"

text \<open>
  The order of \<open>get_conversation_runtime_authority_row\<close>: active rows first, then the highest
  fencing token with \<open>NULL\<close> last, then the latest admission.
\<close>

definition authority_before :: "turn_row \<Rightarrow> turn_row \<Rightarrow> bool" where
  "authority_before r e \<longleftrightarrow>
     (let ra = dt_status r \<in> set ACTIVE_STATUSES; ea = dt_status e \<in> set ACTIVE_STATUSES in
      if ra \<noteq> ea then ra
      else case (dt_fencing_token r, dt_fencing_token e) of
             (Some m, Some n) \<Rightarrow> if m \<noteq> n then n < m else dt_admission_order e < dt_admission_order r
           | (Some m, None) \<Rightarrow> True
           | (None, Some n) \<Rightarrow> False
           | (None, None) \<Rightarrow> dt_admission_order e < dt_admission_order r)"

fun best_row :: "turn_row list \<Rightarrow> turn_row option" where
  "best_row [] = None"
| "best_row (r # rows) =
     (case best_row rows of None \<Rightarrow> Some r
      | Some e \<Rightarrow> if authority_before e r then Some e else Some r)"

definition get_conversation_runtime_authority_row :: "string \<Rightarrow> turn_db \<Rightarrow> turn_row option" where
  "get_conversation_runtime_authority_row conv db =
     best_row (filter (\<lambda>r. dt_conversation_id r = conv \<and>
       dt_status r \<in> set (ACTIVE_STATUSES @ [Turn_Recoverable] @
                          filter (\<lambda>s. s \<noteq> Turn_Absorbed) TERMINAL_STATUSES)) (td_rows db))"

definition list_conversations_active :: "string list \<Rightarrow> bool \<Rightarrow> turn_db \<Rightarrow> string \<rightharpoonup> turn_row" where
  "list_conversations_active convs include_recoverable db =
     (\<lambda>conv. if conv \<in> set convs then get_conversation_active conv include_recoverable db else None)"

text \<open>The \<open>EXISTS\<close> of a lease with the row's own tuple; a \<open>NULL\<close> column makes it false.\<close>

definition current_lease_exists :: "time \<Rightarrow> turn_db \<Rightarrow> turn_row \<Rightarrow> bool" where
  "current_lease_exists now db r \<longleftrightarrow>
     (case td_leases db (conversation_lease_key (dt_conversation_id r)) of
        None \<Rightarrow> False
      | Some lr \<Rightarrow> row_owner r = Some (row_owner_id lr) \<and>
                   dt_fencing_token r = Some (row_fencing_token lr) \<and> now < row_lease_expires_at lr)"

definition stale_active :: "time \<Rightarrow> turn_db \<Rightarrow> turn_row \<Rightarrow> bool" where
  "stale_active now db r \<longleftrightarrow> dt_status r \<in> set ACTIVE_STATUSES \<and> \<not> current_lease_exists now db r"

definition list_stale_active :: "time \<Rightarrow> int \<Rightarrow> turn_db \<Rightarrow> turn_row list" where
  "list_stale_active now limit db =
     limited limit (by_admission (filter (stale_active now db) (td_rows db)))"

definition list_stale_active_page :: "time \<Rightarrow> int \<Rightarrow> int \<Rightarrow> turn_db \<Rightarrow> turn_row list \<times> bool" where
  "list_stale_active_page now after limit db =
     (let bounded = nat (min (max 1 limit) 100);
          rows = take (bounded + 1) (by_admission (filter
                   (\<lambda>r. after < dt_admission_order r \<and> stale_active now db r) (td_rows db)))
      in (take bounded rows, bounded < length rows))"

definition list_pending_failure_visibility :: "int \<Rightarrow> turn_db \<Rightarrow> turn_row list" where
  "list_pending_failure_visibility limit db =
     limited limit (by_admission (filter
       (\<lambda>r. dt_status r = Turn_Failed \<and>
            dict_get (outcome_dict r) ''phase'' = VStr ''permanent_payload_visibility_pending'')
       (td_rows db)))"

definition has_fence :: "txn \<Rightarrow> string \<Rightarrow> lease \<Rightarrow> turn_db \<Rightarrow> bool" where
  "has_fence tx rid l db =
     list_ex (\<lambda>r. dt_request_id r = rid \<and> row_owner r = Some (owner_id l) \<and>
        conversation_lease_key (dt_conversation_id r) = resource_key l \<and>
        dt_fencing_token r = Some (fencing_token l) \<and> dt_status r \<in> set ACTIVE_STATUSES \<and>
        lease_predicate tx l db) (td_rows db)"

text \<open>The route of the last absorbed message, or the request's own.\<close>

fun first_route :: "turn_row list \<Rightarrow> pyval \<times> pyval" where
  "first_route [] = (VNone, VNone)"
| "first_route (r # rows) =
     (case dict_get (dt_payload r) ''channel_delivery'' of
        VDict route \<Rightarrow>
          (VDict route, dict_get (metadata_of (dt_payload r)) ''channel_assistant_delivery_mode'')
      | _ \<Rightarrow> first_route rows)"

definition effective_channel_delivery :: "string \<Rightarrow> turn_db \<Rightarrow> pyval \<times> pyval" where
  "effective_channel_delivery rid db =
     (case find_turn rid (td_rows db) of
        None \<Rightarrow> (VNone, VNone)
      | Some request \<Rightarrow>
          first_route (rev (by_admission (filter
            (\<lambda>r. dt_conversation_id r = dt_conversation_id request \<and>
                 dt_absorbed_by_turn_id r = Some (dt_turn_id request) \<and>
                 dt_status r = Turn_Absorbed) (td_rows db))) @ [request]))"

subsection \<open>Editing, handing off and cancelling\<close>

definition direct_turn_content_is_editable :: "payload_lib \<Rightarrow> turn_row \<Rightarrow> bool" where
  "direct_turn_content_is_editable lib r \<longleftrightarrow>
     dt_status r = Turn_Queued \<and>
     \<not> (case pl_admission lib (dict_get (metadata_of (dt_payload r)) TRUSTED_EVIDENCE_ADMISSION_KEY) of
          None \<Rightarrow> False | Some (admitted, v) \<Rightarrow> admitted)"

text \<open>The payload an edit writes: the admission decision of the row stays.\<close>

definition edited_payload ::
  "payload_lib \<Rightarrow> turn_row \<Rightarrow> (string \<times> pyval) list \<Rightarrow> (turn_error, (string \<times> pyval) list) result" where
  "edited_payload lib current payload =
     (let current_admission = dict_get (metadata_of (dt_payload current)) TRUSTED_EVIDENCE_ADMISSION_KEY;
          changed = (\<lambda>field. \<not> py_eq (dict_get payload field) (dict_get (dt_payload current) field))
      in if \<not> direct_turn_content_is_editable lib current \<and> (changed ''content'' \<or> changed ''attachments'')
      then Inl (Turn_Value_Error ''content and attachments are immutable after trusted evidence admission'')
      else let proposed = metadata_of payload;
               payload1 = (case dict_get payload ''metadata'' of
                             VDict m \<Rightarrow> payload | _ \<Rightarrow> dict_put ''metadata'' (VDict []) payload);
               proposed_admission = dict_get proposed TRUSTED_EVIDENCE_ADMISSION_KEY
      in if proposed_admission \<noteq> VNone \<and> \<not> py_eq proposed_admission current_admission
      then Inl (Turn_Value_Error ''trusted evidence admission is immutable'')
      else if current_admission \<noteq> VNone
      then Inr (dict_put ''metadata''
             (VDict (dict_put TRUSTED_EVIDENCE_ADMISSION_KEY current_admission proposed)) payload1)
      else Inr payload1)"

definition edit ::
  "time \<Rightarrow> payload_lib \<Rightarrow> string \<Rightarrow> (string \<times> pyval) list \<Rightarrow> int \<Rightarrow> string option \<Rightarrow> turn_db
     \<Rightarrow> turn_db \<times> (turn_error, turn_row option) result" where
  "edit now lib rid payload version expected_payload_hash db =
     (case find_first (\<lambda>r. dt_request_id r = rid \<and> dt_status r = Turn_Queued) (td_rows db) of
        None \<Rightarrow> (db, Inr None)
      | Some current \<Rightarrow>
          if (case expected_payload_hash of None \<Rightarrow> False | Some h \<Rightarrow> dt_payload_hash current \<noteq> h)
          then (db, Inr None)
          else case res_bind (edited_payload lib current payload) (\<lambda>p. validated_payload lib p version) of
                 Inl e \<Rightarrow> (db, Inl e)
               | Inr p \<Rightarrow>
                   (case update_turn rid
                      (\<lambda>r. dt_status r = Turn_Queued \<and> dt_payload_hash r = dt_payload_hash current)
                      (\<lambda>r. r\<lparr>dt_payload := p, dt_payload_hash := pl_hash lib (VDict p),
                             dt_payload_version := version, dt_updated_at := now\<rparr>) db of
                      (db', row) \<Rightarrow> (db', Inr row)))"

definition complete_failure_visibility :: "txn \<Rightarrow> string \<Rightarrow> turn_db \<Rightarrow> turn_db \<times> turn_row option" where
  "complete_failure_visibility tx rid db =
     (case find_turn rid (tx_seen tx) of
        None \<Rightarrow> (db, None)
      | Some current \<Rightarrow>
          if dt_status current \<noteq> Turn_Failed \<or>
             dict_get (outcome_dict current) ''phase'' \<noteq> VStr ''permanent_payload_visibility_pending''
          then (db, None)
          else update_turn rid
                 (\<lambda>r. dt_status r = Turn_Failed \<and> dt_updated_at r = dt_updated_at current)
                 (\<lambda>r. r\<lparr>dt_outcome := VDict [(''phase'', VStr ''permanent_payload_visibility_complete'')],
                        dt_updated_at := tx_now tx\<rparr>) db)"

definition handoff_outcome :: "turn_row \<Rightarrow> pyval" where
  "handoff_outcome successor =
     VDict [(''phase'', VStr ''automatic_continuation_handoff''),
            (''successor_request_id'', VStr (dt_request_id successor)),
            (''successor_turn_id'', VStr (dt_turn_id successor))]"

definition handoff ::
  "txn \<Rightarrow> string \<Rightarrow> string \<Rightarrow> lease \<Rightarrow> turn_row \<Rightarrow> turn_db \<Rightarrow> (turn_error, turn_db \<times> bool) result" where
  "handoff tx rid turn_id l successor db =
     (case find_turn rid (tx_seen tx) of
        None \<Rightarrow> Inl (Admission_Rejected ''continuation predecessor mismatch'')
      | Some predecessor \<Rightarrow>
          if dt_conversation_id predecessor \<noteq> dt_conversation_id successor \<or> dt_turn_id predecessor \<noteq> turn_id
          then Inl (Admission_Rejected ''continuation predecessor mismatch'')
          else if dt_status predecessor = Turn_Completed
          then (if py_eq (dt_outcome predecessor) (handoff_outcome successor) then Inr (db, False)
                else Inl (Admission_Rejected ''continuation predecessor already settled''))
          else case owned_fenced_update tx rid l ACTIVE_STATUSES (\<lambda>r. dt_cancel_requested_at r = None)
                      (\<lambda>r. r\<lparr>dt_status := Turn_Completed, dt_outcome := handoff_outcome successor,
                             dt_terminal_at := Some (tx_now tx), dt_updated_at := tx_now tx\<rparr>) db of
                 (db', None) \<Rightarrow> Inl (Admission_Rejected ''continuation predecessor fence changed'')
               | (db', Some row) \<Rightarrow> Inr (db', True))"

text \<open>A continuation is admitted with the handoff of its predecessor as the transaction's
  participant.\<close>

definition handoff_participant :: "txn \<Rightarrow> string \<Rightarrow> string \<Rightarrow> lease \<Rightarrow> participant" where
  "handoff_participant tx rid turn_id l row created db = map_sum id fst (handoff tx rid turn_id l row db)"

record cancel_result =
  cr_request :: turn_row
  cr_cancellation_requested :: bool

definition cancel_values :: "time \<Rightarrow> turn_row \<Rightarrow> turn_row" where
  "cancel_values now r =
     (let idle = dt_status r \<in> set CLAIMABLE_STATUSES
      in r\<lparr>dt_cancel_requested_at := Some now, dt_updated_at := now,
           dt_status := (if idle then Turn_Cancelled else dt_status r),
           dt_terminal_at := (if idle then Some now else dt_terminal_at r),
           dt_next_attempt_at := (if idle then None else dt_next_attempt_at r)\<rparr>)"

definition cancel_one :: "time \<Rightarrow> string \<Rightarrow> turn_db \<Rightarrow> turn_db \<times> turn_row option" where
  "cancel_one now rid db =
     update_turn rid (\<lambda>r. dt_status r \<in> set NONTERMINAL_STATUSES) (cancel_values now) db"

definition request_cancel :: "time \<Rightarrow> string \<Rightarrow> turn_db \<Rightarrow> turn_db \<times> cancel_result option" where
  "request_cancel now rid db =
     (case cancel_one now rid db of
        (db', Some r) \<Rightarrow> (db', Some \<lparr>cr_request = r, cr_cancellation_requested =
            (dt_status r \<in> set ACTIVE_STATUSES \<and> dt_cancel_requested_at r \<noteq> None)\<rparr>)
      | (db', None) \<Rightarrow>
          (db', map_option (\<lambda>r. \<lparr>cr_request = r, cr_cancellation_requested =
            (dt_status r \<in> set ACTIVE_STATUSES \<and> dt_cancel_requested_at r \<noteq> None)\<rparr>)
            (find_turn rid (td_rows db'))))"

definition handed_off :: "turn_row \<Rightarrow> bool" where
  "handed_off r \<longleftrightarrow> dict_get (outcome_dict r) ''phase'' = VStr ''automatic_continuation_handoff''"

text \<open>The chain of handoffs; the visited requests bound the loop.\<close>

definition chain_left :: "turn_row list \<Rightarrow> string list \<Rightarrow> turn_row option \<Rightarrow> nat" where
  "chain_left rows visited active =
     (case active of
        None \<Rightarrow> 0
      | Some a \<Rightarrow> if dt_request_id a \<in> set visited then 0
                  else Suc (card (dt_request_id ` set rows - set (dt_request_id a # visited))))"

lemma chain_left_decreases:
  assumes "dt_request_id a \<notin> set visited"
  shows "chain_left rows (dt_request_id a # visited) (find_first p rows) < chain_left rows visited (Some a)"
proof (cases "find_first p rows")
  case None
  show ?thesis unfolding None using assms by (simp add: chain_left_def)
next
  case (Some b)
  let ?ids = "dt_request_id ` set rows"
  from Some have b: "dt_request_id b \<in> ?ids" by (auto dest: find_first_SomeD)
  have "card (?ids - insert (dt_request_id b) (insert (dt_request_id a) (set visited)))
      < card (?ids - insert (dt_request_id a) (set visited))"
    if "dt_request_id b \<notin> insert (dt_request_id a) (set visited)"
    using b that by (intro psubset_card_mono) auto
  with Some assms show ?thesis by (auto simp: chain_left_def)
qed

function follow_handoffs ::
  "string \<Rightarrow> turn_row list \<Rightarrow> string list \<Rightarrow> turn_row option \<Rightarrow> (turn_error, turn_row option) result" where
  "follow_handoffs conv rows visited active =
     (case active of
        None \<Rightarrow> Inr None
      | Some a \<Rightarrow>
          if dt_conversation_id a = conv \<and> dt_request_id a \<notin> set visited \<and> handed_off a
          then (case map_of (outcome_dict a) ''successor_request_id'' of
                  None \<Rightarrow> Inl (Key_Error ''successor_request_id'')
                | Some v \<Rightarrow> follow_handoffs conv rows (dt_request_id a # visited)
                              (find_first (\<lambda>r. v = VStr (dt_request_id r)) rows))
          else Inr (Some a))"
  by pat_completeness auto
termination
  by (relation "measure (\<lambda>(conv, rows, visited, active). chain_left rows visited active)")
    (auto intro: chain_left_decreases)

declare follow_handoffs.simps [simp del]

text \<open>Whom a stop without clearing the queue is for.\<close>

definition last_handed_off :: "string \<Rightarrow> turn_row list \<Rightarrow> turn_row option" where
  "last_handed_off conv rows =
     (case rev (by_admission (filter (\<lambda>r. dt_conversation_id r = conv \<and> dt_status r = Turn_Completed \<and>
         handed_off r) rows)) of [] \<Rightarrow> None | r # _ \<Rightarrow> Some r)"

definition or_else :: "'a option \<Rightarrow> 'a option \<Rightarrow> 'a option" where
  "or_else x y = (case x of None \<Rightarrow> y | Some v \<Rightarrow> Some v)"

definition stop_target ::
  "string \<Rightarrow> string option \<Rightarrow> turn_row list \<Rightarrow> turn_row list \<Rightarrow> (turn_error, turn_row list) result" where
  "stop_target conv active_request_id all rows =
     (let named = (case active_request_id of
                     None \<Rightarrow> None | Some rid \<Rightarrow> if rid = [] then None else find_turn rid all);
          running = find_first (\<lambda>r. dt_status r \<in> {Turn_Claimed, Turn_Running}) rows;
          listed = (\<lambda>a. list_ex (\<lambda>r. dt_request_id r = dt_request_id a) rows);
          waiting = find_first (\<lambda>r. dt_status r = Turn_Recoverable) rows
      in res_bind (follow_handoffs conv all [] (or_else (or_else named running) (last_handed_off conv all)))
        (\<lambda>active.
           Inr (case active of
                  Some a \<Rightarrow>
                    if listed a then [a]
                    else if active_request_id \<noteq> None then []
                    else (case waiting of None \<Rightarrow> [] | Some w \<Rightarrow> [w])
                | None \<Rightarrow> (case waiting of None \<Rightarrow> [] | Some w \<Rightarrow> [w]))))"

fun cancel_all :: "time \<Rightarrow> turn_row list \<Rightarrow> turn_db \<Rightarrow> turn_db \<times> cancel_result list" where
  "cancel_all now [] db = (db, [])"
| "cancel_all now (r # rows) db =
     (case cancel_one now (dt_request_id r) db of
        (db1, None) \<Rightarrow> cancel_all now rows db1
      | (db1, Some r') \<Rightarrow>
          (case cancel_all now rows db1 of
             (db2, results) \<Rightarrow>
               (db2, \<lparr>cr_request = r', cr_cancellation_requested = dt_status r' \<in> set ACTIVE_STATUSES\<rparr> # results)))"

definition cancel_conversation ::
  "txn \<Rightarrow> string \<Rightarrow> bool \<Rightarrow> string option \<Rightarrow> turn_db \<Rightarrow> turn_db \<times> (turn_error, cancel_result list) result" where
  "cancel_conversation tx conv clear_queue active_request_id db =
     (let rows = by_admission (filter (\<lambda>r. dt_conversation_id r = conv \<and>
                   dt_status r \<in> set NONTERMINAL_STATUSES) (tx_seen tx))
      in case (if clear_queue then Inr rows else stop_target conv active_request_id (tx_seen tx) rows) of
           Inl e \<Rightarrow> (db, Inl e)
         | Inr rs \<Rightarrow> (case cancel_all (tx_now tx) rs db of (db', results) \<Rightarrow> (db', Inr results)))"

definition expedite_provider_retry ::
  "time \<Rightarrow> string \<Rightarrow> string \<Rightarrow> int \<Rightarrow> turn_db \<Rightarrow> turn_db \<times> turn_row option" where
  "expedite_provider_retry now conv session_id previous_runtime_revision db =
     (case first_row (filter (\<lambda>r. dt_conversation_id r = conv \<and> dt_status r = Turn_Recoverable) (td_rows db)) of
        None \<Rightarrow> (db, None)
      | Some row \<Rightarrow>
          (let outcome = outcome_dict row;
               retry_session_id = py_or (opt_str (dt_session_id row)) (dict_get outcome ''session_id'')
           in if \<not> py_eq retry_session_id (VStr session_id) then (db, None)
              else case dict_get outcome ''retry_target'' of
                VDict target \<Rightarrow>
                  if \<not> py_eq (dict_get target ''scope'') (VStr ''provider_model'') \<or>
                     \<not> py_eq (dict_get target ''runtime_revision'') (VInt previous_runtime_revision) \<or>
                     dt_next_attempt_at row = None
                  then (db, None)
                  else update_turn (dt_request_id row) (\<lambda>r. True)
                         (\<lambda>r. r\<lparr>dt_next_attempt_at := Some now, dt_updated_at := now\<rparr>) db
              | _ \<Rightarrow> (db, None)))"

subsection \<open>Checkpoints and dispatched tool calls\<close>

definition TOOL_IN_FLIGHT_PHASE :: string where
  "TOOL_IN_FLIGHT_PHASE = ''tool_in_flight''"

definition TOOL_RESULT_PERSISTED_PHASE :: string where
  "TOOL_RESULT_PERSISTED_PHASE = ''tool_result_persisted''"

definition TOOL_DISPATCH_DESCRIPTOR_LIMIT :: nat where
  "TOOL_DISPATCH_DESCRIPTOR_LIMIT = 500"

text \<open>The locked row of a caller that still holds the row's fence.\<close>

definition live_request :: "txn \<Rightarrow> string \<Rightarrow> lease \<Rightarrow> turn_db \<Rightarrow> turn_row option" where
  "live_request tx rid l db =
     (case find_turn rid (td_rows db) of
        None \<Rightarrow> None
      | Some request \<Rightarrow>
          if owns_live_fence request l \<and> lease_predicate tx l db then Some request else None)"

text \<open>Writing the outcome of a locked row.\<close>

definition set_outcome ::
  "txn \<Rightarrow> string \<Rightarrow> (string \<times> pyval) list checked \<Rightarrow> turn_db \<Rightarrow> turn_db \<times> (turn_error, turn_row option) result" where
  "set_outcome tx rid outcome db =
     (case outcome of
        Inl _ \<Rightarrow> (db, Inl Type_Error)
      | Inr d \<Rightarrow>
          (case update_turn rid (\<lambda>r. True)
                  (\<lambda>r. r\<lparr>dt_outcome := VDict d, dt_updated_at := tx_now tx\<rparr>) db of
             (db', row) \<Rightarrow> (db', Inr row)))"

definition request_groups :: "turn_row \<Rightarrow> dispatch_group list" where
  "request_groups r = read_tool_dispatch_groups (VDict (outcome_dict r)) (dt_session_id r) (Some (dt_turn_id r))"

definition request_unreadable :: "turn_row \<Rightarrow> pyval list" where
  "request_unreadable r = unreadable_tool_dispatch_groups (VDict (outcome_dict r))"

text \<open>The clock of a turn that stays in flight is the one it had.\<close>

definition in_flight_since :: "time \<Rightarrow> (string \<times> pyval) list \<Rightarrow> pyval" where
  "in_flight_since now previous =
     (if dict_get previous ''phase'' = VStr TOOL_IN_FLIGHT_PHASE \<and> is_str (dict_get previous ''phase_started_at'')
      then dict_get previous ''phase_started_at'' else VStr (isoformat now))"

definition checkpoint_outcome ::
  "time \<Rightarrow> turn_row \<Rightarrow> string \<Rightarrow> (string \<times> pyval) list \<Rightarrow> bool \<Rightarrow> (string \<times> pyval) list checked" where
  "checkpoint_outcome now request phase metadata clear_tool_dispatch =
     (let live_groups = (if clear_tool_dispatch then [] else request_groups request);
          preserved = (if clear_tool_dispatch then [] else request_unreadable request);
          outcome = dict_merge [(''phase'', VStr phase), (''phase_started_at'', VStr (isoformat now))] metadata;
          outcome1 = (if live_groups \<noteq> [] \<or> preserved \<noteq> []
                      then dict_put ''deferred_phase'' (VStr phase)
                             (dict_put ''phase_started_at'' (in_flight_since now (outcome_dict request))
                               (dict_put ''phase'' (VStr TOOL_IN_FLIGHT_PHASE) outcome))
                      else outcome)
      in write_tool_dispatch_groups outcome1 live_groups preserved)"

definition checkpoint ::
  "txn \<Rightarrow> string \<Rightarrow> lease \<Rightarrow> string \<Rightarrow> (string \<times> pyval) list \<Rightarrow> bool \<Rightarrow> turn_db
     \<Rightarrow> turn_db \<times> (turn_error, turn_row option) result" where
  "checkpoint tx rid l phase metadata clear_tool_dispatch db =
     (case live_request tx rid l db of
        None \<Rightarrow> (db, Inr None)
      | Some request \<Rightarrow>
          set_outcome tx rid (checkpoint_outcome (tx_now tx) request phase metadata clear_tool_dispatch) db)"

text \<open>An unreadable entry that is not the session's own.\<close>

definition other_session :: "string \<Rightarrow> pyval \<Rightarrow> bool" where
  "other_session session_id raw =
     (case raw of VDict d \<Rightarrow> dict_get d ''session_id'' \<noteq> VStr session_id | _ \<Rightarrow> True)"

definition dispatch_outcome ::
  "time \<Rightarrow> turn_row \<Rightarrow> string \<Rightarrow> string option \<Rightarrow> pyval list \<Rightarrow> (string \<times> pyval) list
     \<Rightarrow> (string \<times> pyval) list checked" where
  "dispatch_outcome now request session_id turn_id descriptors metadata =
     (let merged = replace_dispatch_group (request_groups request)
            \<lparr>dg_session_id = session_id,
             dg_turn_id = resolve_dispatch_turn_id turn_id (dt_turn_id request),
             dg_tool_calls = descriptors\<rparr>;
          preserved = filter (other_session session_id) (request_unreadable request)
      in write_tool_dispatch_groups
           (dict_merge [(''phase'', VStr TOOL_IN_FLIGHT_PHASE), (''phase_started_at'', VStr (isoformat now))] metadata)
           merged preserved)"

definition record_tool_dispatch ::
  "txn \<Rightarrow> string \<Rightarrow> lease \<Rightarrow> string \<Rightarrow> string option \<Rightarrow> pyval list \<Rightarrow> (string \<times> pyval) list \<Rightarrow> turn_db
     \<Rightarrow> turn_db \<times> (turn_error, turn_row option) result" where
  "record_tool_dispatch tx rid l session_id turn_id descriptors metadata db =
     (case live_request tx rid l db of
        None \<Rightarrow> (db, Inr None)
      | Some request \<Rightarrow>
          set_outcome tx rid (dispatch_outcome (tx_now tx) request session_id turn_id descriptors metadata) db)"

definition completion_outcome ::
  "time \<Rightarrow> turn_row \<Rightarrow> string \<Rightarrow> string option \<Rightarrow> string list \<Rightarrow> (string \<times> pyval) list
     \<Rightarrow> (string \<times> pyval) list checked" where
  "completion_outcome now request session_id turn_id call_ids metadata =
     (let settled_key = (session_id, resolve_dispatch_turn_id turn_id (dt_turn_id request));
          remaining = filter (\<lambda>g. group_key g \<noteq> settled_key) (request_groups request);
          preserved = request_unreadable request;
          live = (remaining \<noteq> [] \<or> preserved \<noteq> []);
          phase = (if live then TOOL_IN_FLIGHT_PHASE else TOOL_RESULT_PERSISTED_PHASE);
          phase_started_at = (if live then in_flight_since now (outcome_dict request) else VStr (isoformat now))
      in write_tool_dispatch_groups
           (dict_put ''call_ids'' (VList (map VStr (take TOOL_DISPATCH_DESCRIPTOR_LIMIT call_ids)))
             (dict_merge [(''phase'', VStr phase), (''phase_started_at'', phase_started_at)] metadata))
           remaining preserved)"

definition complete_tool_dispatch ::
  "txn \<Rightarrow> string \<Rightarrow> lease \<Rightarrow> string \<Rightarrow> string option \<Rightarrow> string list \<Rightarrow> (string \<times> pyval) list \<Rightarrow> turn_db
     \<Rightarrow> turn_db \<times> (turn_error, turn_row option) result" where
  "complete_tool_dispatch tx rid l session_id turn_id call_ids metadata db =
     (case live_request tx rid l db of
        None \<Rightarrow> (db, Inr None)
      | Some request \<Rightarrow>
          set_outcome tx rid (completion_outcome (tx_now tx) request session_id turn_id call_ids metadata) db)"

datatype merge_status = Merged | Fence_Lost | Merge_Cancelled | Unknown_Call

definition fence_held :: "merge_status \<Rightarrow> bool" where
  "fence_held s \<longleftrightarrow> s \<in> {Merged, Unknown_Call}"

text \<open>The loop over the descriptors of the owner: what is no object is left out.\<close>

fun merge_descriptors ::
  "string \<Rightarrow> (string \<times> pyval) list \<Rightarrow> pyval list \<Rightarrow> pyval list \<times> bool" where
  "merge_descriptors call_id binding [] = ([], False)"
| "merge_descriptors call_id binding (VDict d # raws) =
     (let (rest, matched) = merge_descriptors call_id binding raws;
          hit = (dict_get d ''call_id'' = VStr call_id)
      in (VDict (if hit then dict_merge d binding else d) # rest, hit \<or> matched))"
| "merge_descriptors call_id binding (raw # raws) = merge_descriptors call_id binding raws"

definition merge_tool_dispatch ::
  "txn \<Rightarrow> string \<Rightarrow> lease \<Rightarrow> string \<Rightarrow> string option \<Rightarrow> string \<Rightarrow> string \<Rightarrow> string option \<Rightarrow> string \<Rightarrow> turn_db
     \<Rightarrow> turn_db \<times> (turn_error, merge_status \<times> turn_row option) result" where
  "merge_tool_dispatch tx rid l session_id turn_id call_id executor_id executor_instance_id dispatch_state db =
     (case live_request tx rid l db of
        None \<Rightarrow> (db, Inr (Fence_Lost, None))
      | Some request \<Rightarrow>
          if dt_cancel_requested_at request \<noteq> None then (db, Inr (Merge_Cancelled, None))
          else let groups = request_groups request;
                   owner_key = (session_id, resolve_dispatch_turn_id turn_id (dt_turn_id request))
          in case find_first (\<lambda>g. group_key g = owner_key) groups of
               None \<Rightarrow> (db, Inr (Unknown_Call, None))
             | Some owner \<Rightarrow>
                 (case merge_descriptors call_id
                    [(''executor_id'', VStr executor_id), (''executor_instance_id'', opt_str executor_instance_id),
                     (''dispatch_state'', VStr dispatch_state)] (dg_tool_calls owner) of
                    (merged, matched) \<Rightarrow>
                      if \<not> matched then (db, Inr (Unknown_Call, None))
                      else (case set_outcome tx rid
                              (write_tool_dispatch_groups (outcome_dict request)
                                (replace_dispatch_group groups (owner\<lparr>dg_tool_calls := merged\<rparr>))
                                (request_unreadable request)) db of
                              (db', Inl e) \<Rightarrow> (db', Inl e)
                            | (db', Inr row) \<Rightarrow> (db', Inr (Merged, row)))))"

subsection \<open>Claiming, running and settling\<close>

definition check_owner :: "lease \<Rightarrow> string \<Rightarrow> string \<Rightarrow> (turn_error, unit) result" where
  "check_owner l controller_id incarnation_id =
     (if owner_id l \<noteq> turn_owner_id controller_id incarnation_id
      then Inl (Turn_Value_Error ''lease owner does not match controller incarnation'') else Inr ())"

definition claim_values :: "time \<Rightarrow> lease \<Rightarrow> string \<Rightarrow> string \<Rightarrow> string option \<Rightarrow> turn_row \<Rightarrow> turn_row" where
  "claim_values now l controller_id incarnation_id session_id r =
     r\<lparr>dt_status := Turn_Claimed, dt_owner_controller_id := Some controller_id,
       dt_owner_incarnation_id := Some incarnation_id, dt_fencing_token := Some (fencing_token l),
       dt_attempt_count := dt_attempt_count r + 1, dt_claimed_at := Some now, dt_started_at := None,
       dt_terminal_at := None, dt_next_attempt_at := None, dt_updated_at := now,
       dt_session_id := (case session_id of None \<Rightarrow> dt_session_id r | Some s \<Rightarrow> Some s)\<rparr>"

definition reset_unavailable :: "string \<Rightarrow> turn_db \<Rightarrow> turn_db" where
  "reset_unavailable conv db =
     (case td_conversations db conv of
        None \<Rightarrow> db
      | Some c \<Rightarrow> if cv_lineage_task_id c = None
                  then db\<lparr>td_conversations := (td_conversations db)
                         (conv \<mapsto> c\<lparr>cv_active_executor_unavailable_since := None\<rparr>)\<rparr>
                  else db)"

definition claim ::
  "txn \<Rightarrow> string \<Rightarrow> lease \<Rightarrow> string \<Rightarrow> string \<Rightarrow> string option \<Rightarrow> turn_db
     \<Rightarrow> turn_db \<times> (turn_error, turn_row option) result" where
  "claim tx rid l controller_id incarnation_id session_id db =
     (case check_owner l controller_id incarnation_id of
        Inl e \<Rightarrow> (db, Inl e)
      | Inr _ \<Rightarrow>
          (case fenced_update tx rid l CLAIMABLE_STATUSES
                  (claim_values (tx_now tx) l controller_id incarnation_id session_id) True db of
             (db', None) \<Rightarrow> (db', Inr None)
           | (db', Some r) \<Rightarrow>
               (if dt_attempt_count r = 1 then reset_unavailable (dt_conversation_id r) db' else db',
                Inr (Some r))))"

definition mark_running :: "txn \<Rightarrow> string \<Rightarrow> lease \<Rightarrow> turn_db \<Rightarrow> turn_db \<times> turn_row option" where
  "mark_running tx rid l db =
     owned_fenced_update tx rid l [Turn_Claimed] (\<lambda>r. True)
       (\<lambda>r. r\<lparr>dt_status := Turn_Running, dt_started_at := Some (tx_now tx), dt_updated_at := tx_now tx\<rparr>) db"

definition absorb_values ::
  "time \<Rightarrow> lease \<Rightarrow> string \<Rightarrow> string \<Rightarrow> string \<Rightarrow> string option \<Rightarrow> turn_row \<Rightarrow> turn_row" where
  "absorb_values now l controller_id incarnation_id absorbed_by session_id r =
     r\<lparr>dt_status := Turn_Absorbing, dt_owner_controller_id := Some controller_id,
       dt_owner_incarnation_id := Some incarnation_id, dt_fencing_token := Some (fencing_token l),
       dt_attempt_count := dt_attempt_count r + 1, dt_absorbed_by_turn_id := Some absorbed_by,
       dt_outcome := VDict [(''phase'', VStr ''canonical_user_append''),
                            (''phase_started_at'', VStr (isoformat now)),
                            (''session_id'', opt_str session_id)],
       dt_claimed_at := Some now, dt_updated_at := now\<rparr>"

definition begin_absorb ::
  "txn \<Rightarrow> string \<Rightarrow> lease \<Rightarrow> string \<Rightarrow> string \<Rightarrow> string \<Rightarrow> string option \<Rightarrow> turn_db
     \<Rightarrow> turn_db \<times> (turn_error, turn_row option) result" where
  "begin_absorb tx rid l controller_id incarnation_id absorbed_by session_id db =
     (case check_owner l controller_id incarnation_id of
        Inl e \<Rightarrow> (db, Inl e)
      | Inr _ \<Rightarrow>
          (case fenced_update tx rid l [Turn_Queued, Turn_Recoverable]
                  (absorb_values (tx_now tx) l controller_id incarnation_id absorbed_by session_id) False db of
             (db', row) \<Rightarrow> (db', Inr row)))"

definition terminal_values :: "time \<Rightarrow> turn_status \<Rightarrow> pyval \<Rightarrow> turn_row \<Rightarrow> turn_row" where
  "terminal_values now status outcome r =
     r\<lparr>dt_status := status, dt_outcome := outcome, dt_terminal_at := Some now, dt_updated_at := now\<rparr>"

definition mark_terminal_from ::
  "txn \<Rightarrow> string \<Rightarrow> lease \<Rightarrow> turn_status list \<Rightarrow> turn_status \<Rightarrow> pyval \<Rightarrow> turn_db \<Rightarrow> turn_db \<times> turn_row option" where
  "mark_terminal_from tx rid l from_statuses terminal_status outcome db =
     owned_fenced_update tx rid l from_statuses (\<lambda>r. True)
       (terminal_values (tx_now tx) terminal_status outcome) db"

definition mark_absorbed :: "txn \<Rightarrow> string \<Rightarrow> lease \<Rightarrow> turn_db \<Rightarrow> turn_db \<times> turn_row option" where
  "mark_absorbed tx rid l db = mark_terminal_from tx rid l [Turn_Absorbing] Turn_Absorbed VNone db"

definition mark_terminal ::
  "txn \<Rightarrow> string \<Rightarrow> lease \<Rightarrow> turn_status \<Rightarrow> pyval \<Rightarrow> turn_db \<Rightarrow> turn_db \<times> (turn_error, turn_row option) result" where
  "mark_terminal tx rid l status outcome db =
     (if status \<notin> {Turn_Completed, Turn_Failed, Turn_Cancelled, Turn_Ambiguous}
      then (db, Inl (Turn_Value_Error (''unsupported terminal status: '' @ turn_status_value status)))
      else (case mark_terminal_from tx rid l ACTIVE_STATUSES status outcome db of
              (db', row) \<Rightarrow> (db', Inr row)))"

text \<open>Back to the queue: the owner goes, the fencing token stays.\<close>

definition requeue_values :: "time \<Rightarrow> pyval \<Rightarrow> turn_row \<Rightarrow> turn_row" where
  "requeue_values now outcome r =
     r\<lparr>dt_status := Turn_Recoverable, dt_owner_controller_id := None, dt_owner_incarnation_id := None,
       dt_outcome := outcome, dt_updated_at := now\<rparr>"

definition mark_recoverable :: "txn \<Rightarrow> string \<Rightarrow> lease \<Rightarrow> pyval \<Rightarrow> turn_db \<Rightarrow> turn_db \<times> turn_row option" where
  "mark_recoverable tx rid l outcome db =
     owned_fenced_update tx rid l ACTIVE_STATUSES (\<lambda>r. True) (requeue_values (tx_now tx) outcome) db"

definition settle_transient_failure ::
  "txn \<Rightarrow> string \<Rightarrow> lease \<Rightarrow> pyval \<Rightarrow> time option \<Rightarrow> turn_db \<Rightarrow> turn_db \<times> turn_row option" where
  "settle_transient_failure tx rid l outcome retry_after db =
     (case owned_fenced_update tx rid l ACTIVE_STATUSES (\<lambda>r. dt_cancel_requested_at r = None)
             (\<lambda>r. (requeue_values (tx_now tx) outcome r)
                    \<lparr>dt_next_attempt_at := map_option (\<lambda>d. tx_now tx + d) retry_after,
                     dt_terminal_at := None\<rparr>) db of
        (db', Some r) \<Rightarrow> (db', Some r)
      | (db', None) \<Rightarrow>
          (db', find_first (\<lambda>r. dt_request_id r = rid \<and> dt_status r \<in> set ACTIVE_STATUSES \<and>
             row_owner r = Some (owner_id l) \<and> dt_fencing_token r = Some (fencing_token l) \<and>
             dt_cancel_requested_at r \<noteq> None \<and> lease_predicate tx l db') (td_rows db')))"

subsection \<open>Recovering from a lost owner\<close>

text \<open>
  The shape the recovery methods share: a caller with a newer fence than the row's reads the row,
  and writes it only where its token and status are still what they were.
\<close>

definition stale_update ::
  "txn \<Rightarrow> string \<Rightarrow> lease \<Rightarrow> (turn_row \<Rightarrow> bool) \<Rightarrow> (turn_row \<Rightarrow> bool) \<Rightarrow> (turn_row \<Rightarrow> turn_row) \<Rightarrow> turn_db
     \<Rightarrow> turn_db \<times> turn_row option" where
  "stale_update tx rid l precondition predicates vals db =
     (case find_turn rid (tx_seen tx) of
        None \<Rightarrow> (db, None)
      | Some request \<Rightarrow>
          (case dt_fencing_token request of
             None \<Rightarrow> (db, None)
           | Some token \<Rightarrow>
               if \<not> precondition request \<or> fencing_token l \<le> token \<or>
                  resource_key l \<noteq> conversation_lease_key (dt_conversation_id request)
               then (db, None)
               else update_turn rid
                      (\<lambda>r. predicates r \<and> dt_fencing_token r = Some token \<and> lease_predicate tx l db)
                      vals db))"

definition unless_cancelled :: "turn_status list \<Rightarrow> turn_row \<Rightarrow> bool" where
  "unless_cancelled statuses r \<longleftrightarrow> dt_status r \<in> set statuses \<and> dt_cancel_requested_at r = None"

definition recover_stale_claim :: "txn \<Rightarrow> string \<Rightarrow> lease \<Rightarrow> pyval \<Rightarrow> turn_db \<Rightarrow> turn_db \<times> turn_row option" where
  "recover_stale_claim tx rid l outcome db =
     stale_update tx rid l (\<lambda>r. True) (unless_cancelled [Turn_Claimed]) (requeue_values (tx_now tx) outcome) db"

definition mark_stale_ambiguous :: "txn \<Rightarrow> string \<Rightarrow> lease \<Rightarrow> pyval \<Rightarrow> turn_db \<Rightarrow> turn_db \<times> turn_row option" where
  "mark_stale_ambiguous tx rid l outcome db =
     stale_update tx rid l (\<lambda>r. True) (unless_cancelled [Turn_Running, Turn_Absorbing])
       (terminal_values (tx_now tx) Turn_Ambiguous outcome) db"

definition reconcile_stale_absorbed :: "txn \<Rightarrow> string \<Rightarrow> lease \<Rightarrow> turn_db \<Rightarrow> turn_db \<times> turn_row option" where
  "reconcile_stale_absorbed tx rid l db =
     stale_update tx rid l (\<lambda>r. dt_status r = Turn_Absorbing) (unless_cancelled [Turn_Absorbing])
       (terminal_values (tx_now tx) Turn_Absorbed (VDict [(''phase'', VStr ''reconciled_absorbed'')])) db"

definition reconcile_stale_completed :: "txn \<Rightarrow> string \<Rightarrow> lease \<Rightarrow> pyval \<Rightarrow> turn_db \<Rightarrow> turn_db \<times> turn_row option" where
  "reconcile_stale_completed tx rid l outcome db =
     stale_update tx rid l (\<lambda>r. dt_status r = Turn_Running) (unless_cancelled [Turn_Running])
       (terminal_values (tx_now tx) Turn_Completed outcome) db"

definition cancel_stale_active :: "txn \<Rightarrow> string \<Rightarrow> lease \<Rightarrow> turn_db \<Rightarrow> turn_db \<times> turn_row option" where
  "cancel_stale_active tx rid l db =
     stale_update tx rid l
       (\<lambda>r. dt_status r \<in> set ACTIVE_STATUSES \<and> dt_cancel_requested_at r \<noteq> None)
       (\<lambda>r. dt_status r \<in> set ACTIVE_STATUSES \<and> dt_cancel_requested_at r \<noteq> None)
       (\<lambda>r. (terminal_values (tx_now tx) Turn_Cancelled
               (VDict [(''phase'', VStr ''cancelled''), (''reason'', VStr ''stale owner cancellation recovered'')]) r)
              \<lparr>dt_owner_controller_id := None, dt_owner_incarnation_id := None\<rparr>) db"

definition recover_stale_absorbing :: "txn \<Rightarrow> string \<Rightarrow> lease \<Rightarrow> turn_db \<Rightarrow> turn_db \<times> turn_row option" where
  "recover_stale_absorbing tx rid l db =
     stale_update tx rid l (\<lambda>r. dt_status r = Turn_Absorbing) (unless_cancelled [Turn_Absorbing])
       (\<lambda>r. (requeue_values (tx_now tx) (VDict [(''phase'', VStr ''recovered_uncommitted_absorb'')]) r)
              \<lparr>dt_absorbed_by_turn_id := None\<rparr>) db"

definition recover_stale_running :: "txn \<Rightarrow> string \<Rightarrow> lease \<Rightarrow> pyval \<Rightarrow> turn_db \<Rightarrow> turn_db \<times> turn_row option" where
  "recover_stale_running tx rid l outcome db =
     stale_update tx rid l (\<lambda>r. dt_status r = Turn_Running) (unless_cancelled [Turn_Running])
       (requeue_values (tx_now tx) outcome) db"

subsection \<open>Recovering tool calls\<close>

definition str_or :: "pyval \<Rightarrow> string \<Rightarrow> pyval" where
  "str_or v s = (if is_str v then v else VStr s)"

definition begin_tool_recovery ::
  "txn \<Rightarrow> string \<Rightarrow> lease \<Rightarrow> string \<Rightarrow> string \<Rightarrow> time \<Rightarrow> turn_db \<Rightarrow> turn_db \<times> (turn_error, turn_row option) result" where
  "begin_tool_recovery tx rid l controller_id incarnation_id deadline db =
     (case check_owner l controller_id incarnation_id of
        Inl e \<Rightarrow> (db, Inl e)
      | Inr _ \<Rightarrow>
     (case find_turn rid (td_rows db) of
        None \<Rightarrow> (db, Inr None)
      | Some request \<Rightarrow>
          if dt_status request \<notin> set ACTIVE_STATUSES \<or>
             (case dt_fencing_token request of None \<Rightarrow> True | Some t \<Rightarrow> fencing_token l \<le> t) \<or>
             resource_key l \<noteq> conversation_lease_key (dt_conversation_id request) \<or>
             \<not> lease_predicate tx l db \<or>
             dict_get (outcome_dict request) ''phase'' \<noteq> VStr ''tool_in_flight''
          then (db, Inr None)
          else let outcome = outcome_dict request;
                   started = str_or (dict_get outcome ''recovery_started_at'') (isoformat (tx_now tx));
                   deadline_at = str_or (dict_get outcome ''recovery_deadline_at'')
                     (isoformat (tx_now tx + max 1000000 deadline))
               in (case update_turn rid (\<lambda>r. True)
                          (\<lambda>r. r\<lparr>dt_owner_controller_id := Some controller_id,
                                 dt_owner_incarnation_id := Some incarnation_id,
                                 dt_fencing_token := Some (fencing_token l),
                                 dt_outcome := VDict (dict_put ''recovery_deadline_at'' deadline_at
                                                 (dict_put ''recovery_started_at'' started outcome)),
                                 dt_updated_at := tx_now tx\<rparr>) db of
                     (db', row) \<Rightarrow> (db', Inr row))))"

definition link_error :: "pyval \<Rightarrow> string" where
  "link_error outcome =
     (let d = (case outcome of VDict d \<Rightarrow> d | _ \<Rightarrow> [])
      in take 1000 (py_str (py_or (py_or (dict_get d ''error'') (dict_get d ''reason'')) (VStr ''''))))"

definition fail_link :: "time \<Rightarrow> turn_row \<Rightarrow> pyval \<Rightarrow> link_row \<Rightarrow> link_row" where
  "fail_link now r outcome lk =
     (if ln_target_conversation_id lk = dt_conversation_id r \<and> ln_active_turn_id lk = Some (dt_turn_id r)
      then lk\<lparr>ln_turn_state := ''failed'', ln_active_turn_id := None, ln_notify_on_completion := False,
              ln_last_error := Some (link_error outcome), ln_last_result_turn_id := Some (dt_turn_id r),
              ln_handoff_state := None, ln_handoff_target_turn_id := None,
              ln_handoff_controller_session_id := None, ln_handoff_controller_turn_id := None,
              ln_handoff_tool_call_id := None, ln_completed_at := Some now, ln_updated_at := now\<rparr>
      else lk)"

definition mark_tool_recovery_terminal ::
  "txn \<Rightarrow> string \<Rightarrow> lease \<Rightarrow> turn_status \<Rightarrow> pyval \<Rightarrow> turn_db \<Rightarrow> turn_db \<times> (turn_error, turn_row option) result" where
  "mark_tool_recovery_terminal tx rid l status outcome db =
     (if status \<notin> {Turn_Failed, Turn_Ambiguous}
      then (db, Inl (Turn_Value_Error ''tool recovery fallback must be failed or ambiguous''))
      else case mark_terminal_from tx rid l ACTIVE_STATUSES status outcome db of
             (db', None) \<Rightarrow> (db, Inr None)
           | (db', Some r) \<Rightarrow>
               (db'\<lparr>td_links := map (fail_link (tx_now tx) r outcome) (td_links db')\<rparr>, Inr (Some r)))"

definition finish_tool_recovery ::
  "txn \<Rightarrow> string \<Rightarrow> lease \<Rightarrow> pyval \<Rightarrow> turn_db \<Rightarrow> turn_db \<times> turn_row option" where
  "finish_tool_recovery tx rid l outcome db =
     (case live_request tx rid l db of
        None \<Rightarrow> (db, None)
      | Some request \<Rightarrow>
          update_turn rid (\<lambda>r. True)
            (\<lambda>r. (if dt_cancel_requested_at r \<noteq> None
                  then r\<lparr>dt_status := Turn_Cancelled,
                         dt_outcome := VDict [(''phase'', VStr ''cancelled''),
                                              (''reason'', VStr ''cancelled during tool recovery'')],
                         dt_terminal_at := Some (tx_now tx)\<rparr>
                  else r\<lparr>dt_status := Turn_Recoverable, dt_outcome := outcome\<rparr>)
                 \<lparr>dt_owner_controller_id := None, dt_owner_incarnation_id := None,
                  dt_fencing_token := None, dt_updated_at := tx_now tx\<rparr>) db)"

subsection \<open>Recovery by an operator\<close>

record recovery_snapshot =
  rs_conversation_id :: string
  rs_status :: string
  rs_phase :: string
  rs_owner_controller_id :: string
  rs_owner_incarnation_id :: string
  rs_fencing_token :: int
  rs_updated_at :: time
  rs_phase_started_at :: "time option"

record recovery_result =
  rr_request_id :: string
  rr_conversation_id :: string
  rr_status :: turn_status
  rr_phase :: string
  rr_fencing_token :: "int option"
  rr_changed :: bool

definition OPERATOR_RECOVERY_LEASE_TTL :: time where
  "OPERATOR_RECOVERY_LEASE_TTL = 30000000"

text \<open>The arguments of a recovery; \<open>op_sha256\<close> stands for the hexadecimal digest, \<open>op_parse\<close> for
  \<open>datetime.fromisoformat\<close> with UTC where the text has no zone.\<close>

record operator_request =
  op_actor_email :: string
  op_reason :: string
  op_client_transaction_id :: string
  op_expected :: recovery_snapshot
  op_sha256 :: "string \<Rightarrow> string"
  op_parse :: "string \<Rightarrow> time option"

definition audit_digest :: "operator_request \<Rightarrow> string \<Rightarrow> string" where
  "audit_digest q rid =
     take 24 (op_sha256 q (op_actor_email q @ [char_of (0::nat)] @ rid @ [char_of (0::nat)]
       @ op_client_transaction_id q))"

definition outcome_datetime :: "operator_request \<Rightarrow> pyval \<Rightarrow> time option" where
  "outcome_datetime q v = (case v of VStr s \<Rightarrow> op_parse q s | _ \<Rightarrow> None)"

definition phase_text :: "turn_row \<Rightarrow> string \<Rightarrow> string" where
  "phase_text r fallback = py_str (py_or (dict_get (outcome_dict r) ''phase'') (VStr fallback))"

definition snapshot_matches :: "operator_request \<Rightarrow> turn_row \<Rightarrow> bool" where
  "snapshot_matches q r \<longleftrightarrow>
     (let e = op_expected q in
      dt_conversation_id r = rs_conversation_id e \<and> turn_status_value (dt_status r) = rs_status e \<and>
      phase_text r '''' = rs_phase e \<and>
      dt_owner_controller_id r = Some (rs_owner_controller_id e) \<and>
      dt_owner_incarnation_id r = Some (rs_owner_incarnation_id e) \<and>
      dt_fencing_token r = Some (rs_fencing_token e) \<and> dt_updated_at r = rs_updated_at e \<and>
      (rs_phase_started_at e = None \<or>
       outcome_datetime q (dict_get (outcome_dict r) ''phase_started_at'') = rs_phase_started_at e))"

definition opt_int :: "int option \<Rightarrow> pyval" where
  "opt_int x = (case x of None \<Rightarrow> VNone | Some i \<Rightarrow> VInt i)"

definition recovery_outcome :: "operator_request \<Rightarrow> time \<Rightarrow> turn_row \<Rightarrow> pyval" where
  "recovery_outcome q now r =
     VDict [(''phase'', VStr ''ambiguous''), (''operator_recovery'', VBool True),
            (''operator_recovery_reason'', VStr (op_reason q)),
            (''operator_recovery_transaction_id'', VStr (op_client_transaction_id q)),
            (''operator_recovery_actor'', VStr (op_actor_email q)),
            (''call_id'', dict_get (outcome_dict r) ''call_id''),
            (''call_ids'', dict_get (outcome_dict r) ''call_ids''),
            (''resolved_at'', VStr (isoformat now))]"

definition recovery_audit :: "operator_request \<Rightarrow> string \<Rightarrow> turn_row \<Rightarrow> lease \<Rightarrow> audit_row" where
  "recovery_audit q rid r l =
     \<lparr>au_log_id = ''audit_'' @ audit_digest q rid, au_event_type = ''direct_turn_operator_recovery'',
      au_user_email = op_actor_email q,
      au_details = VDict
        [(''actor'', VStr (op_actor_email q)), (''reason'', VStr (op_reason q)),
         (''request_id'', VStr rid), (''conversation_id'', VStr (dt_conversation_id r)),
         (''client_transaction_id'', VStr (op_client_transaction_id q)),
         (''previous'', VDict
            [(''status'', VStr (turn_status_value (dt_status r))),
             (''owner_controller_id'', opt_str (dt_owner_controller_id r)),
             (''owner_incarnation_id'', opt_str (dt_owner_incarnation_id r)),
             (''fencing_token'', opt_int (dt_fencing_token r)), (''phase'', VStr (phase_text r '''')),
             (''phase_started_at'', opt_str (map_option isoformat
                (outcome_datetime q (dict_get (outcome_dict r) ''phase_started_at'')))),
             (''updated_at'', VStr (isoformat (dt_updated_at r)))]),
         (''new'', VDict
            [(''status'', VStr ''ambiguous''), (''owner_id'', VStr (owner_id l)),
             (''fencing_token'', VInt (fencing_token l)), (''phase'', VStr ''ambiguous'')])]\<rparr>"

definition recovery_values :: "operator_request \<Rightarrow> time \<Rightarrow> string \<Rightarrow> lease \<Rightarrow> turn_row \<Rightarrow> turn_row \<Rightarrow> turn_row" where
  "recovery_values q now rid l request r =
     r\<lparr>dt_status := Turn_Ambiguous, dt_owner_controller_id := Some ''operator-recovery'',
       dt_owner_incarnation_id := Some (audit_digest q rid), dt_fencing_token := Some (fencing_token l),
       dt_outcome := recovery_outcome q now request, dt_terminal_at := Some now, dt_updated_at := now\<rparr>"

text \<open>Fence, quarantine and audit in one transaction; the lease is given back expired.\<close>

definition quarantine ::
  "txn \<Rightarrow> operator_request \<Rightarrow> string \<Rightarrow> turn_row \<Rightarrow> turn_db \<Rightarrow> turn_db \<times> (turn_error, recovery_result) result" where
  "quarantine tx q rid request db =
     (let key = conversation_lease_key (dt_conversation_id request); e = op_expected q; now = tx_now tx in
      case acquire_in_session (tx_at tx) OPERATOR_RECOVERY_LEASE_TTL key
             (''operator-recovery:'' @ audit_digest q rid) (td_leases db) of
        (ls, None) \<Rightarrow> (db, Inl (Recovery_Conflict ''lease_live'' ''The conversation lease is still live''))
      | (ls, Some l) \<Rightarrow>
     (case update_turn rid
             (\<lambda>r. turn_status_value (dt_status r) = rs_status e \<and>
                  dt_owner_controller_id r = Some (rs_owner_controller_id e) \<and>
                  dt_owner_incarnation_id r = Some (rs_owner_incarnation_id e) \<and>
                  dt_fencing_token r = Some (rs_fencing_token e) \<and> dt_updated_at r = rs_updated_at e)
             (recovery_values q now rid l request) (db\<lparr>td_leases := ls\<rparr>) of
        (db', None) \<Rightarrow> (db, Inl (Recovery_Conflict ''snapshot_mismatch'' ''Direct turn changed during recovery''))
      | (db', Some r) \<Rightarrow>
          (db'\<lparr>td_leases := fst (release now l (td_leases db')),
               td_audit := td_audit db' @ [recovery_audit q rid request l]\<rparr>,
           Inr \<lparr>rr_request_id = rid, rr_conversation_id = dt_conversation_id request,
                rr_status = Turn_Ambiguous, rr_phase = ''ambiguous'',
                rr_fencing_token = Some (fencing_token l), rr_changed = True\<rparr>)))"

definition resolve_stale_tool_ambiguous ::
  "txn \<Rightarrow> operator_request \<Rightarrow> string \<Rightarrow> turn_db \<Rightarrow> turn_db \<times> (turn_error, recovery_result) result" where
  "resolve_stale_tool_ambiguous tx q rid db =
     (case find_turn rid (td_rows db) of
        None \<Rightarrow> (db, Inl (Recovery_Conflict ''not_found'' ''Direct turn not found''))
      | Some request \<Rightarrow>
          (let outcome = outcome_dict request in
           if dt_status request = Turn_Ambiguous
           then (if dict_get outcome ''operator_recovery'' = VBool True
                 then (if dict_get outcome ''operator_recovery_transaction_id'' \<noteq> VStr (op_client_transaction_id q) \<or>
                          dict_get outcome ''operator_recovery_actor'' \<noteq> VStr (op_actor_email q)
                       then (db, Inl (Recovery_Conflict ''idempotency_conflict''
                              ''Recovery transaction does not match the completed operation''))
                       else (db, Inr \<lparr>rr_request_id = dt_request_id request,
                              rr_conversation_id = dt_conversation_id request, rr_status = dt_status request,
                              rr_phase = phase_text request ''ambiguous'',
                              rr_fencing_token = dt_fencing_token request, rr_changed = False\<rparr>))
                 else (db, Inl (Recovery_Conflict ''invalid_status'' ''Direct turn is already terminal'')))
           else if list_ex (\<lambda>a. au_log_id a = ''audit_'' @ audit_digest q rid) (td_audit db)
           then (db, Inl (Recovery_Conflict ''idempotency_conflict'' ''Recovery transaction does not match state''))
           else if \<not> snapshot_matches q request
           then (db, Inl (Recovery_Conflict ''snapshot_mismatch'' ''Direct turn changed since it was inspected''))
           else if dt_status request \<notin> set ACTIVE_STATUSES \<or> phase_text request '''' \<noteq> ''tool_in_flight''
           then (db, Inl (Recovery_Conflict ''invalid_phase'' ''Only stale tool-in-flight turns may be resolved''))
           else quarantine tx q rid request db))"

subsection \<open>Channel deliveries\<close>

definition delivery_fence :: "txn \<Rightarrow> string \<Rightarrow> lease \<Rightarrow> turn_db \<Rightarrow> turn_row \<Rightarrow> bool" where
  "delivery_fence tx rid l db r \<longleftrightarrow>
     dt_request_id r = rid \<and> row_owner r = Some (owner_id l) \<and>
     conversation_lease_key (dt_conversation_id r) = resource_key l \<and>
     dt_fencing_token r = Some (fencing_token l) \<and> lease_predicate tx l db"

record delivery =
  de_delivery_id :: string
  de_channel_type :: pyval
  de_account_id :: pyval
  de_chat_id :: pyval
  de_thread_id :: pyval
  de_reply_to_id :: pyval
  de_content :: string
  de_attachments :: pyval

definition outbox_entry :: "txn \<Rightarrow> delivery \<Rightarrow> turn_row \<Rightarrow> outbox_row" where
  "outbox_entry tx v r =
     \<lparr>ob_delivery_id = de_delivery_id v, ob_user_email = dt_user_id r,
      ob_conversation_id = dt_conversation_id r, ob_session_id = dt_session_id r,
      ob_source_type = ''direct_turn_result'', ob_source_id = dt_turn_id r,
      ob_channel_type = py_str (de_channel_type v), ob_account_id = py_str (de_account_id v),
      ob_chat_id = py_str (de_chat_id v), ob_thread_id = de_thread_id v, ob_reply_to_id = de_reply_to_id v,
      ob_direct_turn_request_id = dt_request_id r, ob_direct_turn_fencing_token = dt_fencing_token r,
      ob_status = ''pending'', ob_fallback_text = de_content v, ob_attachments_json = de_attachments v,
      ob_next_attempt_at = tx_at tx\<rparr>"

definition create_fenced_channel_delivery ::
  "txn \<Rightarrow> string \<Rightarrow> lease \<Rightarrow> delivery \<Rightarrow> turn_db \<Rightarrow> turn_db \<times> outbox_row option" where
  "create_fenced_channel_delivery tx rid l v db =
     (case find_first (delivery_fence tx rid l db) (td_rows db) of
        None \<Rightarrow> (db, None)
      | Some r \<Rightarrow>
          (case find_first (\<lambda>o'. ob_delivery_id o' = de_delivery_id v) (td_outbox db) of
             None \<Rightarrow> let o' = outbox_entry tx v r in (db\<lparr>td_outbox := td_outbox db @ [o']\<rparr>, Some o')
           | Some o' \<Rightarrow> (db, if ob_direct_turn_request_id o' = rid then Some o' else None)))"

end
