(* ===== verification/Direct_Turn_Safety.thy ===== *)
theory Direct_Turn_Safety
  imports Direct_Turns
begin

section \<open>What the store of direct turns guarantees\<close>

text \<open>
  Every method of the store is one step of \<open>turn_step\<close>, next to the lease operations of other
  controllers. What a step can do to a row is the relation \<open>turn_move\<close>, which the lemmas
  \<open>..._evolves\<close> establish method by method; the invariants (types of rows, order of admission, one
  running turn per conversation, fences behind the lease table) and the abstract lifecycle
  \<open>tenure_step\<close> are then facts about that relation alone.
\<close>

lemmas turn_statuses = CLAIMABLE_STATUSES_def ACTIVE_STATUSES_def TERMINAL_STATUSES_def
  NONTERMINAL_STATUSES_def

subsection \<open>Moves of a row\<close>

text \<open>What never changes of a request.\<close>

definition same_request :: "turn_row \<Rightarrow> turn_row \<Rightarrow> bool" where
  "same_request r r' \<longleftrightarrow>
     dt_admission_order r' = dt_admission_order r \<and> dt_request_id r' = dt_request_id r \<and>
     dt_turn_id r' = dt_turn_id r \<and> dt_conversation_id r' = dt_conversation_id r \<and>
     dt_agent_id r' = dt_agent_id r \<and> dt_user_id r' = dt_user_id r \<and>
     dt_idempotency_scope r' = dt_idempotency_scope r \<and> dt_idempotency_key r' = dt_idempotency_key r \<and>
     dt_admission_hash r' = dt_admission_hash r \<and> dt_created_at r' = dt_created_at r"

definition same_tenure :: "turn_row \<Rightarrow> turn_row \<Rightarrow> bool" where
  "same_tenure r r' \<longleftrightarrow>
     dt_owner_controller_id r' = dt_owner_controller_id r \<and>
     dt_owner_incarnation_id r' = dt_owner_incarnation_id r \<and>
     dt_fencing_token r' = dt_fencing_token r \<and> dt_terminal_at r' = dt_terminal_at r \<and>
     dt_absorbed_by_turn_id r' = dt_absorbed_by_turn_id r"

definition holds :: "lease \<Rightarrow> turn_row \<Rightarrow> bool" where
  "holds l r \<longleftrightarrow> row_owner r = Some (owner_id l) \<and> dt_fencing_token r = Some (fencing_token l)"

definition conversation_lease :: "time \<Rightarrow> lease \<Rightarrow> lease_db \<Rightarrow> turn_row \<Rightarrow> bool" where
  "conversation_lease clk l ls r \<longleftrightarrow>
     is_current clk l ls \<and> resource_key l = conversation_lease_key (dt_conversation_id r)"

definition released :: "turn_row \<Rightarrow> bool" where
  "released r \<longleftrightarrow> dt_owner_controller_id r = None \<and> dt_owner_incarnation_id r = None"

text \<open>Who may settle an active row: its owner, or the holder of a newer fence.\<close>

definition entitled :: "time \<Rightarrow> lease \<Rightarrow> lease_db \<Rightarrow> turn_row \<Rightarrow> bool" where
  "entitled clk l ls r \<longleftrightarrow> conversation_lease clk l ls r \<and>
     (holds l r \<or> (\<exists>t. dt_fencing_token r = Some t \<and> t < fencing_token l))"

text \<open>The leases of the operator's recovery, by the prefix of their owner.\<close>

definition operator_lease :: "lease \<Rightarrow> bool" where
  "operator_lease l \<longleftrightarrow> (\<exists>d. owner_id l = ''operator-recovery:'' @ d)"

inductive turn_move :: "lease_db \<Rightarrow> lease_db \<Rightarrow> turn_row list \<Rightarrow> turn_row \<Rightarrow> turn_row \<Rightarrow> bool"
  for ls ls' :: lease_db and rows :: "turn_row list" where
  Keep: "same_request r r' \<Longrightarrow> same_tenure r r' \<Longrightarrow> dt_status r' = dt_status r \<Longrightarrow>
     turn_move ls ls' rows r r'"
| Take: "same_request r r' \<Longrightarrow> dt_status r \<in> set CLAIMABLE_STATUSES \<Longrightarrow> \<not> has_predecessor r rows \<Longrightarrow>
     conversation_lease clk l ls r \<Longrightarrow> dt_status r' = Turn_Claimed \<Longrightarrow> holds l r' \<Longrightarrow>
     dt_terminal_at r' = None \<Longrightarrow> turn_move ls ls' rows r r'"
| Absorb: "same_request r r' \<Longrightarrow> dt_status r \<in> set CLAIMABLE_STATUSES \<Longrightarrow>
     conversation_lease clk l ls r \<Longrightarrow> dt_status r' = Turn_Absorbing \<Longrightarrow> holds l r' \<Longrightarrow>
     dt_absorbed_by_turn_id r' \<noteq> None \<Longrightarrow> dt_terminal_at r' = dt_terminal_at r \<Longrightarrow>
     turn_move ls ls' rows r r'"
| Start: "same_request r r' \<Longrightarrow> same_tenure r r' \<Longrightarrow> dt_status r = Turn_Claimed \<Longrightarrow>
     dt_status r' = Turn_Running \<Longrightarrow> conversation_lease clk l ls r \<Longrightarrow> holds l r \<Longrightarrow>
     turn_move ls ls' rows r r'"
| Retake: "same_request r r' \<Longrightarrow> dt_status r \<in> set ACTIVE_STATUSES \<Longrightarrow> dt_status r' = dt_status r \<Longrightarrow>
     entitled clk l ls r \<Longrightarrow> holds l r' \<Longrightarrow> dt_terminal_at r' = dt_terminal_at r \<Longrightarrow>
     dt_absorbed_by_turn_id r' = dt_absorbed_by_turn_id r \<Longrightarrow> turn_move ls ls' rows r r'"
| Requeue: "same_request r r' \<Longrightarrow> dt_status r \<in> set ACTIVE_STATUSES \<Longrightarrow>
     dt_status r' = Turn_Recoverable \<Longrightarrow> entitled clk l ls r \<Longrightarrow> released r' \<Longrightarrow>
     dt_fencing_token r' \<in> {dt_fencing_token r, None} \<Longrightarrow>
     dt_terminal_at r' \<in> {dt_terminal_at r, None} \<Longrightarrow> turn_move ls ls' rows r r'"
| Settle: "same_request r r' \<Longrightarrow> dt_status r \<in> set ACTIVE_STATUSES \<Longrightarrow>
     dt_status r' \<in> set TERMINAL_STATUSES \<Longrightarrow> entitled clk l ls r \<Longrightarrow> dt_terminal_at r' \<noteq> None \<Longrightarrow>
     dt_fencing_token r' \<in> {dt_fencing_token r, None} \<Longrightarrow>
     dt_absorbed_by_turn_id r' = dt_absorbed_by_turn_id r \<Longrightarrow>
     (dt_status r' = Turn_Absorbed \<longrightarrow> dt_status r = Turn_Absorbing) \<Longrightarrow> turn_move ls ls' rows r r'"
| Quarantine: "same_request r r' \<Longrightarrow> dt_status r \<in> set ACTIVE_STATUSES \<Longrightarrow>
     dt_status r' = Turn_Ambiguous \<Longrightarrow> (is_current clk l ls \<Longrightarrow> operator_lease l) \<Longrightarrow> holds l r \<Longrightarrow>
     resource_key l = conversation_lease_key (dt_conversation_id r) \<Longrightarrow> dt_terminal_at r' \<noteq> None \<Longrightarrow>
     fence_of ls' (conversation_lease_key (dt_conversation_id r)) = dt_fencing_token r' \<Longrightarrow>
     turn_move ls ls' rows r r'"
| Drop: "same_request r r' \<Longrightarrow> dt_status r \<in> set CLAIMABLE_STATUSES \<Longrightarrow> dt_status r' = Turn_Cancelled \<Longrightarrow>
     dt_terminal_at r' \<noteq> None \<Longrightarrow> dt_fencing_token r' = dt_fencing_token r \<Longrightarrow> turn_move ls ls' rows r r'"

lemma same_request_refl [simp, intro]: "same_request r r"
  by (simp add: same_request_def)

lemma same_tenure_refl [simp, intro]: "same_tenure r r"
  by (simp add: same_tenure_def)

lemma turn_move_refl [simp, intro]: "turn_move ls ls' rows r r"
  by (rule Keep) auto

lemma turn_move_request: "turn_move ls ls' rows r r' \<Longrightarrow> same_request r r'"
  by (induction rule: turn_move.induct) auto

subsection \<open>Evolution of the table\<close>

definition fences_kept :: "lease_db \<Rightarrow> lease_db \<Rightarrow> bool" where
  "fences_kept ls ls' \<longleftrightarrow>
     (\<forall>k n. fence_of ls k = Some n \<longrightarrow> (\<exists>m \<ge> n. fence_of ls' k = Some m))"

text \<open>A new row is queued, at the end, and conflicts with none.\<close>

definition fresh_row :: "turn_db \<Rightarrow> turn_row \<Rightarrow> bool" where
  "fresh_row db n \<longleftrightarrow> dt_status n = Turn_Queued \<and> released n \<and> dt_fencing_token n = None \<and>
     dt_terminal_at n = None \<and> dt_admission_order n = td_next db \<and>
     \<not> list_ex (conflicting n) (td_rows db)"

definition evolves :: "turn_db \<Rightarrow> turn_db \<Rightarrow> bool" where
  "evolves db db' \<longleftrightarrow> fences_kept (td_leases db) (td_leases db') \<and>
     (\<exists>g news. td_rows db' = map g (td_rows db) @ news \<and>
        (\<forall>r \<in> set (td_rows db). turn_move (td_leases db) (td_leases db') (td_rows db) r (g r)) \<and>
        (news = [] \<and> td_next db' = td_next db \<or>
         (\<exists>n. news = [n] \<and> fresh_row db n \<and> td_next db' = td_next db + 1)))"

lemma fences_kept_refl [simp, intro]: "fences_kept ls ls"
  by (auto simp: fences_kept_def)

lemma fences_kept_run_op [simp, intro]: "fences_kept ls (fst (run_op op ls))"
  by (simp add: fences_kept_def run_op_fence)

lemma evolves_refl [simp, intro]: "evolves db db"
  unfolding evolves_def by (intro conjI exI [of _ id] exI [of _ "[]"]) auto

lemma evolvesI:
  assumes "fences_kept (td_leases db) (td_leases db')" and "td_rows db' = map g (td_rows db)"
    and "\<And>r. r \<in> set (td_rows db) \<Longrightarrow> turn_move (td_leases db) (td_leases db') (td_rows db) r (g r)"
    and "td_next db' = td_next db"
  shows "evolves db db'"
  unfolding evolves_def using assms by (intro conjI exI [of _ g] exI [of _ "[]"]) auto

text \<open>An \<open>UPDATE\<close> evolves the table when it moves every row it matches.\<close>

lemma update_turn_evolves:
  assumes "\<And>r. r \<in> set (td_rows db) \<Longrightarrow> dt_request_id r = rid \<Longrightarrow> p r \<Longrightarrow>
    turn_move (td_leases db) (td_leases db) (td_rows db) r (f r)"
  shows "evolves db (fst (update_turn rid p f db))"
proof (cases "find_first (\<lambda>r. dt_request_id r = rid \<and> p r) (td_rows db)")
  case None
  then show ?thesis by (simp only: update_turn_def) simp
next
  case (Some r)
  then show ?thesis
    using assms
    by (intro evolvesI [where g = "\<lambda>r. if dt_request_id r = rid \<and> p r then f r else r"])
      (auto simp: update_turn_def)
qed

text \<open>What a transaction read may be old, but a request keeps its conversation.\<close>

definition tx_ok :: "txn \<Rightarrow> turn_db \<Rightarrow> bool" where
  "tx_ok tx db \<longleftrightarrow> (\<forall>e \<in> set (tx_seen tx). \<forall>r \<in> set (td_rows db).
     dt_request_id e = dt_request_id r \<longrightarrow> dt_conversation_id e = dt_conversation_id r)"

lemma tx_okD:
  "tx_ok tx db \<Longrightarrow> find_turn rid (tx_seen tx) = Some e \<Longrightarrow> r \<in> set (td_rows db) \<Longrightarrow> dt_request_id r = rid \<Longrightarrow>
     dt_conversation_id e = dt_conversation_id r"
  by (auto simp: tx_ok_def find_turn_def dest!: find_first_SomeD)

lemma fenced_update_evolves:
  assumes "tx_ok tx db"
    and "\<And>r. dt_status r \<in> set statuses \<Longrightarrow> conversation_lease (tx_at tx) l (td_leases db) r \<Longrightarrow>
      fifo \<longrightarrow> \<not> has_predecessor r (td_rows db) \<Longrightarrow>
      turn_move (td_leases db) (td_leases db) (td_rows db) r (f r)"
  shows "evolves db (fst (fenced_update tx rid l statuses f fifo db))"
proof (cases "find_turn rid (tx_seen tx)")
  case (Some e)
  have "evolves db (fst (update_turn rid (\<lambda>r. dt_status r \<in> set statuses \<and> lease_predicate tx l db \<and>
      (fifo \<longrightarrow> \<not> has_predecessor r (td_rows db))) f db))"
    if "resource_key l = conversation_lease_key (dt_conversation_id e)"
    using that tx_okD [OF assms(1) Some]
    by (intro update_turn_evolves assms(2)) (auto simp: conversation_lease_def lease_predicate_def)
  with Some show ?thesis by (simp add: fenced_update_def)
qed (simp add: fenced_update_def)

lemma owned_fenced_update_evolves:
  assumes "tx_ok tx db"
    and "\<And>r. dt_status r \<in> set statuses \<Longrightarrow> conversation_lease (tx_at tx) l (td_leases db) r \<Longrightarrow> holds l r \<Longrightarrow>
      p r \<Longrightarrow> turn_move (td_leases db) (td_leases db) (td_rows db) r (f r)"
  shows "evolves db (fst (owned_fenced_update tx rid l statuses p f db))"
proof (cases "find_turn rid (tx_seen tx)")
  case (Some e)
  let ?p = "\<lambda>r. dt_status r \<in> set statuses \<and> dt_owner_controller_id r = dt_owner_controller_id e \<and>
    dt_owner_incarnation_id r = dt_owner_incarnation_id e \<and> dt_fencing_token r = Some (fencing_token l) \<and>
    lease_predicate tx l db \<and> p r"
  have "evolves db (fst (update_turn rid ?p f db))"
    if "resource_key l = conversation_lease_key (dt_conversation_id e)" "row_owner e = Some (owner_id l)"
    using that tx_okD [OF assms(1) Some]
    by (intro update_turn_evolves assms(2))
      (auto simp: conversation_lease_def lease_predicate_def holds_def row_owner_def)
  with Some show ?thesis by (simp add: owned_fenced_update_def)
qed (simp add: owned_fenced_update_def)

lemma stale_update_evolves:
  assumes "tx_ok tx db"
    and "\<And>r t. p r \<Longrightarrow> entitled (tx_at tx) l (td_leases db) r \<Longrightarrow>
      turn_move (td_leases db) (td_leases db) (td_rows db) r (f r)"
  shows "evolves db (fst (stale_update tx rid l pre p f db))"
proof (cases "find_turn rid (tx_seen tx)")
  case (Some e)
  have "evolves db (fst (update_turn rid (\<lambda>r. p r \<and> dt_fencing_token r = Some t \<and> lease_predicate tx l db) f db))"
    if "resource_key l = conversation_lease_key (dt_conversation_id e)" "t < fencing_token l" for t
    using that tx_okD [OF assms(1) Some]
    by (intro update_turn_evolves assms(2))
      (auto simp: conversation_lease_def lease_predicate_def entitled_def)
  with Some show ?thesis by (auto simp: stale_update_def split: option.splits)
qed (simp add: stale_update_def)

subsection \<open>The invariant of the tables\<close>

text \<open>The type of a row: which columns are set in which status.\<close>

definition row_ok :: "turn_row \<Rightarrow> bool" where
  "row_ok r \<longleftrightarrow>
     (dt_status r \<in> set ACTIVE_STATUSES \<longrightarrow>
        row_owner r \<noteq> None \<and> dt_fencing_token r \<noteq> None \<and> dt_terminal_at r = None) \<and>
     (dt_status r \<in> set CLAIMABLE_STATUSES \<longrightarrow> released r \<and> dt_terminal_at r = None) \<and>
     (dt_status r \<in> set TERMINAL_STATUSES \<longrightarrow> dt_terminal_at r \<noteq> None) \<and>
     (dt_status r \<in> {Turn_Absorbing, Turn_Absorbed} \<longrightarrow> dt_absorbed_by_turn_id r \<noteq> None)"

definition keys_ok :: "turn_db \<Rightarrow> bool" where
  "keys_ok db \<longleftrightarrow>
     sorted_wrt (<) (map dt_admission_order (td_rows db)) \<and>
     (\<forall>r \<in> set (td_rows db). dt_admission_order r < td_next db) \<and>
     distinct (map dt_request_id (td_rows db)) \<and> distinct (map dt_turn_id (td_rows db)) \<and>
     distinct (map (\<lambda>r. (dt_idempotency_scope r, dt_idempotency_key r)) (td_rows db))"

text \<open>A turn is claimed or runs only when every earlier turn of its conversation is settled.\<close>

definition fifo_ok :: "turn_row list \<Rightarrow> bool" where
  "fifo_ok rows \<longleftrightarrow>
     (\<forall>r \<in> set rows. dt_status r \<in> {Turn_Claimed, Turn_Running} \<longrightarrow> \<not> has_predecessor r rows)"

definition fence_ok :: "lease_db \<Rightarrow> turn_row \<Rightarrow> bool" where
  "fence_ok ls r \<longleftrightarrow>
     (\<forall>t. dt_fencing_token r = Some t \<longrightarrow>
        (\<exists>n \<ge> t. fence_of ls (conversation_lease_key (dt_conversation_id r)) = Some n))"

definition turn_inv :: "turn_db \<Rightarrow> bool" where
  "turn_inv db \<longleftrightarrow> list_all row_ok (td_rows db) \<and> keys_ok db \<and> fifo_ok (td_rows db) \<and>
     list_all (fence_ok (td_leases db)) (td_rows db)"

lemma distinct_map_eqD: "distinct (map f xs) \<Longrightarrow> x \<in> set xs \<Longrightarrow> y \<in> set xs \<Longrightarrow> f x = f y \<Longrightarrow> x = y"
  by (auto simp: distinct_map inj_on_def)

lemma find_turn_unique:
  "turn_inv db \<Longrightarrow> find_turn rid (td_rows db) = Some e \<Longrightarrow> r \<in> set (td_rows db) \<Longrightarrow> dt_request_id r = rid \<Longrightarrow> r = e"
  unfolding turn_inv_def keys_ok_def find_turn_def
  by (blast dest: find_first_SomeD distinct_map_eqD [of dt_request_id])

lemma live_requestD:
  assumes "turn_inv db" "live_request tx rid l db = Some e" "r \<in> set (td_rows db)" "dt_request_id r = rid"
  shows "r = e \<and> dt_status r \<in> set ACTIVE_STATUSES \<and> conversation_lease (tx_at tx) l (td_leases db) r \<and> holds l r"
  using assms find_turn_unique [OF assms(1) _ assms(3,4)]
  by (auto simp: live_request_def owns_live_fence_def conversation_lease_def holds_def lease_predicate_def
      split: option.splits if_splits)

subsection \<open>The methods evolve the table\<close>

lemmas move_defs = same_request_def same_tenure_def released_def holds_def row_owner_def turn_statuses

text \<open>Requeueing and settling, under whichever lease is entitled.\<close>

lemma move_requeue:
  "entitled clk l ls r \<Longrightarrow> dt_status r \<in> set ACTIVE_STATUSES \<Longrightarrow> same_request r r' \<Longrightarrow>
     dt_status r' = Turn_Recoverable \<Longrightarrow> released r' \<Longrightarrow> dt_fencing_token r' \<in> {dt_fencing_token r, None} \<Longrightarrow>
     dt_terminal_at r' \<in> {dt_terminal_at r, None} \<Longrightarrow> turn_move ls ls' rows r r'"
  by (rule Requeue)

lemma entitled_owner: "conversation_lease clk l ls r \<Longrightarrow> holds l r \<Longrightarrow> entitled clk l ls r"
  by (simp add: entitled_def)

lemma move_terminal_values:
  "entitled clk l ls r \<Longrightarrow> dt_status r \<in> set ACTIVE_STATUSES \<Longrightarrow> s \<in> set TERMINAL_STATUSES \<Longrightarrow>
     s = Turn_Absorbed \<longrightarrow> dt_status r = Turn_Absorbing \<Longrightarrow>
     turn_move ls ls' rows r (terminal_values now s outcome r)"
  by (rule Settle) (auto simp: same_request_def terminal_values_def)

lemma move_requeue_values:
  "entitled clk l ls r \<Longrightarrow> dt_status r \<in> set ACTIVE_STATUSES \<Longrightarrow>
     turn_move ls ls' rows r (requeue_values now outcome r)"
  by (rule Requeue) (auto simp: same_request_def released_def requeue_values_def)

lemma set_outcome_evolves: "evolves db (fst (set_outcome tx rid d db))"
  unfolding set_outcome_def
  by (auto simp: split_beta same_request_def same_tenure_def intro!: update_turn_evolves Keep split: sum.splits)

lemma checkpoint_evolves: "evolves db (fst (checkpoint tx rid l phase metadata clr db))"
  by (auto simp: checkpoint_def set_outcome_evolves split: option.splits)

lemma record_tool_dispatch_evolves: "evolves db (fst (record_tool_dispatch tx rid l s t ds metadata db))"
  by (auto simp: record_tool_dispatch_def set_outcome_evolves split: option.splits)

lemma complete_tool_dispatch_evolves: "evolves db (fst (complete_tool_dispatch tx rid l s t cs metadata db))"
  by (auto simp: complete_tool_dispatch_def set_outcome_evolves split: option.splits)

lemma merge_tool_dispatch_evolves: "evolves db (fst (merge_tool_dispatch tx rid l s t c x xi st db))"
  using set_outcome_evolves
  by (auto simp: merge_tool_dispatch_def Let_def split: option.splits prod.splits sum.splits) (metis fst_conv)+

lemma edit_evolves: "evolves db (fst (edit now lib rid payload v h db))"
  unfolding edit_def
  by (auto simp: split_beta same_request_def same_tenure_def intro!: update_turn_evolves Keep
      split: option.splits sum.splits)

lemma complete_failure_visibility_evolves: "evolves db (fst (complete_failure_visibility tx rid db))"
  unfolding complete_failure_visibility_def
  by (auto simp: same_request_def same_tenure_def intro!: update_turn_evolves Keep split: option.splits)

lemma expedite_provider_retry_evolves: "evolves db (fst (expedite_provider_retry now conv sid revision db))"
  unfolding expedite_provider_retry_def Let_def
  by (auto simp: same_request_def same_tenure_def intro!: update_turn_evolves Keep split: option.splits pyval.splits)

lemma cancel_one_evolves: "evolves db (fst (cancel_one now rid db))"
  unfolding cancel_one_def
proof (rule update_turn_evolves)
  fix r :: turn_row
  assume "dt_status r \<in> set NONTERMINAL_STATUSES"
  show "turn_move (td_leases db) (td_leases db) (td_rows db) r (cancel_values now r)"
  proof (cases "dt_status r \<in> set CLAIMABLE_STATUSES")
    case True
    then show ?thesis by (intro Drop) (auto simp: same_request_def cancel_values_def Let_def)
  next
    case False
    then show ?thesis
      by (intro Keep) (auto simp: same_request_def same_tenure_def cancel_values_def Let_def)
  qed
qed

lemma request_cancel_evolves: "evolves db (fst (request_cancel now rid db))"
  using cancel_one_evolves [of db now rid]
  by (auto simp: request_cancel_def split: prod.splits option.splits)

lemma claim_evolves:
  assumes "tx_ok tx db"
  shows "evolves db (fst (claim tx rid l c i s db))"
proof (cases "check_owner l c i")
  case (Inr u)
  let ?f = "claim_values (tx_now tx) l c i s"
  have own: "owner_id l = turn_owner_id c i"
    using Inr by (simp add: check_owner_def split: if_splits)
  have "evolves db (fst (fenced_update tx rid l CLAIMABLE_STATUSES ?f True db))"
  proof (rule fenced_update_evolves [OF assms])
    fix r :: turn_row
    assume "dt_status r \<in> set CLAIMABLE_STATUSES" "conversation_lease (tx_at tx) l (td_leases db) r"
      "True \<longrightarrow> \<not> has_predecessor r (td_rows db)"
    then show "turn_move (td_leases db) (td_leases db) (td_rows db) r (?f r)"
      by (intro Take [where l = l]) (auto simp: claim_values_def same_request_def holds_def row_owner_def own)
  qed
  moreover have "evolves db (reset_unavailable conv d)" if "evolves db d" for conv d
    using that by (auto simp: evolves_def reset_unavailable_def split: option.splits)
  ultimately show ?thesis
    using Inr by (auto simp: claim_def split: prod.splits option.splits)
qed (simp add: claim_def)

lemma begin_absorb_evolves:
  assumes "tx_ok tx db"
  shows "evolves db (fst (begin_absorb tx rid l c i ab s db))"
proof (cases "check_owner l c i")
  case (Inr u)
  let ?f = "absorb_values (tx_now tx) l c i ab s"
  have own: "owner_id l = turn_owner_id c i"
    using Inr by (simp add: check_owner_def split: if_splits)
  have "evolves db (fst (fenced_update tx rid l [Turn_Queued, Turn_Recoverable] ?f False db))"
  proof (rule fenced_update_evolves [OF assms])
    fix r :: turn_row
    assume "dt_status r \<in> set [Turn_Queued, Turn_Recoverable]"
      "conversation_lease (tx_at tx) l (td_leases db) r"
    then show "turn_move (td_leases db) (td_leases db) (td_rows db) r (?f r)"
      by (intro Absorb [where l = l])
        (auto simp: absorb_values_def same_request_def holds_def row_owner_def own CLAIMABLE_STATUSES_def)
  qed
  with Inr show ?thesis by (auto simp: begin_absorb_def split: prod.splits)
qed (simp add: begin_absorb_def)

lemma mark_running_evolves: "tx_ok tx db \<Longrightarrow> evolves db (fst (mark_running tx rid l db))"
  unfolding mark_running_def
  by (rule owned_fenced_update_evolves, assumption, rule Start [where l = l])
    (auto simp: same_request_def same_tenure_def)

lemma mark_terminal_from_evolves:
  assumes "tx_ok tx db" and "set statuses \<subseteq> set ACTIVE_STATUSES" and "s \<in> set TERMINAL_STATUSES"
    and "s = Turn_Absorbed \<longrightarrow> statuses = [Turn_Absorbing]"
  shows "evolves db (fst (mark_terminal_from tx rid l statuses s outcome db))"
  unfolding mark_terminal_from_def
  using assms(2-4)
  by (intro owned_fenced_update_evolves [OF assms(1)] move_terminal_values [OF entitled_owner]) auto

lemma mark_absorbed_evolves: "tx_ok tx db \<Longrightarrow> evolves db (fst (mark_absorbed tx rid l db))"
  unfolding mark_absorbed_def by (rule mark_terminal_from_evolves) (auto simp: turn_statuses)

lemma mark_terminal_evolves: "tx_ok tx db \<Longrightarrow> evolves db (fst (mark_terminal tx rid l s outcome db))"
  using mark_terminal_from_evolves [of tx db ACTIVE_STATUSES s rid l outcome]
  by (auto simp: mark_terminal_def TERMINAL_STATUSES_def split: prod.splits)

lemma mark_recoverable_evolves: "tx_ok tx db \<Longrightarrow> evolves db (fst (mark_recoverable tx rid l outcome db))"
  unfolding mark_recoverable_def
  by (intro owned_fenced_update_evolves move_requeue_values [OF entitled_owner])

lemma settle_transient_failure_evolves:
  assumes "tx_ok tx db"
  shows "evolves db (fst (settle_transient_failure tx rid l outcome retry_after db))"
proof -
  let ?f = "\<lambda>r. (requeue_values (tx_now tx) outcome r)
    \<lparr>dt_next_attempt_at := map_option (\<lambda>d. tx_now tx + d) retry_after, dt_terminal_at := None\<rparr>"
  have "evolves db (fst (owned_fenced_update tx rid l ACTIVE_STATUSES (\<lambda>r. dt_cancel_requested_at r = None) ?f db))"
    by (rule owned_fenced_update_evolves [OF assms], rule move_requeue [OF entitled_owner])
      (auto simp: same_request_def released_def requeue_values_def)
  then show ?thesis
    by (auto simp: settle_transient_failure_def split: prod.splits option.splits)
qed

lemmas stale_defs = recover_stale_claim_def mark_stale_ambiguous_def reconcile_stale_absorbed_def
  reconcile_stale_completed_def cancel_stale_active_def recover_stale_absorbing_def recover_stale_running_def

lemma stale_recoveries_evolve:
  assumes "tx_ok tx db"
  shows "evolves db (fst (recover_stale_claim tx rid l outcome db))"
    and "evolves db (fst (recover_stale_running tx rid l outcome db))"
    and "evolves db (fst (mark_stale_ambiguous tx rid l outcome db))"
    and "evolves db (fst (reconcile_stale_absorbed tx rid l db))"
    and "evolves db (fst (reconcile_stale_completed tx rid l outcome db))"
  unfolding stale_defs
  by (rule stale_update_evolves [OF assms],
      (rule move_requeue_values | rule move_terminal_values), assumption,
      auto simp: unless_cancelled_def turn_statuses)+

lemma recover_stale_absorbing_evolves:
  "tx_ok tx db \<Longrightarrow> evolves db (fst (recover_stale_absorbing tx rid l db))"
  unfolding recover_stale_absorbing_def
  by (rule stale_update_evolves, assumption, rule move_requeue, assumption)
    (auto simp: unless_cancelled_def same_request_def released_def requeue_values_def turn_statuses)

lemma cancel_stale_active_evolves: "tx_ok tx db \<Longrightarrow> evolves db (fst (cancel_stale_active tx rid l db))"
  unfolding cancel_stale_active_def
  by (rule stale_update_evolves, assumption, rule Settle)
    (auto simp: same_request_def terminal_values_def turn_statuses)

lemma begin_tool_recovery_evolves:
  assumes "turn_inv db"
  shows "evolves db (fst (begin_tool_recovery tx rid l c i deadline db))"
proof (cases "check_owner l c i")
  case (Inr u)
  have own: "owner_id l = turn_owner_id c i"
    using Inr by (simp add: check_owner_def split: if_splits)
  show ?thesis
  proof (cases "find_turn rid (td_rows db)")
    case (Some e)
    have "turn_move (td_leases db) (td_leases db) (td_rows db) r
        (r\<lparr>dt_owner_controller_id := Some c, dt_owner_incarnation_id := Some i,
           dt_fencing_token := Some (fencing_token l), dt_outcome := oc, dt_updated_at := now\<rparr>)"
      if "r \<in> set (td_rows db)" "dt_request_id r = rid" "dt_status e \<in> set ACTIVE_STATUSES"
        "dt_fencing_token e = Some t" "t < fencing_token l"
        "resource_key l = conversation_lease_key (dt_conversation_id e)" "lease_predicate tx l db"
      for r oc now t
      using that find_turn_unique [OF assms Some, of r]
      by (intro Retake [where l = l])
        (auto simp: same_request_def entitled_def conversation_lease_def lease_predicate_def holds_def row_owner_def own)
    then show ?thesis
      using Inr Some
      by (auto simp: begin_tool_recovery_def Let_def split_beta not_le intro!: update_turn_evolves split: option.splits)
  qed (simp add: begin_tool_recovery_def Inr)
qed (simp add: begin_tool_recovery_def)

lemma mark_tool_recovery_terminal_evolves:
  assumes "tx_ok tx db"
  shows "evolves db (fst (mark_tool_recovery_terminal tx rid l s outcome db))"
proof -
  have "evolves db (d\<lparr>td_links := lks\<rparr>)" if "evolves db d" for d lks
    using that by (auto simp: evolves_def)
  with mark_terminal_from_evolves [OF assms, of ACTIVE_STATUSES s rid l outcome] show ?thesis
    by (auto simp: mark_tool_recovery_terminal_def TERMINAL_STATUSES_def split: prod.splits option.splits)
qed

lemma finish_tool_recovery_evolves:
  assumes "turn_inv db"
  shows "evolves db (fst (finish_tool_recovery tx rid l outcome db))"
proof (cases "live_request tx rid l db")
  case (Some e)
  note live = live_requestD [OF assms Some]
  let ?f = "\<lambda>r. (if dt_cancel_requested_at r \<noteq> None
      then r\<lparr>dt_status := Turn_Cancelled, dt_outcome := VDict [(''phase'', VStr ''cancelled''),
               (''reason'', VStr ''cancelled during tool recovery'')], dt_terminal_at := Some (tx_now tx)\<rparr>
      else r\<lparr>dt_status := Turn_Recoverable, dt_outcome := outcome\<rparr>)
    \<lparr>dt_owner_controller_id := None, dt_owner_incarnation_id := None, dt_fencing_token := None, dt_updated_at := tx_now tx\<rparr>"
  have "turn_move (td_leases db) (td_leases db) (td_rows db) r (?f r)"
    if "r \<in> set (td_rows db)" "dt_request_id r = rid" for r
  proof (cases "dt_cancel_requested_at r")
    case None
    with live [OF that] show ?thesis
      by (intro move_requeue [OF entitled_owner]) (auto simp: same_request_def released_def)
  next
    case (Some t)
    with live [OF that] show ?thesis
      by (intro Settle [OF _ _ _ entitled_owner]) (auto simp: same_request_def turn_statuses)
  qed
  with Some show ?thesis
    by (auto simp: finish_tool_recovery_def intro!: update_turn_evolves)
qed (simp add: finish_tool_recovery_def)

subsection \<open>Evolution keeps the invariant\<close>

lemma status_cases: "dt_status r \<in> set CLAIMABLE_STATUSES \<or> dt_status r \<in> set ACTIVE_STATUSES \<or>
    dt_status r \<in> set TERMINAL_STATUSES"
  by (cases "dt_status r") (auto simp: turn_statuses)

lemma terminal_iff: "s \<in> set TERMINAL_STATUSES \<longleftrightarrow> s \<notin> set NONTERMINAL_STATUSES"
  by (cases s) (auto simp: turn_statuses)

lemma move_terminal:
  "turn_move ls ls' rows r r' \<Longrightarrow> dt_status r \<in> set TERMINAL_STATUSES \<Longrightarrow>
     dt_status r' = dt_status r \<and> dt_terminal_at r' = dt_terminal_at r"
  by (induction rule: turn_move.induct) (auto simp: turn_statuses same_tenure_def)

lemma row_ok_active:
  "dt_status r \<in> set ACTIVE_STATUSES \<Longrightarrow> row_owner r \<noteq> None \<Longrightarrow> dt_fencing_token r \<noteq> None \<Longrightarrow>
     dt_terminal_at r = None \<Longrightarrow> (dt_status r = Turn_Absorbing \<Longrightarrow> dt_absorbed_by_turn_id r \<noteq> None) \<Longrightarrow> row_ok r"
  by (auto simp: row_ok_def turn_statuses)

lemma row_ok_claimable:
  "dt_status r \<in> set CLAIMABLE_STATUSES \<Longrightarrow> released r \<Longrightarrow> dt_terminal_at r = None \<Longrightarrow> row_ok r"
  by (auto simp: row_ok_def turn_statuses)

lemma row_ok_terminal:
  "dt_status r \<in> set TERMINAL_STATUSES \<Longrightarrow> dt_terminal_at r \<noteq> None \<Longrightarrow>
     (dt_status r = Turn_Absorbed \<Longrightarrow> dt_absorbed_by_turn_id r \<noteq> None) \<Longrightarrow> row_ok r"
  by (auto simp: row_ok_def turn_statuses)

lemma row_okD:
  "row_ok r \<Longrightarrow> dt_status r \<in> set ACTIVE_STATUSES \<Longrightarrow> row_owner r \<noteq> None \<and> dt_fencing_token r \<noteq> None"
  "row_ok r \<Longrightarrow> dt_status r \<in> set ACTIVE_STATUSES \<or> dt_status r \<in> set CLAIMABLE_STATUSES \<Longrightarrow> dt_terminal_at r = None"
  "row_ok r \<Longrightarrow> dt_status r = Turn_Absorbing \<Longrightarrow> dt_absorbed_by_turn_id r \<noteq> None"
  by (auto simp: row_ok_def)

lemma move_row_ok: "turn_move ls ls' rows r r' \<Longrightarrow> row_ok r \<Longrightarrow> row_ok r'"
proof (induction rule: turn_move.induct)
  case (Keep r r')
  then show ?case by (simp add: row_ok_def same_tenure_def released_def row_owner_def)
next
  case (Start r r' clk l)
  then have "row_owner r' = row_owner r" by (simp add: same_tenure_def row_owner_def)
  with Start row_okD [of r] show ?case
    by (intro row_ok_active) (simp_all add: same_tenure_def turn_statuses)
next
  case (Take r r' clk l)
  then show ?case by (intro row_ok_active) (simp_all add: holds_def turn_statuses)
next
  case (Absorb r r' clk l)
  with row_okD [of r] show ?case by (intro row_ok_active) (simp_all add: holds_def turn_statuses)
next
  case (Retake r r' clk l)
  with row_okD [of r] show ?case by (intro row_ok_active) (simp_all add: holds_def)
next
  case (Requeue r r' clk l)
  with row_okD [of r] show ?case by (intro row_ok_claimable) (auto simp: CLAIMABLE_STATUSES_def)
next
  case (Settle r r' clk l)
  with row_okD [of r] show ?case by (intro row_ok_terminal) simp_all
next
  case (Quarantine r r' clk l)
  then show ?case by (intro row_ok_terminal) (simp_all add: TERMINAL_STATUSES_def)
next
  case (Drop r r')
  then show ?case by (intro row_ok_terminal) (simp_all add: TERMINAL_STATUSES_def)
qed

lemma conversation_lease_fence:
  "conversation_lease clk l ls r \<Longrightarrow>
     fence_of ls (conversation_lease_key (dt_conversation_id r)) = Some (fencing_token l)"
  by (metis conversation_lease_def store.current_fence)

lemma fence_ok_mono: "fence_ok ls r \<Longrightarrow> fences_kept ls ls' \<Longrightarrow> fence_ok ls' r"
  unfolding fence_ok_def fences_kept_def by (meson order_trans)

lemma fence_ok_lease:
  "conversation_lease clk l ls r \<Longrightarrow> holds l r' \<Longrightarrow> dt_conversation_id r' = dt_conversation_id r \<Longrightarrow> fence_ok ls r'"
  by (auto simp: fence_ok_def holds_def conversation_lease_fence)

lemma fence_ok_cong:
  "fence_ok ls r \<Longrightarrow> dt_fencing_token r' \<in> {dt_fencing_token r, None} \<Longrightarrow>
     dt_conversation_id r' = dt_conversation_id r \<Longrightarrow> fence_ok ls r'"
  by (auto simp: fence_ok_def)

text \<open>A move leaves the token, drops it, or writes one that the lease table has reached.\<close>

lemma move_token:
  "turn_move ls ls' rows r r' \<Longrightarrow>
     dt_fencing_token r' \<in> {dt_fencing_token r, None} \<or>
     (\<exists>clk l. conversation_lease clk l ls r \<and> holds l r') \<or>
     fence_of ls' (conversation_lease_key (dt_conversation_id r)) = dt_fencing_token r'"
  by (induction rule: turn_move.induct) (auto simp: same_tenure_def entitled_def)

lemma move_fence_ok:
  assumes "turn_move ls ls' rows r r'" and "fence_ok ls r" and "fences_kept ls ls'"
  shows "fence_ok ls' r'"
proof -
  have conv: "dt_conversation_id r' = dt_conversation_id r"
    using turn_move_request [OF assms(1)] by (simp add: same_request_def)
  from move_token [OF assms(1)] consider
      "dt_fencing_token r' \<in> {dt_fencing_token r, None}"
    | "\<exists>clk l. conversation_lease clk l ls r \<and> holds l r'"
    | "fence_of ls' (conversation_lease_key (dt_conversation_id r)) = dt_fencing_token r'"
    by blast
  then show ?thesis
  proof cases
    case 1
    with assms(2,3) conv show ?thesis by (blast intro: fence_ok_mono fence_ok_cong)
  next
    case 2
    with assms(3) conv show ?thesis by (blast intro: fence_ok_mono fence_ok_lease)
  next
    case 3
    with conv show ?thesis by (simp add: fence_ok_def)
  qed
qed

lemma move_running:
  "turn_move ls ls' rows r r' \<Longrightarrow> dt_status r' \<in> {Turn_Claimed, Turn_Running} \<Longrightarrow>
     dt_status r \<in> {Turn_Claimed, Turn_Running} \<or> \<not> has_predecessor r rows"
  by (induction rule: turn_move.induct) (auto simp: turn_statuses)

lemma has_predecessor_iff:
  "has_predecessor r rows \<longleftrightarrow> (\<exists>e \<in> set rows. dt_conversation_id e = dt_conversation_id r \<and>
     dt_admission_order e < dt_admission_order r \<and> dt_status e \<in> set NONTERMINAL_STATUSES)"
  by (simp add: has_predecessor_def list_ex_iff)

text \<open>No move gives a row a predecessor it did not have.\<close>

lemma no_new_predecessor:
  assumes moves: "\<And>e. e \<in> set rows \<Longrightarrow> turn_move ls ls' rows e (g e)"
    and r: "r \<in> set rows" and late: "\<And>n. n \<in> set news \<Longrightarrow> dt_admission_order r \<le> dt_admission_order n"
    and "\<not> has_predecessor r rows"
  shows "\<not> has_predecessor (g r) (map g rows @ news)"
proof -
  have "same_request e (g e)" if "e \<in> set rows" for e
    using moves [OF that] by (rule turn_move_request)
  moreover have "dt_status (g e) \<in> set TERMINAL_STATUSES" if "e \<in> set rows" "dt_status e \<in> set TERMINAL_STATUSES" for e
    using move_terminal [OF moves [OF that(1)] that(2)] that(2) by simp
  ultimately show ?thesis
    using assms(4) r late
    by (fastforce simp: has_predecessor_iff same_request_def terminal_iff)
qed

lemma map_same:
  assumes "\<And>r. r \<in> set rows \<Longrightarrow> same_request r (g r)"
  shows "map dt_admission_order (map g rows) = map dt_admission_order rows"
    "map dt_request_id (map g rows) = map dt_request_id rows"
    "map dt_turn_id (map g rows) = map dt_turn_id rows"
    "map (\<lambda>r. (dt_idempotency_scope r, dt_idempotency_key r)) (map g rows) =
       map (\<lambda>r. (dt_idempotency_scope r, dt_idempotency_key r)) rows"
  using assms by (auto simp: same_request_def)

lemma evolves_keys_ok:
  assumes "keys_ok db" and "evolves db db'"
  shows "keys_ok db'"
proof -
  from assms(2) obtain g news where rows: "td_rows db' = map g (td_rows db) @ news"
    and moves: "\<And>r. r \<in> set (td_rows db) \<Longrightarrow> turn_move (td_leases db) (td_leases db') (td_rows db) r (g r)"
    and news: "news = [] \<and> td_next db' = td_next db \<or>
         (\<exists>n. news = [n] \<and> fresh_row db n \<and> td_next db' = td_next db + 1)"
    unfolding evolves_def by blast
  have same: "same_request r (g r)" if "r \<in> set (td_rows db)" for r
    using moves [OF that] by (rule turn_move_request)
  from news show ?thesis
  proof
    assume "news = [] \<and> td_next db' = td_next db"
    with assms(1) rows same map_same [OF same] show ?thesis
      by (auto simp: keys_ok_def same_request_def simp del: map_map)
  next
    assume "\<exists>n. news = [n] \<and> fresh_row db n \<and> td_next db' = td_next db + 1"
    then obtain n where n: "news = [n]" "fresh_row db n" "td_next db' = td_next db + 1"
      by blast
    have old: "sorted_wrt (<) (map dt_admission_order (map g (td_rows db)))"
      "distinct (map dt_request_id (map g (td_rows db)))" "distinct (map dt_turn_id (map g (td_rows db)))"
      "distinct (map (\<lambda>r. (dt_idempotency_scope r, dt_idempotency_key r)) (map g (td_rows db)))"
      using assms(1) map_same [OF same] by (simp_all add: keys_ok_def del: map_map)
    have "dt_admission_order (g r) < td_next db" "\<not> conflicting n (g r)" if "r \<in> set (td_rows db)" for r
      using same [OF that] assms(1) that n(2)
      by (auto simp: same_request_def keys_ok_def fresh_row_def list_ex_iff conflicting_def)
    with n old show ?thesis
      by (auto simp: keys_ok_def rows sorted_wrt_append fresh_row_def conflicting_def simp del: map_map)
        (use less_trans in fastforce)+
  qed
qed

lemma evolves_inv:
  assumes "turn_inv db" and "evolves db db'"
  shows "turn_inv db'"
proof -
  from assms(2) obtain g news where rows: "td_rows db' = map g (td_rows db) @ news"
    and moves: "\<And>r. r \<in> set (td_rows db) \<Longrightarrow> turn_move (td_leases db) (td_leases db') (td_rows db) r (g r)"
    and kept: "fences_kept (td_leases db) (td_leases db')"
    and news: "\<And>n. n \<in> set news \<Longrightarrow> fresh_row db n"
    unfolding evolves_def by fastforce
  have fresh: "row_ok n" "fence_ok ls n" "dt_status n = Turn_Queued" "dt_admission_order n = td_next db"
    if "n \<in> set news" for n ls
    using news [OF that] by (simp_all add: fresh_row_def row_ok_def fence_ok_def turn_statuses)
  have "keys_ok db'"
    using assms evolves_keys_ok unfolding turn_inv_def by blast
  moreover have "list_all row_ok (td_rows db')"
    using assms(1) moves fresh(1) move_row_ok by (fastforce simp: turn_inv_def rows list_all_iff)
  moreover have "list_all (fence_ok (td_leases db')) (td_rows db')"
    using assms(1) moves fresh(2) kept move_fence_ok by (fastforce simp: turn_inv_def rows list_all_iff)
  moreover have "fifo_ok (td_rows db')"
    unfolding fifo_ok_def rows
  proof (intro ballI impI)
    fix r'
    assume "r' \<in> set (map g (td_rows db) @ news)" and run: "dt_status r' \<in> {Turn_Claimed, Turn_Running}"
    then obtain r where r: "r \<in> set (td_rows db)" "r' = g r"
      using fresh(3) by auto
    have "\<not> has_predecessor r (td_rows db)"
      using move_running [OF moves [OF r(1)]] run r assms(1) by (auto simp: turn_inv_def fifo_ok_def)
    moreover have "dt_admission_order r \<le> dt_admission_order n" if "n \<in> set news" for n
      using fresh(4) [OF that] assms(1) r(1) by (auto simp: turn_inv_def keys_ok_def)
    ultimately show "\<not> has_predecessor r' (map g (td_rows db) @ news)"
      unfolding r(2) using moves r(1) by (intro no_new_predecessor)
  qed
  ultimately show ?thesis by (simp add: turn_inv_def)
qed

subsection \<open>The remaining methods\<close>

lemma acquire_fences_kept: "acquire_in_session now t k own ls = (ls', r) \<Longrightarrow> fences_kept ls ls'"
  using fences_kept_run_op [of ls "Op_Acquire now t k own"] by simp

lemma release_fences_kept: "fences_kept ls (fst (release now l ls))"
  using fences_kept_run_op [of ls "Op_Release now l"] by simp

lemma fences_kept_trans: "fences_kept a b \<Longrightarrow> fences_kept b c \<Longrightarrow> fences_kept a c"
  unfolding fences_kept_def by (meson order_trans)

lemma fence_after_quarantine:
  "acquire_in_session clk t k own ls = (ls', Some l) \<Longrightarrow>
     fence_of (fst (release now l ls')) k = Some (fencing_token l)"
  by (auto simp: lease_defs fence_of_def Let_def split: option.splits if_splits)

text \<open>A lease is granted to the operator only when the row's own is not current.\<close>

lemma acquire_not_current:
  "acquire_in_session clk t k own ls = (ls', Some l') \<Longrightarrow> resource_key l = k \<Longrightarrow> owner_id l \<noteq> own \<Longrightarrow>
     \<not> is_current clk l ls"
  by (auto simp: lease_defs Let_def split: option.splits if_splits)

lemma quarantine_evolves:
  assumes "turn_inv db" and "find_turn rid (td_rows db) = Some e" and "dt_status e \<in> set ACTIVE_STATUSES"
  shows "evolves db (fst (quarantine tx q rid e db))"
proof (cases "acquire_in_session (tx_at tx) OPERATOR_RECOVERY_LEASE_TTL
    (conversation_lease_key (dt_conversation_id e)) (''operator-recovery:'' @ audit_digest q rid) (td_leases db)")
  case (Pair ls o')
  show ?thesis
  proof (cases o')
    case None
    with Pair show ?thesis by (simp add: quarantine_def Let_def)
  next
    case (Some l)
    let ?key = "conversation_lease_key (dt_conversation_id e)"
    let ?ls' = "fst (release (tx_now tx) l ls)"
    note acq = Pair [unfolded Some]
    have mem: "e \<in> set (td_rows db)"
      using assms(2) by (auto simp: find_turn_def dest: find_first_SomeD)
    then have "row_ok e" using assms(1) by (auto simp: turn_inv_def list_all_iff)
    then obtain own tok where own: "row_owner e = Some own" "dt_fencing_token e = Some tok"
      using row_okD(1) assms(3) by blast
    let ?l = "\<lparr>resource_key = ?key, owner_id = own, fencing_token = tok, lease_expires_at = 0\<rparr>"
    have "operator_lease ?l" if "is_current (tx_at tx) ?l (td_leases db)"
      using acquire_not_current [OF acq, of ?l] that unfolding operator_lease_def by auto
    moreover have "holds ?l e" using own by (simp add: holds_def)
    moreover have "fence_of ?ls' ?key = Some (fencing_token l)"
      using acq by (rule fence_after_quarantine)
    ultimately have move: "turn_move (td_leases db) ?ls' (td_rows db) e (recovery_values q (tx_now tx) rid l e e)"
      using assms(3) by (intro Quarantine [where l = ?l]) (auto simp: recovery_values_def same_request_def)
    have kept: "fences_kept (td_leases db) ?ls'"
      using acquire_fences_kept [OF acq] release_fences_kept by (rule fences_kept_trans)
    let ?p = "\<lambda>r. turn_status_value (dt_status r) = rs_status (op_expected q) \<and>
      dt_owner_controller_id r = Some (rs_owner_controller_id (op_expected q)) \<and>
      dt_owner_incarnation_id r = Some (rs_owner_incarnation_id (op_expected q)) \<and>
      dt_fencing_token r = Some (rs_fencing_token (op_expected q)) \<and> dt_updated_at r = rs_updated_at (op_expected q)"
    let ?f = "recovery_values q (tx_now tx) rid l e"
    show ?thesis
    proof (cases "find_first (\<lambda>r. dt_request_id r = rid \<and> ?p r) (td_rows db)")
      case None
      with acq show ?thesis by (simp add: quarantine_def Let_def update_turn_def del: find_first_None_iff)
    next
      case (Some r)
      have "turn_move (td_leases db) ?ls' (td_rows db) r
          (if dt_request_id r = rid \<and> ?p r then ?f r else r)" if "r \<in> set (td_rows db)" for r
        using move find_turn_unique [OF assms(1,2) that] by auto
      with kept show ?thesis
        using acq Some by (intro evolvesI [where g = "\<lambda>r. if dt_request_id r = rid \<and> ?p r then ?f r else r"])
          (simp_all add: quarantine_def Let_def update_turn_def)
    qed
  qed
qed

lemma resolve_stale_tool_ambiguous_evolves:
  assumes "turn_inv db"
  shows "evolves db (fst (resolve_stale_tool_ambiguous tx q rid db))"
  using quarantine_evolves [OF assms, of rid _ tx q]
  by (auto simp: resolve_stale_tool_ambiguous_def Let_def split: option.splits)

lemma create_fenced_channel_delivery_evolves:
  "evolves db (fst (create_fenced_channel_delivery tx rid l v db))"
proof -
  have "evolves db (db\<lparr>td_outbox := ob\<rparr>)" for ob
    by (rule evolvesI [where g = id]) auto
  then show ?thesis
    by (auto simp: create_fenced_channel_delivery_def Let_def split: option.splits)
qed

lemma cancel_all_evolves: "evolves\<^sup>*\<^sup>* db (fst (cancel_all now rows db))"
proof (induction now rows db rule: cancel_all.induct)
  case (2 now r rows db)
  obtain db1 o' where one: "cancel_one now (dt_request_id r) db = (db1, o')" by fastforce
  then have "evolves db db1" using cancel_one_evolves [of db now "dt_request_id r"] by simp
  with 2 one show ?case
    by (cases o') (auto split: prod.splits intro: converse_rtranclp_into_rtranclp)
qed simp

lemma cancel_conversation_evolves: "evolves\<^sup>*\<^sup>* db (fst (cancel_conversation tx conv clr act db))"
proof -
  have "evolves\<^sup>*\<^sup>* db (fst (case cancel_all now rs db of (db', results) \<Rightarrow> (db', Inr results)))" for now rs
    using cancel_all_evolves [of db now rs] by (auto split: prod.splits)
  then show ?thesis
    by (auto simp: cancel_conversation_def Let_def split: sum.splits)
qed

text \<open>An admission appends its row; then a continuation settles its predecessor.\<close>

lemma queued_row_fresh:
  "\<not> list_ex (conflicting (queued_row lib a payload (td_next db) now)) (td_rows db) \<Longrightarrow>
     fresh_row db (queued_row lib a payload (td_next db) now)"
  by (simp add: fresh_row_def queued_row_def released_def)

lemma append_evolves:
  "fresh_row db n \<Longrightarrow> evolves db (db\<lparr>td_rows := td_rows db @ [n], td_next := td_next db + 1\<rparr>)"
  unfolding evolves_def by (intro conjI exI [of _ id] exI [of _ "[n]"]) auto

lemma handoff_evolves:
  assumes "tx_ok tx db" and "handoff tx rid t l n db = Inr (db', b)"
  shows "evolves db db'"
proof -
  let ?f = "\<lambda>r. r\<lparr>dt_status := Turn_Completed, dt_outcome := handoff_outcome n,
    dt_terminal_at := Some (tx_now tx), dt_updated_at := tx_now tx\<rparr>"
  have "evolves db (fst (owned_fenced_update tx rid l ACTIVE_STATUSES (\<lambda>r. dt_cancel_requested_at r = None) ?f db))"
    by (rule owned_fenced_update_evolves [OF assms(1)], rule Settle [OF _ _ _ entitled_owner])
      (auto simp: same_request_def turn_statuses)
  with assms(2) show ?thesis
    by (auto simp: handoff_def split: option.splits if_splits prod.splits)
qed

lemma admit_once_plain:
  "evolves db (fst (admit_once now lib a payload guard None db))"
proof -
  let ?n = "queued_row lib a payload (td_next db) now"
  have "evolves db (db\<lparr>td_rows := td_rows db @ [?n], td_next := td_next db + 1\<rparr>)"
    if "\<not> list_ex (conflicting ?n) (td_rows db)"
    using append_evolves [OF queued_row_fresh [OF that]] .
  then show ?thesis
    by (auto simp: admit_once_def finish_admission_def Let_def split: option.splits prod.splits)
qed

lemma admit_once_participant:
  "fst (admit_once now lib a payload guard (Some f) db) = db \<or>
   (\<exists>r b. f r b (fst (admit_once now lib a payload guard None db)) =
      Inr (fst (admit_once now lib a payload guard (Some f) db)))"
  by (auto simp: admit_once_def finish_admission_def Let_def split: option.splits prod.splits sum.splits)

lemma admit_continuation_evolves:
  assumes "tx_ok tx (fst (admit_once now lib a payload guard None db))"
  shows "evolves\<^sup>*\<^sup>* db (fst (admit_once now lib a payload guard (Some (handoff_participant tx rid t l)) db))"
proof -
  let ?mid = "fst (admit_once now lib a payload guard None db)"
  let ?done_db = "fst (admit_once now lib a payload guard (Some (handoff_participant tx rid t l)) db)"
  have "evolves ?mid ?done_db" if "handoff_participant tx rid t l r b ?mid = Inr ?done_db" for r b
    using that handoff_evolves [OF assms, of rid t l r]
    by (cases "handoff tx rid t l r ?mid") (auto simp: handoff_participant_def)
  moreover have "evolves db ?mid" by (rule admit_once_plain)
  ultimately show ?thesis
    using admit_once_participant [of now lib a payload guard "handoff_participant tx rid t l" db]
    by (metis converse_rtranclp_into_rtranclp r_into_rtranclp rtranclp.rtrancl_refl)
qed

subsection \<open>Steps of the store\<close>

inductive turn_step :: "turn_db \<Rightarrow> turn_db \<Rightarrow> bool" where
  Step_Lease: "turn_step db (db\<lparr>td_leases := fst (run_op op (td_leases db))\<rparr>)"
| Step_Admit: "turn_step db (fst (admit_once now lib a payload guard None db))"
| Step_Continue: "tx_ok tx (fst (admit_once now lib a payload guard None db)) \<Longrightarrow>
     turn_step db (fst (admit_once now lib a payload guard (Some (handoff_participant tx rid t l)) db))"
| Step_Edit: "turn_step db (fst (edit now lib rid payload v h db))"
| Step_Visibility: "turn_step db (fst (complete_failure_visibility tx rid db))"
| Step_Request_Cancel: "turn_step db (fst (request_cancel now rid db))"
| Step_Cancel: "turn_step db (fst (cancel_conversation tx conv clr act db))"
| Step_Expedite: "turn_step db (fst (expedite_provider_retry now conv sid revision db))"
| Step_Checkpoint: "turn_step db (fst (checkpoint tx rid l phase metadata clr db))"
| Step_Record: "turn_step db (fst (record_tool_dispatch tx rid l sid tid ds metadata db))"
| Step_Complete: "turn_step db (fst (complete_tool_dispatch tx rid l sid tid cs metadata db))"
| Step_Merge: "turn_step db (fst (merge_tool_dispatch tx rid l sid tid cid x xi st db))"
| Step_Begin_Recovery: "turn_step db (fst (begin_tool_recovery tx rid l c i deadline db))"
| Step_Recovery_Terminal: "tx_ok tx db \<Longrightarrow> turn_step db (fst (mark_tool_recovery_terminal tx rid l s outcome db))"
| Step_Finish_Recovery: "turn_step db (fst (finish_tool_recovery tx rid l outcome db))"
| Step_Claim: "tx_ok tx db \<Longrightarrow> turn_step db (fst (claim tx rid l c i session_id db))"
| Step_Running: "tx_ok tx db \<Longrightarrow> turn_step db (fst (mark_running tx rid l db))"
| Step_Absorb: "tx_ok tx db \<Longrightarrow> turn_step db (fst (begin_absorb tx rid l c i tid session_id db))"
| Step_Absorbed: "tx_ok tx db \<Longrightarrow> turn_step db (fst (mark_absorbed tx rid l db))"
| Step_Recoverable: "tx_ok tx db \<Longrightarrow> turn_step db (fst (mark_recoverable tx rid l outcome db))"
| Step_Transient: "tx_ok tx db \<Longrightarrow> turn_step db (fst (settle_transient_failure tx rid l outcome retry db))"
| Step_Terminal: "tx_ok tx db \<Longrightarrow> turn_step db (fst (mark_terminal tx rid l s outcome db))"
| Step_Stale_Claim: "tx_ok tx db \<Longrightarrow> turn_step db (fst (recover_stale_claim tx rid l outcome db))"
| Step_Stale_Ambiguous: "tx_ok tx db \<Longrightarrow> turn_step db (fst (mark_stale_ambiguous tx rid l outcome db))"
| Step_Stale_Absorbed: "tx_ok tx db \<Longrightarrow> turn_step db (fst (reconcile_stale_absorbed tx rid l db))"
| Step_Stale_Completed: "tx_ok tx db \<Longrightarrow> turn_step db (fst (reconcile_stale_completed tx rid l outcome db))"
| Step_Stale_Cancel: "tx_ok tx db \<Longrightarrow> turn_step db (fst (cancel_stale_active tx rid l db))"
| Step_Stale_Absorbing: "tx_ok tx db \<Longrightarrow> turn_step db (fst (recover_stale_absorbing tx rid l db))"
| Step_Stale_Running: "tx_ok tx db \<Longrightarrow> turn_step db (fst (recover_stale_running tx rid l outcome db))"
| Step_Operator: "turn_step db (fst (resolve_stale_tool_ambiguous tx q rid db))"
| Step_Delivery: "turn_step db (fst (create_fenced_channel_delivery tx rid l v db))"

lemma lease_step_evolves: "evolves db (db\<lparr>td_leases := fst (run_op op (td_leases db))\<rparr>)"
  by (rule evolvesI [where g = id]) auto

lemmas methods_evolve = lease_step_evolves admit_once_plain edit_evolves complete_failure_visibility_evolves
  request_cancel_evolves expedite_provider_retry_evolves checkpoint_evolves record_tool_dispatch_evolves
  complete_tool_dispatch_evolves merge_tool_dispatch_evolves begin_tool_recovery_evolves
  mark_tool_recovery_terminal_evolves finish_tool_recovery_evolves claim_evolves mark_running_evolves
  begin_absorb_evolves mark_absorbed_evolves mark_recoverable_evolves settle_transient_failure_evolves
  mark_terminal_evolves stale_recoveries_evolve recover_stale_absorbing_evolves cancel_stale_active_evolves
  resolve_stale_tool_ambiguous_evolves create_fenced_channel_delivery_evolves

lemma turn_step_evolves: "turn_step db db' \<Longrightarrow> turn_inv db \<Longrightarrow> evolves\<^sup>*\<^sup>* db db'"
proof (induction rule: turn_step.induct)
  case (Step_Continue tx now lib a payload guard db rid t l)
  then show ?case by (blast intro: admit_continuation_evolves)
next
  case (Step_Cancel db tx conv clr act)
  show ?case by (rule cancel_conversation_evolves)
qed (rule r_into_rtranclp, (rule methods_evolve; assumption))+

definition turn_start :: "turn_db \<Rightarrow> bool" where
  "turn_start db \<longleftrightarrow> td_rows db = []"

lemma evolves_steps_inv: "evolves\<^sup>*\<^sup>* db db' \<Longrightarrow> turn_inv db \<Longrightarrow> turn_inv db'"
  by (induction rule: rtranclp_induct) (blast intro: evolves_inv)+

interpretation turns: inv_system turn_start turn_step turn_inv
proof unfold_locales
  fix db db' :: turn_db
  show "turn_start db \<Longrightarrow> turn_inv db"
    by (simp add: turn_start_def turn_inv_def keys_ok_def fifo_ok_def)
  show "turn_inv db \<Longrightarrow> turn_step db db' \<Longrightarrow> turn_inv db'"
    by (blast intro: turn_step_evolves evolves_steps_inv)
qed

subsection \<open>Histories\<close>

text \<open>Along any steps of the store a row stays, as the same request.\<close>

lemma evolves_row:
  assumes "evolves db db'" and "r \<in> set (td_rows db)"
  shows "\<exists>r' \<in> set (td_rows db'). turn_move (td_leases db) (td_leases db') (td_rows db) r r'"
proof -
  from assms(1) obtain g news where "td_rows db' = map g (td_rows db) @ news"
    and "\<forall>r \<in> set (td_rows db). turn_move (td_leases db) (td_leases db') (td_rows db) r (g r)"
    unfolding evolves_def by blast
  with assms(2) show ?thesis by auto
qed

lemma same_request_trans: "same_request r e \<Longrightarrow> same_request e s \<Longrightarrow> same_request r s"
  by (simp add: same_request_def)

lemma steps_evolve: "turn_step\<^sup>*\<^sup>* db db' \<Longrightarrow> turn_inv db \<Longrightarrow> evolves\<^sup>*\<^sup>* db db'"
proof (induction rule: rtranclp_induct)
  case (step a b)
  then have "evolves\<^sup>*\<^sup>* db a" by blast
  moreover have "turn_inv a" using step turns.steps_inv by blast
  ultimately show ?case using step(2) turn_step_evolves by (meson rtranclp_trans)
qed simp

text \<open>What every move keeps of a row is kept along a history.\<close>

lemma evolve_history:
  assumes "evolves\<^sup>*\<^sup>* db db'" and "r \<in> set (td_rows db)" and "P r"
    and "\<And>ls ls' rows e e'. turn_move ls ls' rows e e' \<Longrightarrow> P e \<Longrightarrow> P e'"
  shows "\<exists>r' \<in> set (td_rows db'). same_request r r' \<and> P r'"
  using assms(1)
proof (induction rule: rtranclp_induct)
  case base
  with assms(2,3) show ?case by blast
next
  case (step a b)
  then obtain e where e: "e \<in> set (td_rows a)" "same_request r e" "P e" by blast
  from evolves_row [OF step(2) e(1)] obtain e' where
    "e' \<in> set (td_rows b)" "turn_move (td_leases a) (td_leases b) (td_rows a) e e'" by blast
  with e assms(4) turn_move_request same_request_trans show ?case by blast
qed

lemma evolves_fences: "evolves\<^sup>*\<^sup>* db db' \<Longrightarrow> fences_kept (td_leases db) (td_leases db')"
proof (induction rule: rtranclp_induct)
  case (step a b)
  then have "fences_kept (td_leases a) (td_leases b)" by (simp add: evolves_def)
  with step show ?case by (blast intro: fences_kept_trans)
qed simp

text \<open>A table read earlier in the history is a table a transaction may still act on.\<close>

lemma earlier_read_ok:
  assumes "turn_inv db" and "turn_step\<^sup>*\<^sup>* db db'" and "tx_seen tx = td_rows db"
  shows "tx_ok tx db'"
  unfolding tx_ok_def assms(3)
proof (intro ballI impI)
  fix e r
  assume e: "e \<in> set (td_rows db)" and r: "r \<in> set (td_rows db')" and eq: "dt_request_id e = dt_request_id r"
  have ev: "evolves\<^sup>*\<^sup>* db db'" using steps_evolve assms(1,2) by blast
  obtain e' where e': "e' \<in> set (td_rows db')" "same_request e e'"
    using evolve_history [OF ev e, of "\<lambda>_. True"] by blast
  have "turn_inv db'" using ev assms(1) evolves_steps_inv by blast
  then have "e' = r"
    using e' r eq unfolding turn_inv_def keys_ok_def same_request_def
    by (metis distinct_map_eqD [of dt_request_id])
  with e' show "dt_conversation_id e = dt_conversation_id r" by (simp add: same_request_def)
qed

subsection \<open>A small history\<close>

definition demo_lib :: payload_lib where
  "demo_lib = \<lparr>pl_model = Inr, pl_origin = Some, pl_admission = (\<lambda>v. if is_dict v then Some (False, v) else None), pl_hash = (\<lambda>v. ''h'')\<rparr>"

definition demo_payload :: "(string \<times> pyval) list" where
  "demo_payload = [(''schema_version'', VInt 1), (''content'', VStr ''hello''), (''metadata'', VDict [])]"

definition demo_admission :: "string \<Rightarrow> admission" where
  "demo_admission n =
     \<lparr>ad_conversation_id = ''conv'', ad_session_id = None, ad_agent_id = ''agent'', ad_user_id = ''user'',
      ad_scope = ''web'', ad_key = n, ad_request_id = ''dtr_'' @ n, ad_turn_id = ''turn_'' @ n,
      ad_payload_version = 1, ad_generated = False\<rparr>"

definition demo_empty :: turn_db where
  "demo_empty = \<lparr>td_rows = [], td_next = 1, td_leases = Map.empty, td_conversations = Map.empty,
     td_links = [], td_audit = [], td_outbox = []\<rparr>"

definition demo_lease :: lease where
  "demo_lease = \<lparr>resource_key = conversation_lease_key ''conv'', owner_id = turn_owner_id ''c1'' ''i1'',
     fencing_token = 1, lease_expires_at = 100\<rparr>"

definition demo_queued :: turn_db where
  "demo_queued =
     (let db1 = fst (admit_once 0 demo_lib (demo_admission ''a'') demo_payload None None demo_empty);
          db2 = fst (admit_once 1 demo_lib (demo_admission ''b'') demo_payload None None db1)
      in db2\<lparr>td_leases := fst (run_op (Op_Acquire 0 100 (conversation_lease_key ''conv'') (turn_owner_id ''c1'' ''i1''))
               (td_leases db2))\<rparr>)"

definition demo_tx :: "turn_db \<Rightarrow> txn" where
  "demo_tx db = \<lparr>tx_now = 2, tx_at = 3, tx_seen = td_rows db\<rparr>"

definition demo_running :: turn_db where
  "demo_running =
     (let db1 = fst (claim (demo_tx demo_queued) ''dtr_a'' demo_lease ''c1'' ''i1'' None demo_queued)
      in fst (mark_running (demo_tx db1) ''dtr_a'' demo_lease db1))"

definition demo_settled :: turn_db where
  "demo_settled =
     fst (mark_terminal (demo_tx demo_running) ''dtr_a'' demo_lease Turn_Completed VNone demo_running)"

definition demo_usurped :: turn_db where
  "demo_usurped = demo_running\<lparr>td_leases :=
     fst (run_op (Op_Takeover 50 100 (conversation_lease_key ''conv'') (turn_owner_id ''c2'' ''i2''))
       (td_leases demo_running))\<rparr>"

lemma reach_demo_queued: "reach turn_start turn_step demo_queued"
proof -
  have "reach turn_start turn_step demo_empty"
    by (rule reach_start) (simp add: turn_start_def demo_empty_def)
  note admitted = reach_step [OF reach_step [OF this Step_Admit] Step_Admit]
  show ?thesis unfolding demo_queued_def Let_def
    by (rule reach_step [OF admitted Step_Lease])
qed

lemma tx_ok_demo:
  "reach turn_start turn_step db \<Longrightarrow> tx_ok (demo_tx db) db"
  using turns.reach_inv [of db] by (intro earlier_read_ok) (auto simp: demo_tx_def)

lemma reach_demo_running: "reach turn_start turn_step demo_running"
  unfolding demo_running_def Let_def
  by (meson reach_demo_queued tx_ok_demo reach_step Step_Claim Step_Running)

lemma reach_demo_settled: "reach turn_start turn_step demo_settled"
  unfolding demo_settled_def
  by (meson reach_demo_running tx_ok_demo reach_step Step_Terminal)

lemma reach_demo_usurped: "reach turn_start turn_step demo_usurped"
  unfolding demo_usurped_def
  by (rule reach_step [OF reach_demo_running Step_Lease])

subsection \<open>Properties of the rows\<close>

text \<open>
  C22. Every row of every reachable table is well typed: an active turn has an owner and a fencing
  token and has not ended, a waiting turn has no owner, a settled turn has the time it ended, and a
  turn that is being absorbed or was absorbed names the turn that took it in.
\<close>

theorem turn_rows_well_typed:
  assumes "reach turn_start turn_step db" and "r \<in> set (td_rows db)"
  shows "(case dt_status r of
      Turn_Queued \<Rightarrow> released r \<and> dt_terminal_at r = None
    | Turn_Recoverable \<Rightarrow> released r \<and> dt_terminal_at r = None
    | Turn_Claimed \<Rightarrow> row_owner r \<noteq> None \<and> dt_fencing_token r \<noteq> None \<and> dt_terminal_at r = None
    | Turn_Running \<Rightarrow> row_owner r \<noteq> None \<and> dt_fencing_token r \<noteq> None \<and> dt_terminal_at r = None
    | Turn_Absorbing \<Rightarrow> row_owner r \<noteq> None \<and> dt_fencing_token r \<noteq> None \<and> dt_terminal_at r = None \<and>
        dt_absorbed_by_turn_id r \<noteq> None
    | Turn_Absorbed \<Rightarrow> dt_terminal_at r \<noteq> None \<and> dt_absorbed_by_turn_id r \<noteq> None
    | _ \<Rightarrow> dt_terminal_at r \<noteq> None)"
  using turns.reach_inv [OF assms(1)] assms(2)
  by (auto simp: turn_inv_def list_all_iff row_ok_def turn_statuses split: turn_status.split)

theorem turn_rows_well_typed_witness:
  "row_owner (hd (td_rows demo_running)) = Some ''c1:i1'' \<and> dt_terminal_at (hd (td_rows demo_running)) = None"
proof -
  have run: "td_rows demo_running \<noteq> []" "dt_status (hd (td_rows demo_running)) = Turn_Running"
    "row_owner (hd (td_rows demo_running)) = Some ''c1:i1''"
    by code_simp+
  have "dt_terminal_at (hd (td_rows demo_running)) = None"
    using turn_rows_well_typed [OF reach_demo_running hd_in_set [OF run(1)]] run(2) by simp
  with run show ?thesis by simp
qed

text \<open>
  C8. A conversation runs one turn at a time, in the order the messages were admitted: in every
  reachable table, when a turn is claimed or runs, every turn of the conversation admitted before it
  is settled, and no other turn of the conversation is claimed or runs.
\<close>

theorem one_running_turn_per_conversation:
  assumes "reach turn_start turn_step db" and "r \<in> set (td_rows db)" and "e \<in> set (td_rows db)"
    and "dt_conversation_id e = dt_conversation_id r"
    and "dt_status r \<in> {Turn_Claimed, Turn_Running}"
  shows "(dt_admission_order e < dt_admission_order r \<longrightarrow> dt_status e \<in> set TERMINAL_STATUSES) \<and>
    (dt_status e \<in> {Turn_Claimed, Turn_Running} \<longrightarrow> e = r)"
proof -
  have inv: "turn_inv db" using assms(1) by (rule turns.reach_inv)
  have fifo: "\<not> has_predecessor x (td_rows db)"
    if "x \<in> set (td_rows db)" "dt_status x \<in> {Turn_Claimed, Turn_Running}" for x
    using inv that by (auto simp: turn_inv_def fifo_ok_def)
  have ord: "e = r" if "dt_admission_order e = dt_admission_order r"
    using inv assms(2,3) that unfolding turn_inv_def keys_ok_def
    by (metis distinct_map_eqD strict_sorted_iff)
  show ?thesis
  proof (intro conjI impI)
    assume "dt_admission_order e < dt_admission_order r"
    with fifo [OF assms(2,5)] assms(3,4) show "dt_status e \<in> set TERMINAL_STATUSES"
      by (auto simp: has_predecessor_iff terminal_iff)
  next
    assume run: "dt_status e \<in> {Turn_Claimed, Turn_Running}"
    have live: "dt_status x \<in> set NONTERMINAL_STATUSES" if "dt_status x \<in> {Turn_Claimed, Turn_Running}" for x :: turn_row
      using that by (auto simp: turn_statuses)
    have "\<not> dt_admission_order e < dt_admission_order r" "\<not> dt_admission_order r < dt_admission_order e"
      using fifo [OF assms(2,5)] fifo [OF assms(3) run] live [OF run] live [OF assms(5)] assms(2-4)
      unfolding has_predecessor_iff by metis+
    with ord show "e = r" by simp
  qed
qed

theorem one_running_turn_per_conversation_witness:
  "dt_status (td_rows demo_running ! 1) = Turn_Queued \<and> dt_status (td_rows demo_running ! 0) = Turn_Running \<and>
   dt_status (td_rows demo_running ! 1) \<notin> {Turn_Claimed, Turn_Running}"
proof -
  have run: "length (td_rows demo_running) = 2" "dt_status (td_rows demo_running ! 0) = Turn_Running"
    "dt_conversation_id (td_rows demo_running ! 1) = dt_conversation_id (td_rows demo_running ! 0)"
    "dt_status (td_rows demo_running ! 1) = Turn_Queued"
    "dt_request_id (td_rows demo_running ! 1) \<noteq> dt_request_id (td_rows demo_running ! 0)"
    by code_simp+
  have mem: "td_rows demo_running ! 0 \<in> set (td_rows demo_running)" "td_rows demo_running ! 1 \<in> set (td_rows demo_running)"
    using run(1) by simp_all
  show ?thesis
    using one_running_turn_per_conversation [OF reach_demo_running mem run(3)] run by auto
qed

text \<open>
  A settled turn stays settled: whatever the controllers, the operator and the user do
  afterwards, a turn that is completed, failed, cancelled, absorbed or ambiguous keeps that status
  and the time it ended.
\<close>

theorem settled_turn_is_final:
  assumes "reach turn_start turn_step db" and "turn_step\<^sup>*\<^sup>* db db'" and "r \<in> set (td_rows db)"
    and "dt_status r \<in> set TERMINAL_STATUSES"
  shows "\<exists>r' \<in> set (td_rows db'). dt_request_id r' = dt_request_id r \<and>
    dt_status r' = dt_status r \<and> dt_terminal_at r' = dt_terminal_at r"
proof -
  let ?P = "\<lambda>e. dt_status e = dt_status r \<and> dt_terminal_at e = dt_terminal_at r"
  have "evolves\<^sup>*\<^sup>* db db'"
    using steps_evolve assms(1,2) turns.reach_inv by blast
  from evolve_history [OF this assms(3), of ?P] assms(4) move_terminal show ?thesis
    by (force simp: same_request_def)
qed

theorem settled_turn_is_final_witness:
  "\<exists>r' \<in> set (td_rows (fst (request_cancel 9 ''dtr_a'' demo_settled))).
     dt_request_id r' = ''dtr_a'' \<and> dt_status r' = Turn_Completed"
proof -
  have run: "td_rows demo_settled \<noteq> []" "dt_status (hd (td_rows demo_settled)) = Turn_Completed"
    "dt_request_id (hd (td_rows demo_settled)) = ''dtr_a''"
    by code_simp+
  have "turn_step\<^sup>*\<^sup>* demo_settled (fst (request_cancel 9 ''dtr_a'' demo_settled))"
    by (rule r_into_rtranclp) (rule Step_Request_Cancel)
  from settled_turn_is_final [OF reach_demo_settled this hd_in_set [OF run(1)]] run show ?thesis
    by (auto simp: TERMINAL_STATUSES_def)
qed

end
