(* ===== verification/Direct_Turn_Promises.thy ===== *)
theory Direct_Turn_Promises
  imports Direct_Turn_Safety
begin

section \<open>What users and controllers may rely on\<close>

text \<open>
  The contract of the turn store for its clients: the tenure of a turn as an abstract lifecycle that
  every method refines, fencing of former owners, admission exactly once, service of every
  conversation's head, stopping, and tool batches that no sibling session forgets.
\<close>

subsection \<open>Tenure of a turn\<close>

datatype tenure = Waiting | Held "string option" "int option" | Over turn_status

definition tenure_of :: "turn_row \<Rightarrow> tenure" where
  "tenure_of r =
     (if dt_status r \<in> set CLAIMABLE_STATUSES then Waiting
      else if dt_status r \<in> set ACTIVE_STATUSES then Held (row_owner r) (dt_fencing_token r)
      else Over (dt_status r))"

text \<open>
  The abstract lifecycle of one turn beside the lease of its conversation. A waiting turn is taken by
  the holder of a current lease, or dropped. A held turn goes back, changes hands or ends only by a
  current lease that is its own or newer; without one, an operator may end it once its lease lapsed.
\<close>

definition may_settle :: "time \<Rightarrow> lease \<Rightarrow> string \<Rightarrow> lease_db \<Rightarrow> string option \<Rightarrow> int option \<Rightarrow> bool" where
  "may_settle clk l key ls own tok \<longleftrightarrow> is_current clk l ls \<and> resource_key l = key \<and>
     (own = Some (owner_id l) \<and> tok = Some (fencing_token l) \<or> (\<exists>t. tok = Some t \<and> t < fencing_token l))"

inductive tenure_step :: "string \<Rightarrow> lease_db \<times> tenure \<Rightarrow> lease_db \<times> tenure \<Rightarrow> bool" for key :: string where
  Tenure_Stay: "fences_kept ls ls' \<Longrightarrow> tenure_step key (ls, x) (ls', x)"
| Tenure_Take: "fences_kept ls ls' \<Longrightarrow> is_current clk l ls \<Longrightarrow> resource_key l = key \<Longrightarrow>
     tenure_step key (ls, Waiting) (ls', Held (Some (owner_id l)) (Some (fencing_token l)))"
| Tenure_Drop: "fences_kept ls ls' \<Longrightarrow> tenure_step key (ls, Waiting) (ls', Over Turn_Cancelled)"
| Tenure_Return: "fences_kept ls ls' \<Longrightarrow> may_settle clk l key ls own tok \<Longrightarrow>
     tenure_step key (ls, Held own tok) (ls', Waiting)"
| Tenure_Change: "fences_kept ls ls' \<Longrightarrow> may_settle clk l key ls own tok \<Longrightarrow>
     tenure_step key (ls, Held own tok) (ls', Held (Some (owner_id l)) (Some (fencing_token l)))"
| Tenure_End: "fences_kept ls ls' \<Longrightarrow> may_settle clk l key ls own tok \<Longrightarrow> s \<in> set TERMINAL_STATUSES \<Longrightarrow>
     tenure_step key (ls, Held own tok) (ls', Over s)"
| Tenure_Quarantine: "fences_kept ls ls' \<Longrightarrow> resource_key l = key \<Longrightarrow> (is_current clk l ls \<Longrightarrow> operator_lease l) \<Longrightarrow>
     tenure_step key (ls, Held (Some (owner_id l)) (Some (fencing_token l))) (ls', Over Turn_Ambiguous)"

inductive_cases tenure_over: "tenure_step key (ls, Over s) y"

lemma tenure_of_cases:
  "dt_status r \<in> set CLAIMABLE_STATUSES \<Longrightarrow> tenure_of r = Waiting"
  "dt_status r \<in> set ACTIVE_STATUSES \<Longrightarrow> tenure_of r = Held (row_owner r) (dt_fencing_token r)"
  "dt_status r \<in> set TERMINAL_STATUSES \<Longrightarrow> tenure_of r = Over (dt_status r)"
  by (auto simp: tenure_of_def turn_statuses)

lemma entitled_may_settle:
  "entitled clk l ls r \<Longrightarrow>
     may_settle clk l (conversation_lease_key (dt_conversation_id r)) ls (row_owner r) (dt_fencing_token r)"
  by (auto simp: entitled_def may_settle_def conversation_lease_def holds_def)

lemma move_tenure:
  assumes "turn_move ls ls' rows r r'" and "fences_kept ls ls'"
  shows "tenure_step (conversation_lease_key (dt_conversation_id r)) (ls, tenure_of r) (ls', tenure_of r')"
  using assms
proof (induction rule: turn_move.induct)
  case (Keep r r')
  then have "tenure_of r' = tenure_of r" by (simp add: tenure_of_def same_tenure_def row_owner_def)
  with Keep show ?case by (simp add: Tenure_Stay)
next
  case (Take r r' clk l)
  then have "tenure_of r' = Held (Some (owner_id l)) (Some (fencing_token l))"
    by (simp add: tenure_of_def holds_def turn_statuses)
  with Take show ?case by (auto simp: tenure_of_cases conversation_lease_def intro: Tenure_Take)
next
  case (Absorb r r' clk l)
  then have "tenure_of r' = Held (Some (owner_id l)) (Some (fencing_token l))"
    by (simp add: tenure_of_def holds_def turn_statuses)
  with Absorb show ?case by (auto simp: tenure_of_cases conversation_lease_def intro: Tenure_Take)
next
  case (Start r r' clk l)
  then have "tenure_of r' = tenure_of r" by (simp add: tenure_of_def same_tenure_def row_owner_def turn_statuses)
  with Start show ?case by (simp add: Tenure_Stay)
next
  case (Retake r r' clk l)
  then have "tenure_of r' = Held (Some (owner_id l)) (Some (fencing_token l))"
    by (simp add: tenure_of_cases holds_def)
  with Retake show ?case by (auto simp: tenure_of_cases intro: Tenure_Change entitled_may_settle)
next
  case (Requeue r r' clk l)
  then have "tenure_of r' = Waiting" by (simp add: tenure_of_def CLAIMABLE_STATUSES_def)
  with Requeue show ?case by (auto simp: tenure_of_cases intro: Tenure_Return entitled_may_settle)
next
  case (Settle r r' clk l)
  then show ?case by (auto simp: tenure_of_cases intro: Tenure_End entitled_may_settle)
next
  case (Quarantine r r' clk l)
  then have "tenure_of r' = Over Turn_Ambiguous" by (simp add: tenure_of_def turn_statuses)
  moreover from Quarantine have "tenure_of r = Held (Some (owner_id l)) (Some (fencing_token l))"
    by (simp add: tenure_of_cases holds_def)
  ultimately show ?case using Quarantine by (auto intro: Tenure_Quarantine)
next
  case (Drop r r')
  then have "tenure_of r' = Over Turn_Cancelled" by (simp add: tenure_of_def turn_statuses)
  with Drop show ?case by (simp add: tenure_of_cases Tenure_Drop)
qed

lemma evolve_tenure:
  assumes "evolves\<^sup>*\<^sup>* db db'" and "r \<in> set (td_rows db)"
  shows "\<exists>r' \<in> set (td_rows db'). same_request r r' \<and>
    (tenure_step (conversation_lease_key (dt_conversation_id r)))\<^sup>*\<^sup>*
      (td_leases db, tenure_of r) (td_leases db', tenure_of r')"
  using assms(1)
proof (induction rule: rtranclp_induct)
  case base
  with assms(2) show ?case by blast
next
  case (step a b)
  then obtain e where e: "e \<in> set (td_rows a)" "same_request r e"
    "(tenure_step (conversation_lease_key (dt_conversation_id r)))\<^sup>*\<^sup>*
      (td_leases db, tenure_of r) (td_leases a, tenure_of e)" by blast
  from evolves_row [OF step(2) e(1)] obtain e' where e': "e' \<in> set (td_rows b)"
    "turn_move (td_leases a) (td_leases b) (td_rows a) e e'" by blast
  have "fences_kept (td_leases a) (td_leases b)" using step(2) by (simp add: evolves_def)
  with e(2) move_tenure [OF e'(2)]
  have "tenure_step (conversation_lease_key (dt_conversation_id r)) (td_leases a, tenure_of e) (td_leases b, tenure_of e')"
    by (simp add: same_request_def)
  with e e' show ?case
    by (meson rtranclp.rtrancl_into_rtrancl same_request_trans turn_move_request)
qed



subsection \<open>Former owners\<close>

text \<open>The methods a controller calls with its lease.\<close>

datatype fenced_op =
    F_Claim string string "string option" | F_Running | F_Absorb string string string "string option"
  | F_Absorbed | F_Recoverable pyval | F_Transient pyval "time option" | F_Terminal turn_status pyval
  | F_Checkpoint string "(string \<times> pyval) list" bool
  | F_Record string "string option" "pyval list" "(string \<times> pyval) list"
  | F_Complete string "string option" "string list" "(string \<times> pyval) list"
  | F_Merge string "string option" string string "string option" string
  | F_Begin_Recovery string string time | F_Recovery_Terminal turn_status pyval | F_Finish_Recovery pyval
  | F_Stale_Claim pyval | F_Stale_Ambiguous pyval | F_Stale_Absorbed | F_Stale_Completed pyval
  | F_Stale_Cancel | F_Stale_Absorbing | F_Stale_Running pyval | F_Delivery delivery

fun run_fenced :: "fenced_op \<Rightarrow> txn \<Rightarrow> string \<Rightarrow> lease \<Rightarrow> turn_db \<Rightarrow> turn_db" where
  "run_fenced (F_Claim c i s) tx rid l db = fst (claim tx rid l c i s db)"
| "run_fenced F_Running tx rid l db = fst (mark_running tx rid l db)"
| "run_fenced (F_Absorb c i t s) tx rid l db = fst (begin_absorb tx rid l c i t s db)"
| "run_fenced F_Absorbed tx rid l db = fst (mark_absorbed tx rid l db)"
| "run_fenced (F_Recoverable oc) tx rid l db = fst (mark_recoverable tx rid l oc db)"
| "run_fenced (F_Transient oc t) tx rid l db = fst (settle_transient_failure tx rid l oc t db)"
| "run_fenced (F_Terminal s oc) tx rid l db = fst (mark_terminal tx rid l s oc db)"
| "run_fenced (F_Checkpoint p m c) tx rid l db = fst (checkpoint tx rid l p m c db)"
| "run_fenced (F_Record s t ds m) tx rid l db = fst (record_tool_dispatch tx rid l s t ds m db)"
| "run_fenced (F_Complete s t cs m) tx rid l db = fst (complete_tool_dispatch tx rid l s t cs m db)"
| "run_fenced (F_Merge s t c x xi st) tx rid l db = fst (merge_tool_dispatch tx rid l s t c x xi st db)"
| "run_fenced (F_Begin_Recovery c i d) tx rid l db = fst (begin_tool_recovery tx rid l c i d db)"
| "run_fenced (F_Recovery_Terminal s oc) tx rid l db = fst (mark_tool_recovery_terminal tx rid l s oc db)"
| "run_fenced (F_Finish_Recovery oc) tx rid l db = fst (finish_tool_recovery tx rid l oc db)"
| "run_fenced (F_Stale_Claim oc) tx rid l db = fst (recover_stale_claim tx rid l oc db)"
| "run_fenced (F_Stale_Ambiguous oc) tx rid l db = fst (mark_stale_ambiguous tx rid l oc db)"
| "run_fenced F_Stale_Absorbed tx rid l db = fst (reconcile_stale_absorbed tx rid l db)"
| "run_fenced (F_Stale_Completed oc) tx rid l db = fst (reconcile_stale_completed tx rid l oc db)"
| "run_fenced F_Stale_Cancel tx rid l db = fst (cancel_stale_active tx rid l db)"
| "run_fenced F_Stale_Absorbing tx rid l db = fst (recover_stale_absorbing tx rid l db)"
| "run_fenced (F_Stale_Running oc) tx rid l db = fst (recover_stale_running tx rid l oc db)"
| "run_fenced (F_Delivery v) tx rid l db = fst (create_fenced_channel_delivery tx rid l v db)"

lemma find_first_False: "(\<And>x. \<not> p x) \<Longrightarrow> find_first p xs = None"
  by simp

lemma update_turn_none: "(\<And>r. \<not> p r) \<Longrightarrow> update_turn rid p f db = (db, None)"
  unfolding update_turn_def by (subst find_first_False) simp_all

lemma lapsed_updates:
  assumes "\<not> lease_predicate tx l db"
  shows "fenced_update tx rid l ss f b db = (db, None)"
    and "owned_fenced_update tx rid l ss p f db = (db, None)"
    and "stale_update tx rid l pre p f db = (db, None)"
    and "live_request tx rid l db = None"
  using assms
  by (auto simp: fenced_update_def owned_fenced_update_def stale_update_def live_request_def update_turn_none
      split: option.splits)

lemma lapsed_delivery:
  "\<not> lease_predicate tx l db \<Longrightarrow> create_fenced_channel_delivery tx rid l v db = (db, None)"
  unfolding create_fenced_channel_delivery_def by (subst find_first_False) (simp_all add: delivery_fence_def)

lemma lapsed_writes_nothing:
  assumes "\<not> lease_predicate tx l db"
  shows "run_fenced op tx rid l db = db"
  using lapsed_updates [OF assms] lapsed_delivery [OF assms] assms
  by (cases op)
    (simp_all add: claim_def begin_absorb_def mark_running_def mark_absorbed_def mark_terminal_def
      mark_terminal_from_def mark_recoverable_def settle_transient_failure_def checkpoint_def
      record_tool_dispatch_def complete_tool_dispatch_def merge_tool_dispatch_def begin_tool_recovery_def
      mark_tool_recovery_terminal_def finish_tool_recovery_def stale_defs split: sum.split option.split)

text \<open>
  C10. A controller whose lease was superseded writes nothing more: once a conversation has handed out a
  newer fence, no method the former holder calls with its old lease changes any table, at any later
  time and after anything that others have done since.
\<close>

theorem superseded_controller_writes_nothing:
  assumes "reach turn_start turn_step db" and "turn_step\<^sup>*\<^sup>* db db'"
    and "fence_of (td_leases db) (resource_key l) = Some n" and "fencing_token l < n"
  shows "run_fenced op tx rid l db' = db'"
proof -
  have "evolves\<^sup>*\<^sup>* db db'"
    using steps_evolve assms(1,2) turns.reach_inv by blast
  then obtain m where "n \<le> m" "fence_of (td_leases db') (resource_key l) = Some m"
    using evolves_fences assms(3) unfolding fences_kept_def by blast
  with assms(4) have "\<not> lease_predicate tx l db'"
    using store.current_fence [of "tx_at tx" l "td_leases db'"] by (auto simp: lease_predicate_def)
  then show ?thesis by (rule lapsed_writes_nothing)
qed

theorem superseded_controller_writes_nothing_witness:
  "run_fenced (F_Terminal Turn_Completed VNone) (demo_tx demo_usurped) ''dtr_a'' demo_lease demo_usurped = demo_usurped"
proof -
  have "fence_of (td_leases demo_usurped) (resource_key demo_lease) = Some 2" "fencing_token demo_lease < 2"
    by code_simp+
  then show ?thesis
    by (rule superseded_controller_writes_nothing [OF reach_demo_usurped rtranclp.rtrancl_refl])
qed

subsection \<open>Admission happens once\<close>

text \<open>The retry loop ends as its committing attempt does.\<close>

lemma admit_cases:
  assumes "admit env lib a payload guard part db = (db', Inr res)"
  shows "\<exists>now db0 validated. validated_payload lib payload (ad_payload_version a) = Inr validated \<and>
    admit_once now lib a validated guard part db0 = (db', Inr res)"
  using assms
  by (auto simp: admit_def split: sum.splits attempt.splits if_splits)

definition admitted_as :: "payload_lib \<Rightarrow> admission \<Rightarrow> (string \<times> pyval) list \<Rightarrow> turn_row \<Rightarrow> bool" where
  "admitted_as lib a payload r \<longleftrightarrow> dt_idempotency_scope r = ad_scope a \<and> dt_idempotency_key r = ad_key a \<and>
     dt_admission_hash r \<in> {fst (admission_hashes lib a payload), snd (admission_hashes lib a payload)}"

lemma admit_once_admits:
  "admit_once now lib a payload guard None db = (db', Inr res) \<Longrightarrow>
     ar_request res \<in> set (td_rows db') \<and> admitted_as lib a payload (ar_request res)"
  by (auto simp: admit_once_def finish_admission_def Let_def admitted_as_def queued_row_def split_beta
      dest: find_first_SomeD split: option.splits if_splits)

lemma replay:
  assumes "turn_inv db" and "r \<in> set (td_rows db)" and "admitted_as lib a payload r"
  shows "admit_once now lib a payload None None db =
    (db, Inr \<lparr>ar_request = r, ar_created = False, ar_queued_behind_predecessor = has_predecessor r (td_rows db)\<rparr>)"
proof -
  let ?p = "\<lambda>e. dt_idempotency_scope e = ad_scope a \<and> dt_idempotency_key e = ad_key a"
  have p: "?p r" using assms(3) by (simp add: admitted_as_def)
  obtain e where e: "find_first ?p (td_rows db) = Some e"
    using assms(2) p find_first_None_iff [of ?p "td_rows db"] by (cases "find_first ?p (td_rows db)") auto
  then have "e \<in> set (td_rows db)" "?p e" by (auto dest: find_first_SomeD)
  with assms(1,2) p have "e = r"
    unfolding turn_inv_def keys_ok_def
    by (metis (mono_tags, lifting) distinct_map_eqD [of "\<lambda>r. (dt_idempotency_scope r, dt_idempotency_key r)"])
  moreover have "list_ex (conflicting (queued_row lib a payload (td_next db) now)) (td_rows db)"
    using assms(2) p by (auto simp: list_ex_iff conflicting_def queued_row_def)
  ultimately show ?thesis
    using e assms(3) by (auto simp: admit_once_def Let_def finish_admission_def admitted_as_def split_beta)
qed

text \<open>
  C11. A message is admitted once: when an admission has succeeded, sending the same message again under
  the same idempotency key, at any later time and with whatever request and turn ids the new attempt
  drew, changes no table and answers with the turn that was admitted first.
\<close>

theorem admission_happens_once:
  assumes "reach turn_start turn_step db"
    and "admit_once now lib a payload None None db = (db1, Inr res)" and "turn_step\<^sup>*\<^sup>* db1 db2"
    and "ad_scope a' = ad_scope a" and "ad_key a' = ad_key a"
    and "admission_hashes lib a' payload' = admission_hashes lib a payload"
  shows "\<exists>r. admit_once now' lib a' payload' None None db2 =
      (db2, Inr \<lparr>ar_request = r, ar_created = False,
                 ar_queued_behind_predecessor = has_predecessor r (td_rows db2)\<rparr>) \<and>
    dt_request_id r = dt_request_id (ar_request res) \<and> dt_turn_id r = dt_turn_id (ar_request res)"
proof -
  have "turn_step db db1" using Step_Admit [of db now lib a payload None] assms(2) by simp
  then have inv: "turn_inv db1" using assms(1) turns.reach_inv turns.inv_step by blast
  then have ev: "evolves\<^sup>*\<^sup>* db1 db2" by (rule steps_evolve [OF assms(3)])
  note first = admit_once_admits [OF assms(2)]
  obtain r where r: "r \<in> set (td_rows db2)" "same_request (ar_request res) r" "admitted_as lib a payload r"
    using evolve_history [OF ev, of "ar_request res" "admitted_as lib a payload"] first turn_move_request
    by (fastforce simp: admitted_as_def same_request_def)
  then have "admitted_as lib a' payload' r" using assms(4-6) by (simp add: admitted_as_def)
  with r replay [of db2 r lib a' payload' now'] evolves_steps_inv [OF ev inv] show ?thesis
    by (auto simp: same_request_def)
qed

definition demo_retry :: admission where
  "demo_retry = (demo_admission ''a'')\<lparr>ad_request_id := ''dtr_x'', ad_turn_id := ''turn_x''\<rparr>"

theorem admission_happens_once_witness:
  "\<exists>r. admit_once 7 demo_lib demo_retry demo_payload None None demo_settled =
      (demo_settled, Inr \<lparr>ar_request = r, ar_created = False,
         ar_queued_behind_predecessor = has_predecessor r (td_rows demo_settled)\<rparr>) \<and>
    dt_request_id r = ''dtr_a'' \<and> dt_turn_id r = ''turn_a''"
proof -
  obtain db1 res where one: "admit_once 0 demo_lib (demo_admission ''a'') demo_payload None None demo_empty = (db1, Inr res)"
    "dt_request_id (ar_request res) = ''dtr_a''" "dt_turn_id (ar_request res) = ''turn_a''"
    by (simp add: admit_once_def finish_admission_def demo_empty_def Let_def queued_row_def demo_admission_def)
  have start: "reach turn_start turn_step demo_empty"
    by (rule reach_start) (simp add: turn_start_def demo_empty_def)
  have "turn_step\<^sup>*\<^sup>* db1 demo_queued"
    unfolding demo_queued_def Let_def one(1) fst_conv
    by (rule converse_rtranclp_into_rtranclp, rule Step_Admit, rule r_into_rtranclp, rule Step_Lease)
  moreover have "turn_step\<^sup>*\<^sup>* demo_queued demo_running"
    unfolding demo_running_def Let_def
    by (meson reach_demo_queued tx_ok_demo reach_step Step_Claim Step_Running r_into_rtranclp rtranclp_trans)
  moreover have "turn_step demo_running demo_settled"
    unfolding demo_settled_def by (intro Step_Terminal tx_ok_demo reach_demo_running)
  ultimately have "turn_step\<^sup>*\<^sup>* db1 demo_settled" by simp
  from admission_happens_once [OF start one(1) this, of demo_retry demo_payload 7] one show ?thesis
    by (simp add: demo_retry_def demo_admission_def admission_hashes_def legacy_descriptor_def)
qed

subsection \<open>Every conversation is served\<close>

text \<open>The first unsettled turn of a conversation.\<close>

lemma first_unsettled:
  assumes "keys_ok db" and "x \<in> set (td_rows db)" and "dt_status x \<in> set NONTERMINAL_STATUSES"
  shows "\<exists>r \<in> set (td_rows db). dt_conversation_id r = dt_conversation_id x \<and>
    dt_status r \<in> set NONTERMINAL_STATUSES \<and> \<not> has_predecessor r (td_rows db)"
proof -
  let ?S = "{r \<in> set (td_rows db). dt_conversation_id r = dt_conversation_id x \<and> dt_status r \<in> set NONTERMINAL_STATUSES}"
  have "finite ?S" "?S \<noteq> {}" using assms(2,3) by auto
  then obtain r where "r \<in> ?S" "\<And>e. e \<in> ?S \<Longrightarrow> dt_admission_order r \<le> dt_admission_order e"
    using arg_min_if_finite [of ?S dt_admission_order] by (metis (mono_tags, lifting) not_le)
  then show ?thesis by (fastforce simp: has_predecessor_iff)
qed

lemma claim_head:
  assumes "turn_inv db" and "r \<in> set (td_rows db)" and "dt_status r \<in> set CLAIMABLE_STATUSES"
    and "\<not> has_predecessor r (td_rows db)" and "tx_seen tx = td_rows db"
    and "conversation_lease (tx_at tx) l (td_leases db) r" and "owner_id l = turn_owner_id c i"
  shows "\<exists>db'. claim tx (dt_request_id r) l c i s db =
    (db', Inr (Some (claim_values (tx_now tx) l c i s r)))"
proof -
  let ?rid = "dt_request_id r"
  obtain e where e: "find_turn ?rid (td_rows db) = Some e"
    using assms(2) find_first_None_iff [of "\<lambda>x. dt_request_id x = ?rid" "td_rows db"]
    unfolding find_turn_def by (cases "find_first (\<lambda>x. dt_request_id x = ?rid) (td_rows db)") auto
  with find_turn_unique [OF assms(1) e assms(2)] have e': "find_turn ?rid (td_rows db) = Some r" by simp
  let ?q = "\<lambda>x. dt_request_id x = ?rid \<and> dt_status x \<in> set CLAIMABLE_STATUSES \<and> lease_predicate tx l db \<and>
    (True \<longrightarrow> \<not> has_predecessor x (td_rows db))"
  have "?q r" using assms(3,4,6) by (simp add: conversation_lease_def lease_predicate_def)
  then obtain x where x: "find_first ?q (td_rows db) = Some x"
    using assms(2) find_first_None_iff [of ?q "td_rows db"] by (cases "find_first ?q (td_rows db)") auto
  then have "x = r" using find_turn_unique [OF assms(1) e'] by (auto dest: find_first_SomeD)
  with x e' assms(5-7) show ?thesis
    by (auto simp: claim_def check_owner_def fenced_update_def update_turn_def conversation_lease_def)
qed

text \<open>
  C21. No conversation is stuck. When a conversation has an unsettled turn, its first unsettled turn is
  active, or waits for its retry time, or is among the heads that the controllers are offered (when the
  limit covers the table); and a controller that holds the conversation's lease and claims an offered
  head gets it.
\<close>

theorem conversation_head_is_served:
  assumes "reach turn_start turn_step db" and "x \<in> set (td_rows db)"
    and "dt_status x \<in> set NONTERMINAL_STATUSES" and "int (length (td_rows db)) \<le> limit"
  shows "\<exists>r \<in> set (td_rows db). dt_conversation_id r = dt_conversation_id x \<and>
    dt_status r \<in> set NONTERMINAL_STATUSES \<and> \<not> has_predecessor r (td_rows db) \<and>
    (dt_status r \<in> set ACTIVE_STATUSES \<or> (\<exists>t > now. dt_next_attempt_at r = Some t) \<or>
     r \<in> set (list_claimable_heads now limit db) \<and>
     (\<forall>tx l c i s. tx_seen tx = td_rows db \<and> conversation_lease (tx_at tx) l (td_leases db) r \<and>
        owner_id l = turn_owner_id c i \<longrightarrow>
        (\<exists>db' r'. claim tx (dt_request_id r) l c i s db = (db', Inr (Some r')) \<and>
           dt_request_id r' = dt_request_id r \<and> dt_status r' = Turn_Claimed)))"
proof -
  have inv: "turn_inv db" using assms(1) by (rule turns.reach_inv)
  then have "keys_ok db" by (simp add: turn_inv_def)
  from first_unsettled [OF this assms(2,3)] obtain r where r: "r \<in> set (td_rows db)"
    "dt_conversation_id r = dt_conversation_id x" "dt_status r \<in> set NONTERMINAL_STATUSES"
    "\<not> has_predecessor r (td_rows db)" by blast
  have all: "set (limited limit (by_admission (filter p (td_rows db)))) = {y \<in> set (td_rows db). p y}" for p
  proof -
    have "length (td_rows db) \<le> nat (max 1 limit)" using assms(4) by linarith
    then have "length (by_admission (filter p (td_rows db))) \<le> nat (max 1 limit)"
      by (simp add: by_admission_def order_trans [OF length_filter_le])
    then show ?thesis by (simp add: limited_def by_admission_def)
  qed
  show ?thesis
  proof (cases "dt_status r \<in> set ACTIVE_STATUSES \<or> (\<exists>t > now. dt_next_attempt_at r = Some t)")
    case False
    then have c: "dt_status r \<in> set CLAIMABLE_STATUSES" "claimable_head now (td_rows db) r"
      using r by (auto simp: claimable_head_def NONTERMINAL_STATUSES_def not_le [symmetric] split: option.splits)
    have "r \<in> set (list_claimable_heads now limit db)"
      using r(1) c(2) by (simp add: list_claimable_heads_def all)
    moreover have "\<exists>db' r'. claim tx (dt_request_id r) l c i s db = (db', Inr (Some r')) \<and>
        dt_request_id r' = dt_request_id r \<and> dt_status r' = Turn_Claimed"
      if "tx_seen tx = td_rows db" "conversation_lease (tx_at tx) l (td_leases db) r" "owner_id l = turn_owner_id c i"
      for tx l c i s
      using claim_head [OF inv r(1) c(1) r(4) that, of s] by (auto simp: claim_values_def)
    ultimately show ?thesis using r by blast
  qed (use r in blast)
qed

theorem conversation_head_is_served_witness:
  "\<exists>r \<in> set (td_rows demo_queued). dt_conversation_id r = ''conv'' \<and> \<not> has_predecessor r (td_rows demo_queued) \<and>
    (dt_status r \<in> set ACTIVE_STATUSES \<or> (\<exists>t > 5. dt_next_attempt_at r = Some t) \<or>
     r \<in> set (list_claimable_heads 5 100 demo_queued))"
proof -
  have run: "td_rows demo_queued \<noteq> []" "dt_status (hd (td_rows demo_queued)) \<in> set NONTERMINAL_STATUSES"
    "dt_conversation_id (hd (td_rows demo_queued)) = ''conv''" "int (length (td_rows demo_queued)) \<le> 100"
    by code_simp+
  from conversation_head_is_served [OF reach_demo_queued hd_in_set [OF run(1)] run(2,4), of 5] run(3)
  show ?thesis by auto
qed

subsection \<open>Stopping a conversation\<close>

definition stopped :: "turn_row \<Rightarrow> bool" where
  "stopped r \<longleftrightarrow> dt_status r \<in> set TERMINAL_STATUSES \<or>
     (dt_status r \<in> set ACTIVE_STATUSES \<and> dt_cancel_requested_at r \<noteq> None)"

lemma stopped_cancel_values: "stopped (cancel_values now r) \<or> dt_status r \<in> set TERMINAL_STATUSES"
  using status_cases [of r] by (auto simp: stopped_def cancel_values_def Let_def turn_statuses)

lemma cancel_one_rows:
  "td_rows (fst (cancel_one now rid db)) =
     map (\<lambda>r. if dt_request_id r = rid \<and> dt_status r \<in> set NONTERMINAL_STATUSES then cancel_values now r else r)
       (td_rows db)"
proof (cases "find_first (\<lambda>r. dt_request_id r = rid \<and> dt_status r \<in> set NONTERMINAL_STATUSES) (td_rows db)")
  case None
  then have "map (\<lambda>r. if dt_request_id r = rid \<and> dt_status r \<in> set NONTERMINAL_STATUSES
      then cancel_values now r else r) (td_rows db) = td_rows db"
    by (intro map_idI) auto
  then show ?thesis unfolding cancel_one_def update_turn_def None by simp
next
  case (Some r)
  then show ?thesis by (simp add: cancel_one_def update_turn_def)
qed

lemma cancel_values_same: "dt_request_id (cancel_values now r) = dt_request_id r"
  "dt_conversation_id (cancel_values now r) = dt_conversation_id r"
  by (simp_all add: cancel_values_def Let_def)

lemma stopped_stays: "stopped r \<Longrightarrow> stopped (cancel_values now r)"
  by (auto simp: stopped_def cancel_values_def Let_def turn_statuses)

lemma cancel_one_stops:
  assumes "r' \<in> set (td_rows (fst (cancel_one now rid db)))"
  shows "\<exists>r \<in> set (td_rows db). dt_request_id r = dt_request_id r' \<and> dt_conversation_id r = dt_conversation_id r' \<and>
    (stopped r \<or> dt_request_id r' = rid \<longrightarrow> stopped r')"
proof -
  from assms obtain r where r: "r \<in> set (td_rows db)"
    "r' = (if dt_request_id r = rid \<and> dt_status r \<in> set NONTERMINAL_STATUSES then cancel_values now r else r)"
    by (auto simp: cancel_one_rows)
  have "stopped r' " if "stopped r \<or> dt_request_id r' = rid"
    using that r(2) stopped_stays stopped_cancel_values [of now r]
    by (auto simp: stopped_def terminal_iff cancel_values_same split: if_splits)
  with r show ?thesis by (auto simp: cancel_values_same intro!: bexI [of _ r])
qed

lemma cancel_all_stops:
  "r' \<in> set (td_rows (fst (cancel_all now rows db))) \<Longrightarrow>
     \<exists>r \<in> set (td_rows db). dt_request_id r = dt_request_id r' \<and> dt_conversation_id r = dt_conversation_id r' \<and>
       (stopped r \<or> dt_request_id r' \<in> dt_request_id ` set rows \<longrightarrow> stopped r')"
proof (induction now rows db arbitrary: r' rule: cancel_all.induct)
  case (1 now db)
  then show ?case by auto
next
  case (2 now x rows db)
  obtain db1 o' where one: "cancel_one now (dt_request_id x) db = (db1, o')" by fastforce
  with "2.prems" have "r' \<in> set (td_rows (fst (cancel_all now rows db1)))"
    by (auto split: option.splits prod.splits)
  then have "\<exists>r1 \<in> set (td_rows db1). dt_request_id r1 = dt_request_id r' \<and> dt_conversation_id r1 = dt_conversation_id r' \<and>
      (stopped r1 \<or> dt_request_id r' \<in> dt_request_id ` set rows \<longrightarrow> stopped r')"
    using "2.IH"(1) [OF one [symmetric]] "2.IH"(2) [OF one [symmetric]] by (cases o') simp_all
  then obtain r1 where r1: "r1 \<in> set (td_rows db1)" "dt_request_id r1 = dt_request_id r'"
    "dt_conversation_id r1 = dt_conversation_id r'"
    "stopped r1 \<or> dt_request_id r' \<in> dt_request_id ` set rows \<longrightarrow> stopped r'"
    by blast
  from cancel_one_stops [of r1 now "dt_request_id x" db] one r1(1) obtain r where
    "r \<in> set (td_rows db)" "dt_request_id r = dt_request_id r1" "dt_conversation_id r = dt_conversation_id r1"
    "stopped r \<or> dt_request_id r1 = dt_request_id x \<longrightarrow> stopped r1"
    by auto
  with r1 show ?case by (intro bexI [of _ r]) auto
qed

text \<open>
  Stopping a conversation and clearing its queue leaves nothing of it to run: afterwards every turn
  of the conversation is settled, or is active with its cancellation requested; none waits any more.
\<close>

theorem stop_leaves_nothing_waiting:
  assumes "cancel_conversation tx conv True act db = (db', res)" and "tx_seen tx = td_rows db"
    and "r' \<in> set (td_rows db')" and "dt_conversation_id r' = conv"
  shows "dt_status r' \<in> set TERMINAL_STATUSES \<or>
    (dt_status r' \<in> set ACTIVE_STATUSES \<and> dt_cancel_requested_at r' \<noteq> None)"
proof -
  let ?rows = "by_admission (filter (\<lambda>r. dt_conversation_id r = conv \<and> dt_status r \<in> set NONTERMINAL_STATUSES) (td_rows db))"
  have "db' = fst (cancel_all (tx_now tx) ?rows db)"
    using assms(1,2) by (auto simp: cancel_conversation_def split: prod.splits)
  with assms(3) obtain r where "r \<in> set (td_rows db)" "dt_request_id r = dt_request_id r'"
    "dt_conversation_id r = conv" "stopped r \<or> dt_request_id r' \<in> dt_request_id ` set ?rows \<longrightarrow> stopped r'"
    using cancel_all_stops [of r' "tx_now tx" ?rows db] assms(4) by auto
  moreover from this have "stopped r \<or> r \<in> set ?rows"
    by (auto simp: by_admission_def stopped_def terminal_iff)
  ultimately have "stopped r'" by (metis image_eqI)
  then show ?thesis by (simp add: stopped_def)
qed

theorem stop_leaves_nothing_waiting_witness:
  "stopped (td_rows (fst (cancel_conversation (demo_tx demo_running) ''conv'' True None demo_running)) ! 0)"
proof -
  let ?c = "cancel_conversation (demo_tx demo_running) ''conv'' True None demo_running"
  have "length (td_rows (fst ?c)) = 2" "dt_conversation_id (td_rows (fst ?c) ! 0) = ''conv''"
    by code_simp+
  then show ?thesis
    using stop_leaves_nothing_waiting [of "demo_tx demo_running" "''conv''" None demo_running "fst ?c" "snd ?c"
        "td_rows (fst ?c) ! 0"]
    by (auto simp: demo_tx_def stopped_def)
qed

subsection \<open>Batches of tool calls\<close>

text \<open>The four methods that rewrite the record of dispatched calls, and the batch each is about.\<close>

datatype batch_op =
    B_Checkpoint string "(string \<times> pyval) list"
  | B_Record string "string option" "pyval list" "(string \<times> pyval) list"
  | B_Complete string "string option" "string list" "(string \<times> pyval) list"
  | B_Merge string "string option" string string "string option" string

fun run_batch ::
  "batch_op \<Rightarrow> txn \<Rightarrow> string \<Rightarrow> lease \<Rightarrow> turn_db \<Rightarrow> turn_db \<times> (turn_error, turn_row option) result" where
  "run_batch (B_Checkpoint phase m) tx rid l db = checkpoint tx rid l phase m False db"
| "run_batch (B_Record s t ds m) tx rid l db = record_tool_dispatch tx rid l s t ds m db"
| "run_batch (B_Complete s t cs m) tx rid l db = complete_tool_dispatch tx rid l s t cs m db"
| "run_batch (B_Merge s t c x xi st) tx rid l db =
     (case merge_tool_dispatch tx rid l s t c x xi st db of (db', res) \<Rightarrow> (db', map_sum id snd res))"

fun batch_session :: "batch_op \<Rightarrow> string option" where
  "batch_session (B_Checkpoint phase m) = None"
| "batch_session (B_Record s t ds m) = Some s"
| "batch_session (B_Complete s t cs m) = Some s"
| "batch_session (B_Merge s t c x xi st) = Some s"

fun batch_ok :: "batch_op \<Rightarrow> turn_row \<Rightarrow> bool" where
  "batch_ok (B_Checkpoint phase m) r = (map_of m ''phase'' = None)"
| "batch_ok (B_Record s t ds m) r = (map_of m ''phase'' = None \<and>
     group_ok \<lparr>dg_session_id = s, dg_turn_id = resolve_dispatch_turn_id t (dt_turn_id r), dg_tool_calls = ds\<rparr>)"
| "batch_ok (B_Complete s t cs m) r = (map_of m ''phase'' = None)"
| "batch_ok (B_Merge s t c x xi st) r = True"

text \<open>The phase says that calls are in flight as long as any batch is recorded.\<close>

definition in_flight_ok :: "turn_row \<Rightarrow> bool" where
  "in_flight_ok r \<longleftrightarrow> list_all group_ok (request_groups r) \<and>
     (request_groups r \<noteq> [] \<or> request_unreadable r \<noteq> [] \<longrightarrow>
      dict_get (outcome_dict r) ''phase'' = VStr TOOL_IN_FLIGHT_PHASE)"

lemma map_of_dict_merge: "map_of e k = None \<Longrightarrow> map_of (dict_merge d e) k = map_of d k"
  unfolding dict_merge_def by (induction e arbitrary: d) (auto split: if_splits)

lemma live_request_find: "live_request tx rid l db = Some r \<Longrightarrow> find_turn rid (td_rows db) = Some r"
  by (auto simp: live_request_def split: option.splits if_splits)

lemma set_outcome_row:
  assumes "find_turn rid (td_rows db) = Some r" and "set_outcome tx rid w db = (db', Inr (Some r'))"
  shows "\<exists>d. w = Inr d \<and> r' = r\<lparr>dt_outcome := VDict d, dt_updated_at := tx_now tx\<rparr>"
  using assms by (auto simp: set_outcome_def update_turn_def find_turn_def split: sum.splits)

text \<open>A row whose outcome was written with groups and preserved entries has exactly these.\<close>

lemma written_groups:
  assumes "write_tool_dispatch_groups base gs pres = Inr d" and "list_all group_ok gs"
    and "list_all (\<lambda>raw. coerce_dispatch_group raw = None) pres"
    and "r' = r\<lparr>dt_outcome := VDict d, dt_updated_at := now\<rparr>"
  shows "request_groups r' = gs \<and> request_unreadable r' = pres \<and>
    dict_get (outcome_dict r') ''phase'' = dict_get base ''phase''"
  using read_write_groups [OF assms(2,3,1)] write_keeps_other [OF assms(1), of "''phase''"] assms(4)
  by (simp add: request_groups_def request_unreadable_def outcome_dict_def dict_get_def)

lemma unreadable_request: "list_all (\<lambda>raw. coerce_dispatch_group raw = None) (request_unreadable r)"
  unfolding request_unreadable_def by (rule unreadable_all)

lemma merge_descriptors_dicts:
  "merge_descriptors c b raws = (ds, matched) \<Longrightarrow> list_all is_dict ds \<and> (matched \<longrightarrow> ds \<noteq> [])"
  by (induction c b raws arbitrary: ds matched rule: merge_descriptors.induct)
    (auto simp: Let_def split: prod.splits)

text \<open>What each method writes: the groups, the entries it carries along, and the phase.\<close>

lemma checkpoint_writes:
  assumes "live_request tx rid l db = Some r" and "in_flight_ok r" and "map_of m ''phase'' = None"
    and "checkpoint tx rid l phase m False db = (db', Inr (Some r'))"
  shows "request_groups r' = request_groups r \<and> request_unreadable r' = request_unreadable r \<and>
    (request_groups r \<noteq> [] \<or> request_unreadable r \<noteq> [] \<longrightarrow>
     dict_get (outcome_dict r') ''phase'' = VStr TOOL_IN_FLIGHT_PHASE)"
proof -
  let ?base = "dict_merge [(''phase'', VStr phase), (''phase_started_at'', VStr (isoformat (tx_now tx)))] m"
  let ?live = "request_groups r \<noteq> [] \<or> request_unreadable r \<noteq> []"
  let ?out = "if ?live then dict_put ''deferred_phase'' (VStr phase) (dict_put ''phase_started_at''
    (in_flight_since (tx_now tx) (outcome_dict r)) (dict_put ''phase'' (VStr TOOL_IN_FLIGHT_PHASE) ?base)) else ?base"
  from assms(1,4) set_outcome_row [OF live_request_find [OF assms(1)]] obtain d where
    "write_tool_dispatch_groups ?out (request_groups r) (request_unreadable r) = Inr d"
    "r' = r\<lparr>dt_outcome := VDict d, dt_updated_at := tx_now tx\<rparr>"
    by (fastforce simp: checkpoint_def checkpoint_outcome_def Let_def)
  from written_groups [OF this(1) _ unreadable_request this(2)] assms(2) show ?thesis
    by (simp add: in_flight_ok_def dict_get_def)
qed

lemma record_writes:
  assumes "live_request tx rid l db = Some r" and "in_flight_ok r" and "batch_ok (B_Record s t ds m) r"
    and "record_tool_dispatch tx rid l s t ds m db = (db', Inr (Some r'))"
  shows "request_groups r' = replace_dispatch_group (request_groups r)
       \<lparr>dg_session_id = s, dg_turn_id = resolve_dispatch_turn_id t (dt_turn_id r), dg_tool_calls = ds\<rparr> \<and>
    request_unreadable r' = filter (other_session s) (request_unreadable r) \<and>
    dict_get (outcome_dict r') ''phase'' = VStr TOOL_IN_FLIGHT_PHASE"
proof -
  let ?g = "\<lparr>dg_session_id = s, dg_turn_id = resolve_dispatch_turn_id t (dt_turn_id r), dg_tool_calls = ds\<rparr>"
  let ?base = "dict_merge [(''phase'', VStr TOOL_IN_FLIGHT_PHASE), (''phase_started_at'', VStr (isoformat (tx_now tx)))] m"
  let ?pres = "filter (other_session s) (request_unreadable r)"
  from assms(1,4) set_outcome_row [OF live_request_find [OF assms(1)]] obtain d where
    d: "write_tool_dispatch_groups ?base (replace_dispatch_group (request_groups r) ?g) ?pres = Inr d"
    "r' = r\<lparr>dt_outcome := VDict d, dt_updated_at := tx_now tx\<rparr>"
    by (fastforce simp: record_tool_dispatch_def dispatch_outcome_def Let_def)
  have "list_all group_ok (replace_dispatch_group (request_groups r) ?g)"
    using assms(2,3) by (auto simp: replace_dispatch_group_def in_flight_ok_def list_all_iff)
  moreover have "list_all (\<lambda>raw. coerce_dispatch_group raw = None) ?pres"
    using unreadable_request [of r] by (simp add: list_all_iff)
  moreover have "dict_get ?base ''phase'' = VStr TOOL_IN_FLIGHT_PHASE"
    using assms(3) by (simp add: dict_get_def map_of_dict_merge)
  ultimately show ?thesis
    using written_groups [OF d(1) _ _ d(2)] by simp
qed

lemma complete_writes:
  assumes "live_request tx rid l db = Some r" and "in_flight_ok r" and "map_of m ''phase'' = None"
    and "complete_tool_dispatch tx rid l s t cs m db = (db', Inr (Some r'))"
  shows "request_groups r' = filter (\<lambda>g. group_key g \<noteq> (s, resolve_dispatch_turn_id t (dt_turn_id r))) (request_groups r) \<and>
    request_unreadable r' = request_unreadable r \<and>
    (request_groups r' \<noteq> [] \<or> request_unreadable r' \<noteq> [] \<longrightarrow>
     dict_get (outcome_dict r') ''phase'' = VStr TOOL_IN_FLIGHT_PHASE)"
proof -
  let ?gs = "filter (\<lambda>g. group_key g \<noteq> (s, resolve_dispatch_turn_id t (dt_turn_id r))) (request_groups r)"
  let ?live = "?gs \<noteq> [] \<or> request_unreadable r \<noteq> []"
  let ?base = "dict_put ''call_ids'' (VList (map VStr (take TOOL_DISPATCH_DESCRIPTOR_LIMIT cs)))
     (dict_merge [(''phase'', VStr (if ?live then TOOL_IN_FLIGHT_PHASE else TOOL_RESULT_PERSISTED_PHASE)),
        (''phase_started_at'', if ?live then in_flight_since (tx_now tx) (outcome_dict r) else VStr (isoformat (tx_now tx)))] m)"
  from assms(1,4) set_outcome_row [OF live_request_find [OF assms(1)]] obtain d where
    d: "write_tool_dispatch_groups ?base ?gs (request_unreadable r) = Inr d"
    "r' = r\<lparr>dt_outcome := VDict d, dt_updated_at := tx_now tx\<rparr>"
    by (fastforce simp: complete_tool_dispatch_def completion_outcome_def Let_def)
  have "list_all group_ok ?gs" using assms(2) by (auto simp: in_flight_ok_def list_all_iff)
  from written_groups [OF d(1) this unreadable_request d(2)] assms(3) show ?thesis
    by (simp add: dict_get_def map_of_dict_merge)
qed

lemma merge_writes:
  assumes "live_request tx rid l db = Some r" and "in_flight_ok r"
    and "merge_tool_dispatch tx rid l s t c x xi st db = (db', Inr (status, Some r'))"
  shows "\<exists>owner merged. find_first (\<lambda>g. group_key g = (s, resolve_dispatch_turn_id t (dt_turn_id r))) (request_groups r) = Some owner \<and>
    merge_descriptors c [(''executor_id'', VStr x), (''executor_instance_id'', opt_str xi), (''dispatch_state'', VStr st)]
      (dg_tool_calls owner) = (merged, True) \<and>
    request_groups r' = replace_dispatch_group (request_groups r) (owner\<lparr>dg_tool_calls := merged\<rparr>) \<and>
    request_unreadable r' = request_unreadable r \<and>
    dict_get (outcome_dict r') ''phase'' = dict_get (outcome_dict r) ''phase''"
proof -
  let ?key = "(s, resolve_dispatch_turn_id t (dt_turn_id r))"
  let ?b = "[(''executor_id'', VStr x), (''executor_instance_id'', opt_str xi), (''dispatch_state'', VStr st)]"
  from assms(1,3) obtain owner merged where own: "find_first (\<lambda>g. group_key g = ?key) (request_groups r) = Some owner"
    "merge_descriptors c ?b (dg_tool_calls owner) = (merged, True)"
    and so: "set_outcome tx rid (write_tool_dispatch_groups (outcome_dict r)
      (replace_dispatch_group (request_groups r) (owner\<lparr>dg_tool_calls := merged\<rparr>)) (request_unreadable r)) db = (db', Inr (Some r'))"
    by (auto simp: merge_tool_dispatch_def Let_def split: option.splits if_splits prod.splits sum.splits)
  from set_outcome_row [OF live_request_find [OF assms(1)] so] obtain d where
    d: "write_tool_dispatch_groups (outcome_dict r)
      (replace_dispatch_group (request_groups r) (owner\<lparr>dg_tool_calls := merged\<rparr>)) (request_unreadable r) = Inr d"
    "r' = r\<lparr>dt_outcome := VDict d, dt_updated_at := tx_now tx\<rparr>" by blast
  have "owner \<in> set (request_groups r)" using find_first_SomeD [OF own(1)] by simp
  then have "list_all group_ok (replace_dispatch_group (request_groups r) (owner\<lparr>dg_tool_calls := merged\<rparr>))"
    using assms(2) merge_descriptors_dicts [OF own(2)]
    by (auto simp: replace_dispatch_group_def in_flight_ok_def list_all_iff group_ok_def)
  from written_groups [OF d(1) this unreadable_request d(2)] own show ?thesis by auto
qed

text \<open>
  C12. No dispatched call is forgotten. Sessions that share a turn record, settle and checkpoint their
  tool batches independently: whatever one of them writes under the fence, the batches of every other
  session stay recorded with all their calls, entries that cannot be read are carried along, and the
  turn stays in the phase that restart recovery looks for as long as any batch is recorded.
\<close>

theorem no_dispatched_call_forgotten:
  assumes "live_request tx rid l db = Some r" and "in_flight_ok r" and "batch_ok op r"
    and "run_batch op tx rid l db = (db', Inr (Some r'))"
  shows "in_flight_ok r' \<and>
    (\<forall>g \<in> set (request_groups r). batch_session op \<noteq> Some (dg_session_id g) \<longrightarrow> g \<in> set (request_groups r')) \<and>
    (\<forall>raw \<in> set (request_unreadable r).
       (case batch_session op of None \<Rightarrow> True | Some s \<Rightarrow> other_session s raw) \<longrightarrow> raw \<in> set (request_unreadable r'))"
proof (cases op)
  case (B_Checkpoint phase m)
  with checkpoint_writes [OF assms(1,2), of m phase db' r'] assms(2-4) show ?thesis
    by (auto simp: in_flight_ok_def)
next
  case (B_Record s t ds m)
  with record_writes [OF assms(1,2), of s t ds m db' r'] assms(2-4) show ?thesis
    by (auto simp: in_flight_ok_def replace_dispatch_group_def group_key_def list_all_iff)
next
  case (B_Complete s t cs m)
  with complete_writes [OF assms(1,2), of m s t cs db' r'] assms(2-4) show ?thesis
    by (auto simp: in_flight_ok_def group_key_def list_all_iff)
next
  case (B_Merge s t c x xi st)
  obtain d res where "merge_tool_dispatch tx rid l s t c x xi st db = (d, res)" by fastforce
  with B_Merge assms(4) obtain status where "merge_tool_dispatch tx rid l s t c x xi st db = (db', Inr (status, Some r'))"
    by (cases res) auto
  from merge_writes [OF assms(1,2) this] obtain owner merged where
    m: "find_first (\<lambda>g. group_key g = (s, resolve_dispatch_turn_id t (dt_turn_id r))) (request_groups r) = Some owner"
    "merge_descriptors c [(''executor_id'', VStr x), (''executor_instance_id'', opt_str xi), (''dispatch_state'', VStr st)]
      (dg_tool_calls owner) = (merged, True)"
    "request_groups r' = replace_dispatch_group (request_groups r) (owner\<lparr>dg_tool_calls := merged\<rparr>)"
    "request_unreadable r' = request_unreadable r"
    "dict_get (outcome_dict r') ''phase'' = dict_get (outcome_dict r) ''phase''" by blast
  have own: "owner \<in> set (request_groups r)" "dg_session_id owner = s"
    using find_first_SomeD [OF m(1)] by (auto simp: group_key_def)
  with B_Merge m(3-5) merge_descriptors_dicts [OF m(2)] assms(2) show ?thesis
    by (auto simp: in_flight_ok_def replace_dispatch_group_def group_key_def list_all_iff group_ok_def)
qed

text \<open>Two sessions with a batch each on the running turn of the small history.\<close>

definition demo_batch :: "string \<Rightarrow> batch_op" where
  "demo_batch s = B_Record s None [VDict [(''call_id'', VStr ''k'')]] []"

definition demo_dispatched :: turn_db where
  "demo_dispatched = fst (run_batch (demo_batch ''s1'') (demo_tx demo_running) ''dtr_a'' demo_lease demo_running)"

definition demo_group :: "string \<Rightarrow> dispatch_group" where
  "demo_group s = \<lparr>dg_session_id = s, dg_turn_id = ''turn_a'', dg_tool_calls = [VDict [(''call_id'', VStr ''k'')]]\<rparr>"

theorem no_dispatched_call_forgotten_witness:
  "\<exists>r r'. live_request (demo_tx demo_dispatched) ''dtr_a'' demo_lease demo_dispatched = Some r \<and>
     snd (run_batch (demo_batch ''s2'') (demo_tx demo_dispatched) ''dtr_a'' demo_lease demo_dispatched) = Inr (Some r') \<and>
     in_flight_ok r' \<and> demo_group ''s1'' \<in> set (request_groups r')"
proof -
  let ?run = "run_batch (demo_batch ''s2'') (demo_tx demo_dispatched) ''dtr_a'' demo_lease demo_dispatched"
  let ?live = "live_request (demo_tx demo_dispatched) ''dtr_a'' demo_lease demo_dispatched"
  have before: "?live \<noteq> None" "in_flight_ok (the ?live)" "request_groups (the ?live) = [demo_group ''s1'']"
    "batch_ok (demo_batch ''s2'') (the ?live)"
    by code_simp+
  have result: "(case snd ?run of Inr (Some r') \<Rightarrow> True | _ \<Rightarrow> False)" by code_simp
  from before(1) obtain r where r: "?live = Some r" by blast
  from result obtain db' r' where r': "?run = (db', Inr (Some r'))"
    by (cases ?run) (auto split: sum.splits option.splits)
  from before r have "in_flight_ok r" "batch_ok (demo_batch ''s2'') r" "request_groups r = [demo_group ''s1'']" by simp_all
  with no_dispatched_call_forgotten [OF r _ _ r'] have "in_flight_ok r'" "demo_group ''s1'' \<in> set (request_groups r')"
    by (auto simp: demo_batch_def demo_group_def)
  with r r' show ?thesis by auto
qed

end
