(* ===== verification/Turn_Runtime.thy ===== *)
theory Turn_Runtime
  imports Direct_Turn_Promises
begin

section \<open>The runtime of direct turns\<close>

text \<open>
  \<open>cognis/core/direct_turn_runtime.py\<close>: the worker of a controller that claims the heads of the store
  of direct turns, executes them under a fence, and recovers turns whose controller is gone. Each
  method is a function on the tables of \<open>Direct_Turns\<close>, written over the methods of the store in the
  order the code calls them.

  What happens outside is an argument: the clocks, the answers of the callbacks, and what other
  controllers, users and the execution of the turn itself do to the tables between two calls
  (\<open>rw_between\<close>, \<open>xw_run\<close>). A raised exception that leaves the method is \<open>Run_Raised\<close>; notifications,
  metrics and logging are not part of the state, nor are the wake-ups that recovery signals to the
  worker, whose sleep is not modelled.
\<close>

subsection \<open>Constants\<close>

definition DIRECT_TURN_LEASE_TTL :: time where
  "DIRECT_TURN_LEASE_TTL = 30000000"

definition DIRECT_TURN_ACTIVE_POLL :: rat where
  "DIRECT_TURN_ACTIVE_POLL = 1 / 2"

definition INTARIS_TAKEOVER_QUARANTINE :: time where
  "INTARIS_TAKEOVER_QUARANTINE = 35000000"

definition TOOL_RECOVERY_DEADLINE :: time where
  "TOOL_RECOVERY_DEADLINE = 60000000"

definition DIRECT_TURN_CONTROLLER_MAX_ATTEMPTS :: int where
  "DIRECT_TURN_CONTROLLER_MAX_ATTEMPTS = 3"

record controller =
  ct_controller_id :: string
  ct_incarnation_id :: string

definition ct_owner_id :: "controller \<Rightarrow> string" where
  "ct_owner_id c = turn_owner_id (ct_controller_id c) (ct_incarnation_id c)"

text \<open>
  What the worker keeps in the process: whether it claims, the tasks it started by conversation, the
  times (of the clock of the event loop, in seconds) before which it leaves a request alone, and the
  count of wake-ups.
\<close>

record runtime =
  rn_worker :: bool
  rn_accepting :: bool
  rn_active :: "(string \<times> turn_row \<times> lease) list"
  rn_retry_after :: "string \<rightharpoonup> rat"
  rn_wake_generation :: nat

definition new_runtime :: runtime where
  "new_runtime = \<lparr>rn_worker = False, rn_accepting = False, rn_active = [], rn_retry_after = Map.empty,
     rn_wake_generation = 0\<rparr>"

definition signal_wake :: "runtime \<Rightarrow> runtime" where
  "signal_wake s = s\<lparr>rn_wake_generation := rn_wake_generation s + 1\<rparr>"

definition start_runtime :: "runtime \<Rightarrow> runtime" where
  "start_runtime s = (if rn_worker s then s else (signal_wake (s\<lparr>rn_accepting := True\<rparr>))\<lparr>rn_worker := True\<rparr>)"

definition stop_claiming :: "runtime \<Rightarrow> runtime" where
  "stop_claiming s = signal_wake (s\<lparr>rn_accepting := False\<rparr>)"

definition expedite :: "string \<Rightarrow> runtime \<Rightarrow> runtime" where
  "expedite rid s = signal_wake (s\<lparr>rn_retry_after := (rn_retry_after s)(rid := None)\<rparr>)"

definition locally_active :: "runtime \<Rightarrow> string \<Rightarrow> bool" where
  "locally_active s conv \<longleftrightarrow> conv \<in> fst ` set (rn_active s)"

text \<open>A call of the store at one moment, reading the rows as they are.\<close>

definition tx_of :: "time \<Rightarrow> turn_db \<Rightarrow> txn" where
  "tx_of now db = \<lparr>tx_now = now, tx_at = now, tx_seen = td_rows db\<rparr>"

definition rt_acquire :: "time \<Rightarrow> controller \<Rightarrow> string \<Rightarrow> turn_db \<Rightarrow> turn_db \<times> lease option" where
  "rt_acquire now c conv db =
     (case acquire_in_session now DIRECT_TURN_LEASE_TTL (conversation_lease_key conv) (ct_owner_id c) (td_leases db) of
        (ls, l) \<Rightarrow> (db\<lparr>td_leases := ls\<rparr>, l))"

definition rt_release :: "time \<Rightarrow> lease \<Rightarrow> turn_db \<Rightarrow> turn_db" where
  "rt_release now l db = db\<lparr>td_leases := fst (release now l (td_leases db))\<rparr>"

subsection \<open>The fence of an execution\<close>

record exec_fence =
  fx_request_id :: string
  fx_lease :: lease
  fx_user_append_phase :: "string option"
  fx_user_append_session_id :: "string option"
  fx_last_phase :: string
  fx_last_metadata :: "(string \<times> pyval) list"

datatype fence_end = Fence_Ok | Fence_Stale | Fence_Cancelled | Fence_Unbound | Fence_Raised

definition new_fence :: "string \<Rightarrow> lease \<Rightarrow> exec_fence" where
  "new_fence rid l = \<lparr>fx_request_id = rid, fx_lease = l, fx_user_append_phase = None,
     fx_user_append_session_id = None, fx_last_phase = ''claimed'', fx_last_metadata = []\<rparr>"

definition assert_current :: "time \<Rightarrow> exec_fence \<Rightarrow> turn_db \<Rightarrow> fence_end" where
  "assert_current now f db =
     (if has_fence (tx_of now db) (fx_request_id f) (fx_lease f) db then Fence_Ok else Fence_Stale)"

text \<open>The row a store call returned: none is a lost fence, a cancelled one interrupts.\<close>

fun fence_result :: "turn_db \<times> (turn_error, turn_row option) result \<Rightarrow> turn_db \<times> fence_end" where
  "fence_result (db, Inl e) = (db, Fence_Raised)"
| "fence_result (db, Inr None) = (db, Fence_Stale)"
| "fence_result (db, Inr (Some r)) =
     (db, if dt_cancel_requested_at r \<noteq> None then Fence_Cancelled else Fence_Ok)"

definition set_default :: "string \<Rightarrow> string option \<Rightarrow> (string \<times> pyval) list \<Rightarrow> (string \<times> pyval) list" where
  "set_default k v d =
     (case v of None \<Rightarrow> d | Some s \<Rightarrow> if map_of d k = None then dict_put k (VStr s) d else d)"

definition append_defaults :: "exec_fence \<Rightarrow> (string \<times> pyval) list \<Rightarrow> (string \<times> pyval) list" where
  "append_defaults f d =
     set_default ''user_append_session_id'' (fx_user_append_session_id f)
       (set_default ''user_append_phase'' (fx_user_append_phase f) d)"

definition fence_checkpoint ::
  "time \<Rightarrow> exec_fence \<Rightarrow> string \<Rightarrow> (string \<times> pyval) list \<Rightarrow> turn_db \<Rightarrow> exec_fence \<times> turn_db \<times> fence_end" where
  "fence_checkpoint now f phase metadata db =
     (f\<lparr>fx_last_phase := phase, fx_last_metadata := metadata\<rparr>,
      fence_result (checkpoint (tx_of now db) (fx_request_id f) (fx_lease f) phase (append_defaults f metadata) False db))"

definition tool_dispatch_metadata :: "exec_fence \<Rightarrow> (string \<times> pyval) list" where
  "tool_dispatch_metadata f = append_defaults f []"

definition fence_record_dispatch ::
  "time \<Rightarrow> exec_fence \<Rightarrow> string \<Rightarrow> string option \<Rightarrow> pyval list \<Rightarrow> turn_db \<Rightarrow> exec_fence \<times> turn_db \<times> fence_end" where
  "fence_record_dispatch now f session_id turn_id descriptors db =
     (let m = dict_merge (tool_dispatch_metadata f) [(''session_id'', VStr session_id), (''turn_id'', opt_str turn_id)]
      in (f\<lparr>fx_last_phase := ''tool_in_flight'', fx_last_metadata := m\<rparr>,
          fence_result (record_tool_dispatch (tx_of now db) (fx_request_id f) (fx_lease f) session_id turn_id descriptors m db)))"

definition fence_complete_dispatch ::
  "time \<Rightarrow> exec_fence \<Rightarrow> string \<Rightarrow> string option \<Rightarrow> string list \<Rightarrow> turn_db \<Rightarrow> exec_fence \<times> turn_db \<times> fence_end" where
  "fence_complete_dispatch now f session_id turn_id call_ids db =
     (let m = tool_dispatch_metadata f;
          r = complete_tool_dispatch (tx_of now db) (fx_request_id f) (fx_lease f) session_id turn_id call_ids m db
      in (case snd r of
            Inr (Some row) \<Rightarrow>
              f\<lparr>fx_last_phase := phase_text row ''tool_result_persisted'',
                fx_last_metadata := dict_merge m [(''call_ids'', VList (map VStr call_ids))]\<rparr>
          | _ \<Rightarrow> f,
          fence_result r))"

text \<open>Binding a call to its executor: without a descriptor it fails closed before the send, and
  only then.\<close>

definition bind_tool_dispatch ::
  "time \<Rightarrow> exec_fence \<Rightarrow> string \<Rightarrow> string \<Rightarrow> string option \<Rightarrow> string \<Rightarrow> string option \<Rightarrow> string \<Rightarrow> turn_db
     \<Rightarrow> turn_db \<times> fence_end" where
  "bind_tool_dispatch now f call_id executor_id instance_id session_id turn_id dispatch_state db =
     (if dispatch_state \<notin> {''dispatching'', ''sent''} then (db, Fence_Raised)
      else case merge_tool_dispatch (tx_of now db) (fx_request_id f) (fx_lease f) session_id turn_id call_id
                  executor_id instance_id dispatch_state db of
        (db', Inl e) \<Rightarrow> (db', Fence_Raised)
      | (db', Inr (status, row)) \<Rightarrow>
          (db', if fence_held status
                then (if status = Unknown_Call \<and> dispatch_state = ''dispatching'' then Fence_Unbound else Fence_Ok)
                else Fence_Stale))"

text \<open>\<open>BackgroundDirectTurnFence.assert_current\<close>: the parent's live fence, or its turn completed by
  exactly that owner.\<close>

definition background_current :: "time \<Rightarrow> exec_fence \<Rightarrow> turn_db \<Rightarrow> fence_end" where
  "background_current now f db =
     (if has_fence (tx_of now db) (fx_request_id f) (fx_lease f) db then Fence_Ok
      else case find_turn (fx_request_id f) (td_rows db) of
        None \<Rightarrow> Fence_Cancelled
      | Some r \<Rightarrow>
          if dt_status r = Turn_Completed \<and> dt_cancel_requested_at r = None \<and>
             dt_fencing_token r = Some (fencing_token (fx_lease f)) \<and>
             turn_owner_id (case dt_owner_controller_id r of None \<Rightarrow> ''None'' | Some c \<Rightarrow> c)
               (case dt_owner_incarnation_id r of None \<Rightarrow> ''None'' | Some i \<Rightarrow> i) = owner_id (fx_lease f) \<and>
             conversation_lease_key (dt_conversation_id r) = resource_key (fx_lease f)
          then Fence_Ok else Fence_Cancelled)"

subsection \<open>Executing a claimed turn\<close>

datatype exec_end = Exec_Ok | Exec_Stale | Exec_Busy string | Exec_Permanent string | Exec_Cancelled bool | Exec_Error

datatype payload_end = Payload_None | Payload_Ok | Payload_Raised exec_end

record exec_world =
  xw_now :: time
  xw_loop :: rat
  xw_payload :: payload_end
  xw_run :: "turn_db \<Rightarrow> turn_db"
  xw_end :: exec_end
  xw_published :: bool

definition append_phases :: "string list" where
  "append_phases = [''user_append_pending'', ''user_append_uncertain'', ''user_appended'']"

text \<open>The append state that a new attempt takes over from the outcome of the last one.\<close>

definition prior_append_phase :: "turn_row \<Rightarrow> string option" where
  "prior_append_phase r =
     (case dict_get (outcome_dict r) ''user_append_phase'' of
        VStr s \<Rightarrow> Some s
      | _ \<Rightarrow> if phase_text r ''claimed'' \<in> set append_phases then Some (phase_text r ''claimed'') else None)"

definition prior_append_session :: "turn_row \<Rightarrow> string option" where
  "prior_append_session r =
     (case dict_get (outcome_dict r) ''user_append_session_id'' of
        VStr s \<Rightarrow> Some s
      | _ \<Rightarrow> (case dict_get (outcome_dict r) ''session_id'' of VStr s \<Rightarrow> Some s | _ \<Rightarrow> None))"

definition execution_fence :: "turn_row \<Rightarrow> lease \<Rightarrow> exec_fence" where
  "execution_fence r l =
     (let f = new_fence (dt_request_id r) l
      in case prior_append_phase r of
           None \<Rightarrow> f
         | Some p \<Rightarrow> f\<lparr>fx_user_append_phase := Some p, fx_user_append_session_id := prior_append_session r\<rparr>)"

definition first_checkpoint :: "time \<Rightarrow> turn_row \<Rightarrow> lease \<Rightarrow> turn_db \<Rightarrow> turn_db \<times> fence_end" where
  "first_checkpoint now r l db =
     (let preserve = (prior_append_phase r \<noteq> None \<or> phase_text r ''claimed'' \<in> set append_phases)
      in snd (fence_checkpoint now (execution_fence r l)
           (if preserve then phase_text r ''claimed'' else ''claimed'')
           (if preserve then drop_keys [''phase'', ''phase_started_at''] (outcome_dict r) else []) db))"

text \<open>How the body of \<open>_execute\<close> ends, and the tables it leaves.\<close>

definition execute_body :: "exec_world \<Rightarrow> turn_row \<Rightarrow> lease \<Rightarrow> turn_db \<Rightarrow> turn_db \<times> exec_end" where
  "execute_body w r l db =
     (case xw_payload w of
        Payload_None \<Rightarrow> (db, Exec_Stale)
      | Payload_Raised e \<Rightarrow> (db, e)
      | Payload_Ok \<Rightarrow>
          (case first_checkpoint (xw_now w) r l db of
             (db1, Fence_Ok) \<Rightarrow> (xw_run w db1, xw_end w)
           | (db1, Fence_Stale) \<Rightarrow> (db1, Exec_Stale)
           | (db1, Fence_Cancelled) \<Rightarrow> (db1, Exec_Cancelled False)
           | (db1, _) \<Rightarrow> (db1, Exec_Error)))"

definition current_outcome :: "string \<Rightarrow> turn_db \<Rightarrow> (string \<times> pyval) list" where
  "current_outcome rid db = (case find_turn rid (td_rows db) of None \<Rightarrow> [] | Some r \<Rightarrow> outcome_dict r)"

definition keeps_append_state :: "string \<Rightarrow> turn_db \<Rightarrow> bool" where
  "keeps_append_state rid db =
     (let d = current_outcome rid db
      in is_str (dict_get d ''user_append_phase'') \<or>
         py_str (py_or (dict_get d ''phase'') (VStr ''controller_error'')) \<in> set append_phases)"

text \<open>Publishing a permanent failure: the callback runs, then the row says so.\<close>

definition publish_failure :: "exec_world \<Rightarrow> string \<Rightarrow> turn_db \<times> (turn_error, turn_row option) result \<Rightarrow> turn_db" where
  "publish_failure w rid res =
     (case res of
        (db, Inr (Some r)) \<Rightarrow>
          if xw_published w then fst (complete_failure_visibility (tx_of (xw_now w) db) rid db) else db
      | (db, _) \<Rightarrow> db)"

text \<open>The exception handlers; the second component is whether a retry was scheduled.\<close>

definition handle_exec_end :: "exec_world \<Rightarrow> string \<Rightarrow> lease \<Rightarrow> turn_db \<Rightarrow> exec_end \<Rightarrow> turn_db \<times> bool" where
  "handle_exec_end w rid l db e =
     (let tx = tx_of (xw_now w) db in
      case e of
        Exec_Ok \<Rightarrow> (db, False)
      | Exec_Stale \<Rightarrow> (db, False)
      | Exec_Busy reason \<Rightarrow>
          (fst (mark_recoverable tx rid l
             (VDict (dict_merge (current_outcome rid db)
                [(''phase'', VStr ''local_turn_busy''), (''local_busy_reason'', VStr reason)])) db), True)
      | Exec_Permanent msg \<Rightarrow>
          (publish_failure w rid (mark_terminal tx rid l Turn_Failed
             (VDict [(''phase'', VStr ''permanent_payload_visibility_pending''), (''error'', VStr (take 1000 msg))]) db), False)
      | Exec_Cancelled lost \<Rightarrow>
          (if lost then db
           else fst (mark_terminal tx rid l Turn_Cancelled (VDict [(''phase'', VStr ''cancelled_during_controller_drain'')]) db), False)
      | Exec_Error \<Rightarrow>
          (let kept = (if keeps_append_state rid db then current_outcome rid db else [])
           in if (case find_turn rid (td_rows db) of None \<Rightarrow> False
                  | Some r \<Rightarrow> DIRECT_TURN_CONTROLLER_MAX_ATTEMPTS \<le> dt_attempt_count r)
              then (publish_failure w rid (mark_terminal tx rid l Turn_Failed
                     (VDict (dict_merge kept [(''phase'', VStr ''permanent_payload_visibility_pending''),
                        (''failure_kind'', VStr ''controller''),
                        (''error'', VStr ''Direct turn controller execution failed.'')])) db), False)
              else (fst (mark_recoverable tx rid l
                     (VDict (dict_merge kept [(''phase'', VStr ''controller_error'')])) db), True)))"

text \<open>What \<open>finally\<close> leaves in the process once the lease is given back.\<close>

definition retry_delay :: "turn_row \<Rightarrow> rat" where
  "retry_delay r =
     (case num_val (dict_get (outcome_dict r) ''retry_after_seconds'') of
        None \<Rightarrow> DIRECT_TURN_ACTIVE_POLL
      | Some q \<Rightarrow> if 0 < q then q else DIRECT_TURN_ACTIVE_POLL)"

definition finish_execution :: "exec_world \<Rightarrow> turn_row \<Rightarrow> bool \<Rightarrow> turn_db \<Rightarrow> runtime \<Rightarrow> runtime" where
  "finish_execution w r scheduled db s =
     (let rid = dt_request_id r; updated = find_turn rid (td_rows db);
          put = (\<lambda>q s. s\<lparr>rn_retry_after := (rn_retry_after s)(rid \<mapsto> xw_loop w + q)\<rparr>);
          requeued = (case updated of None \<Rightarrow> False | Some u \<Rightarrow> dt_status u = Turn_Recoverable \<and> \<not> scheduled);
          s1 = (if scheduled then put DIRECT_TURN_ACTIVE_POLL s else s);
          s2 = (if requeued then put (retry_delay (the updated)) s1 else s1);
          s3 = (case updated of
                  None \<Rightarrow> s2
                | Some u \<Rightarrow> if dt_status u \<in> {Turn_Completed, Turn_Failed, Turn_Cancelled, Turn_Ambiguous}
                             then s2\<lparr>rn_retry_after := (rn_retry_after s2)(rid := None)\<rparr> else s2);
          s4 = (if scheduled \<or> requeued then s3 else signal_wake s3)
      in s4\<lparr>rn_active := filter (\<lambda>e. fst e \<noteq> dt_conversation_id r) (rn_active s4)\<rparr>)"

definition execute_turn :: "exec_world \<Rightarrow> turn_row \<Rightarrow> lease \<Rightarrow> runtime \<times> turn_db \<Rightarrow> runtime \<times> turn_db" where
  "execute_turn w r l sd =
     (case execute_body w r l (snd sd) of (db1, e) \<Rightarrow>
     (case handle_exec_end w (dt_request_id r) l db1 e of (db2, scheduled) \<Rightarrow>
        let db3 = rt_release (xw_now w) l db2
        in (finish_execution w r scheduled db3 (fst sd), db3)))"

subsection \<open>Recovering turns whose owner is gone\<close>

text \<open>
  One row of \<open>_recover_stale\<close>. \<open>rw_clock n\<close> is the clock of the database at the n-th call for the row,
  \<open>rw_between n\<close> what others did to the tables just before it, \<open>rw_local\<close> what the tasks of this process
  did to its own state meanwhile, \<open>rw_utcnow\<close> the clock of the process.
  \<open>rw_parse\<close> stands for \<open>datetime.fromisoformat\<close> after \<open>Z\<close> was replaced. The two callbacks may be absent;
  the one that reconciles an append may raise, the one that recovers tool calls works on the tables
  for some time and ends in one of the ways the code distinguishes.
\<close>

datatype recover_end =
  Rec_Done | Rec_Stale | Rec_Persistence string bool | Rec_Error string | Rec_Cancelled

record recovery_world =
  rw_clock :: "nat \<Rightarrow> time"
  rw_between :: "nat \<Rightarrow> turn_db \<Rightarrow> turn_db"
  rw_local :: "runtime \<Rightarrow> runtime"
  rw_utcnow :: time
  rw_parse :: "string \<Rightarrow> time option"
  rw_reconcile :: "(turn_row \<Rightarrow> bool option) option"
  rw_recover :: "(turn_row \<Rightarrow> lease \<Rightarrow> turn_db \<Rightarrow> turn_db \<times> time \<times> recover_end) option"
  rw_error_text :: string

definition quarantine_elapsed :: "recovery_world \<Rightarrow> (string \<times> pyval) list \<Rightarrow> string \<Rightarrow> bool" where
  "quarantine_elapsed w outcome phase =
     (case dict_get outcome ''phase_started_at'' of
        VStr s \<Rightarrow>
          (case rw_parse w s of
             None \<Rightarrow> True
           | Some started \<Rightarrow>
               (if phase \<in> {''intaris_append'', ''canonical_user_append''} then INTARIS_TAKEOVER_QUARANTINE else 0)
                 \<le> rw_utcnow w - started)
      | _ \<Rightarrow> True)"

definition reconcile_append_safely :: "recovery_world \<Rightarrow> turn_row \<Rightarrow> bool option" where
  "reconcile_append_safely w r = (case rw_reconcile w of None \<Rightarrow> Some False | Some f \<Rightarrow> f r)"

text \<open>The call of the store that a stale row leads to, with the outcome it writes.\<close>

datatype stale_action =
  A_Claim pyval | A_Running pyval | A_Ambiguous pyval | A_Absorbed | A_Absorbing | A_Completed pyval

definition ambiguous_outcome :: "string \<Rightarrow> pyval" where
  "ambiguous_outcome reason = VDict [(''phase'', VStr ''ambiguous''), (''reason'', VStr reason)]"

definition append_recovery_metadata :: "(string \<times> pyval) list \<Rightarrow> (string \<times> pyval) list" where
  "append_recovery_metadata outcome =
     concat (map (\<lambda>k. case map_of outcome k of None \<Rightarrow> [] | Some v \<Rightarrow> [(k, v)])
       [''user_append_phase'', ''user_append_session_id'', ''session_id''])"

definition append_outcome :: "(string \<times> pyval) list \<Rightarrow> string \<Rightarrow> pyval" where
  "append_outcome outcome phase =
     VDict ([(''phase'', VStr phase), (''user_append_phase'', VStr phase)] @
       (if is_str (dict_get outcome ''session_id'') then [(''session_id'', dict_get outcome ''session_id'')] else []))"

text \<open>A claimed or running row goes back with the state of its append; any other is ambiguous.\<close>

definition requeue_append :: "turn_row \<Rightarrow> string \<Rightarrow> pyval \<Rightarrow> stale_action" where
  "requeue_append r phase outcome =
     (if dt_status r = Turn_Claimed then A_Claim outcome
      else if dt_status r = Turn_Running then A_Running outcome
      else A_Ambiguous (ambiguous_outcome (''stale '' @ phase @ '' in '' @ turn_status_value (dt_status r))))"

definition append_decision :: "turn_row \<Rightarrow> bool option \<Rightarrow> stale_action" where
  "append_decision r reconciled =
     (let phase = phase_text r ''claimed'' in
      case reconciled of
        None \<Rightarrow> A_Ambiguous (ambiguous_outcome ''canonical user append could not be reconciled'')
      | Some b \<Rightarrow>
          if dt_status r = Turn_Absorbing then (if b then A_Absorbed else A_Absorbing)
          else requeue_append r phase
                 (append_outcome (outcome_dict r) (if b then ''user_appended'' else ''user_append_pending'')))"

definition has_event :: "string \<Rightarrow> (string \<times> pyval) list \<Rightarrow> bool checked" where
  "has_event e outcome = py_contains (VStr e) (py_or (dict_get outcome ''event_types'') (VList []))"

definition event_ambiguous :: "(string \<times> pyval) list \<Rightarrow> string \<Rightarrow> pyval" where
  "event_ambiguous outcome reason =
     VDict [(''phase'', VStr ''ambiguous''), (''reason'', VStr reason),
            (''call_ids'', py_or (dict_get outcome ''call_ids'') (VList []))]"

text \<open>A row whose append says nothing certain, by its status.\<close>

definition boundary_decision :: "turn_row \<Rightarrow> stale_action" where
  "boundary_decision r =
     (let phase = phase_text r ''claimed'' in
      if dt_status r = Turn_Absorbing then A_Absorbing
      else if dt_status r = Turn_Running
      then A_Running (VDict ([(''phase'', VStr ''recovered_model_boundary''), (''source_phase'', VStr phase)]
             @ append_recovery_metadata (outcome_dict r)))
      else A_Ambiguous (ambiguous_outcome (''stale '' @ phase)))"

definition event_decision :: "turn_row \<Rightarrow> bool option \<Rightarrow> stale_action checked" where
  "event_decision r reconciled =
     (let d = outcome_dict r in
      res_bind (has_event ''tool_call'' d) (\<lambda>calls.
      if calls then Inr (A_Ambiguous (event_ambiguous d ''tool call persistence crossed an uncertain dispatch boundary''))
      else res_bind (has_event ''tool_result'' d) (\<lambda>results.
      if results then Inr (A_Ambiguous (event_ambiguous d ''tool result append outcome is uncertain''))
      else case reconciled of
        None \<Rightarrow> Inr (A_Ambiguous (ambiguous_outcome ''event append could not be reconciled''))
      | Some False \<Rightarrow> Inr (boundary_decision r)
      | Some True \<Rightarrow>
          if dt_status r = Turn_Absorbing then Inr A_Absorbed
          else res_bind (has_event ''assistant_message'' d) (\<lambda>answered.
            Inr (if answered then A_Completed (VDict [(''phase'', VStr ''reconciled_terminal_assistant'')])
                 else A_Running (VDict [(''phase'', VStr ''user_appended'')]))))))"

definition stale_decision :: "turn_row \<Rightarrow> bool option \<Rightarrow> stale_action checked" where
  "stale_decision r reconciled =
     (let d = outcome_dict r; phase = phase_text r ''claimed'' in
      if phase = ''user_appended'' then Inr (requeue_append r phase (append_outcome d ''user_appended''))
      else if phase \<in> {''canonical_user_append'', ''user_append_uncertain''} then Inr (append_decision r reconciled)
      else if dt_status r = Turn_Claimed
      then Inr (A_Claim (VDict ((''phase'', VStr ''recovered_pre_model'') # append_recovery_metadata d)))
      else if phase = ''intaris_append'' then event_decision r reconciled
      else if phase = ''model_response''
      then Inr (if reconciled = Some True then A_Completed (VDict [(''phase'', VStr ''reconciled_terminal_assistant'')])
                else A_Ambiguous (ambiguous_outcome ''model response completion could not be reconciled''))
      else Inr (boundary_decision r))"

fun apply_action :: "stale_action \<Rightarrow> txn \<Rightarrow> string \<Rightarrow> lease \<Rightarrow> turn_db \<Rightarrow> turn_db" where
  "apply_action (A_Claim oc) tx rid l db = fst (recover_stale_claim tx rid l oc db)"
| "apply_action (A_Running oc) tx rid l db = fst (recover_stale_running tx rid l oc db)"
| "apply_action (A_Ambiguous oc) tx rid l db = fst (mark_stale_ambiguous tx rid l oc db)"
| "apply_action A_Absorbed tx rid l db = fst (reconcile_stale_absorbed tx rid l db)"
| "apply_action A_Absorbing tx rid l db = fst (recover_stale_absorbing tx rid l db)"
| "apply_action (A_Completed oc) tx rid l db = fst (reconcile_stale_completed tx rid l oc db)"

text \<open>The end of a method: it returned, or an exception left it.\<close>

datatype run_end = Run_Ok | Run_Raised

text \<open>The callback under the deadline the row carries; a task that takes longer is cancelled.\<close>

definition recovery_deadline :: "recovery_world \<Rightarrow> turn_row \<Rightarrow> time option" where
  "recovery_deadline w row = rw_parse w (py_str (dict_get (outcome_dict row) ''recovery_deadline_at''))"

definition run_tool_recovery :: "recovery_world \<Rightarrow> turn_row \<Rightarrow> lease \<Rightarrow> turn_db \<Rightarrow> turn_db \<times> recover_end" where
  "run_tool_recovery w row l db =
     (case rw_recover w of
        None \<Rightarrow> (db, Rec_Persistence ''Tool recovery handler is unavailable.'' True)
      | Some f \<Rightarrow>
          (case recovery_deadline w row of
             None \<Rightarrow> (db, Rec_Persistence ''The durable tool recovery deadline is malformed.'' True)
           | Some deadline \<Rightarrow>
               (case f row l db of (db', took, e) \<Rightarrow>
                  (db', if max 100000 (deadline - rw_utcnow w) < took
                        then Rec_Persistence ''The durable tool recovery deadline elapsed.'' True else e))))"

text \<open>Every call has its result: the dispatch records go, and the turn with them to the queue.\<close>

definition recovered_metadata :: "turn_row \<Rightarrow> (string \<times> pyval) list" where
  "recovered_metadata row =
     drop_keys [''phase'', ''phase_started_at'', ''deferred_phase'', ''tool_dispatch_groups'', ''tool_calls'']
       (outcome_dict row)"

definition recovered_outcome :: "turn_row \<Rightarrow> pyval" where
  "recovered_outcome row =
     VDict (dict_merge (outcome_dict row)
       [(''phase'', VStr ''user_appended''), (''user_append_phase'', VStr ''user_appended''),
        (''interruption_reason'', VStr ''tool execution was interrupted after restart''),
        (''tool_recovery_result_persisted'', VBool True)])"

definition settle_tool_recovery :: "recovery_world \<Rightarrow> turn_row \<Rightarrow> lease \<Rightarrow> turn_db \<Rightarrow> turn_db \<times> recover_end" where
  "settle_tool_recovery w row l db =
     (let rid = dt_request_id row; db1 = rw_between w 2 db in
      case checkpoint (tx_of (rw_clock w 2) db1) rid l ''tool_recovery_result_persisted''
             (recovered_metadata row) True db1 of
        (db2, Inl e) \<Rightarrow> (db2, Rec_Error (rw_error_text w))
      | (db2, Inr None) \<Rightarrow> (db2, Rec_Stale)
      | (db2, Inr (Some ck)) \<Rightarrow>
          (let db3 = rw_between w 3 db2 in
           case finish_tool_recovery (tx_of (rw_clock w 3) db3) rid l (recovered_outcome ck) db3 of
             (db4, None) \<Rightarrow> (db4, Rec_Stale)
           | (db4, Some recovered) \<Rightarrow> (db4, Rec_Done)))"

definition persistence_outcome :: "string \<Rightarrow> bool \<Rightarrow> pyval" where
  "persistence_outcome msg amb =
     VDict [(''phase'', VStr (if amb then ''ambiguous'' else ''failed'')),
            (''code'', VStr (if amb then ''tool_outcome_ambiguous'' else ''tool_recovery_persistence_failed'')),
            (''reason'', VStr (take 1000 msg)), (''error'', VStr (take 1000 msg))]"

definition error_outcome :: "string \<Rightarrow> pyval" where
  "error_outcome msg =
     VDict [(''phase'', VStr ''failed''), (''code'', VStr ''tool_recovery_persistence_failed''),
            (''error'', VStr (take 1000 msg))]"

definition recovery_failed :: "recovery_world \<Rightarrow> string \<Rightarrow> lease \<Rightarrow> turn_status \<Rightarrow> pyval \<Rightarrow> turn_db \<Rightarrow> turn_db" where
  "recovery_failed w rid l status outcome db =
     (let db1 = rw_between w 4 db
      in fst (mark_tool_recovery_terminal (tx_of (rw_clock w 4) db1) rid l status outcome db1))"

definition give_back :: "recovery_world \<Rightarrow> lease \<Rightarrow> turn_db \<Rightarrow> turn_db" where
  "give_back w l db = rt_release (rw_clock w 5) l (rw_between w 5 db)"

definition end_tool_recovery ::
  "recovery_world \<Rightarrow> string \<Rightarrow> lease \<Rightarrow> turn_db \<times> recover_end \<Rightarrow> turn_db \<times> run_end" where
  "end_tool_recovery w rid l res =
     (case res of
        (db, Rec_Cancelled) \<Rightarrow> (db, Run_Raised)
      | (db, Rec_Done) \<Rightarrow> (give_back w l db, Run_Ok)
      | (db, Rec_Stale) \<Rightarrow> (give_back w l db, Run_Ok)
      | (db, Rec_Persistence msg amb) \<Rightarrow>
          (give_back w l (recovery_failed w rid l (if amb then Turn_Ambiguous else Turn_Failed)
             (persistence_outcome msg amb) db), Run_Ok)
      | (db, Rec_Error msg) \<Rightarrow>
          (give_back w l (recovery_failed w rid l Turn_Failed (error_outcome msg) db), Run_Ok))"

definition attempt_tool_recovery :: "recovery_world \<Rightarrow> turn_row \<Rightarrow> lease \<Rightarrow> turn_db \<Rightarrow> turn_db \<times> recover_end" where
  "attempt_tool_recovery w row l db =
     (case run_tool_recovery w row l db of
        (db', Rec_Done) \<Rightarrow> settle_tool_recovery w row l db'
      | res \<Rightarrow> res)"

definition tool_recovery :: "recovery_world \<Rightarrow> controller \<Rightarrow> string \<Rightarrow> lease \<Rightarrow> turn_db \<Rightarrow> turn_db \<times> run_end" where
  "tool_recovery w c rid l db =
     (let db1 = rw_between w 1 db in
      case begin_tool_recovery (tx_of (rw_clock w 1) db1) rid l (ct_controller_id c) (ct_incarnation_id c)
             TOOL_RECOVERY_DEADLINE db1 of
        (db2, Inl e) \<Rightarrow> (db2, Run_Raised)
      | (db2, Inr None) \<Rightarrow> (give_back w l db2, Run_Ok)
      | (db2, Inr (Some row)) \<Rightarrow>
          end_tool_recovery w rid l (attempt_tool_recovery w row l db2))"

definition reconciliation :: "recovery_world \<Rightarrow> turn_row \<Rightarrow> bool option" where
  "reconciliation w r =
     (if phase_text r ''claimed'' \<in> {''intaris_append'', ''model_response'', ''canonical_user_append'', ''user_append_uncertain''}
      then reconcile_append_safely w r else None)"

text \<open>One iteration of \<open>_recover_stale\<close>, for the row as it was listed.\<close>

definition recover_stale_row ::
  "recovery_world \<Rightarrow> controller \<Rightarrow> bool \<Rightarrow> turn_row \<Rightarrow> turn_db \<Rightarrow> turn_db \<times> run_end" where
  "recover_stale_row w c locally r db =
     (let rid = dt_request_id r; db0 = rw_between w 0 db in
      if locally then (db, Run_Ok)
      else case rt_acquire (rw_clock w 0) c (dt_conversation_id r) db0 of
        (db1, None) \<Rightarrow> (db1, Run_Ok)
      | (db1, Some l) \<Rightarrow>
          if dt_cancel_requested_at r \<noteq> None
          then (let db2 = rw_between w 1 db1
                in (give_back w l (fst (cancel_stale_active (tx_of (rw_clock w 1) db2) rid l db2)), Run_Ok))
          else if phase_text r ''claimed'' = ''tool_in_flight'' then tool_recovery w c rid l db1
          else if \<not> quarantine_elapsed w (outcome_dict r) (phase_text r ''claimed'')
          then (give_back w l db1, Run_Ok)
          else case stale_decision r (reconciliation w r) of
                 Inl e \<Rightarrow> (db1, Run_Raised)
               | Inr act \<Rightarrow>
                   (let db2 = rw_between w 1 db1
                    in (give_back w l (apply_action act (tx_of (rw_clock w 1) db2) rid l db2), Run_Ok)))"

fun recover_rows ::
  "(turn_row \<Rightarrow> recovery_world) \<Rightarrow> controller \<Rightarrow> turn_row list \<Rightarrow> runtime \<times> turn_db \<Rightarrow> (runtime \<times> turn_db) \<times> run_end" where
  "recover_rows ws c [] sd = (sd, Run_Ok)"
| "recover_rows ws c (r # rs) (s, db) =
     (let s1 = rw_local (ws r) s in
      case recover_stale_row (ws r) c (locally_active s1 (dt_conversation_id r)) r db of
        (db', Run_Raised) \<Rightarrow> ((s1, db'), Run_Raised)
      | (db', Run_Ok) \<Rightarrow> recover_rows ws c rs (s1, db'))"

definition recover_stale ::
  "time \<Rightarrow> (turn_row \<Rightarrow> recovery_world) \<Rightarrow> controller \<Rightarrow> runtime \<times> turn_db \<Rightarrow> (runtime \<times> turn_db) \<times> run_end" where
  "recover_stale now ws c sd = recover_rows ws c (list_stale_active now 100 (snd sd)) sd"

subsection \<open>Making permanent failures visible\<close>

record visibility_world =
  vw_clock :: time
  vw_between :: "nat \<Rightarrow> turn_db \<Rightarrow> turn_db"
  vw_published :: bool

definition failure_pending :: "turn_row \<Rightarrow> bool" where
  "failure_pending r \<longleftrightarrow> dt_status r = Turn_Failed \<and>
     dict_get (outcome_dict r) ''phase'' = VStr ''permanent_payload_visibility_pending''"

definition show_failure :: "visibility_world \<Rightarrow> string \<Rightarrow> turn_db \<Rightarrow> turn_db" where
  "show_failure w rid db =
     (let db1 = vw_between w 0 db in
      case find_turn rid (td_rows db1) of
        None \<Rightarrow> db1
      | Some r \<Rightarrow>
          if failure_pending r \<and> vw_published w
          then (let db2 = vw_between w 1 db1
                in fst (complete_failure_visibility (tx_of (vw_clock w) db2) rid db2))
          else db1)"

definition recover_failure_visibility :: "(string \<Rightarrow> visibility_world) option \<Rightarrow> turn_db \<Rightarrow> turn_db" where
  "recover_failure_visibility vs db =
     (case vs of
        None \<Rightarrow> db
      | Some f \<Rightarrow> fold (\<lambda>rid. show_failure (f rid) rid)
                    (map dt_request_id (list_pending_failure_visibility 100 db)) db)"

subsection \<open>Claiming the heads of the conversations\<close>

record claim_world =
  cw_loop :: rat
  cw_eligible :: bool
  cw_local :: "runtime \<Rightarrow> runtime"
  cw_clock :: "nat \<Rightarrow> time"
  cw_between :: "nat \<Rightarrow> turn_db \<Rightarrow> turn_db"

definition throttled :: "claim_world \<Rightarrow> runtime \<Rightarrow> string \<Rightarrow> bool" where
  "throttled w s rid = (case rn_retry_after s rid of None \<Rightarrow> False | Some t \<Rightarrow> cw_loop w < t)"

definition try_claim ::
  "claim_world \<Rightarrow> controller \<Rightarrow> turn_row \<Rightarrow> runtime \<times> turn_db \<Rightarrow> (runtime \<times> turn_db) \<times> run_end" where
  "try_claim w c r sd =
     (let s = fst sd; conv = dt_conversation_id r; rid = dt_request_id r; s1 = cw_local w s in
      if throttled w s rid \<or> locally_active s conv then (sd, Run_Ok)
      else if \<not> cw_eligible w \<or> \<not> rn_accepting s1 \<or> locally_active s1 conv then ((s1, snd sd), Run_Ok)
      else case rt_acquire (cw_clock w 0) c conv (cw_between w 0 (snd sd)) of
        (db1, None) \<Rightarrow> ((s1, db1), Run_Ok)
      | (db1, Some l) \<Rightarrow>
          (let db2 = cw_between w 1 db1 in
           case claim (tx_of (cw_clock w 1) db2) rid l (ct_controller_id c) (ct_incarnation_id c) None db2 of
             (db3, Inl e) \<Rightarrow> ((s1, db3), Run_Raised)
           | (db3, Inr None) \<Rightarrow> ((s1, rt_release (cw_clock w 2) l (cw_between w 2 db3)), Run_Ok)
           | (db3, Inr (Some claimed)) \<Rightarrow>
               ((s1\<lparr>rn_active := (dt_conversation_id claimed, claimed, l) # rn_active s1\<rparr>, db3), Run_Ok)))"

fun claim_heads ::
  "(turn_row \<Rightarrow> claim_world) \<Rightarrow> controller \<Rightarrow> turn_row list \<Rightarrow> runtime \<times> turn_db \<Rightarrow> (runtime \<times> turn_db) \<times> run_end" where
  "claim_heads ws c [] sd = (sd, Run_Ok)"
| "claim_heads ws c (r # rs) sd =
     (case try_claim (ws r) c r sd of
        (sd', Run_Raised) \<Rightarrow> (sd', Run_Raised)
      | (sd', Run_Ok) \<Rightarrow> claim_heads ws c rs sd')"

definition forget_unclaimable :: "turn_row list \<Rightarrow> runtime \<Rightarrow> runtime" where
  "forget_unclaimable heads s =
     s\<lparr>rn_retry_after := rn_retry_after s |` set (map dt_request_id heads)\<rparr>"

record run_world =
  ru_visibility :: "(string \<Rightarrow> visibility_world) option"
  ru_stale_at :: time
  ru_recovery :: "turn_row \<Rightarrow> recovery_world"
  ru_heads_at :: time
  ru_between :: "turn_db \<Rightarrow> turn_db"
  ru_claim :: "turn_row \<Rightarrow> claim_world"

definition run_once :: "run_world \<Rightarrow> controller \<Rightarrow> runtime \<times> turn_db \<Rightarrow> (runtime \<times> turn_db) \<times> run_end" where
  "run_once w c sd =
     (if \<not> rn_accepting (fst sd) then (sd, Run_Ok)
      else case recover_stale (ru_stale_at w) (ru_recovery w) c
                  (fst sd, recover_failure_visibility (ru_visibility w) (snd sd)) of
        (sd1, Run_Raised) \<Rightarrow> (sd1, Run_Raised)
      | ((s1, db1), Run_Ok) \<Rightarrow>
          (let db2 = ru_between w db1; heads = list_claimable_heads (ru_heads_at w) 100 db2
           in claim_heads (ru_claim w) c heads (forget_unclaimable heads s1, db2)))"

end
