(* ===== verification/Turn_Runtime_Safety.thy ===== *)
theory Turn_Runtime_Safety
  imports Turn_Runtime
begin

section \<open>What the runtime guarantees\<close>

text \<open>
  The runtime beside the store. Every method of the runtime is a sequence of steps of the store, when
  what happens in between is one (\<open>..._follows\<close>), so the invariants of the store carry over. What a
  recovery makes of its row is a function of the row and of the answers of the callbacks
  (\<open>recovered_row\<close>), from which the properties at the end follow.
\<close>


subsection \<open>The runtime only takes steps of the store\<close>

text \<open>From tables in order, steps of the store lead from the first to the second.\<close>

definition follows :: "turn_db \<Rightarrow> turn_db \<Rightarrow> bool" where
  "follows db db' \<longleftrightarrow> (turn_inv db \<longrightarrow> turn_step\<^sup>*\<^sup>* db db')"

definition benign :: "(turn_db \<Rightarrow> turn_db) \<Rightarrow> bool" where
  "benign f \<longleftrightarrow> (\<forall>db. follows db (f db))"

lemma follows_refl [simp, intro]: "follows db db"
  by (simp add: follows_def)

lemma follows_trans [trans]: "follows a b \<Longrightarrow> follows b d \<Longrightarrow> follows a d"
  unfolding follows_def using turns.steps_inv by (meson rtranclp_trans)

lemma tx_ok_tx_of: "turn_inv db \<Longrightarrow> tx_ok (tx_of now db) db"
  by (rule earlier_read_ok [where db = db]) (simp_all add: tx_of_def)

lemma follows_call: "(tx_ok (tx_of now db) db \<Longrightarrow> turn_step db db') \<Longrightarrow> follows db db'"
  unfolding follows_def using tx_ok_tx_of by blast

lemma follows_step: "turn_step db db' \<Longrightarrow> follows db db'"
  unfolding follows_def by blast

lemma benignD: "benign f \<Longrightarrow> follows db (f db)"
  by (simp add: benign_def)

text \<open>An interference, then a call on the tables it left.\<close>

lemma follows_after: "benign f \<Longrightarrow> (\<And>db'. follows db' (g db')) \<Longrightarrow> follows db (g (f db))"
  by (blast intro: benignD follows_trans)

lemma rt_acquire_follows: "follows db (fst (rt_acquire now c conv db))"
proof -
  have "fst (rt_acquire now c conv db) = db\<lparr>td_leases := fst (run_op
      (Op_Acquire now DIRECT_TURN_LEASE_TTL (conversation_lease_key conv) (ct_owner_id c)) (td_leases db))\<rparr>"
    by (simp add: rt_acquire_def split: prod.split)
  then show ?thesis by (metis Step_Lease follows_step)
qed

lemma rt_release_follows: "follows db (rt_release now l db)"
proof -
  have "rt_release now l db = db\<lparr>td_leases := fst (run_op (Op_Release now l) (td_leases db))\<rparr>"
    by (simp add: rt_release_def)
  then show ?thesis by (metis Step_Lease follows_step)
qed

lemma apply_action_follows: "follows db (apply_action act (tx_of now db) rid l db)"
  by (rule follows_call, cases act)
    (auto intro: Step_Stale_Claim Step_Stale_Running Step_Stale_Ambiguous Step_Stale_Absorbed
      Step_Stale_Absorbing Step_Stale_Completed)

lemma fst_fence_result [simp]: "fst (fence_result x) = fst x"
  by (cases x rule: fence_result.cases) auto

lemma fence_calls_follow:
  "follows db (fst (snd (fence_checkpoint now f phase m db)))"
  "follows db (fst (snd (fence_record_dispatch now f sid tid ds db)))"
  "follows db (fst (snd (fence_complete_dispatch now f sid tid cs db)))"
  by (simp_all add: fence_checkpoint_def fence_record_dispatch_def fence_complete_dispatch_def Let_def
      Step_Checkpoint Step_Record Step_Complete follows_step)

lemma bind_tool_dispatch_follows: "follows db (fst (bind_tool_dispatch now f cid x xi sid tid st db))"
proof (cases "merge_tool_dispatch (tx_of now db) (fx_request_id f) (fx_lease f) sid tid cid x xi st db")
  case (Pair db' res)
  then have "follows db db'" by (metis Step_Merge fst_conv follows_step)
  with Pair show ?thesis by (auto simp: bind_tool_dispatch_def split: sum.split prod.split)
qed

definition recovery_benign :: "recovery_world \<Rightarrow> bool" where
  "recovery_benign w \<longleftrightarrow> (\<forall>n. benign (rw_between w n)) \<and>
     (\<forall>f row l. rw_recover w = Some f \<longrightarrow> benign (\<lambda>db. fst (f row l db)))"

lemma give_back_follows: "recovery_benign w \<Longrightarrow> follows db (give_back w l db)"
  unfolding give_back_def recovery_benign_def by (rule follows_after) (auto intro: rt_release_follows)

lemma recovery_failed_follows: "recovery_benign w \<Longrightarrow> follows db (recovery_failed w rid l s oc db)"
  unfolding recovery_failed_def recovery_benign_def Let_def
  by (rule follows_after [where g = "\<lambda>db'. fst (mark_tool_recovery_terminal (tx_of (rw_clock w 4) db') rid l s oc db')"])
    (auto intro: follows_call Step_Recovery_Terminal)

lemma run_tool_recovery_follows:
  assumes "recovery_benign w"
  shows "follows db (fst (run_tool_recovery w row l db))"
proof (cases "rw_recover w")
  case (Some f)
  with assms have "follows db (fst (f row l db))" by (simp add: recovery_benign_def benign_def)
  with Some show ?thesis by (auto simp: run_tool_recovery_def split: option.split prod.split)
qed (simp add: run_tool_recovery_def)

lemma settle_tool_recovery_follows:
  assumes "recovery_benign w"
  shows "follows db (fst (settle_tool_recovery w row l db))"
proof -
  let ?rid = "dt_request_id row" and ?db1 = "rw_between w 2 db"
  obtain db2 res where ck: "checkpoint (tx_of (rw_clock w 2) ?db1) ?rid l ''tool_recovery_result_persisted''
      (recovered_metadata row) True ?db1 = (db2, res)" by (cases "checkpoint (tx_of (rw_clock w 2) ?db1) ?rid l
      ''tool_recovery_result_persisted'' (recovered_metadata row) True ?db1")
  have "follows db ?db1" using assms by (simp add: recovery_benign_def benign_def)
  also have "follows ?db1 db2" using ck by (metis Step_Checkpoint fst_conv follows_step)
  finally have two: "follows db db2" .
  have "follows db2 (rw_between w 3 db2)" using assms by (simp add: recovery_benign_def benign_def)
  then have "follows db2 (fst (finish_tool_recovery (tx_of (rw_clock w 3) (rw_between w 3 db2)) ?rid l oc (rw_between w 3 db2)))"
    for oc by (blast intro: Step_Finish_Recovery follows_step follows_trans)
  with two have "follows db (fst (finish_tool_recovery (tx_of (rw_clock w 3) (rw_between w 3 db2)) ?rid l oc (rw_between w 3 db2)))"
    for oc by (blast intro: follows_trans)
  with two ck show ?thesis
    by (auto simp: settle_tool_recovery_def Let_def split: sum.split option.split prod.split) (metis fst_conv)+
qed

lemma attempt_tool_recovery_follows:
  "recovery_benign w \<Longrightarrow> follows db (fst (attempt_tool_recovery w row l db))"
  using run_tool_recovery_follows [of w db row l]
  by (auto simp: attempt_tool_recovery_def split: prod.split recover_end.split
      intro: follows_trans settle_tool_recovery_follows)

lemma end_tool_recovery_follows:
  "recovery_benign w \<Longrightarrow> follows (fst res) (fst (end_tool_recovery w rid l res))"
  by (auto simp: end_tool_recovery_def split: prod.split recover_end.split
      intro: give_back_follows follows_trans [OF recovery_failed_follows give_back_follows])

lemma tool_recovery_follows:
  assumes "recovery_benign w"
  shows "follows db (fst (tool_recovery w c rid l db))"
proof -
  let ?opened = "begin_tool_recovery (tx_of (rw_clock w 1) (rw_between w 1 db)) rid l (ct_controller_id c)
    (ct_incarnation_id c) TOOL_RECOVERY_DEADLINE (rw_between w 1 db)"
  have "follows db (rw_between w 1 db)" using assms by (simp add: recovery_benign_def benign_def)
  then have started: "follows db (fst ?opened)" by (blast intro: Step_Begin_Recovery follows_step follows_trans)
  obtain db2 res where b: "?opened = (db2, res)" by (cases ?opened)
  have start: "follows db db2" using started b by simp
  show ?thesis
    using b start follows_trans [OF start give_back_follows [OF assms]]
      follows_trans [OF start follows_trans [OF attempt_tool_recovery_follows [OF assms] end_tool_recovery_follows [OF assms]]]
    by (simp add: tool_recovery_def Let_def split: sum.split option.split)
qed

lemma recover_stale_row_follows:
  assumes "recovery_benign w"
  shows "follows db (fst (recover_stale_row w c locally r db))"
proof -
  let ?between = "\<lambda>n. rw_between w n"
  have quiet: "benign (?between n)" for n using assms by (simp add: recovery_benign_def)
  have got: "follows db (fst (rt_acquire (rw_clock w 0) c (dt_conversation_id r) (?between 0 db)))"
    using quiet rt_acquire_follows by (blast intro: benignD follows_trans)
  have act: "follows db1 (give_back w l (apply_action a (tx_of (rw_clock w 1) (?between 1 db1)) rid l (?between 1 db1)))"
    for db1 l a rid
    using quiet by (blast intro: benignD follows_trans apply_action_follows give_back_follows [OF assms])
  have "follows db2 (fst (cancel_stale_active (tx_of (rw_clock w 1) db2) rid l db2))" for db2 rid l
    by (blast intro: follows_call Step_Stale_Cancel)
  then have cancel: "follows db1 (give_back w l (fst (cancel_stale_active (tx_of (rw_clock w 1) (?between 1 db1)) rid l (?between 1 db1))))"
    for db1 l rid
    by (rule follows_trans [OF benignD [OF quiet] follows_trans [OF _ give_back_follows [OF assms]]])
  obtain db1 res where a: "rt_acquire (rw_clock w 0) c (dt_conversation_id r) (?between 0 db) = (db1, res)"
    by (cases "rt_acquire (rw_clock w 0) c (dt_conversation_id r) (?between 0 db)")
  then have got: "follows db db1" using got by simp
  show ?thesis
    using a got follows_trans [OF got act] follows_trans [OF got cancel]
      follows_trans [OF got give_back_follows [OF assms]] follows_trans [OF got tool_recovery_follows [OF assms]]
    by (simp add: recover_stale_row_def Let_def split: option.split sum.split)
qed

lemma recover_rows_follows:
  "(\<And>r. recovery_benign (ws r)) \<Longrightarrow> follows (snd sd) (snd (fst (recover_rows ws c rs sd)))"
proof (induction ws c rs sd rule: recover_rows.induct)
  case (2 ws c r rs s db)
  let ?s = "rw_local (ws r) s"
  obtain db' e where row: "recover_stale_row (ws r) c (locally_active ?s (dt_conversation_id r)) r db = (db', e)"
    by (cases "recover_stale_row (ws r) c (locally_active ?s (dt_conversation_id r)) r db")
  then have "follows db db'" using recover_stale_row_follows [OF 2(2)] by (metis fst_conv)
  with 2 row show ?case by (cases e) (auto simp: Let_def intro: follows_trans)
qed simp

definition visibility_benign :: "visibility_world \<Rightarrow> bool" where
  "visibility_benign w \<longleftrightarrow> (\<forall>n. benign (vw_between w n))"

lemma show_failure_follows:
  assumes "visibility_benign w"
  shows "follows db (show_failure w rid db)"
proof -
  have quiet: "benign (vw_between w n)" for n using assms by (simp add: visibility_benign_def)
  have "follows db1 (fst (complete_failure_visibility (tx_of (vw_clock w) (vw_between w 1 db1)) rid (vw_between w 1 db1)))"
    for db1 using quiet by (blast intro: benignD follows_trans follows_step Step_Visibility)
  then show ?thesis
    using benignD [OF quiet] by (auto simp: show_failure_def Let_def split: option.split intro: follows_trans)
qed

lemma show_failures_follow:
  "(\<And>rid. visibility_benign (f rid)) \<Longrightarrow> follows db (fold (\<lambda>rid. show_failure (f rid) rid) rids db)"
proof (induction rids arbitrary: db)
  case (Cons rid rids)
  then have "follows (show_failure (f rid) rid db) (fold (\<lambda>rid. show_failure (f rid) rid) rids (show_failure (f rid) rid db))"
    by blast
  with show_failure_follows [OF Cons(2)] show ?case by (auto intro: follows_trans)
qed simp

definition claim_benign :: "claim_world \<Rightarrow> bool" where
  "claim_benign w \<longleftrightarrow> (\<forall>n. benign (cw_between w n))"

lemma try_claim_follows:
  assumes "claim_benign w"
  shows "follows (snd sd) (snd (fst (try_claim w c r sd)))"
proof -
  let ?conv = "dt_conversation_id r"
  have quiet: "follows db (cw_between w n db)" for n db using assms by (simp add: claim_benign_def benign_def)
  obtain db1 got where a: "rt_acquire (cw_clock w 0) c ?conv (cw_between w 0 (snd sd)) = (db1, got)"
    by (cases "rt_acquire (cw_clock w 0) c ?conv (cw_between w 0 (snd sd))")
  have one: "follows (snd sd) db1" using a rt_acquire_follows quiet by (metis fst_conv follows_trans)
  show ?thesis
  proof (cases got)
    case (Some l)
    obtain db3 res where b: "claim (tx_of (cw_clock w 1) (cw_between w 1 db1)) (dt_request_id r) l
        (ct_controller_id c) (ct_incarnation_id c) None (cw_between w 1 db1) = (db3, res)" by (metis surj_pair)
    have "follows (cw_between w 1 db1) (fst (claim (tx_of (cw_clock w 1) (cw_between w 1 db1)) (dt_request_id r) l
        (ct_controller_id c) (ct_incarnation_id c) None (cw_between w 1 db1)))"
      by (blast intro: follows_call Step_Claim)
    with b have two: "follows (snd sd) db3" using one quiet by (metis fst_conv follows_trans)
    then have "follows (snd sd) (rt_release (cw_clock w 2) l (cw_between w 2 db3))"
      using quiet rt_release_follows by (blast intro: follows_trans)
    with a b one two Some show ?thesis
      by (simp add: try_claim_def Let_def split: option.split sum.split)
  qed (use a one in \<open>simp add: try_claim_def Let_def\<close>)
qed

lemma claim_heads_follow:
  "(\<And>r. claim_benign (ws r)) \<Longrightarrow> follows (snd sd) (snd (fst (claim_heads ws c rs sd)))"
proof (induction ws c rs sd rule: claim_heads.induct)
  case (2 ws c r rs sd)
  obtain sd' e where head: "try_claim (ws r) c r sd = (sd', e)" by (cases "try_claim (ws r) c r sd")
  then have "follows (snd sd) (snd sd')" using try_claim_follows [OF 2(2)] by (metis fst_conv)
  with 2 head show ?case by (cases e; cases sd') (auto intro: follows_trans)
qed simp

definition run_benign :: "run_world \<Rightarrow> bool" where
  "run_benign w \<longleftrightarrow> (\<forall>f rid. ru_visibility w = Some f \<longrightarrow> visibility_benign (f rid)) \<and>
     (\<forall>r. recovery_benign (ru_recovery w r)) \<and> benign (ru_between w) \<and> (\<forall>r. claim_benign (ru_claim w r))"

lemma run_once_follows:
  assumes "run_benign w"
  shows "follows (snd sd) (snd (fst (run_once w c sd)))"
proof -
  let ?shown = "recover_failure_visibility (ru_visibility w) (snd sd)"
  have "follows (snd sd) ?shown"
    using assms by (auto simp: recover_failure_visibility_def run_benign_def split: option.split intro: show_failures_follow)
  moreover obtain s1 db1 e where rec: "recover_stale (ru_stale_at w) (ru_recovery w) c (fst sd, ?shown) = ((s1, db1), e)"
    by (metis surj_pair)
  moreover have "follows ?shown db1"
    using rec assms recover_rows_follows [of "ru_recovery w" "(fst sd, ?shown)" c]
    unfolding recover_stale_def run_benign_def by (metis fst_conv snd_conv)
  ultimately have one: "follows (snd sd) db1" by (blast intro: follows_trans)
  moreover have "follows db1 (ru_between w db1)" using assms by (simp add: run_benign_def benign_def)
  ultimately have two: "follows (snd sd) (ru_between w db1)" by (rule follows_trans)
  have "follows (ru_between w db1) (snd (fst (claim_heads (ru_claim w) c hs (s, ru_between w db1))))" for hs s
    using claim_heads_follow [of "ru_claim w" "(s, ru_between w db1)"] assms by (simp add: run_benign_def)
  with one two rec show ?thesis
    by (cases e) (auto simp: run_once_def Let_def intro: follows_trans)
qed

lemma publish_failure_follows: "follows (fst res) (publish_failure w rid res)"
  by (auto simp: publish_failure_def split: prod.split sum.split option.split intro: follows_step Step_Visibility)

lemma handle_exec_end_follows: "follows db (fst (handle_exec_end w rid l db e))"
proof -
  have "follows db (fst (mark_terminal (tx_of now db) rid l s oc db))" for now s oc
    by (blast intro: follows_call Step_Terminal)
  moreover have "follows db (fst (mark_recoverable (tx_of now db) rid l oc db))" for now oc
    by (blast intro: follows_call Step_Recoverable)
  ultimately show ?thesis
    by (cases e) (auto simp: handle_exec_end_def Let_def intro: follows_trans [OF _ publish_failure_follows])
qed

lemma execute_body_follows:
  assumes "benign (xw_run w)"
  shows "follows db (fst (execute_body w r l db))"
proof -
  have "follows db (fst (first_checkpoint (xw_now w) r l db))"
    by (simp add: first_checkpoint_def Let_def fence_calls_follow)
  then show ?thesis
    using benignD [OF assms]
    by (auto simp: execute_body_def split: payload_end.split prod.split fence_end.split intro: follows_trans)
qed

lemma execute_turn_follows:
  assumes "benign (xw_run w)"
  shows "follows (snd sd) (snd (execute_turn w r l sd))"
proof -
  obtain db1 e where body: "execute_body w r l (snd sd) = (db1, e)" by (metis surj_pair)
  obtain db2 b where ended: "handle_exec_end w (dt_request_id r) l db1 e = (db2, b)" by (metis surj_pair)
  have "follows (snd sd) db1" using body execute_body_follows [OF assms] by (metis fst_conv)
  also have "follows db1 db2" using ended handle_exec_end_follows by (metis fst_conv)
  also have "follows db2 (rt_release (xw_now w) l db2)" by (rule rt_release_follows)
  finally show ?thesis using body ended by (simp add: execute_turn_def Let_def)
qed

subsection \<open>What a recovery does to its row\<close>

lemma find_first_map: "find_first q (map g xs) = map_option g (find_first (\<lambda>x. q (g x)) xs)"
  by (induction xs) auto

lemma find_update_turn:
  assumes "find_turn rid (td_rows db) = Some r" and "\<And>x. dt_request_id (f x) = dt_request_id x"
  shows "find_turn rid (td_rows (fst (update_turn rid p f db))) = Some (if p r then f r else r)"
proof (cases "find_first (\<lambda>r. dt_request_id r = rid \<and> p r) (td_rows db)")
  case None
  moreover have "r \<in> set (td_rows db)" "dt_request_id r = rid"
    using assms(1) by (auto simp: find_turn_def dest: find_first_SomeD)
  ultimately have "\<not> p r" by simp
  moreover have "fst (update_turn rid p f db) = db" unfolding update_turn_def None by simp
  ultimately show ?thesis using assms(1) by simp
next
  case (Some x)
  have "(\<lambda>x. dt_request_id (if dt_request_id x = rid \<and> p x then f x else x) = rid) = (\<lambda>x. dt_request_id x = rid)"
    using assms(2) by (auto simp: fun_eq_iff)
  moreover have "dt_request_id r = rid" using assms(1) by (auto simp: find_turn_def dest: find_first_SomeD)
  ultimately show ?thesis using assms(1) Some
    by (simp add: update_turn_def find_turn_def find_first_map)
qed

text \<open>A lease that may take over the row.\<close>

definition takes_over :: "time \<Rightarrow> lease \<Rightarrow> lease_db \<Rightarrow> turn_row \<Rightarrow> bool" where
  "takes_over now l ls r \<longleftrightarrow> conversation_lease now l ls r \<and>
     (\<exists>t. dt_fencing_token r = Some t \<and> t < fencing_token l)"

lemma find_stale_update:
  assumes "find_turn rid (td_rows db) = Some r" and "\<And>x. dt_request_id (f x) = dt_request_id x"
  shows "find_turn rid (td_rows (fst (stale_update (tx_of now db) rid l pre p f db))) =
    Some (if pre r \<and> p r \<and> takes_over now l (td_leases db) r then f r else r)"
proof (cases "dt_fencing_token r")
  case None
  then show ?thesis using assms(1) by (simp add: stale_update_def tx_of_def takes_over_def)
next
  case (Some t)
  then show ?thesis using assms(1)
    by (auto simp: stale_update_def find_update_turn [OF assms] takes_over_def conversation_lease_def
        lease_predicate_def tx_of_def)
qed

text \<open>The status an action leaves.\<close>

fun action_status :: "stale_action \<Rightarrow> turn_status \<Rightarrow> turn_status" where
  "action_status (A_Claim oc) s = (if s = Turn_Claimed then Turn_Recoverable else s)"
| "action_status (A_Running oc) s = (if s = Turn_Running then Turn_Recoverable else s)"
| "action_status (A_Ambiguous oc) s = (if s \<in> {Turn_Running, Turn_Absorbing} then Turn_Ambiguous else s)"
| "action_status A_Absorbed s = (if s = Turn_Absorbing then Turn_Absorbed else s)"
| "action_status A_Absorbing s = (if s = Turn_Absorbing then Turn_Recoverable else s)"
| "action_status (A_Completed oc) s = (if s = Turn_Running then Turn_Completed else s)"

lemma apply_action_row:
  assumes "find_turn rid (td_rows db) = Some r"
  shows "\<exists>r'. find_turn rid (td_rows (apply_action act (tx_of now db) rid l db)) = Some r' \<and>
    dt_status r' = (if takes_over now l (td_leases db) r \<and> dt_cancel_requested_at r = None
                    then action_status act (dt_status r) else dt_status r)"
  using assms
  by (cases act) (auto simp: stale_defs find_stale_update unless_cancelled_def requeue_values_def terminal_values_def)

lemma rows_give_back [simp]: "rw_between w 5 = (\<lambda>db. db) \<Longrightarrow> td_rows (give_back w l db) = td_rows db"
  by (simp add: give_back_def rt_release_def)

lemma rt_acquire_rows: "rt_acquire now c conv db = (db', res) \<Longrightarrow> td_rows db' = td_rows db"
  by (auto simp: rt_acquire_def split: prod.splits)

text \<open>A lease acquired for the conversation of an active row is newer than the row's fence.\<close>

lemma acquired_takes_over:
  assumes "turn_inv db" and "r \<in> set (td_rows db)" and "dt_status r \<in> set ACTIVE_STATUSES"
    and "rt_acquire now c (dt_conversation_id r) db = (db', Some l)" and "t < now + DIRECT_TURN_LEASE_TTL"
  shows "takes_over t l (td_leases db') r \<and> owner_id l = ct_owner_id c"
proof -
  let ?key = "conversation_lease_key (dt_conversation_id r)"
  obtain ls where ls: "acquire_in_session now DIRECT_TURN_LEASE_TTL ?key (ct_owner_id c) (td_leases db) = (ls, Some l)"
    "td_leases db' = ls"
    using assms(4) by (auto simp: rt_acquire_def split: prod.splits)
  obtain tok where tok: "dt_fencing_token r = Some tok"
    using assms(1-3) by (auto simp: turn_inv_def list_all_iff row_ok_def)
  then obtain n where "tok \<le> n" "fence_of (td_leases db) ?key = Some n"
    using assms(1,2) unfolding turn_inv_def list_all_iff fence_ok_def by blast
  then have "resource_key l = ?key" "tok < fencing_token l" "owner_id l = ct_owner_id c"
    using ls(1) by (auto simp: fence_of_def acquire_in_session_def taken_row_def lease_of_def Let_def split: if_splits)
  moreover have "is_current t l (td_leases db')" using acquire_then_current [OF ls(1)] ls(2) assms(5) by simp
  ultimately show ?thesis using tok by (simp add: takes_over_def conversation_lease_def)
qed

text \<open>The row and the result of a statement that writes the row it has locked.\<close>

lemma update_locked:
  assumes "find_turn rid (td_rows db) = Some r" and "\<And>x. dt_request_id (f x) = dt_request_id x"
  shows "\<exists>db'. update_turn rid (\<lambda>r. True) f db = (db', Some (f r)) \<and> find_turn rid (td_rows db') = Some (f r) \<and>
    td_leases db' = td_leases db"
  using assms find_update_turn [OF assms, of "\<lambda>r. True"]
  by (auto simp: update_turn_def find_turn_def)

lemma find_owned_update:
  assumes "find_turn rid (td_rows db) = Some r" and "\<And>x. dt_request_id (f x) = dt_request_id x"
    and "holds l r" and "conversation_lease now l (td_leases db) r" and "dt_status r \<in> set ss" and "p r"
  shows "find_turn rid (td_rows (fst (owned_fenced_update (tx_of now db) rid l ss p f db))) = Some (f r) \<and>
    snd (owned_fenced_update (tx_of now db) rid l ss p f db) \<noteq> None"
proof -
  let ?q = "\<lambda>x. dt_status x \<in> set ss \<and> dt_owner_controller_id x = dt_owner_controller_id r \<and>
    dt_owner_incarnation_id x = dt_owner_incarnation_id r \<and> dt_fencing_token x = Some (fencing_token l) \<and>
    lease_predicate (tx_of now db) l db \<and> p x"
  have eq: "owned_fenced_update (tx_of now db) rid l ss p f db = update_turn rid ?q f db"
    using assms(1,3,4) by (simp add: owned_fenced_update_def tx_of_def holds_def conversation_lease_def)
  have q: "?q r" using assms(3-6) by (simp add: holds_def conversation_lease_def lease_predicate_def tx_of_def)
  have r: "r \<in> set (td_rows db)" "dt_request_id r = rid"
    using assms(1) by (auto simp: find_turn_def dest: find_first_SomeD)
  have "find_first (\<lambda>x. dt_request_id x = rid \<and> ?q x) (td_rows db) \<noteq> None"
    using q r by (simp del: find_first_None_iff add: find_first_None_iff) blast
  then have "snd (update_turn rid ?q f db) \<noteq> None" unfolding update_turn_def by (auto split: option.splits)
  with find_update_turn [OF assms(1,2), of ?q] q eq show ?thesis by simp
qed

definition undisturbed :: "recovery_world \<Rightarrow> bool" where
  "undisturbed w \<longleftrightarrow> (\<forall>n. rw_between w n = (\<lambda>db. db)) \<and>
     (\<forall>n < 5. rw_clock w n < rw_clock w 0 + DIRECT_TURN_LEASE_TTL) \<and>
     (\<forall>f row l db. rw_recover w = Some f \<longrightarrow>
        td_rows (fst (f row l db)) = td_rows db \<and> td_leases (fst (f row l db)) = td_leases db)"

text \<open>The row that a recovery of tool calls works on.\<close>

definition begun_row :: "recovery_world \<Rightarrow> controller \<Rightarrow> lease \<Rightarrow> turn_row \<Rightarrow> turn_row" where
  "begun_row w c l r =
     (let d = outcome_dict r in
      r\<lparr>dt_owner_controller_id := Some (ct_controller_id c), dt_owner_incarnation_id := Some (ct_incarnation_id c),
        dt_fencing_token := Some (fencing_token l),
        dt_outcome := VDict (dict_put ''recovery_deadline_at''
          (str_or (dict_get d ''recovery_deadline_at'') (isoformat (rw_clock w 1 + max 1000000 TOOL_RECOVERY_DEADLINE)))
          (dict_put ''recovery_started_at'' (str_or (dict_get d ''recovery_started_at'') (isoformat (rw_clock w 1))) d)),
        dt_updated_at := rw_clock w 1\<rparr>)"

lemma begin_tool_recovery_row:
  assumes "undisturbed w" and "find_turn rid (td_rows db) = Some r" and "dt_status r \<in> set ACTIVE_STATUSES"
    and "takes_over (rw_clock w 1) l (td_leases db) r" and "owner_id l = ct_owner_id c"
    and "dict_get (outcome_dict r) ''phase'' = VStr ''tool_in_flight''"
  shows "\<exists>db'. begin_tool_recovery (tx_of (rw_clock w 1) db) rid l (ct_controller_id c) (ct_incarnation_id c)
      TOOL_RECOVERY_DEADLINE db = (db', Inr (Some (begun_row w c l r))) \<and>
    find_turn rid (td_rows db') = Some (begun_row w c l r) \<and> td_leases db' = td_leases db"
proof -
  obtain db' where "update_turn rid (\<lambda>r. True) (\<lambda>x. x\<lparr>dt_owner_controller_id := Some (ct_controller_id c),
      dt_owner_incarnation_id := Some (ct_incarnation_id c), dt_fencing_token := Some (fencing_token l),
      dt_outcome := dt_outcome (begun_row w c l r), dt_updated_at := rw_clock w 1\<rparr>) db = (db', Some (begun_row w c l r))"
    "find_turn rid (td_rows db') = Some (begun_row w c l r)" "td_leases db' = td_leases db"
    using update_locked [OF assms(2), of "\<lambda>x. x\<lparr>dt_owner_controller_id := Some (ct_controller_id c),
      dt_owner_incarnation_id := Some (ct_incarnation_id c), dt_fencing_token := Some (fencing_token l),
      dt_outcome := dt_outcome (begun_row w c l r), dt_updated_at := rw_clock w 1\<rparr>"]
    by (auto simp: begun_row_def Let_def)
  with assms(2-6) show ?thesis
    by (auto simp: begin_tool_recovery_def check_owner_def ct_owner_id_def takes_over_def conversation_lease_def
        lease_predicate_def tx_of_def begun_row_def Let_def)
qed

fun end_status :: "recover_end \<Rightarrow> turn_status \<Rightarrow> turn_status" where
  "end_status Rec_Done s = Turn_Recoverable"
| "end_status Rec_Stale s = s"
| "end_status (Rec_Persistence msg amb) s = (if amb then Turn_Ambiguous else Turn_Failed)"
| "end_status (Rec_Error msg) s = Turn_Failed"
| "end_status Rec_Cancelled s = s"

lemma live_requestI:
  assumes "find_turn rid (td_rows db) = Some r" and "dt_status r \<in> set ACTIVE_STATUSES" and "holds l r"
    and "conversation_lease now l (td_leases db) r"
  shows "live_request (tx_of now db) rid l db = Some r"
  using assms by (simp add: live_request_def owns_live_fence_def holds_def conversation_lease_def lease_predicate_def tx_of_def)

lemma finish_tool_recovery_row:
  assumes "live_request tx rid l db = Some r" and "dt_cancel_requested_at r = None"
  shows "\<exists>db' r'. finish_tool_recovery tx rid l oc db = (db', Some r') \<and> find_turn rid (td_rows db') = Some r' \<and>
    dt_status r' = Turn_Recoverable"
proof -
  define fin :: "turn_row \<Rightarrow> turn_row" where "fin = (\<lambda>r. (if dt_cancel_requested_at r \<noteq> None
      then r\<lparr>dt_status := Turn_Cancelled, dt_outcome := VDict [(''phase'', VStr ''cancelled''),
        (''reason'', VStr ''cancelled during tool recovery'')], dt_terminal_at := Some (tx_now tx)\<rparr>
      else r\<lparr>dt_status := Turn_Recoverable, dt_outcome := oc\<rparr>)
      \<lparr>dt_owner_controller_id := None, dt_owner_incarnation_id := None, dt_fencing_token := None,
       dt_updated_at := tx_now tx\<rparr>)"
  have keep: "dt_request_id (fin x) = dt_request_id x" for x by (simp add: fin_def)
  have eq: "finish_tool_recovery tx rid l oc db = update_turn rid (\<lambda>r. True) fin db"
    unfolding finish_tool_recovery_def assms(1) fin_def by simp
  have status: "dt_status (fin r) = Turn_Recoverable" using assms(2) by (simp add: fin_def)
  from update_locked [OF live_request_find [OF assms(1)], of fin, OF keep] eq status show ?thesis by auto
qed

lemma settle_tool_recovery_row:
  assumes "undisturbed w" and "find_turn (dt_request_id row) (td_rows db) = Some row"
    and "dt_status row \<in> set ACTIVE_STATUSES" and "holds l row" and "dt_cancel_requested_at row = None"
    and "\<And>n. n < 5 \<Longrightarrow> conversation_lease (rw_clock w n) l (td_leases db) row"
  shows "\<exists>db' r'. settle_tool_recovery w row l db = (db', Rec_Done) \<and>
    find_turn (dt_request_id row) (td_rows db') = Some r' \<and> dt_status r' = Turn_Recoverable"
proof -
  let ?rid = "dt_request_id row"
  have quiet: "rw_between w n = (\<lambda>db. db)" for n using assms(1) by (simp add: undisturbed_def)
  let ?oc = "checkpoint_outcome (rw_clock w 2) row ''tool_recovery_result_persisted'' (recovered_metadata row) True"
  obtain d where d: "?oc = Inr d"
    by (simp add: checkpoint_outcome_def write_tool_dispatch_groups_def Let_def)
  let ?ck = "row\<lparr>dt_outcome := VDict d, dt_updated_at := rw_clock w 2\<rparr>"
  obtain db2 where ck: "checkpoint (tx_of (rw_clock w 2) db) ?rid l ''tool_recovery_result_persisted''
      (recovered_metadata row) True db = (db2, Inr (Some ?ck))"
    "find_turn ?rid (td_rows db2) = Some ?ck" "td_leases db2 = td_leases db"
    using update_locked [OF assms(2), of "\<lambda>x. x\<lparr>dt_outcome := VDict d, dt_updated_at := rw_clock w 2\<rparr>"]
      live_requestI [OF assms(2-4) assms(6) [of 2]] d
    by (auto simp: checkpoint_def set_outcome_def tx_of_def)
  have live: "live_request (tx_of (rw_clock w 3) db2) ?rid l db2 = Some ?ck"
    using live_requestI [OF ck(2), of l "rw_clock w 3"] assms(3,4) assms(6) [of 3] ck(3)
    by (simp add: holds_def conversation_lease_def row_owner_def)
  from finish_tool_recovery_row [OF live] assms(5) obtain db4 r' where
    "finish_tool_recovery (tx_of (rw_clock w 3) db2) ?rid l (recovered_outcome ?ck) db2 = (db4, Some r')"
    "find_turn ?rid (td_rows db4) = Some r'" "dt_status r' = Turn_Recoverable" by fastforce
  with ck(1) quiet show ?thesis by (simp add: settle_tool_recovery_def)
qed

lemma recovery_failed_row:
  assumes "undisturbed w" and "find_turn rid (td_rows db) = Some row" and "s \<in> {Turn_Failed, Turn_Ambiguous}"
    and "dt_status row \<in> set ACTIVE_STATUSES" and "holds l row" and "conversation_lease (rw_clock w 4) l (td_leases db) row"
  shows "\<exists>r'. find_turn rid (td_rows (recovery_failed w rid l s oc db)) = Some r' \<and> dt_status r' = s"
proof -
  have quiet: "rw_between w n = (\<lambda>db. db)" for n using assms(1) by (simp add: undisturbed_def)
  let ?u = "owned_fenced_update (tx_of (rw_clock w 4) db) rid l ACTIVE_STATUSES (\<lambda>r. True) (terminal_values (rw_clock w 4) s oc) db"
  have "find_turn rid (td_rows (fst ?u)) = Some (terminal_values (rw_clock w 4) s oc row)" "snd ?u \<noteq> None"
    using find_owned_update [OF assms(2) _ assms(5,6,4), of "terminal_values (rw_clock w 4) s oc" "\<lambda>r. True"]
    by (simp_all add: terminal_values_def)
  moreover obtain db' r' where "?u = (db', r')" by (metis surj_pair)
  moreover have "tx_now (tx_of (rw_clock w 4) db) = rw_clock w 4" by (simp add: tx_of_def)
  ultimately show ?thesis
    using assms(3) quiet
    by (auto simp: recovery_failed_def mark_tool_recovery_terminal_def mark_terminal_from_def terminal_values_def)
qed

lemma tool_recovery_row:
  assumes "undisturbed w" and "find_turn rid (td_rows db) = Some r" and "dt_status r \<in> set ACTIVE_STATUSES"
    and "\<And>n. n < 5 \<Longrightarrow> takes_over (rw_clock w n) l (td_leases db) r" and "owner_id l = ct_owner_id c"
    and "dict_get (outcome_dict r) ''phase'' = VStr ''tool_in_flight''" and "dt_cancel_requested_at r = None"
  shows "\<exists>db2 r'. td_leases db2 = td_leases db \<and> find_turn rid (td_rows (fst (tool_recovery w c rid l db))) = Some r' \<and>
    dt_status r' = end_status (snd (run_tool_recovery w (begun_row w c l r) l db2)) (dt_status r)"
proof -
  let ?row = "begun_row w c l r"
  have quiet: "rw_between w n = (\<lambda>db. db)" for n using assms(1) by (simp add: undisturbed_def)
  have rid: "dt_request_id r = rid" using assms(2) by (auto simp: find_turn_def dest: find_first_SomeD)
  obtain db2 where b: "begin_tool_recovery (tx_of (rw_clock w 1) db) rid l (ct_controller_id c) (ct_incarnation_id c)
      TOOL_RECOVERY_DEADLINE db = (db2, Inr (Some ?row))"
    "find_turn rid (td_rows db2) = Some ?row" "td_leases db2 = td_leases db"
    using begin_tool_recovery_row [OF assms(1-3) assms(4) [of 1] assms(5,6)] by auto
  obtain db3 e where run: "run_tool_recovery w ?row l db2 = (db3, e)" by (metis surj_pair)
  have same: "td_rows db3 = td_rows db2 \<and> td_leases db3 = td_leases db2"
    using run assms(1) by (auto simp: run_tool_recovery_def undisturbed_def split: option.splits prod.splits) (metis fst_conv)+
  have row: "dt_request_id ?row = rid" "dt_status ?row = dt_status r" "dt_cancel_requested_at ?row = None" "holds l ?row"
    "dt_conversation_id ?row = dt_conversation_id r"
    using rid assms(5,7) by (simp_all add: begun_row_def Let_def holds_def row_owner_def ct_owner_id_def)
  have lease: "conversation_lease (rw_clock w n) l (td_leases db3) ?row" if "n < 5" for n
    using assms(4) [OF that] same b(3) row by (simp add: takes_over_def conversation_lease_def)
  have found: "find_turn rid (td_rows db3) = Some ?row" using b(2) same by simp
  have failed: "\<exists>r'. find_turn rid (td_rows (recovery_failed w rid l s oc db3)) = Some r' \<and> dt_status r' = s"
    if "s \<in> {Turn_Failed, Turn_Ambiguous}" for s oc
    using recovery_failed_row [OF assms(1) found that _ row(4) lease] assms(3) row(2) by simp
  have "\<exists>r'. find_turn rid (td_rows (fst (tool_recovery w c rid l db))) = Some r' \<and>
      dt_status r' = end_status e (dt_status r)"
  proof (cases e)
    case Rec_Done
    with settle_tool_recovery_row [OF assms(1), of ?row db3 l] found row lease assms(3) run b(1) quiet show ?thesis
      by (auto simp: tool_recovery_def attempt_tool_recovery_def end_tool_recovery_def)
  qed (use run b(1) quiet failed found row in
      \<open>auto simp: tool_recovery_def attempt_tool_recovery_def end_tool_recovery_def\<close>)
  with run b(3) show ?thesis by (intro exI [of _ db2]) auto
qed

lemma cancel_stale_row:
  "find_turn rid (td_rows db) = Some r \<Longrightarrow>
     \<exists>r'. find_turn rid (td_rows (fst (cancel_stale_active (tx_of now db) rid l db))) = Some r' \<and>
       dt_status r' = (if dt_status r \<in> set ACTIVE_STATUSES \<and> dt_cancel_requested_at r \<noteq> None \<and>
         takes_over now l (td_leases db) r then Turn_Cancelled else dt_status r)"
  by (auto simp: cancel_stale_active_def find_stale_update terminal_values_def)

definition readable_events :: "turn_row \<Rightarrow> bool" where
  "readable_events r \<longleftrightarrow>
     (case dict_get (outcome_dict r) ''event_types'' of VNone \<Rightarrow> True | VList _ \<Rightarrow> True | _ \<Rightarrow> False)"

lemma has_event_readable: "readable_events r \<Longrightarrow> \<exists>b. has_event e (outcome_dict r) = Inr b"
  by (auto simp: readable_events_def has_event_def py_or_def split: pyval.splits)

text \<open>The two kinds of rows that a recovery reaches and still leaves as they are.\<close>

definition left_alone :: "recovery_world \<Rightarrow> turn_row \<Rightarrow> bool" where
  "left_alone w r \<longleftrightarrow>
     (let phase = phase_text r ''claimed'' in
      dt_status r = Turn_Claimed \<and> phase \<in> {''canonical_user_append'', ''user_append_uncertain''} \<and>
        reconciliation w r = None \<or>
      dt_status r = Turn_Absorbing \<and> phase = ''model_response'' \<and> reconciliation w r = Some True)"

lemma boundary_decision_resolves:
  "dt_status r \<in> {Turn_Running, Turn_Absorbing} \<Longrightarrow>
     action_status (boundary_decision r) (dt_status r) = Turn_Recoverable"
  by (auto simp: boundary_decision_def Let_def)

lemma event_decision_resolves:
  assumes "readable_events r" and "dt_status r \<in> {Turn_Running, Turn_Absorbing}"
  shows "\<exists>act. event_decision r rc = Inr act \<and> action_status act (dt_status r) \<notin> set ACTIVE_STATUSES"
proof -
  obtain a b d where "has_event ''tool_call'' (outcome_dict r) = Inr a" "has_event ''tool_result'' (outcome_dict r) = Inr b"
    "has_event ''assistant_message'' (outcome_dict r) = Inr d"
    using has_event_readable [OF assms(1)] by metis
  with assms(2) boundary_decision_resolves [OF assms(2)] show ?thesis
    by (cases rc) (auto simp: event_decision_def Let_def ACTIVE_STATUSES_def split: bool.split)
qed

lemma stale_decision_resolves:
  assumes "readable_events r" and "dt_status r \<in> set ACTIVE_STATUSES" and "\<not> left_alone w r"
  shows "\<exists>act. stale_decision r (reconciliation w r) = Inr act \<and>
    action_status act (dt_status r) \<notin> set ACTIVE_STATUSES"
proof (cases "dt_status r = Turn_Claimed")
  case True
  with assms(3) show ?thesis
    by (auto simp: stale_decision_def Let_def left_alone_def append_decision_def requeue_append_def ACTIVE_STATUSES_def
        split: option.splits)
next
  case False
  with assms(2) have run: "dt_status r \<in> {Turn_Running, Turn_Absorbing}" by (auto simp: ACTIVE_STATUSES_def)
  let ?phase = "phase_text r ''claimed''"
  consider "?phase \<in> {''user_appended'', ''canonical_user_append'', ''user_append_uncertain''}"
    | "?phase = ''intaris_append''" | "?phase = ''model_response''"
    | "?phase \<notin> {''user_appended'', ''canonical_user_append'', ''user_append_uncertain'', ''intaris_append'', ''model_response''}"
    by blast
  then show ?thesis
  proof cases
    case 1
    with run show ?thesis
      by (auto simp: stale_decision_def Let_def append_decision_def requeue_append_def ACTIVE_STATUSES_def
          split: option.split)
  next
    case 2
    with run event_decision_resolves [OF assms(1) run] show ?thesis by (auto simp: stale_decision_def Let_def)
  next
    case 3
    with run assms(3) show ?thesis by (auto simp: stale_decision_def Let_def left_alone_def ACTIVE_STATUSES_def)
  next
    case 4
    with run boundary_decision_resolves [OF run] show ?thesis
      by (auto simp: stale_decision_def Let_def ACTIVE_STATUSES_def)
  qed
qed

text \<open>When a recovery can be expected to end the tenure of the lost owner.\<close>

definition recovery_possible :: "recovery_world \<Rightarrow> turn_row \<Rightarrow> bool" where
  "recovery_possible w r \<longleftrightarrow> dt_cancel_requested_at r \<noteq> None \<or>
     (if phase_text r ''claimed'' = ''tool_in_flight''
      then dict_get (outcome_dict r) ''phase'' = VStr ''tool_in_flight'' \<and>
        (\<forall>f row l db. rw_recover w = Some f \<longrightarrow> snd (snd (f row l db)) \<notin> {Rec_Stale, Rec_Cancelled})
      else quarantine_elapsed w (outcome_dict r) (phase_text r ''claimed'') \<and> readable_events r \<and> \<not> left_alone w r)"

lemma run_tool_recovery_settles:
  assumes "\<And>f row l db. rw_recover w = Some f \<Longrightarrow> snd (snd (f row l db)) \<notin> {Rec_Stale, Rec_Cancelled}"
  shows "end_status (snd (run_tool_recovery w row l db)) s \<notin> set ACTIVE_STATUSES"
proof -
  have "snd (run_tool_recovery w row l db) \<notin> {Rec_Stale, Rec_Cancelled}"
    using assms by (auto simp: run_tool_recovery_def split: option.split prod.split) (metis insertCI snd_conv)+
  then show ?thesis by (cases "snd (run_tool_recovery w row l db)") (auto simp: ACTIVE_STATUSES_def)
qed

lemma find_turn_mem:
  assumes "turn_inv db" and "r \<in> set (td_rows db)"
  shows "find_turn (dt_request_id r) (td_rows db) = Some r"
proof -
  obtain e where e: "find_turn (dt_request_id r) (td_rows db) = Some e"
    using assms(2) find_first_None_iff [of "\<lambda>x. dt_request_id x = dt_request_id r" "td_rows db"]
    unfolding find_turn_def by (cases "find_first (\<lambda>x. dt_request_id x = dt_request_id r) (td_rows db)") auto
  with find_turn_unique [OF assms(1) e assms(2)] show ?thesis by simp
qed

text \<open>What a recovery that got the lease does, by the three ways it can take.\<close>

lemma recovered_row:
  assumes "turn_inv db" and "r \<in> set (td_rows db)" and "dt_status r \<in> set ACTIVE_STATUSES" and "undisturbed w"
    and "rt_acquire (rw_clock w 0) c (dt_conversation_id r) db = (db1, Some l)"
  shows "\<exists>r'. find_turn (dt_request_id r) (td_rows (fst (recover_stale_row w c False r db))) = Some r' \<and>
    (if dt_cancel_requested_at r \<noteq> None then dt_status r' = Turn_Cancelled
     else if phase_text r ''claimed'' = ''tool_in_flight''
     then if dict_get (outcome_dict r) ''phase'' = VStr ''tool_in_flight''
          then \<exists>db2. dt_status r' = end_status (snd (run_tool_recovery w (begun_row w c l r) l db2)) (dt_status r)
          else dt_status r' = dt_status r
     else dt_status r' = (if \<not> quarantine_elapsed w (outcome_dict r) (phase_text r ''claimed'') then dt_status r
       else case stale_decision r (reconciliation w r) of Inl e \<Rightarrow> dt_status r | Inr act \<Rightarrow> action_status act (dt_status r)))"
proof -
  let ?rid = "dt_request_id r" and ?phase = "phase_text r ''claimed''"
  have quiet: "rw_between w n = (\<lambda>db. db)" for n using assms(4) by (simp add: undisturbed_def)
  have found: "find_turn ?rid (td_rows db1) = Some r"
    using rt_acquire_rows [OF assms(5)] find_turn_mem [OF assms(1,2)] by simp
  have over: "takes_over (rw_clock w n) l (td_leases db1) r" "owner_id l = ct_owner_id c" if "n < 5" for n
    using acquired_takes_over [OF assms(1-3,5), of "rw_clock w n"] assms(4) that by (auto simp: undisturbed_def)
  have lost: "begin_tool_recovery (tx_of now db1) ?rid l x i d db1 = (db1, res) \<and> (\<exists>e. res = Inl e \<or> res = Inr None)"
    if "dict_get (outcome_dict r) ''phase'' \<noteq> VStr ''tool_in_flight''"
      "begin_tool_recovery (tx_of now db1) ?rid l x i d db1 = (db', res)" for now x i d db' res
    using that found by (auto simp: begin_tool_recovery_def split: sum.splits)
  consider "dt_cancel_requested_at r \<noteq> None" | "dt_cancel_requested_at r = None" "?phase = ''tool_in_flight''"
    | "dt_cancel_requested_at r = None" "?phase \<noteq> ''tool_in_flight''" by blast
  then show ?thesis
  proof cases
    case 1
    with cancel_stale_row [OF found, of "rw_clock w 1" l] over [of 1] assms(3,5) quiet show ?thesis
      by (auto simp: recover_stale_row_def Let_def)
  next
    case 2
    show ?thesis
    proof (cases "dict_get (outcome_dict r) ''phase'' = VStr ''tool_in_flight''")
      case True
      with tool_recovery_row [OF assms(4) found assms(3) over(1) over(2) [of 0] True 2(1)] 2 assms(5) quiet show ?thesis
        by (auto simp: recover_stale_row_def Let_def)
    next
      case False
      obtain db2 res where b: "begin_tool_recovery (tx_of (rw_clock w 1) db1) ?rid l (ct_controller_id c)
          (ct_incarnation_id c) TOOL_RECOVERY_DEADLINE db1 = (db2, res)" by (metis surj_pair)
      with lost [OF False b] quiet have "td_rows (fst (tool_recovery w c ?rid l db1)) = td_rows db1"
        by (auto simp: tool_recovery_def)
      with 2 False found assms(5) quiet show ?thesis by (auto simp: recover_stale_row_def Let_def)
    qed
  next
    case 3
    with apply_action_row [OF found, of _ "rw_clock w 1" l] over [of 1] assms(5) quiet found show ?thesis
      by (auto simp: recover_stale_row_def Let_def split: sum.split)
  qed
qed

subsection \<open>A small recovery\<close>

text \<open>The second controller comes to the running turn of the small history after its lease expired.\<close>

definition demo_controller :: controller where
  "demo_controller = \<lparr>ct_controller_id = ''c2'', ct_incarnation_id = ''i2''\<rparr>"

definition demo_recovery :: recovery_world where
  "demo_recovery = \<lparr>rw_clock = (\<lambda>n. 200 + int n), rw_between = (\<lambda>n db. db), rw_local = (\<lambda>s. s), rw_utcnow = 200,
     rw_parse = (\<lambda>s. None), rw_reconcile = Some (\<lambda>r. None), rw_recover = None, rw_error_text = ''''\<rparr>"

definition demo_phase :: "string \<Rightarrow> (string \<times> pyval) list \<Rightarrow> turn_db" where
  "demo_phase phase m = fst (checkpoint (demo_tx demo_running) ''dtr_a'' demo_lease phase m False demo_running)"

definition demo_run :: run_world where
  "demo_run = \<lparr>ru_visibility = None, ru_stale_at = 200, ru_recovery = (\<lambda>r. demo_recovery), ru_heads_at = 300,
     ru_between = (\<lambda>db. db),
     ru_claim = (\<lambda>r. \<lparr>cw_loop = 0, cw_eligible = True, cw_local = (\<lambda>s. s), cw_clock = (\<lambda>n. 300 + int n),
       cw_between = (\<lambda>n db. db)\<rparr>)\<rparr>"

definition demo_exec :: exec_world where
  "demo_exec = \<lparr>xw_now = 3, xw_loop = 0, xw_payload = Payload_Ok, xw_run = (\<lambda>db. db), xw_end = Exec_Error,
     xw_published = True\<rparr>"

lemma benign_id [simp, intro]: "benign (\<lambda>db. db)"
  by (simp add: benign_def)

lemma demo_worlds:
  "recovery_benign demo_recovery" "run_benign demo_run" "benign (xw_run demo_exec)" "undisturbed demo_recovery"
proof -
  show rec: "recovery_benign demo_recovery" by (simp add: recovery_benign_def demo_recovery_def)
  show "run_benign demo_run" using rec by (simp add: run_benign_def demo_run_def claim_benign_def)
  show "benign (xw_run demo_exec)" by (simp add: demo_exec_def)
  show "undisturbed demo_recovery"
    by (simp add: undisturbed_def demo_recovery_def DIRECT_TURN_LEASE_TTL_def)
qed

lemma reach_demo_phase: "reach turn_start turn_step (demo_phase phase m)"
  unfolding demo_phase_def by (rule reach_step [OF reach_demo_running Step_Checkpoint])

lemma follows_reach: "reach turn_start turn_step db \<Longrightarrow> follows db db' \<Longrightarrow> reach turn_start turn_step db'"
  using turns.reach_inv turns.reach_steps unfolding follows_def by blast

subsection \<open>Properties of the runtime\<close>





text \<open>
  C15. Recovery runs no tool call twice: when it puts a turn with calls in flight back in the queue, the
  callback has recovered the results of those calls in time; and when it puts back a turn that was
  writing tool calls or tool results, the turn was only claimed and had not started to run.
\<close>

theorem recovery_never_requeues_unsettled_tools:
  assumes "reach turn_start turn_step db" and "r \<in> set (td_rows db)" and "dt_status r \<in> set ACTIVE_STATUSES"
    and "undisturbed w"
    and "find_turn (dt_request_id r) (td_rows (fst (recover_stale_row w c False r db))) = Some r'"
    and "dt_status r' = Turn_Recoverable"
  shows "(phase_text r ''claimed'' = ''tool_in_flight'' \<longrightarrow>
      (\<exists>f l db2 took. rw_recover w = Some f \<and> snd (f (begun_row w c l r) l db2) = (took, Rec_Done) \<and>
        (\<exists>deadline. recovery_deadline w (begun_row w c l r) = Some deadline \<and>
           took \<le> max 100000 (deadline - rw_utcnow w)))) \<and>
    (phase_text r ''claimed'' = ''intaris_append'' \<and>
      Inr True \<in> {has_event ''tool_call'' (outcome_dict r), has_event ''tool_result'' (outcome_dict r)} \<longrightarrow>
      dt_status r = Turn_Claimed)"
proof (cases "snd (rt_acquire (rw_clock w 0) c (dt_conversation_id r) db)")
  case None
  have quiet: "rw_between w n = (\<lambda>db. db)" for n using assms(4) by (simp add: undisturbed_def)
  obtain db1 where "rt_acquire (rw_clock w 0) c (dt_conversation_id r) db = (db1, None)"
    using None by (metis prod.collapse)
  then have "td_rows (fst (recover_stale_row w c False r db)) = td_rows db"
    using quiet by (simp add: recover_stale_row_def rt_acquire_rows)
  then have "r' = r" using find_turn_mem [OF turns.reach_inv [OF assms(1)] assms(2)] assms(5) by simp
  with assms(3,6) show ?thesis by (simp add: ACTIVE_STATUSES_def)
next
  case (Some l)
  then obtain db1 where got: "rt_acquire (rw_clock w 0) c (dt_conversation_id r) db = (db1, Some l)"
    by (metis prod.collapse)
  let ?phase = "phase_text r ''claimed''"
  note row = recovered_row [OF turns.reach_inv [OF assms(1)] assms(2-4) got, unfolded assms(5)]
  have active: "dt_status r \<noteq> Turn_Recoverable" using assms(3) by (auto simp: ACTIVE_STATUSES_def)
  show ?thesis
  proof (intro conjI impI)
    assume "?phase = ''tool_in_flight''"
    with row assms(6) active have
      "\<exists>db2. Turn_Recoverable = end_status (snd (run_tool_recovery w (begun_row w c l r) l db2)) (dt_status r)"
      by (auto split: if_splits)
    then obtain db2 where
      "end_status (snd (run_tool_recovery w (begun_row w c l r) l db2)) (dt_status r) = Turn_Recoverable" by metis
    then have "snd (run_tool_recovery w (begun_row w c l r) l db2) = Rec_Done"
      using active by (cases "snd (run_tool_recovery w (begun_row w c l r) l db2)") (auto split: if_splits)
    then obtain f deadline db3 took where "rw_recover w = Some f" "recovery_deadline w (begun_row w c l r) = Some deadline"
      "f (begun_row w c l r) l db2 = (db3, took, Rec_Done)" "took \<le> max 100000 (deadline - rw_utcnow w)"
      by (auto simp: run_tool_recovery_def split: option.splits prod.splits if_splits)
    then show "\<exists>f l db2 took. rw_recover w = Some f \<and> snd (f (begun_row w c l r) l db2) = (took, Rec_Done) \<and>
        (\<exists>deadline. recovery_deadline w (begun_row w c l r) = Some deadline \<and>
           took \<le> max 100000 (deadline - rw_utcnow w))"
      by (intro exI [of _ f] exI [of _ l] exI [of _ db2] exI [of _ took]) simp
  next
    assume ev: "?phase = ''intaris_append'' \<and>
      Inr True \<in> {has_event ''tool_call'' (outcome_dict r), has_event ''tool_result'' (outcome_dict r)}"
    show "dt_status r = Turn_Claimed"
    proof (rule ccontr)
      assume run: "dt_status r \<noteq> Turn_Claimed"
      then have "case stale_decision r (reconciliation w r) of Inl e \<Rightarrow> True
          | Inr act \<Rightarrow> action_status act (dt_status r) \<noteq> Turn_Recoverable"
        using ev active by (auto simp: stale_decision_def event_decision_def Let_def res_bind_def split: sum.splits)
      with row ev assms(6) active show False by (auto split: if_splits sum.splits)
    qed
  qed
qed

text \<open>A turn of the small history that stopped with a call in flight, and a callback that settles it.\<close>

definition demo_settles :: recovery_world where
  "demo_settles = demo_recovery\<lparr>rw_parse := (\<lambda>s. Some 9000000), rw_recover := Some (\<lambda>row l db. (db, 5, Rec_Done))\<rparr>"

theorem recovery_never_requeues_unsettled_tools_witness:
  "\<exists>r'. find_turn ''dtr_a'' (td_rows (fst (recover_stale_row demo_settles demo_controller False
      (hd (td_rows demo_dispatched)) demo_dispatched))) = Some r' \<and> dt_status r' = Turn_Recoverable \<and>
    (\<exists>l deadline. recovery_deadline demo_settles (begun_row demo_settles demo_controller l (hd (td_rows demo_dispatched)))
      = Some deadline)"
proof -
  let ?r = "hd (td_rows demo_dispatched)"
  let ?after = "find_turn (dt_request_id ?r) (td_rows (fst (recover_stale_row demo_settles demo_controller False ?r demo_dispatched)))"
  have "td_rows demo_dispatched \<noteq> [] \<and>
    dt_status ?r \<in> set ACTIVE_STATUSES \<and>
    dt_request_id ?r = ''dtr_a'' \<and>
    phase_text ?r ''claimed'' = ''tool_in_flight'' \<and>
    dict_get (outcome_dict ?r) ''phase'' = VStr ''tool_in_flight'' \<and>
    snd (rt_acquire 200 demo_controller (dt_conversation_id ?r) demo_dispatched) \<noteq> None \<and>
    dt_cancel_requested_at ?r = None" by code_simp
  then have run: "td_rows demo_dispatched \<noteq> []"
    "dt_status ?r \<in> set ACTIVE_STATUSES"
    "dt_request_id ?r = ''dtr_a''"
    "phase_text ?r ''claimed'' = ''tool_in_flight''"
    "dict_get (outcome_dict ?r) ''phase'' = VStr ''tool_in_flight''"
    "snd (rt_acquire 200 demo_controller (dt_conversation_id ?r) demo_dispatched) \<noteq> None"
    "dt_cancel_requested_at ?r = None"
    by blast+
  have reach: "reach turn_start turn_step demo_dispatched"
    unfolding demo_dispatched_def demo_batch_def run_batch.simps by (rule reach_step [OF reach_demo_running Step_Record])
  have calm: "undisturbed demo_settles"
    by (simp add: undisturbed_def demo_settles_def demo_recovery_def DIRECT_TURN_LEASE_TTL_def)
  obtain db1 l where got: "rt_acquire (rw_clock demo_settles 0) demo_controller (dt_conversation_id ?r) demo_dispatched
      = (db1, Some l)"
    using run(6) by (cases "rt_acquire 200 demo_controller (dt_conversation_id ?r) demo_dispatched")
      (auto simp: demo_settles_def demo_recovery_def)
  have "snd (run_tool_recovery demo_settles row l db) = Rec_Done" for row db
    by (simp add: run_tool_recovery_def recovery_deadline_def demo_settles_def demo_recovery_def)
  with recovered_row [OF turns.reach_inv [OF reach] hd_in_set [OF run(1)] run(2) calm got] run(4,5,7)
  obtain r' where r': "?after = Some r'" "dt_status r' = Turn_Recoverable" by auto
  from recovery_never_requeues_unsettled_tools [OF reach hd_in_set [OF run(1)] run(2) calm r'] run(3,4) r' show ?thesis
    by auto
qed

text \<open>
  C30. A failing reconciliation leaves a claimed turn where it is: when the check of the user's append
  raises for a turn that was only claimed, the recovery asks the store to mark it ambiguous, which the
  store does for running and absorbing turns only. The turn stays claimed by its lost owner, and no
  later turn of the conversation can be claimed before it.
\<close>

theorem failed_reconciliation_keeps_claim:
  assumes "reach turn_start turn_step db" and "r \<in> set (td_rows db)" and "dt_status r = Turn_Claimed"
    and "dt_cancel_requested_at r = None"
    and "phase_text r ''claimed'' \<in> {''canonical_user_append'', ''user_append_uncertain''}"
    and "rw_reconcile w = Some f" and "f r = None" and "undisturbed w"
  shows "\<exists>r'. find_turn (dt_request_id r) (td_rows (fst (recover_stale_row w c False r db))) = Some r' \<and>
    dt_status r' = Turn_Claimed \<and>
    (\<forall>e now. dt_conversation_id e = dt_conversation_id r' \<and> dt_admission_order r' < dt_admission_order e \<longrightarrow>
       \<not> claimable_head now (td_rows (fst (recover_stale_row w c False r db))) e)"
proof -
  have block: "\<not> claimable_head now rows e"
    if "dt_conversation_id e = dt_conversation_id r'" "dt_admission_order r' < dt_admission_order e"
      "dt_status r' = Turn_Claimed" "find_turn rid rows = Some r'" for r' e :: turn_row and rid rows now
    using that by (auto simp: claimable_head_def has_predecessor_iff turn_statuses find_turn_def dest!: find_first_SomeD)
  have active: "dt_status r \<in> set ACTIVE_STATUSES" using assms(3) by (simp add: ACTIVE_STATUSES_def)
  have rc: "reconciliation w r = None"
    using assms(5-7) by (auto simp: reconciliation_def reconcile_append_safely_def)
  have "\<exists>r'. find_turn (dt_request_id r) (td_rows (fst (recover_stale_row w c False r db))) = Some r' \<and> dt_status r' = Turn_Claimed"
  proof (cases "snd (rt_acquire (rw_clock w 0) c (dt_conversation_id r) db)")
    case None
    then obtain db1 where "rt_acquire (rw_clock w 0) c (dt_conversation_id r) db = (db1, None)" by (metis prod.collapse)
    then show ?thesis
      using assms(3,8) find_turn_mem [OF turns.reach_inv [OF assms(1)] assms(2)]
      by (auto simp: recover_stale_row_def undisturbed_def rt_acquire_rows)
  next
    case (Some l)
    then obtain db1 where got: "rt_acquire (rw_clock w 0) c (dt_conversation_id r) db = (db1, Some l)"
      by (metis prod.collapse)
    have "action_status (append_decision r None) Turn_Claimed = Turn_Claimed" by (simp add: append_decision_def)
    with recovered_row [OF turns.reach_inv [OF assms(1)] assms(2) active assms(8) got] assms(3-5) rc show ?thesis
      by (auto simp: stale_decision_def split: if_splits)
  qed
  with block show ?thesis by blast
qed

definition demo_uncertain :: turn_db where
  "demo_uncertain =
     (let db1 = fst (claim (demo_tx demo_queued) ''dtr_a'' demo_lease ''c1'' ''i1'' None demo_queued)
      in fst (checkpoint (demo_tx db1) ''dtr_a'' demo_lease ''user_append_uncertain'' [] False db1))"

theorem failed_reconciliation_keeps_claim_witness:
  "\<exists>r'. find_turn ''dtr_a'' (td_rows (fst (recover_stale_row demo_recovery demo_controller False
      (hd (td_rows demo_uncertain)) demo_uncertain))) = Some r' \<and> dt_status r' = Turn_Claimed"
proof -
  let ?r = "hd (td_rows demo_uncertain)"
  have "td_rows demo_uncertain \<noteq> [] \<and>
    dt_status ?r = Turn_Claimed \<and>
    dt_request_id ?r = ''dtr_a'' \<and>
    dt_cancel_requested_at ?r = None \<and>
    phase_text ?r ''claimed'' = ''user_append_uncertain''" by code_simp
  then have run: "td_rows demo_uncertain \<noteq> []"
    "dt_status ?r = Turn_Claimed"
    "dt_request_id ?r = ''dtr_a''"
    "dt_cancel_requested_at ?r = None"
    "phase_text ?r ''claimed'' = ''user_append_uncertain''"
    by blast+
  have reach: "reach turn_start turn_step demo_uncertain"
    unfolding demo_uncertain_def Let_def
    by (meson reach_demo_queued tx_ok_demo reach_step Step_Claim Step_Checkpoint)
  have raises: "rw_reconcile demo_recovery = Some (\<lambda>r. None)" by (simp add: demo_recovery_def)
  from failed_reconciliation_keeps_claim [OF reach hd_in_set [OF run(1)] run(2,4) _ raises _ demo_worlds(4)] run(3,5)
  show ?thesis by fastforce
qed

text \<open>
  C31. A takeover can pass for the owner's own completion: when a newer controller settles a stale
  running turn as completed, the row keeps the former owner and its fence. The former owner's fence is
  lost, and yet the fence of its background work holds.
\<close>

theorem takeover_completion_admits_background_work:
  assumes "find_turn (fx_request_id f) (td_rows db) = Some r" and "dt_status r = Turn_Running"
    and "dt_cancel_requested_at r = None" and "holds (fx_lease f) r"
    and "resource_key (fx_lease f) = conversation_lease_key (dt_conversation_id r)"
    and "takes_over now l (td_leases db) r"
  shows "assert_current now f (fst (reconcile_stale_completed (tx_of now db) (fx_request_id f) l oc db)) = Fence_Stale \<and>
    background_current now f (fst (reconcile_stale_completed (tx_of now db) (fx_request_id f) l oc db)) = Fence_Ok"
proof -
  let ?db = "fst (reconcile_stale_completed (tx_of now db) (fx_request_id f) l oc db)"
  have found: "find_turn (fx_request_id f) (td_rows ?db) = Some (terminal_values now Turn_Completed oc r)"
    using assms(1-3,6) by (simp add: reconcile_stale_completed_def find_stale_update unless_cancelled_def
        terminal_values_def) (simp add: tx_of_def)
  have same: "td_leases ?db = td_leases db"
    by (auto simp: reconcile_stale_completed_def stale_update_def update_turn_def split: option.split)
  have "\<not> is_current now (fx_lease f) (td_leases db)"
    using assms(4-6) store.current_fence [of now l "td_leases db"] store.current_fence [of now "fx_lease f" "td_leases db"]
    by (auto simp: takes_over_def conversation_lease_def holds_def)
  then have lost: "\<not> has_fence (tx_of now ?db) (fx_request_id f) (fx_lease f) ?db"
    using same by (auto simp: has_fence_def lease_predicate_def tx_of_def list_ex_iff)
  obtain o1 o2 where "dt_owner_controller_id r = Some o1" "dt_owner_incarnation_id r = Some o2"
    "turn_owner_id o1 o2 = owner_id (fx_lease f)" "dt_fencing_token r = Some (fencing_token (fx_lease f))"
    using assms(4) by (auto simp: holds_def row_owner_def split: option.splits)
  with lost found assms(3,5) show ?thesis
    by (simp add: assert_current_def background_current_def terminal_values_def)
qed

theorem takeover_completion_admits_background_work_witness:
  "background_current 60 (new_fence ''dtr_a'' demo_lease) (fst (reconcile_stale_completed (tx_of 60 demo_usurped) ''dtr_a''
     \<lparr>resource_key = conversation_lease_key ''conv'', owner_id = ''c2:i2'', fencing_token = 2, lease_expires_at = 150\<rparr>
     VNone demo_usurped)) = Fence_Ok"
proof -
  let ?f = "new_fence ''dtr_a'' demo_lease" and ?r = "hd (td_rows demo_usurped)"
  let ?l = "\<lparr>resource_key = conversation_lease_key ''conv'', owner_id = ''c2:i2'', fencing_token = 2, lease_expires_at = 150\<rparr>"
  have "find_turn (fx_request_id ?f) (td_rows demo_usurped) = Some ?r \<and>
    dt_status ?r = Turn_Running \<and>
    dt_cancel_requested_at ?r = None \<and>
    holds (fx_lease ?f) ?r \<and>
    resource_key (fx_lease ?f) = conversation_lease_key (dt_conversation_id ?r) \<and>
    conversation_lease 60 ?l (td_leases demo_usurped) ?r \<and>
    dt_fencing_token ?r = Some 1" by code_simp
  then have run: "find_turn (fx_request_id ?f) (td_rows demo_usurped) = Some ?r"
    "dt_status ?r = Turn_Running"
    "dt_cancel_requested_at ?r = None"
    "holds (fx_lease ?f) ?r"
    "resource_key (fx_lease ?f) = conversation_lease_key (dt_conversation_id ?r)"
    "conversation_lease 60 ?l (td_leases demo_usurped) ?r"
    "dt_fencing_token ?r = Some 1"
    by blast+
  have "takes_over 60 ?l (td_leases demo_usurped) ?r" using run(6,7) by (simp add: takes_over_def)
  from takeover_completion_admits_background_work [OF run(1-5) this] show ?thesis by (simp add: new_fence_def)
qed

lemma complete_visibility_row:
  "find_turn rid (td_rows db) = Some r \<Longrightarrow>
     \<exists>r'. find_turn rid (td_rows (fst (complete_failure_visibility (tx_of now db) rid db))) = Some r' \<and>
       dt_status r' = dt_status r \<and> dt_attempt_count r' = dt_attempt_count r"
  by (auto simp: complete_failure_visibility_def find_update_turn tx_of_def)

lemma mark_terminal_row:
  assumes "find_turn rid (td_rows db) = Some e" and "dt_status e \<in> set ACTIVE_STATUSES" and "holds l e"
    and "conversation_lease now l (td_leases db) e"
  shows "\<exists>db' e'. mark_terminal (tx_of now db) rid l Turn_Failed oc db = (db', Inr (Some e')) \<and>
    find_turn rid (td_rows db') = Some (terminal_values now Turn_Failed oc e)"
proof -
  let ?u = "owned_fenced_update (tx_of now db) rid l ACTIVE_STATUSES (\<lambda>r. True) (terminal_values now Turn_Failed oc) db"
  have u: "find_turn rid (td_rows (fst ?u)) = Some (terminal_values now Turn_Failed oc e)" "snd ?u \<noteq> None"
    using find_owned_update [OF assms(1) _ assms(3,4,2), of "terminal_values now Turn_Failed oc" "\<lambda>r. True"]
    by (simp_all add: terminal_values_def)
  obtain db' e' where split: "?u = (db', Some e')" using u(2) by (cases ?u) auto
  moreover have "tx_now (tx_of now db) = now" by (simp add: tx_of_def)
  ultimately show ?thesis using u(1) by (auto simp: mark_terminal_def mark_terminal_from_def)
qed

lemma mark_recoverable_row:
  assumes "find_turn rid (td_rows db) = Some e" and "dt_status e \<in> set ACTIVE_STATUSES" and "holds l e"
    and "conversation_lease now l (td_leases db) e"
  shows "find_turn rid (td_rows (fst (mark_recoverable (tx_of now db) rid l oc db))) = Some (requeue_values now oc e)"
proof -
  have "tx_now (tx_of now db) = now" by (simp add: tx_of_def)
  then show ?thesis
    using find_owned_update [OF assms(1) _ assms(3,4,2), of "requeue_values now oc" "\<lambda>r. True"]
    by (simp add: mark_recoverable_def requeue_values_def)
qed



end
