(* ===== verification/Project_Access.thy ===== *)
theory Project_Access
  imports Python_Values "HOL-Library.Product_Lexorder"
begin

section \<open>Projects: roles, reading and agents\<close>

text \<open>
  \<open>cognis/core/project_access.py\<close>, the access policy of projects, over the tables it reads, with the
  queries of \<open>cognis/store/project_queries.py\<close> and \<open>cognis/store/queries.py\<close> it uses and the predicates of
  \<open>cognis/core/long_lived_chat.py\<close>. A table is the list of its rows; a query is a function on the tables.
  Emails and ids are strings, a nullable column is an \<open>option\<close>; \<open>blank\<close> is Python's falsity of such a
  column. A raised exception is \<open>Inl\<close>.
\<close>

subsection \<open>Tables\<close>

record project_row =
  pj_project_id :: string
  pj_owner_email :: string
  pj_name :: string
  pj_status :: string

record project_grant =
  pg_grant_id :: string
  pg_project_id :: string
  pg_grantee_type :: string
  pg_grantee_user_email :: "string option"
  pg_permission :: string
  pg_granted_by :: string
  pg_granted_at :: time
  pg_revoked_at :: "time option"
  pg_note :: "string option"

record project_agent =
  pa_project_id :: string
  pa_agent_id :: string
  pa_is_default :: bool
  pa_executor_scope :: string
  pa_added_by :: string
  pa_created_at :: time
  pa_updated_at :: time

record agent_rec =
  ag_agent_id :: string
  ag_owner_email :: string
  ag_name :: string
  ag_is_system :: bool
  ag_status :: string

record agent_grant =
  gr_grant_id :: string
  gr_agent_id :: string
  gr_grantee_type :: string
  gr_grantee_user_email :: "string option"
  gr_executor_scope :: string
  gr_granted_by :: string
  gr_granted_at :: time
  gr_revoked_at :: "time option"

record user_rec =
  us_email :: string
  us_is_active :: bool
  us_role :: string

record conversation =
  co_conversation_id :: string
  co_user_email :: string
  co_agent_id :: string
  co_project_id :: "string option"
  co_visibility :: string
  co_status :: string
  co_context_type :: string
  co_context_ref :: "string option"
  co_context_data :: "(string \<times> pyval) list option"
  co_last_message_at :: "time option"
  co_created_at :: time

record work_task =
  wt_task_id :: string
  wt_created_by :: string
  wt_agent_id :: "string option"
  wt_project_id :: "string option"
  wt_visibility :: string
  wt_source_session_id :: "string option"
  wt_updated_at :: time

record step_run_rec =
  sr_step_run_id :: string
  sr_task_id :: string
  sr_session_id :: "string option"

record session_rec =
  se_session_id :: string
  se_user_email :: string
  se_agent_id :: string
  se_conversation_id :: string
  se_parent_session_id :: "string option"
  se_previous_session_id :: "string option"
  se_source_session_id :: "string option"

text \<open>A deliverable or an artifact: the two tables share the columns that scope and reading depend on.\<close>

record document =
  dc_id :: string
  dc_conversation_id :: "string option"
  dc_step_run_id :: "string option"
  dc_project_id :: "string option"
  dc_lineage_id :: "string option"
  dc_revision :: int
  dc_supersedes :: "string option"
  dc_status :: string
  dc_purpose :: string
  dc_created_at :: time
  dc_deleted_at :: "time option"
  dc_expires_at :: "time option"

record project_db =
  pd_projects :: "project_row list"
  pd_grants :: "project_grant list"
  pd_agents :: "project_agent list"
  pd_all_agents :: "agent_rec list"
  pd_agent_grants :: "agent_grant list"
  pd_users :: "user_rec list"
  pd_conversations :: "conversation list"
  pd_tasks :: "work_task list"
  pd_step_runs :: "step_run_rec list"
  pd_sessions :: "session_rec list"
  pd_deliverables :: "document list"
  pd_artifacts :: "document list"

definition blank :: "string option \<Rightarrow> bool" where
  "blank x = (case x of None \<Rightarrow> True | Some s \<Rightarrow> s = [])"

subsection \<open>Roles\<close>

datatype access_error = Access_Value_Error string | Unique_Violation | Assignment_Error string nat string | Management_Error string nat

definition PROJECT_GRANT_ROLES :: "string list" where
  "PROJECT_GRANT_ROLES = [''viewer'', ''member'', ''manager'']"

definition ROLE_RANK :: "string \<Rightarrow> nat" where
  "ROLE_RANK r =
     (case map_of [(''viewer'', 1), (''member'', 2), (''manager'', 3), (''owner'', 4)] r of None \<Rightarrow> 0 | Some n \<Rightarrow> n)"

definition REQUIRED_RANK :: "string \<Rightarrow> nat option" where
  "REQUIRED_RANK r = map_of [(''view'', 1), (''use'', 2), (''manage'', 3), (''share'', 4)] r"

definition normalize_project_role :: "string option \<Rightarrow> string option" where
  "normalize_project_role permission =
     (let v = py_lower (py_strip (case permission of None \<Rightarrow> [] | Some s \<Rightarrow> s))
      in if v = ''use'' then Some ''member'' else if v \<in> set PROJECT_GRANT_ROLES then Some v else None)"

definition role_satisfies :: "string option \<Rightarrow> string \<Rightarrow> (access_error, bool) result" where
  "role_satisfies role required =
     (case role of
        None \<Rightarrow> Inr False
      | Some r \<Rightarrow>
          (case REQUIRED_RANK required of
             None \<Rightarrow> Inl (Access_Value_Error (''Unsupported project access requirement: '' @ required))
           | Some n \<Rightarrow> Inr (n \<le> ROLE_RANK r)))"

text \<open>The requirements the code names.\<close>

definition satisfies :: "string option \<Rightarrow> string \<Rightarrow> bool" where
  "satisfies role required = (role_satisfies role required = Inr True)"

definition get_project :: "string \<Rightarrow> project_db \<Rightarrow> project_row option" where
  "get_project pid db = find_first (\<lambda>p. pj_project_id p = pid) (pd_projects db)"

definition active_grant :: "string \<Rightarrow> string \<Rightarrow> project_grant \<Rightarrow> bool" where
  "active_grant pid user g \<longleftrightarrow> pg_project_id g = pid \<and> pg_grantee_type g = ''user'' \<and>
     pg_grantee_user_email g = Some user \<and> pg_revoked_at g = None"

text \<open>The partial unique index admits one active grant of a project per user.\<close>

definition get_active_project_grant :: "string \<Rightarrow> string \<Rightarrow> project_db \<Rightarrow> project_grant option" where
  "get_active_project_grant pid user db = find_first (active_grant pid user) (pd_grants db)"

record role_resolution =
  rr_role :: "string option"
  rr_grant :: "project_grant option"

definition resolve_project_role :: "project_row option \<Rightarrow> string \<Rightarrow> project_db \<Rightarrow> role_resolution" where
  "resolve_project_role project user db =
     (case project of
        None \<Rightarrow> \<lparr>rr_role = None, rr_grant = None\<rparr>
      | Some p \<Rightarrow>
          if pj_status p = ''deleted'' then \<lparr>rr_role = None, rr_grant = None\<rparr>
          else if pj_owner_email p = user then \<lparr>rr_role = Some ''owner'', rr_grant = None\<rparr>
          else case get_active_project_grant (pj_project_id p) user db of
                 None \<Rightarrow> \<lparr>rr_role = None, rr_grant = None\<rparr>
               | Some g \<Rightarrow> \<lparr>rr_role = normalize_project_role (Some (pg_permission g)), rr_grant = Some g\<rparr>)"

definition resolve_project_role_by_id ::
  "string option \<Rightarrow> string \<Rightarrow> project_db \<Rightarrow> project_row option \<times> role_resolution" where
  "resolve_project_role_by_id pid user db =
     (if blank pid then (None, \<lparr>rr_role = None, rr_grant = None\<rparr>)
      else let p = get_project (the pid) db in (p, resolve_project_role p user db))"

definition py_rstrip :: "string \<Rightarrow> string" where
  "py_rstrip s = rev (dropWhile py_isspace (rev s))"

definition append_project_instructions :: "string option \<Rightarrow> string \<Rightarrow> string" where
  "append_project_instructions existing addition =
     (let current = py_rstrip (case existing of None \<Rightarrow> [] | Some s \<Rightarrow> s); addition = py_strip addition
      in if current = [] then addition else if addition = [] then current
         else current @ [char_of (10::nat), char_of (10::nat)] @ addition)"

text \<open>Whether the user's role on the project with this id meets the requirement.\<close>

definition may :: "string \<Rightarrow> string option \<Rightarrow> string \<Rightarrow> project_db \<Rightarrow> bool" where
  "may required pid user db = satisfies (rr_role (snd (resolve_project_role_by_id pid user db))) required"

subsection \<open>Reading\<close>

definition can_read_project_resource ::
  "string \<Rightarrow> string option \<Rightarrow> string \<Rightarrow> string \<Rightarrow> project_db \<Rightarrow> bool" where
  "can_read_project_resource author pid visibility user db =
     (if author = user then True
      else if blank pid \<or> visibility \<noteq> ''project'' then False
      else may ''view'' pid user db)"

definition MANAGED_CONTEXT_TYPES :: "string list" where
  "MANAGED_CONTEXT_TYPES = [''agent_work'', ''managed_agent_conversation'']"

definition can_read_conversation :: "conversation option \<Rightarrow> string \<Rightarrow> project_db \<Rightarrow> bool" where
  "can_read_conversation row user db =
     (case row of
        None \<Rightarrow> False
      | Some c \<Rightarrow>
          if co_status c = ''deleted'' then False
          else if co_context_type c \<in> set MANAGED_CONTEXT_TYPES \<and> co_user_email c \<noteq> user then False
          else can_read_project_resource (co_user_email c) (co_project_id c) (co_visibility c) user db)"

definition can_read_task :: "work_task option \<Rightarrow> string \<Rightarrow> project_db \<Rightarrow> bool" where
  "can_read_task row user db =
     (case row of
        None \<Rightarrow> False
      | Some t \<Rightarrow> can_read_project_resource (wt_created_by t) (wt_project_id t) (wt_visibility t) user db)"

definition project_document_readable :: "document \<Rightarrow> string \<Rightarrow> project_db \<Rightarrow> bool" where
  "project_document_readable d user db =
     (if blank (dc_project_id d) then False else may ''view'' (dc_project_id d) user db)"

definition get_conversation :: "string \<Rightarrow> project_db \<Rightarrow> conversation option" where
  "get_conversation cid db = find_first (\<lambda>c. co_conversation_id c = cid) (pd_conversations db)"

definition get_task_row :: "string \<Rightarrow> project_db \<Rightarrow> work_task option" where
  "get_task_row tid db = find_first (\<lambda>t. wt_task_id t = tid) (pd_tasks db)"

definition task_for_step_run :: "string \<Rightarrow> project_db \<Rightarrow> work_task option" where
  "task_for_step_run sid db =
     (case find_first (\<lambda>s. sr_step_run_id s = sid) (pd_step_runs db) of
        None \<Rightarrow> None
      | Some s \<Rightarrow> get_task_row (sr_task_id s) db)"

definition can_project_read_deliverable :: "document option \<Rightarrow> string \<Rightarrow> project_db \<Rightarrow> bool" where
  "can_project_read_deliverable row user db =
     (case row of
        None \<Rightarrow> False
      | Some d \<Rightarrow>
          if project_document_readable d user db then True
          else if \<not> blank (dc_step_run_id d)
          then (case task_for_step_run (the (dc_step_run_id d)) db of
                  None \<Rightarrow> False
                | Some t \<Rightarrow> wt_created_by t \<noteq> user \<and> can_read_task (Some t) user db)
          else if blank (dc_conversation_id d) then False
          else (case get_conversation (the (dc_conversation_id d)) db of
                  None \<Rightarrow> False
                | Some c \<Rightarrow> co_user_email c \<noteq> user \<and> can_read_conversation (Some c) user db))"

definition can_project_read_artifact :: "document option \<Rightarrow> string \<Rightarrow> project_db \<Rightarrow> bool" where
  "can_project_read_artifact row user db =
     (case row of
        None \<Rightarrow> False
      | Some d \<Rightarrow>
          if project_document_readable d user db then True
          else if blank (dc_conversation_id d) then False
          else (case get_conversation (the (dc_conversation_id d)) db of
                  None \<Rightarrow> False
                | Some c \<Rightarrow> can_read_conversation (Some c) user db))"

subsection \<open>Long-lived chats\<close>

definition NON_CHANNEL_CONTEXT_TYPES :: "string list" where
  "NON_CHANNEL_CONTEXT_TYPES = [''api'', ''chat'', ''direct'', ''task'', ''web'']"

definition py_endswith :: "string \<Rightarrow> string \<Rightarrow> bool" where
  "py_endswith s t = py_startswith (rev s) (rev t)"

definition is_agent_direct_context :: "string \<Rightarrow> (string \<times> pyval) list \<Rightarrow> bool" where
  "is_agent_direct_context context_type data \<longleftrightarrow> context_type = ''web'' \<and> dict_get data ''kind'' = VStr ''agent_direct''"

definition is_agent_direct_context_ref :: "string option \<Rightarrow> bool" where
  "is_agent_direct_context_ref ref = (case ref of None \<Rightarrow> False | Some s \<Rightarrow> py_startswith s ''web:agent_direct:'')"

definition is_web_main_chat_context_ref :: "string option \<Rightarrow> bool" where
  "is_web_main_chat_context_ref ref =
     (case ref of None \<Rightarrow> False | Some s \<Rightarrow> py_startswith s ''web:user:'' \<and> py_endswith s '':default'')"

text \<open>\<open>conversation_context\<close> of a row: its type, reference and data.\<close>

definition platform_data :: "conversation \<Rightarrow> (string \<times> pyval) list" where
  "platform_data c = (case co_context_data c of None \<Rightarrow> [] | Some d \<Rightarrow> d)"

definition is_web_main_chat_context :: "conversation \<Rightarrow> bool" where
  "is_web_main_chat_context c =
     (let t = py_lower (py_strip (co_context_type c)) in
      if is_agent_direct_context t (platform_data c) then True
      else if t \<noteq> ''web'' then False
      else is_agent_direct_context_ref (co_context_ref c) \<or> is_web_main_chat_context_ref (co_context_ref c))"

definition is_channel_context_type :: "string \<Rightarrow> bool" where
  "is_channel_context_type context_type =
     (let n = py_lower (py_strip context_type) in n \<noteq> [] \<and> n \<notin> set NON_CHANNEL_CONTEXT_TYPES)"

definition is_long_lived_chat_context :: "conversation \<Rightarrow> bool" where
  "is_long_lived_chat_context c =
     (is_web_main_chat_context c \<or> is_channel_context_type (py_lower (py_strip (co_context_type c))))"

definition project_assignment_refusal :: "conversation \<Rightarrow> string option" where
  "project_assignment_refusal c =
     (if is_long_lived_chat_context c
      then Some ''Channel, main, and agent-direct chats cannot be assigned to a project; they use the agent's default project.''
      else if dict_get (platform_data c) ''kind'' = VStr ''task_control'' \<or> co_context_type c = ''task''
      then Some ''Task conversations use their task's project.''
      else if co_context_type c \<in> set MANAGED_CONTEXT_TYPES
      then Some ''Managed conversations use their controller's project.''
      else None)"

subsection \<open>Grants\<close>

text \<open>An insert that breaks the partial unique index of active grants, or the primary key, raises.\<close>

definition create_project_grant :: "project_grant \<Rightarrow> project_db \<Rightarrow> (access_error, project_db) result" where
  "create_project_grant g db =
     (if list_ex (\<lambda>e. pg_grant_id e = pg_grant_id g) (pd_grants db) \<or>
         (pg_grantee_type g = ''user'' \<and> pg_revoked_at g = None \<and> pg_grantee_user_email g \<noteq> None \<and>
          list_ex (active_grant (pg_project_id g) (the (pg_grantee_user_email g))) (pd_grants db))
      then Inl Unique_Violation
      else Inr (db\<lparr>pd_grants := pd_grants db @ [g]\<rparr>))"

definition get_project_grant :: "string \<Rightarrow> project_db \<Rightarrow> project_grant option" where
  "get_project_grant gid db = find_first (\<lambda>g. pg_grant_id g = gid) (pd_grants db)"

definition map_grants :: "(project_grant \<Rightarrow> bool) \<Rightarrow> (project_grant \<Rightarrow> project_grant) \<Rightarrow> project_db \<Rightarrow> project_db" where
  "map_grants p f db = db\<lparr>pd_grants := map (\<lambda>g. if p g then f g else g) (pd_grants db)\<rparr>"

definition update_project_grant_permission :: "string \<Rightarrow> string \<Rightarrow> project_db \<Rightarrow> project_db \<times> project_grant option" where
  "update_project_grant_permission gid permission db =
     (case get_project_grant gid db of
        None \<Rightarrow> (db, None)
      | Some g \<Rightarrow>
          if pg_revoked_at g \<noteq> None then (db, None)
          else (map_grants (\<lambda>g. pg_grant_id g = gid) (\<lambda>g. g\<lparr>pg_permission := permission\<rparr>) db,
                Some (g\<lparr>pg_permission := permission\<rparr>)))"

definition revoke_project_grant :: "time \<Rightarrow> string \<Rightarrow> project_db \<Rightarrow> project_db \<times> bool" where
  "revoke_project_grant now gid db =
     (case get_project_grant gid db of
        None \<Rightarrow> (db, False)
      | Some g \<Rightarrow> (map_grants (\<lambda>g. pg_grant_id g = gid) (\<lambda>g. g\<lparr>pg_revoked_at := Some now\<rparr>) db, True))"

definition revoke_active_project_grants_for_user :: "time \<Rightarrow> string \<Rightarrow> string \<Rightarrow> project_db \<Rightarrow> project_db \<times> nat" where
  "revoke_active_project_grants_for_user now pid user db =
     (map_grants (active_grant pid user) (\<lambda>g. g\<lparr>pg_revoked_at := Some now\<rparr>) db,
      length (filter (active_grant pid user) (pd_grants db)))"

definition list_project_grants :: "string \<Rightarrow> project_db \<Rightarrow> project_grant list" where
  "list_project_grants pid db = rev (sort_key pg_granted_at (rev (filter (\<lambda>g. pg_project_id g = pid) (pd_grants db))))"

definition list_active_project_grants :: "string \<Rightarrow> project_db \<Rightarrow> project_grant list" where
  "list_active_project_grants pid db =
     sort_key (\<lambda>g. (pg_granted_at g, pg_grant_id g))
       (filter (\<lambda>g. pg_project_id g = pid \<and> pg_revoked_at g = None) (pd_grants db))"

subsection \<open>Agents of projects\<close>

definition get_project_agent :: "string \<Rightarrow> string \<Rightarrow> project_db \<Rightarrow> project_agent option" where
  "get_project_agent pid aid db = find_first (\<lambda>a. pa_project_id a = pid \<and> pa_agent_id a = aid) (pd_agents db)"

definition clear_defaults :: "time \<Rightarrow> string \<Rightarrow> string \<Rightarrow> project_agent list \<Rightarrow> project_agent list" where
  "clear_defaults now pid aid =
     map (\<lambda>a. if pa_agent_id a = aid \<and> pa_project_id a \<noteq> pid \<and> pa_is_default a
              then a\<lparr>pa_is_default := False, pa_updated_at := now\<rparr> else a)"

definition upsert_project_agent ::
  "time \<Rightarrow> string \<Rightarrow> string \<Rightarrow> string \<Rightarrow> string option \<Rightarrow> bool option \<Rightarrow> project_db \<Rightarrow> project_db" where
  "upsert_project_agent now pid aid added_by executor_scope is_default db =
     (let rows = (if is_default = Some True then clear_defaults now pid aid (pd_agents db) else pd_agents db);
          db1 = db\<lparr>pd_agents := rows\<rparr>
      in case get_project_agent pid aid db1 of
           None \<Rightarrow> db1\<lparr>pd_agents := rows @
             [\<lparr>pa_project_id = pid, pa_agent_id = aid, pa_is_default = (is_default = Some True),
               pa_executor_scope = (if blank executor_scope then ''owner_executor'' else the executor_scope),
               pa_added_by = added_by, pa_created_at = now, pa_updated_at = now\<rparr>]\<rparr>
         | Some a \<Rightarrow> db1\<lparr>pd_agents := map (\<lambda>a. if pa_project_id a = pid \<and> pa_agent_id a = aid
             then a\<lparr>pa_executor_scope := (case executor_scope of None \<Rightarrow> pa_executor_scope a | Some s \<Rightarrow> s),
                    pa_is_default := (case is_default of None \<Rightarrow> pa_is_default a | Some b \<Rightarrow> b), pa_updated_at := now\<rparr>
             else a) rows\<rparr>)"

definition remove_project_agent :: "string \<Rightarrow> string \<Rightarrow> project_db \<Rightarrow> project_db \<times> bool" where
  "remove_project_agent pid aid db =
     (let p = (\<lambda>a. pa_project_id a = pid \<and> pa_agent_id a = aid)
      in (db\<lparr>pd_agents := filter (\<lambda>a. \<not> p a) (pd_agents db)\<rparr>, list_ex p (pd_agents db)))"

definition get_default_project_for_agent :: "string \<Rightarrow> project_db \<Rightarrow> project_row option" where
  "get_default_project_for_agent aid db =
     find_first (\<lambda>p. pj_status p = ''active'' \<and>
       list_ex (\<lambda>a. pa_project_id a = pj_project_id p \<and> pa_agent_id a = aid \<and> pa_is_default a) (pd_agents db))
       (pd_projects db)"

definition list_default_agent_ids_for_project :: "string \<Rightarrow> project_db \<Rightarrow> string list" where
  "list_default_agent_ids_for_project pid db =
     map pa_agent_id (filter (\<lambda>a. pa_project_id a = pid \<and> pa_is_default a) (pd_agents db))"

definition PROJECT_USE_PERMISSIONS :: "string list" where
  "PROJECT_USE_PERMISSIONS = [''member'', ''manager'', ''use'']"

definition member_project_ids :: "string \<Rightarrow> project_db \<Rightarrow> string list" where
  "member_project_ids user db =
     map pg_project_id (filter (\<lambda>g. pg_grantee_type g = ''user'' \<and> pg_grantee_user_email g = Some user \<and>
       pg_revoked_at g = None \<and> pg_permission g \<in> set PROJECT_USE_PERMISSIONS) (pd_grants db))"

text \<open>An active project in which the user may use the agents.\<close>

definition usable_project :: "string \<Rightarrow> project_db \<Rightarrow> project_row \<Rightarrow> bool" where
  "usable_project user db p \<longleftrightarrow> pj_status p = ''active'' \<and>
     (pj_owner_email p = user \<or> pj_project_id p \<in> set (member_project_ids user db))"

definition get_project_agent_use_assignment :: "string \<Rightarrow> string \<Rightarrow> string \<Rightarrow> project_db \<Rightarrow> project_agent option" where
  "get_project_agent_use_assignment aid user pid db =
     find_first (\<lambda>a. pa_agent_id a = aid \<and> pa_project_id a = pid \<and>
       list_ex (\<lambda>p. pj_project_id p = pa_project_id a \<and> usable_project user db p) (pd_projects db)) (pd_agents db)"

definition user_has_any_project_agent_access :: "string \<Rightarrow> string \<Rightarrow> project_db \<Rightarrow> bool" where
  "user_has_any_project_agent_access aid user db =
     list_ex (\<lambda>a. pa_agent_id a = aid \<and>
       list_ex (\<lambda>p. pj_project_id p = pa_project_id a \<and> usable_project user db p) (pd_projects db)) (pd_agents db)"

definition list_project_shared_agents_for_user ::
  "string \<Rightarrow> string option \<Rightarrow> project_db \<Rightarrow> (agent_rec \<times> project_agent \<times> project_row) list" where
  "list_project_shared_agents_for_user user pid db =
     sort_key (\<lambda>(g, a, p). (pj_name p, ag_name g))
       [(g, a, p) \<leftarrow> List.product (pd_all_agents db) (List.product (pd_agents db) (pd_projects db)).
          pa_agent_id a = ag_agent_id g \<and> pj_project_id p = pa_project_id a \<and> ag_owner_email g \<noteq> user \<and>
          usable_project user db p \<and> (pid = None \<or> pid = Some (pj_project_id p))]"

definition get_active_agent_grant :: "string \<Rightarrow> string \<Rightarrow> project_db \<Rightarrow> agent_grant option" where
  "get_active_agent_grant aid user db =
     (case rev (sort_key (\<lambda>g. (gr_granted_at g, gr_grant_id g)) (filter (\<lambda>g. gr_agent_id g = aid \<and>
        gr_grantee_type g = ''user'' \<and> gr_grantee_user_email g = Some user \<and> gr_revoked_at g = None)
        (pd_agent_grants db))) of
        [] \<Rightarrow> None
      | g # _ \<Rightarrow> Some g)"

text \<open>A grant given directly, or one derived from the assignment of an agent to a project.\<close>

datatype use_grant =
    Direct_Grant agent_grant
  | Project_Agent_Grant string string string string string time

definition project_agent_grant :: "string \<Rightarrow> string \<Rightarrow> string \<Rightarrow> project_agent \<Rightarrow> use_grant" where
  "project_agent_grant aid user pid a =
     Project_Agent_Grant aid user pid (if pa_executor_scope a = [] then ''owner_executor'' else pa_executor_scope a)
       (pa_added_by a) (pa_created_at a)"

definition resolve_agent_use_grant :: "string \<Rightarrow> string \<Rightarrow> string option \<Rightarrow> project_db \<Rightarrow> use_grant option" where
  "resolve_agent_use_grant aid user pid db =
     (case get_active_agent_grant aid user db of
        Some g \<Rightarrow> Some (Direct_Grant g)
      | None \<Rightarrow>
          if blank pid then None
          else map_option (project_agent_grant aid user (the pid))
                 (get_project_agent_use_assignment aid user (the pid) db))"

definition resolve_any_project_agent_view_grant :: "string \<Rightarrow> string \<Rightarrow> project_db \<Rightarrow> use_grant option" where
  "resolve_any_project_agent_view_grant aid user db =
     (case find_first (\<lambda>(g, a, p). ag_agent_id g = aid) (list_project_shared_agents_for_user user None db) of
        None \<Rightarrow> None
      | Some (g, a, p) \<Rightarrow> Some (project_agent_grant aid user (pj_project_id p) a))"

definition agent_usable_in_project :: "agent_rec \<Rightarrow> string \<Rightarrow> string option \<Rightarrow> project_db \<Rightarrow> bool" where
  "agent_usable_in_project g user pid db =
     (if ag_is_system g then True
      else if ag_owner_email g = user then True
      else resolve_agent_use_grant (ag_agent_id g) user pid db \<noteq> None)"

subsection \<open>The project of a conversation's work\<close>

definition get_agent :: "string \<Rightarrow> project_db \<Rightarrow> agent_rec option" where
  "get_agent aid db = find_first (\<lambda>g. ag_agent_id g = aid) (pd_all_agents db)"

definition default_project_id_for_new_topic :: "string \<Rightarrow> string \<Rightarrow> project_db \<Rightarrow> string option" where
  "default_project_id_for_new_topic aid user db =
     (case get_default_project_for_agent aid db of
        None \<Rightarrow> None
      | Some p \<Rightarrow> if satisfies (rr_role (resolve_project_role (Some p) user db)) ''use'' then Some (pj_project_id p) else None)"

definition resolve_effective_project_id :: "conversation option \<Rightarrow> string option \<Rightarrow> string \<Rightarrow> project_db \<Rightarrow> string option" where
  "resolve_effective_project_id conv aid user db =
     (case conv of
        None \<Rightarrow> None
      | Some c \<Rightarrow>
          if (case co_project_id c of None \<Rightarrow> False | Some s \<Rightarrow> py_strip s \<noteq> []) then co_project_id c
          else case aid of
                 None \<Rightarrow> None
               | Some a \<Rightarrow> if is_long_lived_chat_context c then default_project_id_for_new_topic a user db else None)"

subsection \<open>Listings of a project\<close>

definition visible_to :: "string \<Rightarrow> string \<Rightarrow> string \<Rightarrow> bool" where
  "visible_to author visibility viewer \<longleftrightarrow> author = viewer \<or> visibility = ''project''"

text \<open>\<open>context_data["kind"].as_string()\<close>.\<close>

definition kind_text :: "conversation \<Rightarrow> string option" where
  "kind_text c =
     (case dict_get (platform_data c) ''kind'' of VNone \<Rightarrow> None | VStr s \<Rightarrow> Some s | v \<Rightarrow> Some (py_str v))"

text \<open>\<open>LIKE\<close>: a percent sign stands for any text, an underscore for one character.\<close>

fun sql_like :: "string \<Rightarrow> string \<Rightarrow> bool" where
  "sql_like [] s = (s = [])"
| "sql_like (c # p) [] = (c = CHR ''%'' \<and> sql_like p [])"
| "sql_like (c # p) (x # s) =
     (if c = CHR ''%'' then sql_like p (x # s) \<or> sql_like (c # p) s
      else (c = CHR ''_'' \<or> c = x) \<and> sql_like p s)"

definition ref_like :: "conversation \<Rightarrow> string \<Rightarrow> bool" where
  "ref_like c p = (case co_context_ref c of None \<Rightarrow> False | Some s \<Rightarrow> sql_like p s)"

definition long_lived_conversation_clause :: "conversation \<Rightarrow> bool" where
  "long_lived_conversation_clause c \<longleftrightarrow>
     co_context_type c \<notin> set NON_CHANNEL_CONTEXT_TYPES \<or>
     co_context_type c = ''web'' \<and>
       (ref_like c ''web:agent_direct:%'' \<or> ref_like c ''web:user:%'' \<and> ref_like c ''%:default'')"

record conversation_filter =
  cf_default_agent_ids :: "string list option"
  cf_agent_id :: "string option"
  cf_limit :: nat
  cf_before :: "(time \<times> string) option"
  cf_shared_only :: bool
  cf_topics_only :: bool

definition activity_at :: "conversation \<Rightarrow> time" where
  "activity_at c = (case co_last_message_at c of None \<Rightarrow> co_created_at c | Some t \<Rightarrow> t)"

definition older :: "(time \<times> string) option \<Rightarrow> time \<Rightarrow> string \<Rightarrow> bool" where
  "older before t i = (case before of None \<Rightarrow> True | Some (bt, bi) \<Rightarrow> t < bt \<or> (t = bt \<and> i < bi))"

text \<open>The conditions of \<open>list_project_conversations\<close>.\<close>

definition listed_conversation :: "string \<Rightarrow> string \<Rightarrow> conversation_filter \<Rightarrow> conversation \<Rightarrow> bool" where
  "listed_conversation pid viewer f c \<longleftrightarrow>
     (co_project_id c = Some pid \<and> visible_to (co_user_email c) (co_visibility c) viewer \<or>
      (case cf_default_agent_ids f of
         None \<Rightarrow> False
       | Some ids \<Rightarrow> ids \<noteq> [] \<and> co_project_id c = None \<and> co_user_email c = viewer \<and> co_agent_id c \<in> set ids \<and>
           long_lived_conversation_clause c)) \<and>
     co_status c \<noteq> ''deleted'' \<and> kind_text c \<noteq> Some ''task_control'' \<and>
     co_context_type c \<notin> set MANAGED_CONTEXT_TYPES \<and>
     (blank (cf_agent_id f) \<or> cf_agent_id f = Some (co_agent_id c)) \<and>
     (cf_topics_only f \<longrightarrow> co_status c = ''active'' \<and> co_context_type c = ''web'' \<and> \<not> long_lived_conversation_clause c \<and>
        (case kind_text c of None \<Rightarrow> '''' | Some k \<Rightarrow> k) \<notin> {''task_control'', ''agent_work'', ''managed_agent_conversation''}) \<and>
     (cf_shared_only f \<longrightarrow> co_visibility c = ''project'') \<and>
     older (cf_before f) (activity_at c) (co_conversation_id c)"

definition list_project_conversations :: "string \<Rightarrow> string \<Rightarrow> conversation_filter \<Rightarrow> project_db \<Rightarrow> conversation list" where
  "list_project_conversations pid viewer f db =
     take (cf_limit f) (rev (sort_key (\<lambda>c. (activity_at c, co_conversation_id c))
       (filter (listed_conversation pid viewer f) (pd_conversations db))))"

definition list_project_tasks :: "string \<Rightarrow> string \<Rightarrow> nat \<Rightarrow> (time \<times> string) option \<Rightarrow> project_db \<Rightarrow> work_task list" where
  "list_project_tasks pid viewer limit before db =
     take limit (rev (sort_key (\<lambda>t. (wt_updated_at t, wt_task_id t))
       (filter (\<lambda>t. wt_project_id t = Some pid \<and> visible_to (wt_created_by t) (wt_visibility t) viewer \<and>
          older before (wt_updated_at t) (wt_task_id t)) (pd_tasks db))))"

definition readable_project_conversation_ids :: "string \<Rightarrow> string \<Rightarrow> project_db \<Rightarrow> string list" where
  "readable_project_conversation_ids pid viewer db =
     map co_conversation_id (filter (\<lambda>c. co_project_id c = Some pid \<and> co_status c \<noteq> ''deleted'' \<and>
       visible_to (co_user_email c) (co_visibility c) viewer) (pd_conversations db))"

definition in_ids :: "string option \<Rightarrow> string list \<Rightarrow> bool" where
  "in_ids x ids = (case x of None \<Rightarrow> False | Some i \<Rightarrow> i \<in> set ids)"

definition LISTED_DELIVERABLE_STATUSES :: "string list" where
  "LISTED_DELIVERABLE_STATUSES = [''approved'', ''delivered'']"

definition DELIVERABLE_LIVE_STATUSES :: "string list" where
  "DELIVERABLE_LIVE_STATUSES = [''buffered'', ''approved'', ''delivered'']"

definition LISTED_ARTIFACT_PURPOSES :: "string list" where
  "LISTED_ARTIFACT_PURPOSES = [''tool_artifact'', ''chat_input'', ''channel_input'']"

definition step_task :: "document \<Rightarrow> project_db \<Rightarrow> string option" where
  "step_task d db =
     (case dc_step_run_id d of
        None \<Rightarrow> None
      | Some sid \<Rightarrow> map_option sr_task_id (find_first (\<lambda>s. sr_step_run_id s = sid) (pd_step_runs db)))"

definition listed_deliverable :: "string \<Rightarrow> string \<Rightarrow> project_db \<Rightarrow> document \<Rightarrow> bool" where
  "listed_deliverable pid viewer db d \<longleftrightarrow>
     ((in_ids (dc_conversation_id d) (readable_project_conversation_ids pid viewer db) \<or>
       in_ids (step_task d db) (map wt_task_id (filter (\<lambda>t. wt_project_id t = Some pid \<and>
         visible_to (wt_created_by t) (wt_visibility t) viewer) (pd_tasks db)))) \<and>
        dc_status d \<in> set LISTED_DELIVERABLE_STATUSES \<or>
      dc_project_id d = Some pid \<and> dc_status d \<in> set DELIVERABLE_LIVE_STATUSES) \<and>
     \<not> list_ex (\<lambda>s. dc_supersedes s = Some (dc_id d) \<and> dc_status s \<in> set DELIVERABLE_LIVE_STATUSES) (pd_deliverables db)"

definition list_project_deliverables :: "string \<Rightarrow> string \<Rightarrow> nat \<Rightarrow> project_db \<Rightarrow> (document \<times> string option) list" where
  "list_project_deliverables pid viewer limit db =
     map (\<lambda>d. (d, step_task d db)) (take limit (rev (sort_key (\<lambda>d. (dc_created_at d, dc_id d))
       (filter (listed_deliverable pid viewer db) (pd_deliverables db)))))"

definition listed_artifact :: "time \<Rightarrow> string \<Rightarrow> string \<Rightarrow> project_db \<Rightarrow> document \<Rightarrow> bool" where
  "listed_artifact now pid viewer db d \<longleftrightarrow>
     (in_ids (dc_conversation_id d) (readable_project_conversation_ids pid viewer db) \<and>
        dc_purpose d \<in> set LISTED_ARTIFACT_PURPOSES \<or>
      dc_project_id d = Some pid \<and> dc_purpose d \<noteq> ''conversation_deliverable'') \<and>
     dc_status d \<noteq> ''deleted'' \<and> dc_deleted_at d = None \<and>
     \<not> list_ex (\<lambda>s. dc_supersedes s = Some (dc_id d) \<and> dc_status s \<noteq> ''deleted'' \<and> dc_deleted_at s = None) (pd_artifacts db) \<and>
     (case dc_expires_at d of None \<Rightarrow> True | Some t \<Rightarrow> now < t)"

definition list_project_artifacts :: "time \<Rightarrow> string \<Rightarrow> string \<Rightarrow> nat \<Rightarrow> project_db \<Rightarrow> document list" where
  "list_project_artifacts now pid viewer limit db =
     take limit (rev (sort_key (\<lambda>d. (dc_created_at d, dc_id d))
       (filter (listed_artifact now pid viewer db) (pd_artifacts db))))"

definition latest_visible_project_activity :: "time \<Rightarrow> string \<Rightarrow> string \<Rightarrow> project_db \<Rightarrow> time option" where
  "latest_visible_project_activity now pid viewer db =
     (let plain = \<lparr>cf_default_agent_ids = None, cf_agent_id = None, cf_limit = 1, cf_before = None,
                   cf_shared_only = False, cf_topics_only = False\<rparr>;
          times = map activity_at (list_project_conversations pid viewer plain db) @
                  map wt_updated_at (list_project_tasks pid viewer 1 None db) @
                  map (\<lambda>(d, t). dc_created_at d) (list_project_deliverables pid viewer 1 db) @
                  map dc_created_at (list_project_artifacts now pid viewer 1 db)
      in if times = [] then None else Some (Max (set times)))"

definition make_author_project_resources_private :: "string \<Rightarrow> string \<Rightarrow> project_db \<Rightarrow> project_db \<times> nat" where
  "make_author_project_resources_private pid author db =
     (let pc = (\<lambda>c. co_project_id c = Some pid \<and> co_user_email c = author);
          pt = (\<lambda>t. wt_project_id t = Some pid \<and> wt_created_by t = author)
      in (db\<lparr>pd_conversations := map (\<lambda>c. if pc c then c\<lparr>co_visibility := ''private''\<rparr> else c) (pd_conversations db),
            pd_tasks := map (\<lambda>t. if pt t then t\<lparr>wt_visibility := ''private''\<rparr> else t) (pd_tasks db)\<rparr>,
          length (filter pc (pd_conversations db)) + length (filter pt (pd_tasks db))))"

end
