(* ===== verification/Project_Content.thy ===== *)
theory Project_Content
  imports Project_Access
begin

section \<open>Projects: documents, assignment and sharing\<close>

text \<open>
  \<open>cognis/core/content_projects.py\<close> (the project of a document, and the projects whose documents an
  acting agent may read or write), the operations of \<open>cognis/core/project_access.py\<close> that move a
  conversation and its documents, \<open>effective_kb_agent\<close> of \<open>cognis/core/artifact_entitlements.py\<close>, and the
  sharing operations of \<open>cognis/core/project_management.py\<close>. Each is one transaction: an operation that
  raises leaves the tables as they were. Row locks order the transactions and are not part of the
  state; notifications are not modelled.
\<close>

subsection \<open>The agent that acts\<close>

definition is_system_agent :: "string \<Rightarrow> bool" where
  "is_system_agent aid = py_startswith aid ''system:''"

definition get_session :: "string option \<Rightarrow> project_db \<Rightarrow> session_rec option" where
  "get_session sid db =
     (case sid of None \<Rightarrow> None | Some i \<Rightarrow> if i = [] then None
      else find_first (\<lambda>s. se_session_id s = i) (pd_sessions db))"

text \<open>The task of a session's step run that the user created.\<close>

definition session_task :: "string \<Rightarrow> string \<Rightarrow> project_db \<Rightarrow> work_task option" where
  "session_task sid user db =
     find_first (\<lambda>t. wt_created_by t = user \<and>
       list_ex (\<lambda>s. sr_task_id s = wt_task_id t \<and> sr_session_id s = Some sid) (pd_step_runs db)) (pd_tasks db)"

definition MAX_SESSION_DEPTH :: nat where
  "MAX_SESSION_DEPTH = 16"

fun task_for_session_up :: "nat \<Rightarrow> session_rec option \<Rightarrow> string \<Rightarrow> project_db \<Rightarrow> work_task option" where
  "task_for_session_up 0 current user db = None"
| "task_for_session_up (Suc n) current user db =
     (case current of
        None \<Rightarrow> None
      | Some s \<Rightarrow>
          if se_user_email s \<noteq> user then None
          else case session_task (se_session_id s) user db of
                 Some t \<Rightarrow> Some t
               | None \<Rightarrow> if blank (se_parent_session_id s) then None
                         else task_for_session_up n (get_session (se_parent_session_id s) db) user db)"

definition task_for_session :: "session_rec \<Rightarrow> string \<Rightarrow> project_db \<Rightarrow> work_task option" where
  "task_for_session s user db = task_for_session_up MAX_SESSION_DEPTH (Some s) user db"

text \<open>The sessions a session's work comes from, in the order the stack of \<open>session_ancestors\<close> gives.\<close>

definition session_sources :: "session_rec \<Rightarrow> string \<Rightarrow> project_db \<Rightarrow> session_rec list" where
  "session_sources s user db =
     concat (map (\<lambda>i. case get_session i db of None \<Rightarrow> [] | Some p \<Rightarrow> [p])
       [se_parent_session_id s, se_previous_session_id s, se_source_session_id s,
        (case session_task (se_session_id s) user db of None \<Rightarrow> None | Some t \<Rightarrow> wt_source_session_id t)])"

lemma get_session_mem: "get_session i db = Some p \<Longrightarrow> p \<in> set (pd_sessions db)"
  by (auto simp: get_session_def split: option.splits if_splits dest: find_first_SomeD)

lemma session_sources_table: "set (session_sources s user db) \<subseteq> set (pd_sessions db)"
proof -
  have "set (concat (map (\<lambda>i. case get_session i db of None \<Rightarrow> [] | Some p \<Rightarrow> [p]) is)) \<subseteq> set (pd_sessions db)" for "is"
    by (induction "is") (auto split: option.splits dest: get_session_mem [OF sym])
  then show ?thesis unfolding session_sources_def .
qed

function session_ancestors_from :: "project_db \<Rightarrow> string \<Rightarrow> session_rec list \<Rightarrow> string list \<Rightarrow> session_rec list" where
  "session_ancestors_from db user [] visited = []"
| "session_ancestors_from db user (s # pending) visited =
     (if se_session_id s \<in> set visited \<or> se_user_email s \<noteq> user
      then session_ancestors_from db user pending visited
      else s # session_ancestors_from db user (rev (session_sources s user db) @ pending) (se_session_id s # visited))"
  by pat_completeness auto

termination
proof (relation "measures [\<lambda>(db, user, pending, visited).
    card (se_session_id ` (set (pd_sessions db) \<union> set pending) - set visited), \<lambda>(db, user, pending, visited). length pending]",
    goal_cases)
  case (2 db user s pending visited)
  let ?A = "se_session_id ` (set (pd_sessions db) \<union> set pending) - set visited"
  let ?B = "se_session_id ` (set (pd_sessions db) \<union> set (s # pending)) - set visited"
  have "card ?A \<le> card ?B" by (rule card_mono) auto
  then show ?case by auto
next
  case (3 db user s pending visited)
  let ?A = "se_session_id ` (set (pd_sessions db) \<union> set (rev (session_sources s user db) @ pending)) - set (se_session_id s # visited)"
  let ?B = "se_session_id ` (set (pd_sessions db) \<union> set (s # pending)) - set visited"
  have "?A \<subset> ?B" using 3 session_sources_table [of s user db] by auto
  then have "card ?A < card ?B" by (intro psubset_card_mono) auto
  then show ?case by simp
qed simp

definition session_ancestors :: "session_rec \<Rightarrow> project_db \<Rightarrow> session_rec list" where
  "session_ancestors s db = session_ancestors_from db (se_user_email s) [s] []"

definition own_agent :: "string \<Rightarrow> project_db \<Rightarrow> session_rec \<Rightarrow> string option" where
  "own_agent user db s =
     (if \<not> is_system_agent (se_agent_id s) then Some (se_agent_id s)
      else case get_conversation (se_conversation_id s) db of
             None \<Rightarrow> None
           | Some c \<Rightarrow> if co_user_email c = user \<and> \<not> is_system_agent (co_agent_id c) then Some (co_agent_id c) else None)"

definition kb_agent_of :: "string \<Rightarrow> project_db \<Rightarrow> session_rec \<Rightarrow> string option" where
  "kb_agent_of user db s =
     (case session_task (se_session_id s) user db of
        Some t \<Rightarrow> if \<not> blank (wt_agent_id t) \<and> \<not> is_system_agent (the (wt_agent_id t)) then wt_agent_id t
                  else own_agent user db s
      | None \<Rightarrow> own_agent user db s)"

fun first_some :: "('a \<Rightarrow> 'b option) \<Rightarrow> 'a list \<Rightarrow> 'b option" where
  "first_some f [] = None"
| "first_some f (x # xs) = (case f x of Some y \<Rightarrow> Some y | None \<Rightarrow> first_some f xs)"

definition effective_kb_agent :: "session_rec \<Rightarrow> project_db \<Rightarrow> string option" where
  "effective_kb_agent s db = first_some (kb_agent_of (se_user_email s) db) (session_ancestors s db)"

definition acting_agent_id :: "string \<Rightarrow> string option \<Rightarrow> string option \<Rightarrow> project_db \<Rightarrow> string option" where
  "acting_agent_id user aid sid db =
     (if blank aid then None
      else if \<not> is_system_agent (the aid) then aid
      else case get_session sid db of
             None \<Rightarrow> None
           | Some s \<Rightarrow> if se_user_email s \<noteq> user \<or> Some (se_agent_id s) \<noteq> aid then None else effective_kb_agent s db)"

subsection \<open>The project of the acting work\<close>

record work_scope =
  wk_project_id :: "string option"
  wk_shared :: bool

definition no_scope :: work_scope where
  "no_scope = \<lparr>wk_project_id = None, wk_shared = False\<rparr>"

definition conversation_work :: "string \<Rightarrow> string option \<Rightarrow> string option \<Rightarrow> string option \<Rightarrow> project_db \<Rightarrow> work_scope" where
  "conversation_work user aid cid sid db =
     (case (if blank cid then None else get_conversation (the cid) db) of
        None \<Rightarrow> no_scope
      | Some c \<Rightarrow>
          if co_user_email c \<noteq> user then no_scope
          else let pid = resolve_effective_project_id (Some c) (acting_agent_id user aid sid db) user db
               in if blank pid then no_scope
                  else \<lparr>wk_project_id = pid, wk_shared = (co_project_id c \<noteq> pid \<or> co_visibility c = ''project'')\<rparr>)"

definition work_project :: "string \<Rightarrow> string option \<Rightarrow> string option \<Rightarrow> string option \<Rightarrow> project_db \<Rightarrow> work_scope" where
  "work_project user aid cid sid db =
     (case get_session sid db of
        None \<Rightarrow> conversation_work user aid cid sid db
      | Some s \<Rightarrow>
          if se_user_email s \<noteq> user then conversation_work user aid cid sid db
          else case task_for_session s user db of
                 Some t \<Rightarrow> \<lparr>wk_project_id = wt_project_id t,
                            wk_shared = (\<not> blank (wt_project_id t) \<and> wt_visibility t = ''project'')\<rparr>
               | None \<Rightarrow> conversation_work user aid
                           (if blank cid then Some (se_conversation_id s) else cid) sid db)"

datatype content_access = Content_Read | Content_Write

definition ROLE_FOR :: "content_access \<Rightarrow> string" where
  "ROLE_FOR a = (case a of Content_Read \<Rightarrow> ''view'' | Content_Write \<Rightarrow> ''use'')"

definition content_project_ids ::
  "string option \<Rightarrow> string option \<Rightarrow> string option \<Rightarrow> string option \<Rightarrow> content_access \<Rightarrow> project_db \<Rightarrow> string list" where
  "content_project_ids user aid cid sid access db =
     (if blank user \<or> blank aid then []
      else let u = the user; acting = acting_agent_id u aid sid db in
      if blank acting then []
      else if \<not> blank cid \<and>
        (case get_conversation (the cid) db of None \<Rightarrow> True | Some c \<Rightarrow> co_user_email c \<noteq> u) then []
      else case get_agent (the acting) db of
        None \<Rightarrow> []
      | Some g \<Rightarrow>
          if ag_status g \<noteq> ''active'' then []
          else let context = work_project u aid cid sid db;
                   assigned = map pa_project_id (filter (\<lambda>a. pa_agent_id a = the acting \<and>
                     list_ex (\<lambda>p. pj_project_id p = pa_project_id a \<and> pj_status p = ''active'') (pd_projects db) \<and>
                     (blank (wk_project_id context) \<or> wk_project_id context = Some (pa_project_id a))) (pd_agents db))
               in filter (\<lambda>pid. may (ROLE_FOR access) (Some pid) u db \<and> agent_usable_in_project g u (Some pid) db) assigned)"

definition human_may_access_project_content :: "string option \<Rightarrow> string \<Rightarrow> content_access \<Rightarrow> project_db \<Rightarrow> bool" where
  "human_may_access_project_content pid user access db =
     (if blank pid then False else may (ROLE_FOR access) pid user db)"

definition resolve_new_content_project_id ::
  "string \<Rightarrow> string option \<Rightarrow> string option \<Rightarrow> string option \<Rightarrow> string option \<Rightarrow> string option \<Rightarrow> bool \<Rightarrow> project_db
     \<Rightarrow> (access_error, string option) result" where
  "resolve_new_content_project_id user aid cid sid requested inherited inherit db =
     (if inherit
      then (if \<not> blank requested \<and> requested \<noteq> inherited
            then Inl (Access_Value_Error ''A revision keeps the project of the document it supersedes.'')
            else Inr inherited)
      else if \<not> blank requested
      then (if the requested \<notin> set (content_project_ids (Some user) aid cid sid Content_Write db)
            then Inl (Access_Value_Error ''The project was not found or is not writable for this agent in this context.'')
            else Inr requested)
      else let context = work_project user aid cid sid db in
           if blank (wk_project_id context) \<or> \<not> wk_shared context then Inr None
           else if \<not> human_may_access_project_content (wk_project_id context) user Content_Write db then Inr None
           else Inr (wk_project_id context))"

subsection \<open>Documents follow their conversation\<close>

definition conversation_document_scope :: "conversation \<Rightarrow> project_db \<Rightarrow> string option" where
  "conversation_document_scope c db =
     (let context = work_project (co_user_email c) (Some (co_agent_id c)) (Some (co_conversation_id c)) None db
      in if wk_shared context then wk_project_id context else None)"

definition FOLLOWING_ARTIFACT_PURPOSES :: "string list" where
  "FOLLOWING_ARTIFACT_PURPOSES = [''artifact_write'', ''artifact_publish'']"

text \<open>The lineages that began in the conversation and carry the scope.\<close>

definition deliverable_lineages :: "string \<Rightarrow> string option \<Rightarrow> document list \<Rightarrow> string list" where
  "deliverable_lineages cid scope ds =
     map dc_id (filter (\<lambda>d. dc_conversation_id d = Some cid \<and> dc_step_run_id d = None \<and> dc_revision d = 1 \<and>
       dc_project_id d = scope) ds)"

definition artifact_lineages :: "string \<Rightarrow> string option \<Rightarrow> document list \<Rightarrow> string list" where
  "artifact_lineages cid scope ds =
     map dc_id (filter (\<lambda>d. dc_conversation_id d = Some cid \<and> dc_purpose d \<in> set FOLLOWING_ARTIFACT_PURPOSES \<and>
       dc_revision d = 1 \<and> dc_project_id d = scope) ds)"

definition move_lineages :: "string list \<Rightarrow> string option \<Rightarrow> string option \<Rightarrow> document list \<Rightarrow> document list" where
  "move_lineages lineages old_scope new_scope =
     map (\<lambda>d. if in_ids (dc_lineage_id d) lineages \<and> dc_project_id d = old_scope then d\<lparr>dc_project_id := new_scope\<rparr> else d)"

definition moved_deliverable_ids :: "string \<Rightarrow> string option \<Rightarrow> document list \<Rightarrow> string list" where
  "moved_deliverable_ids cid scope ds =
     map dc_id (filter (\<lambda>d. in_ids (dc_lineage_id d) (deliverable_lineages cid scope ds) \<and> dc_project_id d = scope) ds)"

definition move_conversation_documents :: "string \<Rightarrow> string option \<Rightarrow> string option \<Rightarrow> project_db \<Rightarrow> project_db" where
  "move_conversation_documents cid old_scope new_scope db =
     (if old_scope = new_scope then db
      else let ids = moved_deliverable_ids cid old_scope (pd_deliverables db);
               arts = map (\<lambda>d. if dc_id d \<in> set ids then d\<lparr>dc_project_id := new_scope\<rparr> else d) (pd_artifacts db)
           in db\<lparr>pd_deliverables := map (\<lambda>d. if dc_id d \<in> set ids then d\<lparr>dc_project_id := new_scope\<rparr> else d) (pd_deliverables db),
                 pd_artifacts := move_lineages (artifact_lineages cid old_scope arts) old_scope new_scope arts\<rparr>)"

definition put_conversation :: "conversation \<Rightarrow> project_db \<Rightarrow> project_db" where
  "put_conversation c db =
     db\<lparr>pd_conversations := map (\<lambda>x. if co_conversation_id x = co_conversation_id c then c else x) (pd_conversations db)\<rparr>"

text \<open>The row after the lock, and the rows and documents after a change of it.\<close>

definition refreshed :: "conversation \<Rightarrow> project_db \<Rightarrow> conversation" where
  "refreshed c db = (case get_conversation (co_conversation_id c) db of None \<Rightarrow> c | Some x \<Rightarrow> x)"

definition apply_change :: "conversation \<Rightarrow> conversation \<Rightarrow> project_db \<Rightarrow> project_db" where
  "apply_change c c' db =
     (let db1 = put_conversation c' db
      in move_conversation_documents (co_conversation_id c) (conversation_document_scope c db)
           (conversation_document_scope c' db1) db1)"

definition change_conversation_visibility :: "conversation \<Rightarrow> string \<Rightarrow> project_db \<Rightarrow> project_db" where
  "change_conversation_visibility row visibility db =
     (let c = refreshed row db in apply_change c (c\<lparr>co_visibility := visibility\<rparr>) db)"

definition check_target_project :: "string option \<Rightarrow> string \<Rightarrow> project_db \<Rightarrow> (access_error, unit) result" where
  "check_target_project pid user db =
     (case pid of
        None \<Rightarrow> Inr ()
      | Some _ \<Rightarrow>
          (case resolve_project_role_by_id pid user db of
             (None, _) \<Rightarrow> Inl (Assignment_Error ''Project not found'' 404 ''not_found'')
           | (Some p, res) \<Rightarrow>
               if rr_role res = None then Inl (Assignment_Error ''Project not found'' 404 ''not_found'')
               else if pj_status p \<noteq> ''active'' then Inl (Assignment_Error ''Project is not active'' 409 ''project_not_active'')
               else if \<not> satisfies (rr_role res) ''use''
               then Inl (Assignment_Error ''Your project role does not allow adding conversations'' 403 ''forbidden'')
               else Inr ()))"

text \<open>A conversation that joins a project is shared with it, unless a visibility is asked for.\<close>

definition reassigned :: "string option \<Rightarrow> string option \<Rightarrow> conversation \<Rightarrow> conversation" where
  "reassigned pid visibility c =
     c\<lparr>co_visibility := (case visibility of
          Some v \<Rightarrow> v
        | None \<Rightarrow> if co_project_id c = None \<and> pid \<noteq> None then ''project'' else co_visibility c),
       co_project_id := pid\<rparr>"

definition change_conversation_project ::
  "conversation \<Rightarrow> string option \<Rightarrow> string \<Rightarrow> string option \<Rightarrow> project_db \<Rightarrow> (access_error, project_db) result" where
  "change_conversation_project row pid user visibility db =
     (if co_user_email row \<noteq> user
      then Inl (Assignment_Error ''Only the conversation author can change its project'' 403 ''forbidden'')
      else let c = refreshed row db in
      case project_assignment_refusal c of
        Some refusal \<Rightarrow> Inl (Assignment_Error refusal 409 ''project_not_assignable'')
      | None \<Rightarrow>
          res_bind (check_target_project pid user db) (\<lambda>_.
          if (case get_agent (co_agent_id c) db of None \<Rightarrow> False | Some g \<Rightarrow> \<not> agent_usable_in_project g user pid db)
          then Inl (Assignment_Error ''This agent is available to you only inside its shared project'' 409
                 ''agent_not_available_in_project'')
          else Inr (apply_change c (reassigned pid visibility c) db)))"

subsection \<open>Sharing a project\<close>

definition get_user :: "string \<Rightarrow> project_db \<Rightarrow> user_rec option" where
  "get_user email db = find_first (\<lambda>u. us_email u = email) (pd_users db)"

definition require_project :: "string \<Rightarrow> string \<Rightarrow> string \<Rightarrow> project_db \<Rightarrow> (access_error, project_row) result" where
  "require_project pid actor required db =
     (let p = get_project pid db; role = rr_role (resolve_project_role p actor db) in
      if role = None then Inl (Management_Error ''Project not found'' 404)
      else res_bind (role_satisfies role required) (\<lambda>ok.
        if \<not> ok then Inl (Management_Error ''Project permission is insufficient'' 403)
        else if required \<in> {''manage'', ''share''} \<and>
          (case get_user actor db of None \<Rightarrow> True | Some u \<Rightarrow> \<not> us_is_active u \<or> us_role u = ''viewer'')
        then Inl (Management_Error ''User may not manage projects'' 403)
        else Inr (the p)))"

definition list_grants :: "string \<Rightarrow> string \<Rightarrow> project_db \<Rightarrow> (access_error, project_grant list) result" where
  "list_grants pid actor db =
     res_bind (require_project pid actor ''view'' db) (\<lambda>p.
       Inr (if pj_owner_email p = actor then list_project_grants pid db else list_active_project_grants pid db))"

definition leave_project :: "time \<Rightarrow> string \<Rightarrow> string \<Rightarrow> bool \<Rightarrow> project_db \<Rightarrow> (access_error, project_db \<times> bool \<times> nat) result" where
  "leave_project now pid actor make_private db =
     res_bind (require_project pid actor ''view'' db) (\<lambda>p.
       if pj_owner_email p = actor then Inl (Management_Error ''The project owner cannot leave the project'' 409)
       else let (db1, n) = (if make_private then make_author_project_resources_private pid actor db else (db, 0));
                (db2, revoked) = revoke_active_project_grants_for_user now pid actor db1
            in Inr (db2, 0 < revoked, n))"

datatype grant_change = Grant_Shared | Grant_Updated | Grant_Revoked

text \<open>Changing a grant by its id: revoking it, or giving it another role.\<close>

definition change_existing_grant ::
  "time \<Rightarrow> string \<Rightarrow> string \<Rightarrow> string option \<Rightarrow> bool \<Rightarrow> project_db
     \<Rightarrow> (access_error, project_db \<times> grant_change option) result" where
  "change_existing_grant now pid gid role revoke db =
     (case get_project_grant gid db of
        None \<Rightarrow> Inl (Management_Error ''Project grant not found'' 404)
      | Some g \<Rightarrow>
          if pg_project_id g \<noteq> pid then Inl (Management_Error ''Project grant not found'' 404)
          else if revoke
          then (if pg_revoked_at g = None then Inr (fst (revoke_project_grant now gid db), Some Grant_Revoked) else Inr (db, None))
          else if pg_revoked_at g \<noteq> None then Inl (Management_Error ''Project grant not found'' 404)
          else if normalize_project_role (Some (pg_permission g)) \<noteq> role
          then Inr (fst (update_project_grant_permission gid (case role of None \<Rightarrow> ''None'' | Some r \<Rightarrow> r) db), Some Grant_Updated)
          else Inr (db, None))"

text \<open>Sharing with a user by email; \<open>new_id\<close> is the id of a grant that is created.\<close>

definition share_with ::
  "time \<Rightarrow> string \<Rightarrow> project_row \<Rightarrow> string \<Rightarrow> string option \<Rightarrow> string option \<Rightarrow> string option \<Rightarrow> bool \<Rightarrow> project_db
     \<Rightarrow> (access_error, project_db \<times> grant_change option) result" where
  "share_with now new_id p actor grantee role note conflict db =
     (let pid = pj_project_id p; email = py_lower (py_strip (case grantee of None \<Rightarrow> [] | Some e \<Rightarrow> e)) in
      if (case get_user email db of None \<Rightarrow> True | Some u \<Rightarrow> \<not> us_is_active u \<or> us_role u = ''system'')
      then Inl (Management_Error ''Share recipient is unavailable'' 400)
      else if email = pj_owner_email p then Inl (Management_Error ''The project owner already has access'' 400)
      else case get_active_project_grant pid email db of
        Some g \<Rightarrow>
          if conflict then Inl (Management_Error ''User already has access to this project'' 409)
          else if normalize_project_role (Some (pg_permission g)) \<noteq> role
          then Inl (Management_Error ''Recipient already has access; update the existing grant explicitly'' 409)
          else Inr (db, None)
      | None \<Rightarrow>
          res_bind (create_project_grant
            \<lparr>pg_grant_id = new_id, pg_project_id = pid, pg_grantee_type = ''user'', pg_grantee_user_email = Some email,
             pg_permission = (case role of None \<Rightarrow> ''None'' | Some r \<Rightarrow> r), pg_granted_by = actor,
             pg_granted_at = now, pg_revoked_at = None, pg_note = note\<rparr> db) (\<lambda>db'. Inr (db', Some Grant_Shared)))"

record grant_request =
  gq_grantee_email :: "string option"
  gq_grant_id :: "string option"
  gq_permission :: "string option"
  gq_note :: "string option"
  gq_revoke :: bool
  gq_conflict_on_existing :: bool

definition change_grant ::
  "time \<Rightarrow> string \<Rightarrow> string \<Rightarrow> string \<Rightarrow> grant_request \<Rightarrow> project_db
     \<Rightarrow> (access_error, project_db \<times> grant_change option) result" where
  "change_grant now new_id pid actor q db =
     (let role = normalize_project_role (gq_permission q) in
      if \<not> gq_revoke q \<and> role \<notin> {Some ''viewer'', Some ''member'', Some ''manager''}
      then Inl (Management_Error ''Permission must be viewer, member, or manager'' 400)
      else if get_project pid db = None then Inl (Management_Error ''Project not found'' 404)
      else res_bind (require_project pid actor ''share'' db) (\<lambda>p.
        case gq_grant_id q of
          Some gid \<Rightarrow> change_existing_grant now pid gid role (gq_revoke q) db
        | None \<Rightarrow> share_with now new_id p actor (gq_grantee_email q) role (gq_note q) (gq_conflict_on_existing q) db))"

end
