(* ===== verification/Project_Safety.thy ===== *)
theory Project_Safety
  imports Project_Content
begin

section \<open>What projects guarantee\<close>

text \<open>
  The rules of access to projects as properties of the operations: who may still read or use what
  after a grant was revoked, where a project's agents may work, that listings show what may be read,
  and that the documents of a conversation move with it.
\<close>

subsection \<open>Roles without a grant\<close>

lemma satisfies_None [simp]: "\<not> satisfies None req"
  by (simp add: satisfies_def role_satisfies_def)

lemma may_blank [simp]: "blank pid \<Longrightarrow> \<not> may req pid user db"
  by (simp add: may_def resolve_project_role_by_id_def)

lemma may_SomeD:
  assumes "may req (Some pid) user db"
  obtains p where "get_project pid db = Some p" "pj_status p \<noteq> ''deleted''" "pj_project_id p = pid"
    "pj_owner_email p = user \<or> (\<exists>g. get_active_project_grant pid user db = Some g)"
proof -
  let ?p = "get_project pid db"
  have sat: "satisfies (rr_role (resolve_project_role ?p user db)) req"
    using assms by (auto simp: may_def resolve_project_role_by_id_def Let_def split: if_splits)
  then obtain p where p: "?p = Some p" by (cases ?p) (auto simp: resolve_project_role_def)
  then have "pj_project_id p = pid" by (auto simp: get_project_def dest: find_first_SomeD)
  with p sat that show ?thesis
    by (auto simp: resolve_project_role_def split: if_splits option.splits)
qed

text \<open>The user neither owns the project nor holds an active grant of it.\<close>

definition outsider :: "string \<Rightarrow> string \<Rightarrow> project_db \<Rightarrow> bool" where
  "outsider user pid db \<longleftrightarrow> (\<forall>p \<in> set (pd_projects db). pj_project_id p = pid \<longrightarrow> pj_owner_email p \<noteq> user) \<and>
     get_active_project_grant pid user db = None"

lemma outsider_may_nothing: "outsider user pid db \<Longrightarrow> \<not> may req (Some pid) user db"
  by (auto simp: outsider_def get_project_def dest!: find_first_SomeD elim!: may_SomeD)

lemma outsider_reads_nothing:
  assumes "outsider user pid db"
  shows "co_user_email c \<noteq> user \<Longrightarrow> co_project_id c = Some pid \<Longrightarrow> \<not> can_read_conversation (Some c) user db"
    and "wt_created_by t \<noteq> user \<Longrightarrow> wt_project_id t = Some pid \<Longrightarrow> \<not> can_read_task (Some t) user db"
    and "dc_project_id d = Some pid \<Longrightarrow> \<not> project_document_readable d user db"
  using outsider_may_nothing [OF assms, of "''view''"]
  by (auto simp: can_read_conversation_def can_read_task_def can_read_project_resource_def project_document_readable_def)

lemma member_project_active_grant:
  "pid \<in> set (member_project_ids user db) \<Longrightarrow> \<exists>g. get_active_project_grant pid user db = Some g"
proof -
  assume "pid \<in> set (member_project_ids user db)"
  then obtain g where "g \<in> set (pd_grants db)" "active_grant pid user g"
    by (auto simp: member_project_ids_def active_grant_def)
  then show ?thesis
    using find_first_None_iff [of "active_grant pid user" "pd_grants db"]
    unfolding get_active_project_grant_def by (cases "find_first (active_grant pid user) (pd_grants db)") auto
qed

lemma outsider_uses_nothing: "outsider user pid db \<Longrightarrow> get_project_agent_use_assignment aid user pid db = None"
  using member_project_active_grant [of pid user db]
  by (auto simp: outsider_def get_project_agent_use_assignment_def list_ex_iff usable_project_def)

subsection \<open>The sharing tables\<close>

text \<open>One active grant per project and user, one default project per agent, keys without duplicates.\<close>

definition grants_ok :: "project_grant list \<Rightarrow> bool" where
  "grants_ok gs \<longleftrightarrow> distinct (map pg_grant_id gs) \<and>
     (\<forall>g \<in> set gs. \<forall>h \<in> set gs. \<forall>pid user. active_grant pid user g \<and> active_grant pid user h \<longrightarrow> g = h)"

definition agents_ok :: "project_agent list \<Rightarrow> bool" where
  "agents_ok as \<longleftrightarrow> distinct (map (\<lambda>a. (pa_project_id a, pa_agent_id a)) as) \<and>
     (\<forall>a \<in> set as. \<forall>b \<in> set as. pa_agent_id a = pa_agent_id b \<and> pa_is_default a \<and> pa_is_default b \<longrightarrow> a = b)"

definition sharing_ok :: "project_db \<Rightarrow> bool" where
  "sharing_ok db \<longleftrightarrow> grants_ok (pd_grants db) \<and> agents_ok (pd_agents db)"

text \<open>
  The operations of the tables. Users, projects, conversations, tasks and documents change by other
  code too, which leaves grants and assignments alone.
\<close>

inductive share_step :: "project_db \<Rightarrow> project_db \<Rightarrow> bool" where
  Share_Grant: "change_grant now new_id pid actor q db = Inr (db', change) \<Longrightarrow> share_step db db'"
| Share_Leave: "leave_project now pid actor mp db = Inr (db', ok, n) \<Longrightarrow> share_step db db'"
| Share_Assign: "share_step db (upsert_project_agent now pid aid added_by scope is_default db)"
| Share_Unassign: "share_step db (fst (remove_project_agent pid aid db))"
| Share_Move: "change_conversation_project row pid user visibility db = Inr db' \<Longrightarrow> share_step db db'"
| Share_Visibility: "share_step db (change_conversation_visibility row visibility db)"
| Share_Other: "pd_grants db' = pd_grants db \<Longrightarrow> pd_agents db' = pd_agents db \<Longrightarrow> share_step db db'"

definition share_start :: "project_db \<Rightarrow> bool" where
  "share_start db \<longleftrightarrow> pd_grants db = [] \<and> pd_agents db = []"

text \<open>Revoking or relabelling grants keeps the table in order.\<close>

lemma grants_ok_map:
  assumes "grants_ok gs" and "\<And>g. pg_grant_id (f g) = pg_grant_id g"
    and "\<And>g pid user. active_grant pid user (f g) \<Longrightarrow> active_grant pid user g"
  shows "grants_ok (map f gs)"
proof -
  have "map pg_grant_id (map f gs) = map pg_grant_id gs" using assms(2) by simp
  with assms show ?thesis unfolding grants_ok_def by (metis (no_types, lifting) imageE list.set_map)
qed

lemma create_project_grant_ok:
  assumes "grants_ok (pd_grants db)" and "create_project_grant g db = Inr db'"
  shows "grants_ok (pd_grants db') \<and> pd_agents db' = pd_agents db"
proof -
  have db': "db' = db\<lparr>pd_grants := pd_grants db @ [g]\<rparr>"
    and new: "\<forall>e \<in> set (pd_grants db). pg_grant_id e \<noteq> pg_grant_id g"
    and free: "\<And>pid user e. active_grant pid user g \<Longrightarrow> e \<in> set (pd_grants db) \<Longrightarrow> \<not> active_grant pid user e"
    using assms(2) by (auto simp: create_project_grant_def list_ex_iff active_grant_def split: if_splits)
  have "grants_ok (pd_grants db @ [g])"
    using assms(1) new free unfolding grants_ok_def by auto
  with db' show ?thesis by simp
qed

lemma change_existing_grant_ok:
  assumes "grants_ok (pd_grants db)" and "change_existing_grant now pid gid role revoke db = Inr (db', change)"
  shows "grants_ok (pd_grants db') \<and> pd_agents db' = pd_agents db"
  using assms
  by (auto simp: change_existing_grant_def revoke_project_grant_def update_project_grant_permission_def
      active_grant_def map_grants_def split: option.splits if_splits intro!: grants_ok_map)

lemma share_with_ok:
  assumes "grants_ok (pd_grants db)" and "share_with now new_id p actor grantee role note conflict db = Inr (db', change)"
  shows "grants_ok (pd_grants db') \<and> pd_agents db' = pd_agents db"
  using assms
  by (auto simp: share_with_def Let_def split: option.splits if_splits dest: create_project_grant_ok)

lemma change_grant_ok:
  "grants_ok (pd_grants db) \<Longrightarrow> change_grant now new_id pid actor q db = Inr (db', change) \<Longrightarrow>
     grants_ok (pd_grants db') \<and> pd_agents db' = pd_agents db"
  by (auto simp: change_grant_def Let_def split: if_splits option.splits dest: change_existing_grant_ok share_with_ok)

lemma leave_project_tables:
  assumes "leave_project now pid actor mp db = Inr (db', ok, n)"
  shows "pd_grants db' = map (\<lambda>g. if active_grant pid actor g then g\<lparr>pg_revoked_at := Some now\<rparr> else g) (pd_grants db) \<and>
    pd_agents db' = pd_agents db \<and> pd_projects db' = pd_projects db \<and> pd_deliverables db' = pd_deliverables db \<and>
    pd_artifacts db' = pd_artifacts db"
  using assms
  by (cases mp) (auto simp: leave_project_def revoke_active_project_grants_for_user_def
      make_author_project_resources_private_def map_grants_def Let_def split: if_splits)

lemma leave_project_ok:
  assumes "grants_ok (pd_grants db)" and "leave_project now pid actor mp db = Inr (db', ok, n)"
  shows "grants_ok (pd_grants db') \<and> pd_agents db' = pd_agents db"
proof -
  have "grants_ok (map (\<lambda>g. if active_grant pid actor g then g\<lparr>pg_revoked_at := Some now\<rparr> else g) (pd_grants db))"
    by (rule grants_ok_map [OF assms(1)]) (auto simp: active_grant_def split: if_splits)
  with leave_project_tables [OF assms(2)] show ?thesis by simp
qed

lemma agents_ok_map:
  assumes "agents_ok as" and "\<And>a. pa_project_id (f a) = pa_project_id a" and "\<And>a. pa_agent_id (f a) = pa_agent_id a"
    and "\<And>a. pa_is_default (f a) \<Longrightarrow> pa_is_default a"
  shows "agents_ok (map f as)"
proof -
  have "map (\<lambda>a. (pa_project_id a, pa_agent_id a)) (map f as) = map (\<lambda>a. (pa_project_id a, pa_agent_id a)) as"
    using assms(2,3) by simp
  with assms show ?thesis unfolding agents_ok_def by (metis (no_types, lifting) imageE list.set_map)
qed

lemma clear_defaults_cleared:
  assumes "a \<in> set (clear_defaults now pid aid as)" and "pa_agent_id a = aid" and "pa_project_id a \<noteq> pid"
  shows "\<not> pa_is_default a"
proof -
  let ?p = "\<lambda>b. pa_agent_id b = aid \<and> pa_project_id b \<noteq> pid \<and> pa_is_default b"
  obtain b where "a = (if ?p b then b\<lparr>pa_is_default := False, pa_updated_at := now\<rparr> else b)"
    using assms(1) unfolding clear_defaults_def set_map by blast
  with assms(2,3) show ?thesis by (auto split: if_splits)
qed

text \<open>Inserting an assignment, or writing one, after the agent's other defaults were cleared.\<close>

lemma insert_agent_ok:
  assumes "agents_ok as" and "\<And>a. a \<in> set as \<Longrightarrow> (pa_project_id a, pa_agent_id a) \<noteq> (pa_project_id n, pa_agent_id n)"
    and "\<And>a. a \<in> set as \<Longrightarrow> pa_agent_id a = pa_agent_id n \<Longrightarrow> pa_is_default n \<Longrightarrow> \<not> pa_is_default a"
  shows "agents_ok (as @ [n])"
  unfolding agents_ok_def
proof (intro conjI ballI impI)
  show "distinct (map (\<lambda>a. (pa_project_id a, pa_agent_id a)) (as @ [n]))"
    using assms(1,2) by (force simp: agents_ok_def)
  fix a b
  assume "a \<in> set (as @ [n])" "b \<in> set (as @ [n])"
    and "pa_agent_id a = pa_agent_id b \<and> pa_is_default a \<and> pa_is_default b"
  with assms(1,3) show "a = b" unfolding agents_ok_def by auto
qed

lemma update_agent_ok:
  assumes "agents_ok as" and "\<And>a. pa_project_id (f a) = pa_project_id a" and "\<And>a. pa_agent_id (f a) = pa_agent_id a"
    and "\<And>a b. a \<in> set as \<Longrightarrow> b \<in> set as \<Longrightarrow> pa_agent_id a = pa_agent_id b \<Longrightarrow> pa_is_default (f a) \<Longrightarrow>
      pa_is_default (f b) \<Longrightarrow> pa_project_id a = pa_project_id b"
  shows "agents_ok (map f as)"
  unfolding agents_ok_def
proof (intro conjI ballI impI)
  let ?key = "\<lambda>a. (pa_project_id a, pa_agent_id a)"
  have keys: "distinct (map ?key as)" using assms(1) by (simp add: agents_ok_def)
  moreover have "map ?key (map f as) = map ?key as" using assms(2,3) by simp
  ultimately show "distinct (map ?key (map f as))" by (simp only:)
  fix x y
  assume "x \<in> set (map f as)" "y \<in> set (map f as)"
    and xy: "pa_agent_id x = pa_agent_id y \<and> pa_is_default x \<and> pa_is_default y"
  then obtain a b where ab: "a \<in> set as" "b \<in> set as" "x = f a" "y = f b" by auto
  with xy assms(3) assms(4) [of a b] have "?key a = ?key b" by simp
  with keys ab show "x = y" by (auto simp: distinct_map inj_on_def)
qed

lemma upsert_agents_ok:
  assumes "agents_ok (pd_agents db)"
  shows "agents_ok (pd_agents (upsert_project_agent now pid aid by' scope is_default db))"
proof -
  define rows where "rows = (if is_default = Some True then clear_defaults now pid aid (pd_agents db) else pd_agents db)"
  have "agents_ok (clear_defaults now pid aid (pd_agents db))"
    unfolding clear_defaults_def by (rule agents_ok_map [OF assms]) (auto split: if_splits)
  with assms have rows: "agents_ok rows" by (simp add: rows_def)
  have cleared: "\<not> pa_is_default a"
    if "a \<in> set rows" "pa_agent_id a = aid" "pa_project_id a \<noteq> pid" "is_default = Some True" for a
    using that clear_defaults_cleared by (simp add: rows_def)
  show ?thesis
  proof (cases "get_project_agent pid aid (db\<lparr>pd_agents := rows\<rparr>)")
    case None
    then have free: "\<And>a. a \<in> set rows \<Longrightarrow> pa_project_id a = pid \<Longrightarrow> pa_agent_id a \<noteq> aid"
      unfolding get_project_agent_def by simp
    have "agents_ok (rows @ [n])" if "pa_project_id n = pid" "pa_agent_id n = aid" "pa_is_default n = (is_default = Some True)" for n
      using that free cleared by (intro insert_agent_ok rows) auto
    with None show ?thesis unfolding upsert_project_agent_def Let_def rows_def [symmetric] by simp
  next
    case (Some x)
    define upd :: "project_agent \<Rightarrow> project_agent" where "upd = (\<lambda>a. if pa_project_id a = pid \<and> pa_agent_id a = aid
      then a\<lparr>pa_executor_scope := (case scope of None \<Rightarrow> pa_executor_scope a | Some s \<Rightarrow> s),
             pa_is_default := (case is_default of None \<Rightarrow> pa_is_default a | Some b \<Rightarrow> b), pa_updated_at := now\<rparr> else a)"
    have "pa_project_id a = pa_project_id b"
      if "a \<in> set rows" "b \<in> set rows" "pa_agent_id a = pa_agent_id b" "pa_is_default (upd a)" "pa_is_default (upd b)" for a b
    proof (rule ccontr)
      assume differ: "pa_project_id a \<noteq> pa_project_id b"
      have "pa_is_default z" if "pa_is_default (upd z)" "pa_project_id z \<noteq> pid \<or> pa_agent_id z \<noteq> aid \<or> is_default = None" for z
        using that by (auto simp: upd_def split: if_splits)
      moreover have "is_default \<noteq> Some False" if "pa_is_default (upd z)" "pa_project_id z = pid" "pa_agent_id z = aid" for z
        using that by (auto simp: upd_def)
      ultimately show False
        using that differ rows cleared unfolding agents_ok_def by (metis (full_types) option.exhaust)
    qed
    then have "agents_ok (map upd rows)" by (intro update_agent_ok rows) (auto simp: upd_def)
    moreover have "pd_agents (upsert_project_agent now pid aid by' scope is_default db) = map upd rows"
      using Some unfolding upsert_project_agent_def Let_def rows_def [symmetric] upd_def by simp
    ultimately show ?thesis by simp
  qed
qed

lemma remove_agents_ok: "agents_ok (pd_agents db) \<Longrightarrow> agents_ok (pd_agents (fst (remove_project_agent pid aid db)))"
  by (auto simp: remove_project_agent_def Let_def agents_ok_def distinct_map inj_on_def)

lemma move_documents_tables:
  "pd_grants (move_conversation_documents cid a b db) = pd_grants db"
  "pd_agents (move_conversation_documents cid a b db) = pd_agents db"
  "pd_projects (move_conversation_documents cid a b db) = pd_projects db"
  "pd_conversations (move_conversation_documents cid a b db) = pd_conversations db"
  by (simp_all add: move_conversation_documents_def Let_def)

lemma apply_change_tables:
  "pd_grants (apply_change c c' db) = pd_grants db" "pd_agents (apply_change c c' db) = pd_agents db"
  by (simp_all add: apply_change_def put_conversation_def move_documents_tables Let_def)

lemma change_conversation_project_applies:
  assumes "change_conversation_project row pid user visibility db = Inr db'"
  shows "db' = apply_change (refreshed row db) (reassigned pid visibility (refreshed row db)) db \<and>
    co_user_email row = user \<and> check_target_project pid user db = Inr ()"
  using assms by (auto simp: change_conversation_project_def Let_def split: if_splits option.splits)

lemma check_target_project_ok:
  assumes "check_target_project (Some q) user db = Inr ()"
  shows "\<exists>p. get_project q db = Some p \<and> pj_status p = ''active'' \<and> may ''use'' (Some q) user db"
proof (cases "resolve_project_role_by_id (Some q) user db")
  case (Pair project res)
  with assms obtain p where "project = Some p" "pj_status p = ''active''" "satisfies (rr_role res) ''use''"
    by (cases project) (simp_all add: check_target_project_def split: if_splits)
  moreover from this Pair have "get_project q db = Some p"
    by (simp add: resolve_project_role_by_id_def Let_def split: if_splits)
  ultimately show ?thesis using Pair by (simp add: may_def)
qed

lemma share_step_ok: "share_step db db' \<Longrightarrow> sharing_ok db \<Longrightarrow> sharing_ok db'"
  unfolding sharing_ok_def
proof (induction rule: share_step.induct)
  case (Share_Grant now new_id pid actor q db db' change)
  then show ?case using change_grant_ok by metis
next
  case (Share_Leave now pid actor mp db db' ok n)
  then show ?case using leave_project_ok by metis
next
  case (Share_Assign db now pid aid added_by scope is_default)
  then show ?case by (auto simp: upsert_agents_ok) (simp add: upsert_project_agent_def Let_def split: option.split)
next
  case (Share_Unassign db pid aid)
  then show ?case by (auto simp: remove_agents_ok) (simp add: remove_project_agent_def Let_def)
next
  case (Share_Move row pid user visibility db db')
  with change_conversation_project_applies [OF Share_Move(1)] show ?case by (simp add: apply_change_tables)
next
  case (Share_Visibility db row visibility)
  then show ?case by (simp add: change_conversation_visibility_def apply_change_tables Let_def)
qed simp

interpretation sharing: inv_system share_start share_step sharing_ok
proof unfold_locales
  fix db db' :: project_db
  show "share_start db \<Longrightarrow> sharing_ok db" by (simp add: share_start_def sharing_ok_def grants_ok_def agents_ok_def)
  show "sharing_ok db \<Longrightarrow> share_step db db' \<Longrightarrow> sharing_ok db'" by (rule share_step_ok)
qed

subsection \<open>A small project\<close>

definition demo_project_db :: project_db where
  "demo_project_db =
     \<lparr>pd_projects = [\<lparr>pj_project_id = ''p'', pj_owner_email = ''ann'', pj_name = ''Home'', pj_status = ''active''\<rparr>],
      pd_grants = [], pd_agents = [],
      pd_all_agents = [\<lparr>ag_agent_id = ''helper'', ag_owner_email = ''ann'', ag_name = ''Helper'', ag_is_system = False, ag_status = ''active''\<rparr>],
      pd_agent_grants = [],
      pd_users = [\<lparr>us_email = ''ann'', us_is_active = True, us_role = ''user''\<rparr>, \<lparr>us_email = ''bob'', us_is_active = True, us_role = ''user''\<rparr>],
      pd_conversations =
        [\<lparr>co_conversation_id = ''c1'', co_user_email = ''bob'', co_agent_id = ''helper'', co_project_id = Some ''p'', co_visibility = ''project'',
          co_status = ''active'', co_context_type = ''web'', co_context_ref = None, co_context_data = None, co_last_message_at = None, co_created_at = 1\<rparr>,
         \<lparr>co_conversation_id = ''c2'', co_user_email = ''ann'', co_agent_id = ''helper'', co_project_id = Some ''p'', co_visibility = ''project'',
          co_status = ''active'', co_context_type = ''agent_work'', co_context_ref = None, co_context_data = None, co_last_message_at = None, co_created_at = 2\<rparr>],
      pd_tasks = [], pd_step_runs = [], pd_sessions = [],
      pd_deliverables =
        [\<lparr>dc_id = ''d1'', dc_conversation_id = Some ''c1'', dc_step_run_id = None, dc_project_id = Some ''p'', dc_lineage_id = Some ''d1'',
          dc_revision = 1, dc_supersedes = None, dc_status = ''approved'', dc_purpose = '''', dc_created_at = 1, dc_deleted_at = None, dc_expires_at = None\<rparr>,
         \<lparr>dc_id = ''d2'', dc_conversation_id = Some ''c2'', dc_step_run_id = None, dc_project_id = None, dc_lineage_id = Some ''d2'',
          dc_revision = 1, dc_supersedes = None, dc_status = ''approved'', dc_purpose = '''', dc_created_at = 2, dc_deleted_at = None, dc_expires_at = None\<rparr>],
      pd_artifacts = []\<rparr>"

definition demo_share :: "string \<Rightarrow> bool \<Rightarrow> grant_request" where
  "demo_share permission revoke = \<lparr>gq_grantee_email = Some ''bob'', gq_grant_id = (if revoke then Some ''g'' else None),
     gq_permission = Some permission, gq_note = None, gq_revoke = revoke, gq_conflict_on_existing = False\<rparr>"

definition demo_shared :: project_db where
  "demo_shared =
     (let db1 = upsert_project_agent 1 ''p'' ''helper'' ''ann'' None None demo_project_db
      in case change_grant 5 ''g'' ''p'' ''ann'' (demo_share ''member'' False) db1 of Inr (db', c) \<Rightarrow> db' | Inl e \<Rightarrow> db1)"

lemma reach_demo_shared: "reach share_start share_step demo_shared"
proof -
  have "reach share_start share_step demo_project_db"
    by (rule reach_start) (simp add: share_start_def demo_project_db_def)
  moreover have "share_step demo_project_db (upsert_project_agent 1 ''p'' ''helper'' ''ann'' None None demo_project_db)"
    by (rule Share_Assign)
  ultimately have one: "reach share_start share_step (upsert_project_agent 1 ''p'' ''helper'' ''ann'' None None demo_project_db)"
    by (rule reach_step)
  show ?thesis
  proof (cases "change_grant 5 ''g'' ''p'' ''ann'' (demo_share ''member'' False)
      (upsert_project_agent 1 ''p'' ''helper'' ''ann'' None None demo_project_db)")
    case (Inr r)
    then obtain db' ch where shared: "change_grant 5 ''g'' ''p'' ''ann'' (demo_share ''member'' False)
      (upsert_project_agent 1 ''p'' ''helper'' ''ann'' None None demo_project_db) = Inr (db', ch)" by (cases r) auto
    then have "share_step (upsert_project_agent 1 ''p'' ''helper'' ''ann'' None None demo_project_db) db'"
      by (rule Share_Grant)
    with one have "reach share_start share_step db'" by (rule reach_step)
    with shared show ?thesis unfolding demo_shared_def Let_def by (simp only: sum.case prod.case)
  next
    case (Inl e)
    with one show ?thesis unfolding demo_shared_def Let_def by (simp only: sum.case)
  qed
qed

subsection \<open>Properties\<close>

text \<open>
  C20. The sharing tables stay in order under every operation: a user has at most one active grant on a
  project, and an agent at most one default project; so the role that access is decided by, and the
  project that ambient work is filed under, are unambiguous.
\<close>

theorem roles_are_unambiguous:
  assumes "reach share_start share_step db"
  shows "(\<forall>g h pid user. g \<in> set (pd_grants db) \<and> h \<in> set (pd_grants db) \<and> active_grant pid user g \<and>
      active_grant pid user h \<longrightarrow> g = h) \<and>
    (\<forall>a b. a \<in> set (pd_agents db) \<and> b \<in> set (pd_agents db) \<and> pa_agent_id a = pa_agent_id b \<and> pa_is_default a \<and>
      pa_is_default b \<longrightarrow> a = b)"
  using sharing.reach_inv [OF assms] by (auto simp: sharing_ok_def grants_ok_def agents_ok_def)

theorem roles_are_unambiguous_witness:
  "length (filter (active_grant ''p'' ''bob'') (pd_grants demo_shared)) = 1 \<and>
   (\<exists>g. g \<in> set (pd_grants demo_shared) \<and> active_grant ''p'' ''bob'' g \<and>
      (\<nexists>h. h \<in> set (pd_grants demo_shared) \<and> active_grant ''p'' ''bob'' h \<and> h \<noteq> g))"
proof -
  have len: "length (filter (active_grant ''p'' ''bob'') (pd_grants demo_shared)) = 1" by code_simp
  then have "filter (active_grant ''p'' ''bob'') (pd_grants demo_shared) \<noteq> []" by auto
  then obtain g where "g \<in> set (pd_grants demo_shared)" "active_grant ''p'' ''bob'' g" by (auto simp: filter_empty_conv)
  with len roles_are_unambiguous [OF reach_demo_shared] show ?thesis by metis
qed

text \<open>A user leaves the project, or the user's grant is revoked.\<close>

definition loses_access :: "project_db \<Rightarrow> string \<Rightarrow> string \<Rightarrow> project_db \<Rightarrow> bool" where
  "loses_access db pid user db' \<longleftrightarrow>
     (\<exists>now mp ok n. leave_project now pid user mp db = Inr (db', ok, n)) \<or>
     (\<exists>now new_id actor q gid g ch. change_grant now new_id pid actor q db = Inr (db', ch) \<and> gq_revoke q \<and>
        gq_grant_id q = Some gid \<and> get_project_grant gid db = Some g \<and> active_grant pid user g)"

lemma revoked_grants:
  assumes "change_grant now new_id pid actor q db = Inr (db', ch)" and "gq_revoke q" and "gq_grant_id q = Some gid"
    and "get_project_grant gid db = Some g" and "pg_revoked_at g = None"
  shows "pd_grants db' = map (\<lambda>g. if pg_grant_id g = gid then g\<lparr>pg_revoked_at := Some now\<rparr> else g) (pd_grants db) \<and>
    pd_projects db' = pd_projects db"
  using assms
  by (auto simp: change_grant_def change_existing_grant_def revoke_project_grant_def map_grants_def Let_def
      split: if_splits)

lemma revoked_not_active [simp]: "\<not> active_grant pid user (g\<lparr>pg_revoked_at := Some t\<rparr>)"
  by (simp add: active_grant_def)

lemma updated_mem: "h \<in> set (map (\<lambda>g. if p g then f g else g) gs) \<Longrightarrow> \<exists>e \<in> set gs. h = (if p e then f e else e)"
  by (induction gs) auto

lemma loses_access_outsider:
  assumes "sharing_ok db" and "loses_access db pid user db'"
    and "\<forall>p \<in> set (pd_projects db). pj_project_id p = pid \<longrightarrow> pj_owner_email p \<noteq> user"
  shows "outsider user pid db'"
proof -
  have none: "get_active_project_grant pid user db' = None" if "\<And>g. g \<in> set (pd_grants db') \<Longrightarrow> \<not> active_grant pid user g"
    using that by (simp add: get_active_project_grant_def)
  from assms(2) consider
    (leave) now mp ok n where "leave_project now pid user mp db = Inr (db', ok, n)"
    | (revoke) now new_id actor q gid g ch where "change_grant now new_id pid actor q db = Inr (db', ch)" "gq_revoke q"
      "gq_grant_id q = Some gid" "get_project_grant gid db = Some g" "active_grant pid user g"
    unfolding loses_access_def by blast
  then show ?thesis
  proof cases
    case leave
    note tables = leave_project_tables [OF leave]
    have "\<not> active_grant pid user g" if "g \<in> set (pd_grants db')" for g
    proof -
      from updated_mem [OF that [unfolded conjunct1 [OF tables]]]
      obtain e where "g = (if active_grant pid user e then e\<lparr>pg_revoked_at := Some now\<rparr> else e)" by blast
      then show ?thesis by (cases "active_grant pid user e") simp_all
    qed
    moreover have "pd_projects db' = pd_projects db" using tables by blast
    ultimately show ?thesis using none assms(3) by (simp add: outsider_def)
  next
    case revoke
    then have "pg_revoked_at g = None" by (simp add: active_grant_def)
    note tables = revoked_grants [OF revoke(1-4) this]
    have g: "g \<in> set (pd_grants db)" "pg_grant_id g = gid"
      using revoke(4) by (auto simp: get_project_grant_def dest: find_first_SomeD)
    have "\<not> active_grant pid user h" if "h \<in> set (pd_grants db')" for h
    proof
      assume act: "active_grant pid user h"
      from updated_mem [OF that [unfolded conjunct1 [OF tables]]] obtain e where
        e: "e \<in> set (pd_grants db)" "h = (if pg_grant_id e = gid then e\<lparr>pg_revoked_at := Some now\<rparr> else e)" by blast
      with act have other: "h = e" "pg_grant_id e \<noteq> gid" by (cases "pg_grant_id e = gid"; simp)+
      have "active_grant pid user e" using act other(1) by simp
      with e(1) g(1) revoke(5) assms(1) have "e = g" unfolding sharing_ok_def grants_ok_def by blast
      with other g show False by simp
    qed
    moreover have "pd_projects db' = pd_projects db" using tables by blast
    ultimately show ?thesis using none assms(3) by (simp add: outsider_def)
  qed
qed

text \<open>
  C16. Losing access takes effect at once: after a user has left a project, or the user's grant was
  revoked, the user meets no requirement on the project, reads none of its conversations and tasks
  that are not the user's own and none of its documents, and may use no agent through it.
\<close>

theorem revocation_is_immediate:
  assumes "reach share_start share_step db" and "loses_access db pid user db'"
    and "\<forall>p \<in> set (pd_projects db). pj_project_id p = pid \<longrightarrow> pj_owner_email p \<noteq> user"
  shows "\<not> may req (Some pid) user db' \<and>
    (\<forall>c. co_user_email c \<noteq> user \<and> co_project_id c = Some pid \<longrightarrow> \<not> can_read_conversation (Some c) user db') \<and>
    (\<forall>t. wt_created_by t \<noteq> user \<and> wt_project_id t = Some pid \<longrightarrow> \<not> can_read_task (Some t) user db') \<and>
    (\<forall>d. dc_project_id d = Some pid \<longrightarrow> \<not> project_document_readable d user db') \<and>
    (\<forall>aid. get_project_agent_use_assignment aid user pid db' = None)"
proof -
  have "outsider user pid db'" using loses_access_outsider [OF sharing.reach_inv [OF assms(1)] assms(2,3)] .
  then show ?thesis
    using outsider_may_nothing outsider_reads_nothing outsider_uses_nothing by blast
qed

definition demo_left :: project_db where
  "demo_left = (case leave_project 9 ''p'' ''bob'' True demo_shared of Inr (db', ok, n) \<Rightarrow> db' | Inl e \<Rightarrow> demo_shared)"

lemma demo_left: "\<exists>ok n. leave_project 9 ''p'' ''bob'' True demo_shared = Inr (demo_left, ok, n)"
proof -
  have "(case leave_project 9 ''p'' ''bob'' True demo_shared of Inr r \<Rightarrow> True | Inl e \<Rightarrow> False)" by code_simp
  then obtain db' ok n where "leave_project 9 ''p'' ''bob'' True demo_shared = Inr (db', ok, n)"
    by (cases "leave_project 9 ''p'' ''bob'' True demo_shared") (auto split: prod.splits)
  then show ?thesis by (simp add: demo_left_def)
qed

theorem revocation_is_immediate_witness:
  "may ''use'' (Some ''p'') ''bob'' demo_shared \<and> \<not> may ''use'' (Some ''p'') ''bob'' demo_left"
proof -
  have "may ''use'' (Some ''p'') ''bob'' demo_shared" by code_simp
  moreover have "\<forall>p \<in> set (pd_projects demo_shared). pj_project_id p = ''p'' \<longrightarrow> pj_owner_email p \<noteq> ''bob''" by code_simp
  moreover have "loses_access demo_shared ''p'' ''bob'' demo_left" using demo_left unfolding loses_access_def by blast
  ultimately show ?thesis using revocation_is_immediate [OF reach_demo_shared] by blast
qed

text \<open>
  C17. An agent reaches the documents of a project only where it belongs: for every project that a
  session of a user's agent may read or write, the project is active, the acting agent is active and
  assigned to it, the user has the role the access needs and may use the agent there (as the owner,
  a system agent, by a direct grant, or as a member of the project); and work inside one project
  reaches no other.
\<close>

theorem agent_documents_confined:
  assumes "pid \<in> set (content_project_ids (Some user) aid cid sid access db)"
  shows "may (ROLE_FOR access) (Some pid) user db \<and>
    (\<exists>g \<in> set (pd_all_agents db). acting_agent_id user aid sid db = Some (ag_agent_id g) \<and> ag_status g = ''active'' \<and>
      (\<exists>a \<in> set (pd_agents db). pa_agent_id a = ag_agent_id g \<and> pa_project_id a = pid) \<and>
      (ag_is_system g \<or> ag_owner_email g = user \<or> get_active_agent_grant (ag_agent_id g) user db \<noteq> None \<or>
       (\<exists>p \<in> set (pd_projects db). pj_project_id p = pid \<and> usable_project user db p))) \<and>
    (\<exists>p \<in> set (pd_projects db). pj_project_id p = pid \<and> pj_status p = ''active'') \<and>
    (\<forall>q. wk_project_id (work_project user aid cid sid db) = Some q \<and> q \<noteq> [] \<longrightarrow> pid = q)"
proof -
  let ?act = "acting_agent_id user aid sid db"
  have some: "get_agent (the ?act) db \<noteq> None" "\<not> blank ?act"
    using assms by (cases "get_agent (the ?act) db"; simp add: content_project_ids_def Let_def split: if_splits)+
  then obtain g where g: "get_agent (the ?act) db = Some g" "\<not> blank ?act" by blast
  then have mem: "g \<in> set (pd_all_agents db)" "?act = Some (ag_agent_id g)"
    by (auto simp: get_agent_def blank_def split: option.splits dest: find_first_SomeD)
  from assms g(1) have act: "ag_status g = ''active''"
    and role: "may (ROLE_FOR access) (Some pid) user db" "agent_usable_in_project g user (Some pid) db"
    and assigned: "\<exists>a \<in> set (pd_agents db). pa_agent_id a = the ?act \<and> pa_project_id a = pid \<and>
      (\<exists>p \<in> set (pd_projects db). pj_project_id p = pid \<and> pj_status p = ''active'') \<and>
      (blank (wk_project_id (work_project user aid cid sid db)) \<or> wk_project_id (work_project user aid cid sid db) = Some pid)"
    by (auto simp: content_project_ids_def Let_def list_ex_iff split: if_splits)
  have "ag_is_system g \<or> ag_owner_email g = user \<or> get_active_agent_grant (ag_agent_id g) user db \<noteq> None \<or>
      (\<exists>p \<in> set (pd_projects db). pj_project_id p = pid \<and> usable_project user db p)"
    using role(2)
    by (auto simp: agent_usable_in_project_def resolve_agent_use_grant_def get_project_agent_use_assignment_def
        list_ex_iff split: if_splits option.splits dest!: find_first_SomeD)
  with mem act role assigned show ?thesis by (auto simp: blank_def split: option.splits)
qed

theorem agent_documents_confined_witness:
  "''p'' \<in> set (content_project_ids (Some ''bob'') (Some ''helper'') (Some ''c1'') None Content_Write demo_shared) \<and>
   may ''use'' (Some ''p'') ''bob'' demo_shared"
proof -
  have "''p'' \<in> set (content_project_ids (Some ''bob'') (Some ''helper'') (Some ''c1'') None Content_Write demo_shared)"
    by code_simp
  with agent_documents_confined [OF this] show ?thesis by (simp add: ROLE_FOR_def)
qed

text \<open>
  C18. The list of a project's conversations agrees with the check of single reads: for a user who may
  view the project, a list that is long enough has exactly the conversations of the project that the
  user may read, less task control conversations and managed ones.
\<close>

theorem listing_agrees_with_reading:
  assumes "may ''view'' (Some pid) viewer db" and "length (pd_conversations db) \<le> n"
  shows "c \<in> set (list_project_conversations pid viewer \<lparr>cf_default_agent_ids = None, cf_agent_id = None, cf_limit = n,
      cf_before = None, cf_shared_only = False, cf_topics_only = False\<rparr> db) \<longleftrightarrow>
    c \<in> set (pd_conversations db) \<and> co_project_id c = Some pid \<and> can_read_conversation (Some c) viewer db \<and>
    kind_text c \<noteq> Some ''task_control'' \<and> co_context_type c \<notin> set MANAGED_CONTEXT_TYPES"
proof -
  let ?f = "\<lparr>cf_default_agent_ids = None, cf_agent_id = None, cf_limit = n, cf_before = None, cf_shared_only = False,
    cf_topics_only = False\<rparr>"
  let ?rows = "filter (listed_conversation pid viewer ?f) (pd_conversations db)"
  have "length (rev (sort_key (\<lambda>c. (activity_at c, co_conversation_id c)) ?rows)) \<le> n"
    using assms(2) by (simp add: order_trans [OF length_filter_le])
  then have "set (list_project_conversations pid viewer ?f db) = set ?rows"
    by (simp add: list_project_conversations_def)
  moreover have "listed_conversation pid viewer ?f c \<longleftrightarrow> co_project_id c = Some pid \<and>
      visible_to (co_user_email c) (co_visibility c) viewer \<and> co_status c \<noteq> ''deleted'' \<and>
      kind_text c \<noteq> Some ''task_control'' \<and> co_context_type c \<notin> set MANAGED_CONTEXT_TYPES"
    by (auto simp: listed_conversation_def blank_def older_def)
  moreover have "\<not> blank (Some pid)" using assms(1) may_blank by blast
  ultimately show ?thesis
    using assms(1) by (auto simp: can_read_conversation_def can_read_project_resource_def visible_to_def split: if_splits)
qed

theorem listing_agrees_with_reading_witness:
  "hd (pd_conversations demo_shared) \<in> set (list_project_conversations ''p'' ''ann'' \<lparr>cf_default_agent_ids = None,
     cf_agent_id = None, cf_limit = 9, cf_before = None, cf_shared_only = False, cf_topics_only = False\<rparr> demo_shared)"
proof -
  have "may ''view'' (Some ''p'') ''ann'' demo_shared" "length (pd_conversations demo_shared) \<le> 9" by code_simp+
  moreover have "hd (pd_conversations demo_shared) \<in> set (pd_conversations demo_shared) \<and>
      co_project_id (hd (pd_conversations demo_shared)) = Some ''p'' \<and>
      can_read_conversation (Some (hd (pd_conversations demo_shared))) ''ann'' demo_shared \<and>
      kind_text (hd (pd_conversations demo_shared)) \<noteq> Some ''task_control'' \<and>
      co_context_type (hd (pd_conversations demo_shared)) \<notin> set MANAGED_CONTEXT_TYPES" by code_simp
  ultimately show ?thesis using listing_agrees_with_reading by blast
qed

text \<open>
  C33. The listing of deliverables shows more than may be read: an approved deliverable of a managed
  conversation of another member is listed to everyone who may view the project, while reading it is
  refused, since managed conversations are not readable by other members.
\<close>

theorem managed_deliverables_are_listed:
  assumes "get_conversation cid db = Some c" and "co_context_type c \<in> set MANAGED_CONTEXT_TYPES"
    and "co_project_id c = Some pid" and "co_visibility c = ''project''" and "co_status c \<noteq> ''deleted''"
    and "co_user_email c \<noteq> viewer" and "cid \<noteq> []"
    and "dc_conversation_id d = Some cid" and "dc_project_id d = None" and "dc_step_run_id d = None"
    and "dc_status d = ''approved''" and "\<forall>s \<in> set (pd_deliverables db). dc_supersedes s \<noteq> Some (dc_id d)"
  shows "listed_deliverable pid viewer db d \<and> \<not> can_project_read_deliverable (Some d) viewer db"
proof -
  have "c \<in> set (pd_conversations db)" "co_conversation_id c = cid"
    using assms(1) by (auto simp: get_conversation_def dest: find_first_SomeD)
  then have "cid \<in> set (readable_project_conversation_ids pid viewer db)"
    using assms(3-5) by (auto simp: readable_project_conversation_ids_def visible_to_def)
  then have "listed_deliverable pid viewer db d"
    using assms(8,11,12) by (auto simp: listed_deliverable_def in_ids_def LISTED_DELIVERABLE_STATUSES_def list_ex_iff)
  moreover have "\<not> can_project_read_deliverable (Some d) viewer db"
    using assms by (simp add: can_project_read_deliverable_def project_document_readable_def blank_def can_read_conversation_def)
  ultimately show ?thesis by blast
qed

theorem managed_deliverables_are_listed_witness:
  "pd_deliverables demo_shared ! 1 \<in> fst ` set (list_project_deliverables ''p'' ''bob'' 20 demo_shared) \<and>
   \<not> can_project_read_deliverable (Some (pd_deliverables demo_shared ! 1)) ''bob'' demo_shared"
proof -
  let ?d = "pd_deliverables demo_shared ! 1" and ?c = "pd_conversations demo_shared ! 1"
  have "get_conversation ''c2'' demo_shared = Some ?c" "co_context_type ?c \<in> set MANAGED_CONTEXT_TYPES"
    "co_project_id ?c = Some ''p''" "co_visibility ?c = ''project''" "co_status ?c \<noteq> ''deleted''" "co_user_email ?c \<noteq> ''bob''"
    "dc_conversation_id ?d = Some ''c2''" "dc_project_id ?d = None" "dc_step_run_id ?d = None" "dc_status ?d = ''approved''"
    "\<forall>s \<in> set (pd_deliverables demo_shared). dc_supersedes s \<noteq> Some (dc_id ?d)"
    by code_simp+
  from managed_deliverables_are_listed [OF this(1-6) _ this(7-11)]
  have "\<not> can_project_read_deliverable (Some ?d) ''bob'' demo_shared" by simp
  moreover have "?d \<in> fst ` set (list_project_deliverables ''p'' ''bob'' 20 demo_shared)" by code_simp
  ultimately show ?thesis by blast
qed

subsection \<open>Documents\<close>

text \<open>The lineages of a table: ids are keys, a first revision begins its own lineage, and the revisions
  of a lineage share one project.\<close>

definition lineages_ok :: "document list \<Rightarrow> bool" where
  "lineages_ok ds \<longleftrightarrow> distinct (map dc_id ds) \<and> (\<forall>d \<in> set ds. dc_revision d = 1 \<longrightarrow> dc_lineage_id d = Some (dc_id d)) \<and>
     (\<forall>d \<in> set ds. \<forall>e \<in> set ds. dc_lineage_id d \<noteq> None \<and> dc_lineage_id d = dc_lineage_id e \<longrightarrow>
        dc_project_id d = dc_project_id e)"

definition follows_chat :: "string \<Rightarrow> string option \<Rightarrow> document list \<Rightarrow> document \<Rightarrow> bool" where
  "follows_chat cid scope ds d \<longleftrightarrow> in_ids (dc_lineage_id d) (deliverable_lineages cid scope ds) \<and> dc_project_id d = scope"

lemma moved_ids_iff:
  assumes "lineages_ok ds" and "d \<in> set ds"
  shows "dc_id d \<in> set (moved_deliverable_ids cid scope ds) \<longleftrightarrow> follows_chat cid scope ds d"
proof
  assume "dc_id d \<in> set (moved_deliverable_ids cid scope ds)"
  then obtain e where "e \<in> set ds" "dc_id e = dc_id d" "follows_chat cid scope ds e"
    by (auto simp: moved_deliverable_ids_def follows_chat_def)
  moreover from this assms have "e = d" by (auto simp: lineages_ok_def distinct_map inj_on_def)
  ultimately show "follows_chat cid scope ds d" by simp
next
  assume "follows_chat cid scope ds d"
  with assms(2) show "dc_id d \<in> set (moved_deliverable_ids cid scope ds)"
    by (auto simp: moved_deliverable_ids_def follows_chat_def)
qed

lemma root_follows_chat:
  assumes "lineages_ok ds" and "d \<in> set ds" and "dc_conversation_id d = Some cid" and "dc_step_run_id d = None"
    and "dc_revision d = 1"
  shows "follows_chat cid scope ds d \<longleftrightarrow> dc_project_id d = scope"
proof -
  have "dc_lineage_id d = Some (dc_id d)" using assms(1,2,5) by (simp add: lineages_ok_def)
  moreover have "dc_id d \<in> set (deliverable_lineages cid scope ds)" if "dc_project_id d = scope"
    using that assms(2-5) by (simp add: deliverable_lineages_def)
  ultimately show ?thesis by (auto simp: follows_chat_def in_ids_def)
qed

lemma moved_deliverables:
  assumes "lineages_ok (pd_deliverables db)" and "a \<noteq> b"
  shows "pd_deliverables (move_conversation_documents cid a b db) =
    map (\<lambda>d. if follows_chat cid a (pd_deliverables db) d then d\<lparr>dc_project_id := b\<rparr> else d) (pd_deliverables db)"
  using assms moved_ids_iff [OF assms(1)] by (simp add: move_conversation_documents_def Let_def)

lemma move_keeps_lineages:
  assumes "lineages_ok ds"
  shows "lineages_ok (map (\<lambda>d. if follows_chat cid a ds d then d\<lparr>dc_project_id := b\<rparr> else d) ds)"
proof -
  define f :: "document \<Rightarrow> document" where "f = (\<lambda>d. if follows_chat cid a ds d then d\<lparr>dc_project_id := b\<rparr> else d)"
  have keep: "dc_id (f d) = dc_id d" "dc_revision (f d) = dc_revision d" "dc_lineage_id (f d) = dc_lineage_id d" for d
    by (simp_all add: f_def)
  have together: "dc_project_id (f d) = dc_project_id (f e)"
    if "d \<in> set ds" "e \<in> set ds" "dc_lineage_id d \<noteq> None" "dc_lineage_id d = dc_lineage_id e" for d e
  proof -
    have "dc_project_id d = dc_project_id e" using that assms unfolding lineages_ok_def by blast
    with that have "follows_chat cid a ds d = follows_chat cid a ds e" by (simp add: follows_chat_def)
    with \<open>dc_project_id d = dc_project_id e\<close> show ?thesis by (simp add: f_def)
  qed
  have "map dc_id (map f ds) = map dc_id ds" using keep by simp
  moreover have "distinct (map dc_id ds)" using assms by (simp add: lineages_ok_def)
  ultimately have "distinct (map dc_id (map f ds))" by (simp only:)
  moreover have "dc_revision d = 1 \<longrightarrow> dc_lineage_id d = Some (dc_id d)" if "d \<in> set (map f ds)" for d
    using that assms keep by (fastforce simp: lineages_ok_def)
  moreover have "dc_project_id d = dc_project_id e"
    if "d \<in> set (map f ds)" "e \<in> set (map f ds)" "dc_lineage_id d \<noteq> None" "dc_lineage_id d = dc_lineage_id e" for d e
  proof -
    from that(1,2) obtain d0 e0 where of: "d0 \<in> set ds" "d = f d0" "e0 \<in> set ds" "e = f e0" by auto
    with that(3,4) have "dc_lineage_id d0 \<noteq> None" "dc_lineage_id d0 = dc_lineage_id e0" using keep(3) by simp_all
    with of together show ?thesis by blast
  qed
  ultimately have "lineages_ok (map f ds)" unfolding lineages_ok_def by blast
  then show ?thesis unfolding f_def .
qed

lemma move_documents_lineages:
  "lineages_ok (pd_deliverables db) \<Longrightarrow> lineages_ok (pd_deliverables (move_conversation_documents cid a b db))"
  by (cases "a = b") (simp_all add: moved_deliverables move_keeps_lineages, simp add: move_conversation_documents_def)

text \<open>
  C19. Documents follow their conversation: when its author moves a conversation to another project,
  or its visibility changes with that, every deliverable that began in the conversation and was in
  its scope is afterwards in the new scope, a deliverable that was placed elsewhere stays there, and
  no lineage spans two projects. Only the author can do it, into a project that is active and that
  the author may use.
\<close>

theorem documents_follow_conversation:
  assumes "change_conversation_project row pid user visibility db = Inr db'" and "lineages_ok (pd_deliverables db)"
    and "c = refreshed row db"
    and "d \<in> set (pd_deliverables db)" and "dc_conversation_id d = Some (co_conversation_id c)"
    and "dc_step_run_id d = None" and "dc_revision d = 1"
  shows "lineages_ok (pd_deliverables db') \<and>
    (\<exists>d' \<in> set (pd_deliverables db'). dc_id d' = dc_id d \<and>
      dc_project_id d' = (if dc_project_id d = conversation_document_scope c db
        then conversation_document_scope (reassigned pid visibility c) (put_conversation (reassigned pid visibility c) db)
        else dc_project_id d)) \<and>
    co_user_email row = user \<and>
    (\<forall>q. pid = Some q \<longrightarrow> (\<exists>p. get_project q db = Some p \<and> pj_status p = ''active'' \<and> may ''use'' (Some q) user db))"
proof -
  let ?c' = "reassigned pid visibility c"
  let ?old = "conversation_document_scope c db" and ?new = "conversation_document_scope ?c' (put_conversation ?c' db)"
  note applied = change_conversation_project_applies [OF assms(1)]
  have db': "db' = move_conversation_documents (co_conversation_id c) ?old ?new (put_conversation ?c' db)"
    using applied assms(3) by (simp add: apply_change_def Let_def)
  have same: "pd_deliverables (put_conversation ?c' db) = pd_deliverables db" by (simp add: put_conversation_def)
  have target: "\<exists>p. get_project q db = Some p \<and> pj_status p = ''active'' \<and> may ''use'' (Some q) user db" if "pid = Some q" for q
    using applied that check_target_project_ok by blast
  have root: "follows_chat (co_conversation_id c) ?old (pd_deliverables db) d \<longleftrightarrow> dc_project_id d = ?old"
    by (rule root_follows_chat [OF assms(2,4-7)])
  have "\<exists>d' \<in> set (pd_deliverables db'). dc_id d' = dc_id d \<and>
      dc_project_id d' = (if dc_project_id d = ?old then ?new else dc_project_id d)"
  proof (cases "?old = ?new")
    case True
    then have "pd_deliverables db' = pd_deliverables db" using db' same by (simp add: move_conversation_documents_def)
    with assms(4) True show ?thesis by (intro bexI [of _ d]) auto
  next
    case False
    let ?d' = "if follows_chat (co_conversation_id c) ?old (pd_deliverables db) d then d\<lparr>dc_project_id := ?new\<rparr> else d"
    have "?d' \<in> set (pd_deliverables db')"
      unfolding db' using moved_deliverables [of "put_conversation ?c' db" ?old ?new "co_conversation_id c"] assms(2,4) False same
      by simp
    with root show ?thesis by (intro bexI [of _ ?d']) auto
  qed
  moreover have "lineages_ok (pd_deliverables db')"
    unfolding db' using move_documents_lineages assms(2) same by metis
  ultimately show ?thesis using applied target by blast
qed

theorem documents_follow_conversation_witness:
  "\<exists>db'. change_conversation_project (hd (pd_conversations demo_shared)) (Some ''p'') ''bob'' (Some ''private'') demo_shared = Inr db' \<and>
     (\<exists>d'. d' \<in> set (pd_deliverables db') \<and> dc_id d' = dc_id (hd (pd_deliverables demo_shared)) \<and> dc_project_id d' = None)"
proof -
  let ?c = "hd (pd_conversations demo_shared)" and ?d = "hd (pd_deliverables demo_shared)"
  have "(case change_conversation_project ?c (Some ''p'') ''bob'' (Some ''private'') demo_shared of Inr r \<Rightarrow> True | Inl e \<Rightarrow> False)" by code_simp
  then obtain db' where moved: "change_conversation_project ?c (Some ''p'') ''bob'' (Some ''private'') demo_shared = Inr db'"
    by (cases "change_conversation_project ?c (Some ''p'') ''bob'' (Some ''private'') demo_shared") auto
  have "lineages_ok (pd_deliverables demo_shared)" "?d \<in> set (pd_deliverables demo_shared)"
    "dc_conversation_id ?d = Some (co_conversation_id (refreshed ?c demo_shared))" "dc_step_run_id ?d = None" "dc_revision ?d = 1"
    by code_simp+
  from documents_follow_conversation [OF moved this(1) refl this(2-5)]
  obtain d' where "d' \<in> set (pd_deliverables db')" "dc_id d' = dc_id ?d"
    "dc_project_id d' = (if dc_project_id ?d = conversation_document_scope (refreshed ?c demo_shared) demo_shared
       then conversation_document_scope (reassigned (Some ''p'') (Some ''private'') (refreshed ?c demo_shared))
         (put_conversation (reassigned (Some ''p'') (Some ''private'') (refreshed ?c demo_shared)) demo_shared) else dc_project_id ?d)" by blast
  moreover have "dc_project_id ?d = conversation_document_scope (refreshed ?c demo_shared) demo_shared"
    "conversation_document_scope (reassigned (Some ''p'') (Some ''private'') (refreshed ?c demo_shared))
       (put_conversation (reassigned (Some ''p'') (Some ''private'') (refreshed ?c demo_shared)) demo_shared) = None"
    by code_simp+
  ultimately have "dc_project_id d' = None" by (simp only: if_True simp_thms)
  with moved \<open>d' \<in> set (pd_deliverables db')\<close> \<open>dc_id d' = dc_id ?d\<close> show ?thesis by blast
qed

lemma get_active_grant_map:
  assumes "\<And>g. pg_grantee_user_email (f g) = pg_grantee_user_email g"
    and "\<And>g. pg_grantee_user_email g = Some reader \<Longrightarrow> f g = g"
  shows "find_first (active_grant pid reader) (map f gs) = find_first (active_grant pid reader) gs"
proof -
  have "active_grant pid reader (f g) = active_grant pid reader g" for g
    using assms [of g] by (cases "pg_grantee_user_email g = Some reader") (simp_all add: active_grant_def)
  moreover have "f g = g" if "active_grant pid reader g" for g using that assms(2) by (simp add: active_grant_def)
  ultimately show ?thesis by (induction gs) simp_all
qed

lemma leaving_keeps_others:
  assumes "leave_project now pid actor mp db = Inr (db', ok, n)" and "reader \<noteq> actor"
  shows "may required q reader db' = may required q reader db"
proof -
  note tables = leave_project_tables [OF assms(1)]
  have "get_active_project_grant r reader db' = get_active_project_grant r reader db" for r
    unfolding get_active_project_grant_def conjunct1 [OF tables]
    by (rule get_active_grant_map) (use assms(2) in \<open>auto simp: active_grant_def\<close>)
  then have "resolve_project_role p reader db' = resolve_project_role p reader db" for p
    by (cases p) (simp_all add: resolve_project_role_def)
  moreover have "pd_projects db' = pd_projects db" using tables by blast
  ultimately show ?thesis by (simp add: may_def resolve_project_role_by_id_def get_project_def)
qed

lemma leaving_hides_conversations:
  assumes "leave_project now pid actor True db = Inr (db', ok, n)" and "c \<in> set (pd_conversations db')"
    and "co_user_email c = actor" and "co_project_id c = Some pid"
  shows "co_visibility c = ''private''"
proof -
  have "pd_conversations db' = map (\<lambda>c. if co_project_id c = Some pid \<and> co_user_email c = actor then c\<lparr>co_visibility := ''private''\<rparr> else c)
      (pd_conversations db)"
    using assms(1) by (auto simp: leave_project_def revoke_active_project_grants_for_user_def
        make_author_project_resources_private_def map_grants_def Let_def split: if_splits)
  from updated_mem [OF assms(2) [unfolded this]] obtain e where
    e: "c = (if co_project_id e = Some pid \<and> co_user_email e = actor then e\<lparr>co_visibility := ''private''\<rparr> else e)" by blast
  show ?thesis
  proof (cases "co_project_id e = Some pid \<and> co_user_email e = actor")
    case True
    with e show ?thesis by simp
  next
    case False
    with e have "c = e" by simp
    with False assms(3,4) show ?thesis by blast
  qed
qed

text \<open>
  C32. Leaving with one's work made private hides the conversations only: the conversations of the
  member who left are unreadable to every other user, while the deliverables that were created in
  them stay in the project and are read by every member as before.
\<close>

theorem leaving_keeps_documents_shared:
  assumes "leave_project now pid actor True db = Inr (db', ok, n)" and "reader \<noteq> actor"
    and "d \<in> set (pd_deliverables db)" and "dc_project_id d = Some pid" and "may ''view'' (Some pid) reader db"
  shows "(\<forall>c \<in> set (pd_conversations db'). co_user_email c = actor \<and> co_project_id c = Some pid \<longrightarrow>
      \<not> can_read_conversation (Some c) reader db') \<and>
    d \<in> set (pd_deliverables db') \<and> can_project_read_deliverable (Some d) reader db'"
proof -
  have "\<not> can_read_conversation (Some c) reader db'"
    if "c \<in> set (pd_conversations db')" "co_user_email c = actor" "co_project_id c = Some pid" for c
    using leaving_hides_conversations [OF assms(1) that] that assms(2)
    by (simp add: can_read_conversation_def can_read_project_resource_def)
  moreover have "may ''view'' (Some pid) reader db'" using assms(5) leaving_keeps_others [OF assms(1,2)] by simp
  moreover have "\<not> blank (Some pid)" using assms(5) may_blank by blast
  ultimately show ?thesis
    using assms(3,4) leave_project_tables [OF assms(1)]
    by (simp add: can_project_read_deliverable_def project_document_readable_def)
qed

theorem leaving_keeps_documents_shared_witness:
  "co_visibility (hd (pd_conversations demo_left)) = ''private'' \<and>
   dc_conversation_id (hd (pd_deliverables demo_shared)) = Some (co_conversation_id (hd (pd_conversations demo_left))) \<and>
   can_project_read_deliverable (Some (hd (pd_deliverables demo_shared))) ''ann'' demo_left"
proof -
  obtain ok n where left: "leave_project 9 ''p'' ''bob'' True demo_shared = Inr (demo_left, ok, n)" using demo_left by blast
  have "hd (pd_deliverables demo_shared) \<in> set (pd_deliverables demo_shared)"
    "dc_project_id (hd (pd_deliverables demo_shared)) = Some ''p''" "may ''view'' (Some ''p'') ''ann'' demo_shared"
    by code_simp+
  from leaving_keeps_documents_shared [OF left _ this]
  have "can_project_read_deliverable (Some (hd (pd_deliverables demo_shared))) ''ann'' demo_left" by simp
  moreover have "co_visibility (hd (pd_conversations demo_left)) = ''private''"
    "dc_conversation_id (hd (pd_deliverables demo_shared)) = Some (co_conversation_id (hd (pd_conversations demo_left)))"
    by code_simp+
  ultimately show ?thesis by blast
qed

end
