(* ===== verification/Spec2Isabelle.thy ===== *)
theory Spec2Isabelle
  imports Executor_Ownership Executor_Pins Circuit_Breaker Unary_Dedup Gate_Conditions Harness_Guards
    Workflow_Progress Workflow_Safety Direct_Turn_Promises Turn_Runtime_Safety Project_Safety
begin

text \<open>
  \<^bold>\<open>Verification of the control core of Cognis.\<close>

  Cognis runs agents: a controller (package \<open>cognis\<close>, under \<open>src/cognis\<close>) keeps conversations,
  tasks and workflows in a database, calls language models, and sends tool calls to executors,
  which are processes of the controller's host or connect over a WebSocket. Several controllers
  may share the database, an executor may reconnect to another controller, models and executors
  fail, and workflows are written by users. This development models the parts that decide what
  may happen in these situations and proves what the rest of the program relies on.

  \<^bold>\<open>Parts and theories.\<close> Paths are relative to \<open>src/\<close>.

  \<^item> \<open>Prelude\<close>: results \<open>'e + 'a\<close> with \<open>res_bind\<close> for code that raises, dictionaries in insertion
    order, strings (\<open>strip\<close>, \<open>lower\<close>, \<open>startswith\<close>), and two locales for transition systems:
    \<open>inv_system\<close> (an invariant of every reachable state) and \<open>mono_system\<close> (a relation to every
    later state).
  \<^item> \<open>Python_Values\<close>: JSON-shaped values with truth value, \<open>str\<close>, \<open>repr\<close>, equality, orderings and
    membership that may raise \<open>TypeError\<close>.
  \<^item> \<open>Leases\<close>: \<open>cognis/store/coordination.py\<close>, class \<open>DatabaseLeaseStore\<close>; the table is a map from
    resource keys to rows with owner, fencing token and expiry, each method a function on it.
    Locale \<open>fenced_store\<close> states what a table of fencing tokens promises (tokens never go down,
    a smaller token is not current); it is interpreted on the lease operations.
  \<^item> \<open>Executor_Ownership\<close>: \<open>cognis/core/executor_connection_ownership.py\<close>, built on \<open>Leases\<close>:
    takeover of an executor connection, heartbeats, and the callbacks and effects that run only
    for the current owner.
  \<^item> \<open>Executor_Policy\<close>: \<open>executor_policy.py\<close>, \<open>executor_availability.py\<close>, \<open>executor_resolution.py\<close> of
    \<open>cognis/core\<close> and the ownership rules of the common package: which executor types are
    allowed, label selectors, selection of one executor.
  \<^item> \<open>Executor_Pool\<close>: \<open>cognis/core/executor_pool.py\<close>: the agent's pool of primary and additional
    executors, resolved against the executor table, and the initial pick.
  \<^item> \<open>Executor_Pins\<close>: the statements of \<open>cognis/store/queries.py\<close> on the pin columns of
    conversations and tasks, the failover ledger and notice outbox,
    \<open>cognis/core/executor_pin_lifecycle.py\<close> and \<open>cognis/core/executor_switching.py\<close>. Locale
    \<open>target_pool\<close> is the lookup that switching relies on, interpreted on \<open>by_id\<close>.
  \<^item> \<open>Unary_Dedup\<close>: the cache that answers a repeated executor call once, with futures of the
    callers that wait.
  \<^item> \<open>Circuit_Breaker\<close>: the breaker of the common package around calls to providers.
  \<^item> \<open>Gate_Conditions\<close>: \<open>cognis/core/gate_conditions.py\<close>: the expression language of workflow
    gates, its allow-list, evaluation, explanation and validation.
  \<^item> \<open>Harness_Guards\<close>: \<open>cognis/core/harness_guards.py\<close> and the ledger functions of \<open>agent_loop.py\<close>
    and \<open>turn_scheduler.py\<close>: argument checks, the loop guard and the suppression of repeated
    calls within a turn.
  \<^item> \<open>Workflow_Model\<close>: \<open>cognis/models/workflow.py\<close> and \<open>cognis/core/workflow_output_contract.py\<close>:
    policies, validators of steps and workflows, runtime state, resolution of step inputs, and
    the owner of a task's output.
  \<^item> \<open>Task_Store\<close>: the rows of tasks, step runs and dependencies (\<open>cognis/store/models.py\<close>) and the
    statements of \<open>cognis/store/queries.py\<close> on them: the table of status transitions with its
    compare-and-swap conditions, the versioned write of the workflow state, the ready queue and
    the search for cycles of dependencies.
  \<^item> \<open>Task_Execution\<close>: \<open>cognis/core/task_execution.py\<close>: a claim is the lease of a task with one slot
    of the deployment and one of the agent, all in the lease table; renewal, suspension and release
    of claims, and the fence a worker checks before it writes.
  \<^item> \<open>Task_Queue\<close>: \<open>cognis/core/task_queue.py\<close>: submission, pausing, resumption, retry, revision,
    cancellation, dependencies and crash recovery. The relation \<open>life\<close> on status and attempt is the
    abstract lifecycle of a task; \<open>queue_step\<close> interleaves the operations.
  \<^item> \<open>Workflow_Routing\<close>: the pure part of \<open>cognis/core/workflow_engine.py\<close>: outcome routes,
    conditions, completion, jumps and the recovery of deterministic steps.
  \<^item> \<open>Workflow_Engine\<close>: the handlers and the loop of \<open>execute_workflow\<close>, as functions on the task row,
    the task in memory and its workflow state, with what happens outside in one turn as a record
    \<open>world\<close>. Others may write between any two accesses to the database (\<open>wo_other\<close>, \<open>wo_between\<close>).
  \<^item> \<open>Workflow_Progress\<close>: workflows without anyone to ask end. \<open>Workflow_Safety\<close>: locale
    \<open>engine_invariant\<close> lifts a property of the database from the statements of the engine to a whole
    run; its instances are cancelled tasks, the lifecycle, and lost leases.
  \<^item> \<open>Tool_Dispatch\<close> and \<open>Direct_Turns\<close>: \<open>cognis/store/direct_turns.py\<close>, class \<open>DirectTurnStore\<close>: the table
    of admitted messages with admission, queries, editing, stopping, claims under the lease of a
    conversation, settlement, handoff, the record of dispatched tool batches, recovery from lost
    owners and by an operator, and the outbox of channel deliveries. A record \<open>txn\<close> has the clock
    readings of a transaction and the rows an unlocked \<open>SELECT\<close> returned, which may be old.
  \<^item> \<open>Direct_Turn_Safety\<close>: the relation \<open>turn_move\<close> says what a method may do to a row; each method is
    shown to stay within it, and the invariant \<open>turn_inv\<close> of the tables follows for every sequence of
    methods and lease operations. \<open>Direct_Turn_Promises\<close>: the abstract lifecycle \<open>tenure_step\<close>, fencing,
    admission, service, stopping and tool batches.
  \<^item> \<open>Turn_Runtime\<close>: \<open>cognis/core/direct_turn_runtime.py\<close>: the fence of an execution and of background
    work, the execution of a claimed turn with all its exception handlers, the recovery of turns whose
    owner is gone, and the pass of the worker that claims heads; written over the methods of the store.
    What happens outside is in the records \<open>exec_world\<close>, \<open>recovery_world\<close>, \<open>visibility_world\<close> and
    \<open>claim_world\<close>: clocks, answers of callbacks, and what others do to the tables between two calls.
    \<open>Turn_Runtime_Safety\<close>: the runtime stays within \<open>turn_step\<close>, so that the store's invariant holds for
    any number of controllers, and what recovery does to a row.
  \<^item> \<open>Project_Access\<close> and \<open>Project_Content\<close>: \<open>project_access.py\<close>, \<open>content_projects.py\<close>, \<open>long_lived_chat.py\<close>,
    the sharing part of \<open>project_management.py\<close> and the acting agent of \<open>artifact_entitlements.py\<close>
    under \<open>cognis/core\<close>, with \<open>cognis/store/project_queries.py\<close>: roles, who reads what, agents used through
    a project, listings, the project of a document, and conversations that move with their documents.
    \<open>Project_Safety\<close>: the step relation \<open>share_step\<close> of sharing with its invariant, and the properties.
  \<^item> This theory: properties that span components. The executor that is active is one that may
    run work, from the executor table through the pool to the pins; and the gates of a workflow
    look back only, from the step definitions to the evaluation of conditions.

  \<^bold>\<open>How the code is represented.\<close> Rows and pydantic models are records, enums are datatypes,
  Python integers are \<open>int\<close>, times are \<open>int\<close> in microseconds, and a raised exception is \<open>Inl\<close>.
  An operation in a database transaction is one function on the tables; where the source rolls
  back, the tables are returned unchanged. Concurrency is the interleaving of such operations:
  the step relations \<open>lease_step\<close>, \<open>breaker_step\<close>, \<open>dedup_step\<close>, \<open>ledger_step\<close>, \<open>pin_step\<close>, \<open>turn_step\<close> and
  \<open>share_step\<close> let
  any operation follow any other with any arguments and at any time; only the breaker's clock,
  a monotonic one in the source, is required to move forward.

  \<^bold>\<open>What is outside.\<close> Code that is not part of the repository is a parameter: \<open>ast.parse\<close> of gate
  conditions (\<open>parse\<close>), hashing and JSON encoding (\<open>hashing\<close>), the dump and digest of a workflow,
  whether a transport has a ready connection (\<open>ready\<close>), callbacks handed to the connection owner,
  the pydantic models of a turn's payload and evidence with SHA-256 (\<open>payload_lib\<close>, \<open>operator_request\<close>),
  \<open>datetime.fromisoformat\<close> in recovery (\<open>rw_parse\<close>), the execution of a turn and the recovery of its calls,
  and the stored settings. No property assumes anything of them beyond its stated hypotheses.

  \<^bold>\<open>Loops.\<close> Retries of \<open>acquire\<close> and \<open>takeover\<close> count the three attempts of the source, with the
  outcome of each attempt chosen by the environment. The eviction loop of the call cache is a
  partial function into \<open>option\<close>, and \<open>join_or_claim\<close> is proved to return. The traversal of a
  syntax tree terminates by its size. The loop of a workflow takes one world per turn and is
  \<open>None\<close> when it wants more; \<open>autonomous_workflow_ends\<close> shows that finitely many worlds are enough.
  The chain of handed-off turns and the walk over the ancestors of a session end because what was
  visited is not followed again. The walk from a session to its task stops after 16 levels, as the
  source does. All other
  recursion is structural; there is no fuel.

  \<^bold>\<open>What the properties show.\<close>
  \<^item> Leases and connections: one current lease per key, a superseded lease or owner can do nothing
    more, a live lease is never taken by \<open>acquire\<close>, when a takeover fails.
  \<^item> Executors: selection stays within ownership, policy and selector; pools have one factual
    target per executor; the initial pick is minimal; pins have increasing generations, fail over
    once per generation, agree between task and conversation, and move by themselves only when
    an additional pin expired; a switch succeeds exactly when it may.
  \<^item> Calls: the cache is bounded, has no waiter without a call, and shares results; the breaker
    opens at its threshold, refuses until its timeout and admits one probe, except in the run
    shown by \<open>stale_call_admits_second_probe\<close>; guards trip exactly as documented by their
    properties.
  \<^item> Workflows: which errors an accepted condition can raise, that explanation and evaluation
    agree, that validated references resolve, that shown values are bounded; which presentations
    are accepted, which inputs a step gets, that merged policies lose no clause, that validated
    steps reload unchanged, and that one step at most owns the task's output.
  \<^item> Tasks: dependencies stay acyclic, capacity is never exceeded, a task has one worker, queue and
    engine refine the lifecycle, a cancelled task is final and never written again, a revision
    fences the former worker out, recovery repeats no call of unknown effect.
  \<^item> Runs of workflows: an autonomous workflow ends, of two writers of one version one succeeds, a
    gate's decision is consumed once, what is reported as completed is recorded as completed, and a
    decision of a deterministic step survives a crash.

  \<^item> Turns: rows are well typed, a conversation runs one turn at a time in the order of admission, a
    settled turn is final, every method refines the lifecycle of tenure, a superseded controller
    writes nothing, a message is admitted once, the head of a conversation is always served, a stop
    leaves nothing waiting, and no session forgets the tool calls of another.

  \<^item> Controllers: a pass of the worker refines the store, an abandoned turn is settled or queued again,
    recovery runs no tool call twice, errors of the controller are bounded; and two runs in which the
    code does less than its documentation says (a claimed turn whose reconciliation fails stays
    claimed, a takeover passes for the owner's completion).
  \<^item> Projects: one active grant per user and one default project per agent, revocation takes effect at
    once, agents reach documents only where they and their user belong, listings agree with single
    reads, documents follow their conversation; and two exceptions (documents of a member who left,
    deliverables of managed conversations).

  Further properties of the same kind, such as those on pools, pins, the breaker, workflow
  definitions and explained conditions, are theorems of their theories.

  \<^bold>\<open>Not modelled.\<close> The agent loop, turn scheduler, web API, channels, providers, tools, storage of
  documents and the executor process are input and output around these decisions. Of the workflow
  engine, sessions, step runs, deliverables, notifications and the delivery of results are left
  out; of the queue, the creation of tasks and the drain loop; of the turn runtime, the timers that
  renew a lease, poll for cancellation and wake the worker, whose effects are arguments of the
  model. A call of the store is atomic there; what may happen inside such a call is covered by the
  theories of the store. Truncation and compaction of context, question sets, runtime selection and
  profiles are heuristics, prompts and merging of configuration without a contract to prove
  against; grants of credentials and the checks of system management are left out.
\<close>

section \<open>Properties across components\<close>

subsection \<open>From the executor table to the active executor\<close>

lemma switched_target:
  assumes "perform_executor_switch cid pool eid task_id lifetime now db = (db', out)" and "so_ok out"
  shows "so_target out \<in> set (pool_all pool) \<and> usable (so_target out) \<and> t_executor_id (so_target out) = eid"
proof (cases "by_id pool eid")
  case None
  with assms show ?thesis by (auto simp: perform_executor_switch_def switch_error_def)
next
  case (Some t)
  with assms have "so_target out = t \<and> usable t"
    by (auto simp: perform_executor_switch_def switch_error_def Let_def split: if_splits prod.splits)
  with epool.find_Some [OF Some] show ?thesis by simp
qed

lemma fallback_target:
  assumes "ensure_active_executor_pin cid task_id pool p execution ready n now db = Inr (db', r)"
    and "r_notice r \<noteq> None"
  obtains fb where "fb \<in> set (usable_primaries pool)" and "r_active_executor_id r = Some (t_executor_id fb)"
proof -
  have "given (active_executor_id p) \<noteq> None"
  proof
    assume "given (active_executor_id p) = None"
    with assms show False by (auto simp: ensure_active_executor_pin_def Let_def kept_pin_def)
  qed
  then obtain eid where "given (active_executor_id p) = Some eid" by blast
  from assms(1) this obtain fb where "pick_fallback ready pool = Some fb"
    and "r_active_executor_id r = Some (t_executor_id fb)"
    by (rule ensure_active_executor_pin_cases) (use assms(2) in \<open>auto simp: kept_pin_def\<close>)
  then show thesis by (blast intro: that pick_fallback_primary)
qed

text \<open>
  C36. Work reaches only executors that may run it. Take the pool that \<open>resolve_executor_pool\<close>
  builds from the executor table for an agent's owner. The executor chosen initially, the one a
  successful switch request pins, and the one an expired pin falls back to are each the id of a
  row of the table that the owner may see, that is active, of a type the deployment allows, with
  its desired configuration applied, and whose runtime is active or degraded (or in-process).
\<close>

theorem active_executor_runs_work:
  fixes pkg table owner pol
  defines "runs \<equiv> \<lambda>eid. \<exists>r \<in> set table. executor_id r = eid \<and> row_runs_work pkg pol owner r"
  assumes pool: "pool = resolve_executor_pool pkg table execution owner pol"
  shows "(pick_initial_active pool = Some t \<longrightarrow> runs (t_executor_id t)) \<and>
    (perform_executor_switch cid pool eid task_id lifetime now db = (db', out) \<and> so_ok out \<longrightarrow> runs eid) \<and>
    (ensure_active_executor_pin cid2 task_id2 pool p execution2 ready n now2 db2 = Inr (db2', r) \<and>
       r_notice r \<noteq> None \<longrightarrow> (\<exists>e. r_active_executor_id r = Some e \<and> runs e))"
proof (intro conjI impI)
  have row: "runs (t_executor_id u)" if "u \<in> set (pool_all pool)" "usable u" for u
    using usable_target_row [of u pkg table execution owner pol] that by (simp add: runs_def pool)
  have primaries: "u \<in> set (pool_all pool) \<and> usable u" if "u \<in> set (usable_primaries pool)" for u
    using that by (auto simp: usable_primaries_def pool_all_def)
  show "runs (t_executor_id t)" if "pick_initial_active pool = Some t"
    using pick_initial_active_primary [OF that] primaries row by blast
  show "runs eid" if "perform_executor_switch cid pool eid task_id lifetime now db = (db', out) \<and> so_ok out"
    using switched_target that row by blast
  show "\<exists>e. r_active_executor_id r = Some e \<and> runs e"
    if "ensure_active_executor_pin cid2 task_id2 pool p execution2 ready n now2 db2 = Inr (db2', r) \<and> r_notice r \<noteq> None"
    using fallback_target that primaries row by metis
qed

theorem active_executor_runs_work_witness:
  "\<exists>t. pick_initial_active demo_pool = Some t \<and>
     (\<exists>r \<in> set [demo_executor]. executor_id r = t_executor_id t \<and>
        row_runs_work False \<lparr>allow_in_process = True, allow_subprocess = True\<rparr> ''ann@example.com'' r)"
proof -
  have "\<exists>t. pick_initial_active demo_pool = Some t"
    by (simp add: pick_initial_active_def usable_primaries_def demo_pool_def usable_def is_state_usable_def)
  then obtain t where t: "pick_initial_active demo_pool = Some t" by blast
  note active_executor_runs_work [OF demo_pool_resolved [symmetric], of t, THEN conjunct1, THEN mp, OF t]
  with t show ?thesis by (intro exI [of _ t] conjI)
qed

subsection \<open>Gates of a workflow\<close>

text \<open>What \<open>validate_gate_conditions\<close> reads of a workflow's step.\<close>

definition gate_step_of :: "step_definition \<Rightarrow> gate_step" where
  "gate_step_of st =
     \<lparr>gs_name = st_name st, gs_gate = map_option gc_conditions (st_gate st),
      gs_metadata_fields = map_option (map mf_name) (st_metadata_contract st)\<rparr>"

lemma declared_earlier:
  assumes "map_of (fold declare_step (map gate_step_of steps) []) sn = Some fs"
  shows "sn \<in> st_name ` set steps"
  using declared_step [OF assms] by (auto simp: gate_step_of_def)

text \<open>
  Gates look back only: in a workflow whose gates passed validation, whether a gate fires
  depends on the thresholds and on the recorded outputs of the steps before the gate, and on
  nothing else, provided its conditions name fields (\<open>outputs.plan.score\<close>) and not the whole
  outputs of a step (\<open>outputs.plan\<close>), which the validation does not look at. The value and the
  error are the same for any two states that agree on those steps.
\<close>

theorem gate_reads_earlier_steps:
  assumes valid: "validate_gate_conditions parse (map gate_step_of (wf_steps w)) = Inr ()"
    and i: "i < length (wf_steps w)" and gate: "st_gate (wf_steps w ! i) = Some g"
    and fields: "list_all (names_fields parse) (gc_conditions g)"
    and agree: "\<And>s. s \<in> set (take i (wf_steps w)) \<Longrightarrow> map_of outs (st_name s) = map_of outs' (st_name s)"
  shows "evaluate_gate_conditions parse (gc_conditions g) outs thr =
         evaluate_gate_conditions parse (gc_conditions g) outs' thr"
proof (rule validated_gate_reads_earlier [OF _ fields])
  let ?steps = "map gate_step_of (wf_steps w)"
  have "gs_gate (?steps ! i) = Some (gc_conditions g)"
    using i gate by (simp add: gate_step_of_def)
  with valid i show "check_conditions parse (gs_name (?steps ! i)) (fold declare_step (take i ?steps) [])
      (gc_conditions g) = Inr ()"
    by (intro check_steps_ok) (simp_all add: validate_gate_conditions_def)
  show "map_of outs sn = map_of outs' sn"
    if "map_of (fold declare_step (take i ?steps) []) sn = Some fs" for sn fs
    using declared_earlier [of "take i (wf_steps w)"] that agree by (auto simp: take_map)
qed

definition demo_gate :: gate_config where
  "demo_gate = \<lparr>gc_message = ''check'', gc_input = [], gc_options = [],
     gc_conditions = [''outputs.review.score >= thresholds.min''], gc_thresholds = [],
     gc_timeout_seconds = 3600, gc_timeout_action = Timeout_Fail\<rparr>"

definition demo_gate_step :: step_definition where
  "demo_gate_step = (demo_step ''gate'')\<lparr>st_type := Gate, st_gate := Some demo_gate\<rparr>"

definition gated_workflow :: workflow where
  "gated_workflow = \<lparr>wf_id = ''w'', wf_name = ''w'', wf_description = [], wf_version = 1, wf_criteria = [],
     wf_tags = [], wf_interaction_mode = ''explicit_gates'',
     wf_defaults = \<lparr>wd_max_attempts = 3, wd_evaluate = True, wd_on_exhausted = On_Gate,
       wd_delivery = default_delivery, wd_session_policy = empty_policy\<rparr>,
     wf_steps = [demo_step ''review'', demo_gate_step, demo_step ''later''], wf_presentation = None,
     wf_is_system = False, wf_owner_email = None, wf_lifecycle = ''persistent'', wf_archived_at = None,
     wf_lineage = None, wf_allow_user_override = False, wf_allow_user_disable = False,
     wf_editable_fields = [], wf_has_overrides = False, wf_disabled = False, wf_override_warnings = []\<rparr>"

lemma demo_gate_valid:
  "validate_gate_conditions demo_parse (map gate_step_of (wf_steps gated_workflow)) = Inr ()"
proof -
  have "references demo_tree = [(''outputs'', ''review'', ''score'')]"
    by (simp add: references_def attribute_nodes_def demo_tree_def Let_def)
  then show ?thesis
    using demo_tree_ok by (simp add: validate_gate_conditions_def gated_workflow_def demo_gate_step_def
        gate_step_of_def declare_step_def demo_gate_def demo_step_def)
qed

theorem gate_reads_earlier_steps_witness:
  "evaluate_gate_conditions demo_parse (gc_conditions demo_gate)
     (demo_outputs @ [(''later'', VDict [(''outputs'', VDict [(''score'', VInt 9)])])]) None =
   evaluate_gate_conditions demo_parse (gc_conditions demo_gate) demo_outputs None"
proof (rule gate_reads_earlier_steps [OF demo_gate_valid, of 1])
  show "1 < length (wf_steps gated_workflow)" "st_gate (wf_steps gated_workflow ! 1) = Some demo_gate"
    by (simp_all add: gated_workflow_def demo_gate_step_def)
  show "list_all (names_fields demo_parse) (gc_conditions demo_gate)"
    by (simp add: demo_gate_def names_fields_def demo_parse_def demo_tree_def whole_step_def)
  show "map_of (demo_outputs @ [(''later'', VDict [(''outputs'', VDict [(''score'', VInt 9)])])]) (st_name s) =
      map_of demo_outputs (st_name s)" if "s \<in> set (take 1 (wf_steps gated_workflow))" for s
    using that by (simp add: gated_workflow_def demo_outputs_def demo_step_def)
qed

end
